(* ===== verification/Prelude.thy ===== *)
theory Prelude
  imports Main "HOL-Library.Word" "HOL-Library.Char_ord" "HOL-Library.Sublist"
begin

unbundle bit_operations_syntax

text \<open>
  The vocabulary the component theories share: bytes, Python exceptions as values, text as
  lists of code points, and the handful of Python list and string primitives the sources use
  (\<open>bytes.find\<close>, \<open>str.split(sep)\<close>, \<open>str.split()\<close>, \<open>str.strip()\<close>, \<open>str.replace\<close>,
  \<open>int.to_bytes\<close>, \<open>int.from_bytes\<close>), with the lemmas about them that more than one component
  needs.  \<open>string\<close> (a list of \<open>char\<close>) is used for text whose characters the code inspects
  only as ASCII (paths, command words, package names, environment values); \<open>ustr\<close> is used
  where the code decodes or encodes UTF-8.
\<close>

section \<open>Bytes, text and exceptions\<close>

type_synonym byte = "8 word"
type_synonym bytes = "byte list"
type_synonym ustr = "nat list"

text \<open>The exception classes that the modelled code raises or catches.\<close>

datatype exn =
    ValueError string
  | IndexError
  | KeyError
  | AttributeError
  | TypeError
  | StructError
  | OverflowError
  | ConnectionError
  | OSError string
  | RuntimeError string
  | ElfError string
  | IsADirectoryError
  | FileNotFoundError
  | PermissionError

abbreviation Err :: "exn \<Rightarrow> exn + 'a" where "Err \<equiv> Inl"
abbreviation Ok :: "'a \<Rightarrow> exn + 'a" where "Ok \<equiv> Inr"

named_theorems py_simps \<open>characteristic equations of the Python primitives\<close>

text \<open>Literals: ASCII text as bytes and as code points.\<close>

definition b :: "string \<Rightarrow> bytes" where
  "b s = map of_char s"

definition u :: "string \<Rightarrow> ustr" where
  "u s = map of_char s"

lemma b_Nil [simp]: "b [] = []" and b_Cons [simp]: "b (c # cs) = of_char c # b cs"
  and b_append [simp]: "b (cs @ ds) = b cs @ b ds"
  by (simp_all add: b_def)

lemma u_Nil [simp]: "u [] = []" and u_Cons [simp]: "u (c # cs) = of_char c # u cs"
  and u_append [simp]: "u (cs @ ds) = u cs @ u ds"
  by (simp_all add: u_def)

lemma length_b [simp]: "length (b s) = length s"
  by (simp add: b_def)

lemma length_u [simp]: "length (u s) = length s"
  by (simp add: u_def)

lemma u_inject [simp]: "u s = u t \<longleftrightarrow> s = t"
proof
  assume "u s = u t"
  then have "map char_of (u s) = (map char_of (u t) :: string)" by simp
  then show "s = t" by (simp add: u_def comp_def)
qed simp

section \<open>Sequences: find, split, replace\<close>

text \<open>\<open>xs.find(pat)\<close>: the least index at which \<open>pat\<close> occurs, if any.\<close>

fun find_sub :: "'a list \<Rightarrow> 'a list \<Rightarrow> nat option" where
  "find_sub pat [] = (if pat = [] then Some 0 else None)"
| "find_sub pat (x # xs) =
     (if prefix pat (x # xs) then Some 0 else map_option Suc (find_sub pat xs))"

definition occurs :: "'a list \<Rightarrow> 'a list \<Rightarrow> bool" where
  "occurs pat xs \<longleftrightarrow> find_sub pat xs \<noteq> None"

lemma find_sub_Some_split:
  "find_sub pat xs = Some i \<Longrightarrow>
     i + length pat \<le> length xs \<and> take (length pat) (drop i xs) = pat"
proof (induction xs arbitrary: i)
  case Nil
  then show ?case by (simp split: if_splits)
next
  case (Cons x xs)
  show ?case
  proof (cases "prefix pat (x # xs)")
    case True
    with Cons.prems have "i = 0" by simp
    with True show ?thesis
      by (metis add_0 drop0 prefix_length_le append_eq_conv_conj prefix_def)
  next
    case False
    with Cons.prems obtain j where j: "find_sub pat xs = Some j" "i = Suc j" by auto
    from Cons.IH [OF j(1)] j(2) show ?thesis by simp
  qed
qed

lemma find_sub_None_iff: "find_sub pat xs = None \<longleftrightarrow> \<not> sublist pat xs"
  by (induction xs) (auto simp: sublist_Cons_right)

lemma find_sub_eq_Some_iff:
  "find_sub pat xs = Some i \<longleftrightarrow>
     i \<le> length xs \<and> prefix pat (drop i xs) \<and> (\<forall>j<i. \<not> prefix pat (drop j xs))"
proof (induction xs arbitrary: i)
  case Nil
  then show ?case by (auto simp: prefix_def)
next
  case (Cons x xs)
  show ?case
  proof (cases "prefix pat (x # xs)")
    case True
    then show ?thesis by (auto simp: gr0_conv_Suc)
  next
    case False
    have "find_sub pat (x # xs) = Some i \<longleftrightarrow> (\<exists>k. i = Suc k \<and> find_sub pat xs = Some k)"
      using False by auto
    also have "\<dots> \<longleftrightarrow> i \<le> length (x # xs) \<and> prefix pat (drop i (x # xs)) \<and>
        (\<forall>j<i. \<not> prefix pat (drop j (x # xs)))"
      using False by (cases i) (auto simp: Cons.IH less_Suc_eq_0_disj)
    finally show ?thesis .
  qed
qed

lemma occurs_iff_sublist: "occurs pat xs \<longleftrightarrow> sublist pat xs"
  by (simp add: occurs_def find_sub_None_iff)

end
