(* ===== verification/PyText.thy ===== *)
theory PyText
  imports Prelude
begin

text \<open>
  The text and byte primitives of Python's standard library that the components call:
  big-endian integers (\<open>int.to_bytes\<close>, \<open>int.from_bytes\<close>), whitespace splitting and
  stripping, splitting on a separator, the CRLF rewriting of the terminal output path, and
  the UTF-8 codec with its three error modes (strict, ignore, replace).  They are models of
  the library, not of code under src/, and are kept here because four components use them.
\<close>

section \<open>Integers as bytes\<close>

fun be_bytes :: "nat \<Rightarrow> nat \<Rightarrow> bytes" where
  "be_bytes 0 v = []"
| "be_bytes (Suc n) v = be_bytes n (v div 256) @ [of_nat v]"

definition to_bytes_big :: "nat \<Rightarrow> nat \<Rightarrow> exn + bytes" where
  "to_bytes_big v n = (if v < 256 ^ n then Ok (be_bytes n v) else Err OverflowError)"

definition from_big :: "bytes \<Rightarrow> nat" where
  "from_big bs = foldl (\<lambda>a x. a * 256 + unat x) 0 bs"

lemma length_be_bytes [simp]: "length (be_bytes n v) = n"
  by (induction n arbitrary: v) auto

lemma from_big_Nil [simp]: "from_big [] = 0"
  by (simp add: from_big_def)

lemma from_big_snoc [simp]: "from_big (bs @ [x]) = from_big bs * 256 + unat x"
  by (simp add: from_big_def)

lemma from_big_be_bytes [simp]: "from_big (be_bytes n v) = v mod 256 ^ n"
proof (induction n arbitrary: v)
  case (Suc n)
  have "unat (of_nat v :: byte) = v mod 256"
    by (simp add: unat_of_nat)
  moreover have "(v div 256) mod 256 ^ n * 256 + v mod 256 = v mod (256 * 256 ^ n)"
    by (simp add: mod_mult2_eq)
  ultimately show ?case using Suc.IH by simp
qed simp

lemma unat_byte_less [simp]: "unat (x :: byte) < 256"
  using unsigned_less [of x, where 'a = nat] by simp

lemma from_big_less: "from_big bs < 256 ^ length bs"
proof (induction bs rule: rev_induct)
  case (snoc x xs)
  have "from_big (xs @ [x]) < (from_big xs + 1) * 256" by simp
  also have "\<dots> \<le> 256 ^ length xs * 256"
    using snoc by (intro mult_le_mono1) simp
  finally show ?case by simp
qed simp

section \<open>Whitespace, splitting and stripping\<close>

text \<open>The code points for which \<open>str.isspace\<close> holds.\<close>

definition py_space :: "nat \<Rightarrow> bool" where
  "py_space c \<longleftrightarrow> (9 \<le> c \<and> c \<le> 13) \<or> (28 \<le> c \<and> c \<le> 32) \<or> c = 133 \<or> c = 160 \<or> c = 5760 \<or>
     (8192 \<le> c \<and> c \<le> 8202) \<or> c = 8232 \<or> c = 8233 \<or> c = 8239 \<or> c = 8287 \<or> c = 12288"

definition char_space :: "char \<Rightarrow> bool" where
  "char_space c = py_space (of_char c)"

definition strip_by :: "('a \<Rightarrow> bool) \<Rightarrow> 'a list \<Rightarrow> 'a list" where
  "strip_by sp xs = rev (dropWhile sp (rev (dropWhile sp xs)))"

function words_by :: "('a \<Rightarrow> bool) \<Rightarrow> 'a list \<Rightarrow> 'a list list" where
  "words_by sp xs =
     (let ys = dropWhile sp xs
      in if ys = [] then [] else takeWhile (\<lambda>x. \<not> sp x) ys # words_by sp (dropWhile (\<lambda>x. \<not> sp x) ys))"
  by pat_completeness auto
termination
proof (relation "measure (\<lambda>(sp, xs). length xs)", simp)
  fix sp :: "'a \<Rightarrow> bool" and xs ys
  assume ys: "ys = dropWhile sp xs" and ne: "ys \<noteq> []"
  then have "\<not> sp (hd ys)" by (metis hd_dropWhile)
  then have "length (dropWhile (\<lambda>x. \<not> sp x) ys) < length ys"
    using ne by (cases ys) (auto intro: le_imp_less_Suc length_dropWhile_le)
  also have "\<dots> \<le> length xs" by (simp add: ys length_dropWhile_le)
  finally show "((sp, dropWhile (\<lambda>x. \<not> sp x) ys), sp, xs) \<in> measure (\<lambda>(sp, xs). length xs)" by simp
qed

declare words_by.simps [simp del]

lemma words_by_nonempty: "w \<in> set (words_by sp xs) \<Longrightarrow> w \<noteq> []"
proof (induction sp xs rule: words_by.induct)
  case (1 sp xs)
  let ?ys = "dropWhile sp xs"
  from "1.prems" have ne: "?ys \<noteq> []" by (subst (asm) words_by.simps) (auto simp: Let_def split: if_splits)
  then have "takeWhile (\<lambda>x. \<not> sp x) ?ys \<noteq> []"
    using hd_dropWhile [OF ne] by (simp add: takeWhile_eq_Nil_iff)
  moreover from "1.prems" ne
  have "w = takeWhile (\<lambda>x. \<not> sp x) ?ys \<or> w \<in> set (words_by sp (dropWhile (\<lambda>x. \<not> sp x) ?ys))"
    by (subst (asm) words_by.simps) (auto simp: Let_def split: if_splits)
  ultimately show ?case using "1.IH" [OF refl ne] by auto
qed

text \<open>\<open>xs.split(sep)\<close> for a one-element separator, and \<open>xs.split(pat, 1)\<close>.\<close>

fun split_on :: "'a \<Rightarrow> 'a list \<Rightarrow> 'a list list" where
  "split_on c [] = [[]]"
| "split_on c (x # xs) =
     (if x = c then [] # split_on c xs
      else (case split_on c xs of w # ws \<Rightarrow> (x # w) # ws | [] \<Rightarrow> [[x]]))"

definition split_once :: "'a list \<Rightarrow> 'a list \<Rightarrow> 'a list \<times> 'a list option" where
  "split_once pat xs =
     (case find_sub pat xs of None \<Rightarrow> (xs, None)
      | Some i \<Rightarrow> (take i xs, Some (drop (i + length pat) xs)))"

definition join_with :: "'a list \<Rightarrow> 'a list list \<Rightarrow> 'a list" where
  "join_with sep ws = (case ws of [] \<Rightarrow> [] | w # ws' \<Rightarrow> w @ concat (map (\<lambda>v. sep @ v) ws'))"

lemma split_on_ne [simp]: "split_on c xs \<noteq> []"
  by (induction xs) (auto split: list.splits)

lemma split_on_no_sep: "w \<in> set (split_on c xs) \<Longrightarrow> c \<notin> set w"
  by (induction xs arbitrary: w) (auto split: list.splits if_splits)

lemma split_on_simple: "c \<notin> set w \<Longrightarrow> split_on c w = [w]"
  by (induction w) auto

lemma split_on_append: "c \<notin> set w \<Longrightarrow> split_on c (w @ c # xs) = w # split_on c xs"
  by (induction w) auto

lemma join_with_Cons: "ws \<noteq> [] \<Longrightarrow> join_with sep (w # ws) = w @ sep @ join_with sep ws"
  by (cases ws) (auto simp: join_with_def)

lemma join_with_single [simp]: "join_with sep [w] = w" and join_with_Nil [simp]: "join_with sep [] = []"
  by (simp_all add: join_with_def)

lemma split_on_join:
  "ws \<noteq> [] \<Longrightarrow> (\<And>w. w \<in> set ws \<Longrightarrow> c \<notin> set w) \<Longrightarrow> split_on c (join_with [c] ws) = ws"
proof (induction ws)
  case (Cons w ws)
  then show ?case
    by (cases "ws = []") (auto simp: join_with_Cons split_on_append split_on_simple)
qed simp

lemma join_split_on: "join_with [c] (split_on c xs) = xs"
proof (induction xs)
  case (Cons x xs)
  obtain w ws where "split_on c xs = w # ws" by (cases "split_on c xs") auto
  with Cons show ?case by (auto simp: join_with_def)
qed simp

section \<open>Line endings\<close>

abbreviation (input) LF :: nat where "LF \<equiv> 10"
abbreviation (input) CR :: nat where "CR \<equiv> 13"

text \<open>\<open>t.replace("\r\n", "\n").replace("\n", "\r\n")\<close>, as the output paths apply it.\<close>

fun crlf_to_lf :: "ustr \<Rightarrow> ustr" where
  "crlf_to_lf [] = []"
| "crlf_to_lf [x] = [x]"
| "crlf_to_lf (x # y # zs) =
     (if x = CR \<and> y = LF then LF # crlf_to_lf zs else x # crlf_to_lf (y # zs))"

definition lf_to_crlf :: "ustr \<Rightarrow> ustr" where
  "lf_to_crlf t = concat (map (\<lambda>x. if x = LF then [CR, LF] else [x]) t)"

definition crlf :: "ustr \<Rightarrow> ustr" where
  "crlf t = lf_to_crlf (crlf_to_lf t)"

lemma lf_to_crlf_simps [simp]:
  "lf_to_crlf [] = []" "lf_to_crlf (x # t) = (if x = LF then [CR, LF] else [x]) @ lf_to_crlf t"
  "lf_to_crlf (s @ t) = lf_to_crlf s @ lf_to_crlf t"
  by (simp_all add: lf_to_crlf_def)

lemma crlf_to_lf_append_LF: "crlf_to_lf (s @ LF # t) = crlf_to_lf (s @ [LF]) @ crlf_to_lf t"
proof (induction s rule: crlf_to_lf.induct)
  case 1
  then show ?case by (cases t) auto
next
  case (2 x)
  show ?case by (cases t) auto
next
  case (3 x y zs)
  then show ?case by auto
qed

lemma crlf_append_LF: "crlf (s @ LF # t) = crlf (s @ [LF]) @ crlf t"
  by (simp add: crlf_def crlf_to_lf_append_LF [of s t])

lemma crlf_Nil [simp]: "crlf [] = []"
  by (simp add: crlf_def)

lemma filter_CR_lf_to_crlf: "filter (\<lambda>x. x \<noteq> CR) (lf_to_crlf t) = filter (\<lambda>x. x \<noteq> CR) t"
  by (induction t) auto

lemma filter_CR_crlf_to_lf: "filter (\<lambda>x. x \<noteq> CR) (crlf_to_lf t) = filter (\<lambda>x. x \<noteq> CR) t"
  by (induction t rule: crlf_to_lf.induct) auto

lemma filter_CR_crlf: "filter (\<lambda>x. x \<noteq> CR) (crlf t) = filter (\<lambda>x. x \<noteq> CR) t"
  by (simp add: crlf_def filter_CR_lf_to_crlf filter_CR_crlf_to_lf)

section \<open>UTF-8\<close>

text \<open>
  \<open>str.encode("utf-8", errors="replace")\<close>: a code point that is not a Unicode scalar value
  (a surrogate) is written as a question mark.
\<close>

definition scalar :: "nat \<Rightarrow> bool" where
  "scalar c \<longleftrightarrow> c < 0xD800 \<or> (0xE000 \<le> c \<and> c \<le> 0x10FFFF)"

definition utf8_enc1 :: "nat \<Rightarrow> bytes" where
  "utf8_enc1 c =
     (if \<not> scalar c then [63]
      else if c < 0x80 then [of_nat c]
      else if c < 0x800 then [of_nat (0xC0 + c div 64), of_nat (0x80 + c mod 64)]
      else if c < 0x10000 then
        [of_nat (0xE0 + c div 4096), of_nat (0x80 + c div 64 mod 64), of_nat (0x80 + c mod 64)]
      else [of_nat (0xF0 + c div 262144), of_nat (0x80 + c div 4096 mod 64),
            of_nat (0x80 + c div 64 mod 64), of_nat (0x80 + c mod 64)])"

definition utf8_encode :: "ustr \<Rightarrow> bytes" where
  "utf8_encode t = concat (map utf8_enc1 t)"

lemma utf8_encode_simps [simp]:
  "utf8_encode [] = []" "utf8_encode (c # t) = utf8_enc1 c @ utf8_encode t"
  "utf8_encode (s @ t) = utf8_encode s @ utf8_encode t"
  by (simp_all add: utf8_encode_def)

text \<open>
  Decoding reads one well-formed sequence, or reports one malformed maximal prefix
  (\<open>None\<close>), as CPython's decoder does: \<open>utf8_tail lo hi n acc\<close> still needs \<open>n + 1\<close>
  continuation bytes, the first of them in \<open>lo .. hi\<close>.
\<close>

fun utf8_tail :: "nat \<Rightarrow> nat \<Rightarrow> nat \<Rightarrow> nat \<Rightarrow> bytes \<Rightarrow> nat option \<times> bytes" where
  "utf8_tail lo hi n acc [] = (None, [])"
| "utf8_tail lo hi n acc (x # xs) =
     (if lo \<le> unat x \<and> unat x \<le> hi then
        (let acc' = acc * 64 + (unat x - 0x80)
         in case n of 0 \<Rightarrow> (Some acc', xs) | Suc m \<Rightarrow> utf8_tail 0x80 0xBF m acc' xs)
      else (None, x # xs))"

definition utf8_step :: "byte \<Rightarrow> bytes \<Rightarrow> nat option \<times> bytes" where
  "utf8_step x0 xs =
     (let x = unat x0
      in if x < 0x80 then (Some x, xs)
         else if 0xC2 \<le> x \<and> x \<le> 0xDF then utf8_tail 0x80 0xBF 0 (x - 0xC0) xs
         else if 0xE0 \<le> x \<and> x \<le> 0xEF then
           utf8_tail (if x = 0xE0 then 0xA0 else 0x80) (if x = 0xED then 0x9F else 0xBF) 1 (x - 0xE0) xs
         else if 0xF0 \<le> x \<and> x \<le> 0xF4 then
           utf8_tail (if x = 0xF0 then 0x90 else 0x80) (if x = 0xF4 then 0x8F else 0xBF) 2 (x - 0xF0) xs
         else (None, xs))"

lemma utf8_tail_length: "length (snd (utf8_tail lo hi n acc xs)) \<le> length xs"
  by (induction lo hi n acc xs rule: utf8_tail.induct)
    (auto simp: Let_def split: nat.split intro: le_SucI)

lemma utf8_step_length: "length (snd (utf8_step x xs)) \<le> length xs"
  by (simp add: utf8_step_def Let_def utf8_tail_length)

function utf8_items :: "bytes \<Rightarrow> nat option list" where
  "utf8_items [] = []"
| "utf8_items (x # xs) = (case utf8_step x xs of (r, rest) \<Rightarrow> r # utf8_items rest)"
  by pat_completeness auto
termination
proof (relation "measure length")
  fix x xs r rest
  assume "(r, rest) = utf8_step x xs"
  then have "length rest \<le> length xs"
    using utf8_step_length [of x xs] by (metis snd_conv)
  then show "(rest, x # xs) \<in> measure length" by simp
qed simp

definition utf8_replace :: "bytes \<Rightarrow> ustr" where
  "utf8_replace bs = map (\<lambda>r. case r of None \<Rightarrow> 0xFFFD | Some c \<Rightarrow> c) (utf8_items bs)"

definition utf8_ignore :: "bytes \<Rightarrow> ustr" where
  "utf8_ignore bs = List.map_filter id (utf8_items bs)"

definition utf8_strict :: "bytes \<Rightarrow> ustr option" where
  "utf8_strict bs = (if None \<in> set (utf8_items bs) then None else Some (utf8_ignore bs))"

text \<open>Encoding and decoding are inverse on text made of Unicode scalar values.\<close>

lemma unat_byte_of_nat [simp]: "unat (of_nat n :: byte) = n mod 256"
  by (simp add: unat_of_nat)

lemma utf8_step_2:
  "2 \<le> q \<Longrightarrow> q < 32 \<Longrightarrow> r < 64 \<Longrightarrow>
   utf8_step (of_nat (192 + q)) (of_nat (128 + r) # xs) = (Some (q * 64 + r), xs)"
  by (simp add: utf8_step_def Let_def del: of_nat_add)

lemma utf8_step_3:
  assumes "q < 16" "r < 64" "s < 64" "q = 0 \<longrightarrow> 32 \<le> r" "q = 13 \<longrightarrow> r < 32"
  shows "utf8_step (of_nat (224 + q)) (of_nat (128 + r) # of_nat (128 + s) # xs)
           = (Some ((q * 64 + r) * 64 + s), xs)"
  using assms by (simp add: utf8_step_def Let_def del: of_nat_add) auto

lemma utf8_step_4:
  assumes "q < 5" "p < 64" "r < 64" "s < 64" "q = 0 \<longrightarrow> 16 \<le> p" "q = 4 \<longrightarrow> p < 16"
  shows "utf8_step (of_nat (240 + q)) (of_nat (128 + p) # of_nat (128 + r) # of_nat (128 + s) # xs)
           = (Some (((q * 64 + p) * 64 + r) * 64 + s), xs)"
  using assms by (simp add: utf8_step_def Let_def numeral_2_eq_2 del: of_nat_add) auto

lemma split64: "(c div 64) * 64 + c mod 64 = (c :: nat)"
  by simp

lemma split4096: "(c div 4096) * 64 + c div 64 mod 64 = (c div 64 :: nat)"
  and split262144: "(c div 262144) * 64 + c div 4096 mod 64 = (c div 4096 :: nat)"
  using split64 [of "c div 64"] split64 [of "c div 4096"] by (simp_all add: div_mult2_eq [symmetric])

lemma utf8_step_enc1:
  assumes "scalar c"
  shows "\<exists>x ys. utf8_enc1 c = x # ys \<and> utf8_step x (ys @ xs) = (Some c, xs)"
proof -
  have "c < 0x80 \<or> 0x80 \<le> c \<and> c < 0x800 \<or> 0x800 \<le> c \<and> c < 0x10000 \<or> 0x10000 \<le> c \<and> c \<le> 0x10FFFF"
    using assms by (auto simp: scalar_def)
  then consider "c < 0x80" | "0x80 \<le> c" "c < 0x800" | "0x800 \<le> c" "c < 0x10000" | "0x10000 \<le> c" "c \<le> 0x10FFFF"
    by blast
  then show ?thesis
  proof cases
    case 1
    then show ?thesis using assms by (simp add: utf8_enc1_def utf8_step_def)
  next
    case 2
    have "utf8_step (of_nat (192 + c div 64)) (of_nat (128 + c mod 64) # xs)
        = (Some (c div 64 * 64 + c mod 64), xs)"
      using 2 by (intro utf8_step_2) (simp_all add: less_mult_imp_div_less)
    then show ?thesis using 2 assms by (simp add: utf8_enc1_def split64 del: of_nat_add)
  next
    case 3
    have "utf8_step (of_nat (224 + c div 4096)) (of_nat (128 + c div 64 mod 64) # of_nat (128 + c mod 64) # xs)
        = (Some ((c div 4096 * 64 + c div 64 mod 64) * 64 + c mod 64), xs)"
    proof (rule utf8_step_3)
      show "c div 4096 < 16" using 3 by (simp add: less_mult_imp_div_less)
      show "c div 4096 = 0 \<longrightarrow> 32 \<le> c div 64 mod 64" using 3 split4096 [of c] by linarith
      have "c < 0xD800 \<or> 0xE000 \<le> c" using assms by (auto simp: scalar_def)
      then show "c div 4096 = 13 \<longrightarrow> c div 64 mod 64 < 32" using split4096 [of c] by linarith
    qed simp_all
    then show ?thesis using 3 assms by (simp add: utf8_enc1_def split64 split4096 del: of_nat_add)
  next
    case 4
    have "utf8_step (of_nat (240 + c div 262144))
          (of_nat (128 + c div 4096 mod 64) # of_nat (128 + c div 64 mod 64) # of_nat (128 + c mod 64) # xs)
        = (Some (((c div 262144 * 64 + c div 4096 mod 64) * 64 + c div 64 mod 64) * 64 + c mod 64), xs)"
    proof (rule utf8_step_4)
      show "c div 262144 < 5" using 4 by (simp add: less_mult_imp_div_less)
      show "c div 262144 = 0 \<longrightarrow> 16 \<le> c div 4096 mod 64" using 4 split262144 [of c] by linarith
      show "c div 262144 = 4 \<longrightarrow> c div 4096 mod 64 < 16" using 4 split262144 [of c] by linarith
    qed simp_all
    then show ?thesis using 4 assms
      by (simp add: utf8_enc1_def split64 split4096 split262144 del: of_nat_add)
  qed
qed

lemma utf8_items_enc1: "scalar c \<Longrightarrow> utf8_items (utf8_enc1 c @ xs) = Some c # utf8_items xs"
  using utf8_step_enc1 [of c xs] by auto

lemma utf8_items_encode:
  "(\<And>c. c \<in> set t \<Longrightarrow> scalar c) \<Longrightarrow> utf8_items (utf8_encode t @ xs) = map Some t @ utf8_items xs"
  by (induction t) (auto simp: utf8_items_enc1)

lemma utf8_replace_encode:
  "(\<And>c. c \<in> set t \<Longrightarrow> scalar c) \<Longrightarrow> utf8_replace (utf8_encode t) = t"
  using utf8_items_encode [of t "[]"] by (simp add: utf8_replace_def comp_def)

lemma utf8_strict_encode:
  "(\<And>c. c \<in> set t \<Longrightarrow> scalar c) \<Longrightarrow> utf8_strict (utf8_encode t) = Some t"
proof -
  assume "\<And>c. c \<in> set t \<Longrightarrow> scalar c"
  then have "utf8_items (utf8_encode t) = map Some t" using utf8_items_encode [of t "[]"] by simp
  moreover have "List.map_filter id (map Some t) = t" by (induction t) (simp_all add: map_filter_simps)
  ultimately show ?thesis by (auto simp: utf8_strict_def utf8_ignore_def)
qed

section \<open>Decimal numerals\<close>

text \<open>\<open>str(n)\<close> for an integer.\<close>

fun nat_str :: "nat \<Rightarrow> string" where
  "nat_str n = (if n < 10 then [char_of (48 + n)] else nat_str (n div 10) @ [char_of (48 + n mod 10)])"

declare nat_str.simps [simp del]

definition int_str :: "int \<Rightarrow> string" where
  "int_str i = (if i < 0 then ''-'' @ nat_str (nat (- i)) else nat_str (nat i))"

definition digits_value :: "string \<Rightarrow> nat" where
  "digits_value s = foldl (\<lambda>a c. a * 10 + (of_char c - 48)) 0 s"

lemma of_char_digit [simp]: "k < 10 \<Longrightarrow> (of_char (char_of (48 + k) :: char) :: nat) = 48 + k"
  by simp

lemma nat_str_value [simp]: "digits_value (nat_str n) = n"
proof (induction n rule: nat_str.induct)
  case (1 n)
  show ?case
  proof (cases "n < 10")
    case True
    then show ?thesis by (simp add: nat_str.simps [of n] digits_value_def)
  next
    case False
    with 1 have "digits_value (nat_str (n div 10)) = n div 10" by blast
    with False show ?thesis by (simp add: nat_str.simps [of n] digits_value_def)
  qed
qed

lemma nat_str_inject [simp]: "nat_str m = nat_str n \<longleftrightarrow> m = n"
  by (metis nat_str_value)

lemma nat_str_ne [simp]: "nat_str n \<noteq> []"
  by (subst nat_str.simps) simp

end
