(* ===== verification/PtyFilter.thy ===== *)
theory PtyFilter
  imports PyText
begin

text \<open>
  The private control sequence of \<open>zmux/pty_session.py\<close>: \<open>_possible_control_prefix\<close> and
  \<open>_filter_pty_controls\<close>, which remove \<open>ESC ] 777 ; zmux-setup-storage BEL\<close> from the byte
  stream of a terminal although a \<open>read()\<close> may split it anywhere.  The reference is a matcher
  that reads the stream byte by byte; the code's search over buffered chunks implements it.
\<close>

section \<open>The code\<close>

definition OSC :: bytes where
  "OSC = [27] @ b '']777;zmux-setup-storage'' @ [7]"

text \<open>Length of the longest proper suffix of \<open>data\<close> that may start the control sequence.\<close>

definition possible_control_prefix :: "bytes \<Rightarrow> nat" where
  "possible_control_prefix data =
     (let limit = min (length data) (length OSC - 1)
      in case find (\<lambda>sz. drop (length data - sz) data = take sz OSC) (rev [1..<limit + 1]) of
           Some sz \<Rightarrow> sz | None \<Rightarrow> 0)"

function filter_loop :: "bytes \<Rightarrow> bytes \<Rightarrow> nat \<Rightarrow> bytes \<times> nat \<times> bytes" where
  "filter_loop pending out controls =
     (if pending = [] then (out, controls, [])
      else case find_sub OSC pending of
             Some at \<Rightarrow> filter_loop (drop (at + length OSC) pending) (out @ take at pending) (controls + 1)
           | None \<Rightarrow>
               let keep = possible_control_prefix pending
               in if keep \<noteq> 0 then (out @ take (length pending - keep) pending, controls,
                                    drop (length pending - keep) pending)
                  else (out @ pending, controls, []))"
  by pat_completeness auto
termination by (relation "measure (\<lambda>(pending, _). length pending)") (auto simp: OSC_def)

declare filter_loop.simps [simp del]

text \<open>\<open>_filter_pty_controls\<close>: the kept tail and the new data to (output, controls, new tail).\<close>

definition filter_pty_controls :: "bytes \<Rightarrow> bytes \<Rightarrow> bytes \<times> nat \<times> bytes" where
  "filter_pty_controls tail data = filter_loop (tail @ data) [] 0"

section \<open>The reference matcher\<close>

definition osc_step :: "bytes \<times> nat \<times> nat \<Rightarrow> byte \<Rightarrow> bytes \<times> nat \<times> nat" where
  "osc_step = (\<lambda>(out, k, n) x.
     if x = OSC ! k then (if k = 24 then (out, 0, n + 1) else (out, k + 1, n))
     else if x = 27 then (out @ take k OSC, 1, n)
     else (out @ take k OSC @ [x], 0, n))"

definition osc_run :: "nat \<Rightarrow> bytes \<Rightarrow> bytes \<times> nat \<times> nat" where
  "osc_run k data = foldl osc_step ([], k, 0) data"

section \<open>The control sequence has no border\<close>

lemma length_OSC [simp]: "length OSC = 25"
  by (simp add: OSC_def)

lemma OSC_0 [simp]: "OSC ! 0 = 27"
  by (simp add: OSC_def)

lemma OSC_esc_only_first: "i < 25 \<Longrightarrow> OSC ! i = 27 \<Longrightarrow> i = 0"
proof (cases i)
  case (Suc j)
  assume "i < 25" "OSC ! i = 27"
  moreover have "27 \<notin> set (tl OSC)" by (simp add: OSC_def)
  moreover have "j < 24 \<Longrightarrow> tl OSC ! j \<in> set (tl OSC)" by (intro nth_mem) simp
  ultimately show ?thesis using Suc by (simp add: nth_tl)
qed simp

definition is_keep :: "nat \<Rightarrow> bytes \<Rightarrow> bool" where
  "is_keep k p \<longleftrightarrow> k < 25 \<and> suffix (take k OSC) p \<and> (\<forall>j<25. suffix (take j OSC) p \<longrightarrow> j \<le> k)"

lemma is_keep_unique: "is_keep k p \<Longrightarrow> is_keep k' p \<Longrightarrow> k = k'"
  by (meson is_keep_def le_antisym)

lemma drop_eq_suffix:
  assumes "length xs \<le> length ys"
  shows "drop (length ys - length xs) ys = xs \<longleftrightarrow> suffix xs ys"
proof
  assume "drop (length ys - length xs) ys = xs"
  then show "suffix xs ys" by (metis suffix_drop)
next
  assume "suffix xs ys"
  then obtain zs where "ys = zs @ xs" by (auto simp: suffix_def)
  then show "drop (length ys - length xs) ys = xs" by simp
qed

lemma find_downwards:
  "(case find P (rev [1..<m + 1]) of Some k \<Rightarrow> k | None \<Rightarrow> 0) = (k :: nat) \<Longrightarrow>
     k \<le> m \<and> (k \<noteq> 0 \<longrightarrow> P k) \<and> (\<forall>j. k < j \<and> j \<le> m \<longrightarrow> \<not> P j)"
proof (induction m)
  case (Suc m)
  have r: "rev [1..<Suc m + 1] = Suc m # rev [1..<m + 1]" by simp
  show ?case
  proof (cases "P (Suc m)")
    case True
    with Suc.prems r show ?thesis by auto
  next
    case False
    with Suc.prems r have "(case find P (rev [1..<m + 1]) of Some k \<Rightarrow> k | None \<Rightarrow> 0) = k" by simp
    from Suc.IH [OF this] False show ?thesis by (metis le_SucE le_SucI)
  qed
qed simp

lemma possible_control_prefix_keep: "is_keep (possible_control_prefix data) data"
proof -
  let ?m = "min (length data) 24" and ?k = "possible_control_prefix data"
  let ?P = "\<lambda>sz. drop (length data - sz) data = take sz OSC"
  have sfx: "?P j \<longleftrightarrow> suffix (take j OSC) data" if "j \<le> ?m" for j
    using that drop_eq_suffix [of "take j OSC" data] by simp
  have big: "j \<le> ?m" if "j < 25" "suffix (take j OSC) data" for j
    using that suffix_length_le [OF that(2)] by simp
  have "(case find ?P (rev [1..<?m + 1]) of Some k \<Rightarrow> k | None \<Rightarrow> 0) = ?k"
    by (simp add: possible_control_prefix_def)
  from find_downwards [OF this]
  have k: "?k \<le> ?m" "?k \<noteq> 0 \<longrightarrow> ?P ?k" "\<forall>j. ?k < j \<and> j \<le> ?m \<longrightarrow> \<not> ?P j" by blast+
  have "suffix (take ?k OSC) data" using k(1,2) sfx [of ?k] by (cases "?k = 0") auto
  moreover have "j \<le> ?k" if "j < 25" "suffix (take j OSC) data" for j
    using k(3) sfx [of j] big [OF that] that(2) by (meson not_le)
  ultimately show ?thesis using k(1) by (simp add: is_keep_def)
qed

section \<open>The code implements the matcher\<close>

text \<open>While no complete control sequence is in the input, the matcher holds back exactly the kept tail.\<close>

lemma suffix_snoc: "suffix (ys @ [y]) (xs @ [x]) \<longleftrightarrow> y = x \<and> suffix ys xs"
  by simp

lemma is_keep_snoc:
  assumes k: "is_keep k p"
  shows "k < 24 \<Longrightarrow> x = OSC ! k \<Longrightarrow> is_keep (k + 1) (p @ [x])"
    and "x \<noteq> OSC ! k \<Longrightarrow> is_keep (if x = 27 then 1 else 0) (p @ [x])"
proof -
  have sn: "suffix (take (Suc j) OSC) (p @ [x]) \<longleftrightarrow> OSC ! j = x \<and> suffix (take j OSC) p" if "j < 24" for j
    using that by (simp add: take_Suc_conv_app_nth)
  have up: "j \<le> k" if "j < 24" "suffix (take (Suc j) OSC) (p @ [x])" for j
    using that sn [OF that(1)] k by (simp add: is_keep_def)
  show "is_keep (k + 1) (p @ [x])" if "k < 24" "x = OSC ! k"
    unfolding is_keep_def
  proof (intro conjI allI impI)
    show "suffix (take (k + 1) OSC) (p @ [x])" using sn [OF that(1)] that(2) k by (simp add: is_keep_def)
    show "j \<le> k + 1" if "j < 25" "suffix (take j OSC) (p @ [x])" for j
      using up [of "j - 1"] that by (cases j) auto
  qed (use that in simp)
  show "is_keep (if x = 27 then 1 else 0) (p @ [x])" if ne: "x \<noteq> OSC ! k"
  proof -
    have no: "j = 0 \<and> x = 27" if j: "j < 24" "suffix (take (Suc j) OSC) (p @ [x])" for j
    proof -
      from j sn have x: "OSC ! j = x" and sj: "suffix (take j OSC) p" by auto
      have "j < k" using up [OF j] ne x by (cases "j = k") auto
      have "j = 0"
      proof (rule ccontr)
        assume "j \<noteq> 0"
        have "suffix (take j OSC) (take k OSC)"
          using sj k \<open>j < k\<close> by (auto simp: is_keep_def intro: suffix_length_suffix)
        then have "take j OSC = drop (k - j) (take k OSC)"
          using drop_eq_suffix [of "take j OSC" "take k OSC"] \<open>j < k\<close> k by (simp add: is_keep_def)
        then have "take j OSC ! 0 = drop (k - j) (take k OSC) ! 0" by simp
        with \<open>j < k\<close> \<open>j \<noteq> 0\<close> k have "OSC ! (k - j) = 27" by (simp add: is_keep_def)
        moreover have "k - j < 25" using k by (auto simp: is_keep_def)
        ultimately show False using OSC_esc_only_first [of "k - j"] \<open>j < k\<close> by simp
      qed
      with x show ?thesis by simp
    qed
    have one: "x = 27 \<Longrightarrow> suffix (take 1 OSC) (p @ [x])" using sn [of 0] by simp
    have "j \<le> (if x = 27 then 1 else 0)" if "j < 25" "suffix (take j OSC) (p @ [x])" for j
      using no [of "j - 1"] that by (cases j) auto
    with one show ?thesis by (simp add: is_keep_def)
  qed
qed

lemma osc_foldl_shift:
  "foldl osc_step (o1 @ o2, k, n) data =
     (case foldl osc_step (o2, k, 0) data of (o', k', n') \<Rightarrow> (o1 @ o', k', n + n'))"
proof (induction data arbitrary: o2 k n rule: rev_induct)
  case (snoc x xs)
  obtain o' k' n' where "foldl osc_step (o2, k, 0) xs = (o', k', n')" by (metis prod_cases3)
  with snoc.IH [of o2 k n] show ?case by (simp add: osc_step_def)
qed simp

lemma osc_run_clean:
  "\<not> sublist OSC p \<Longrightarrow>
     (\<exists>k. is_keep k p \<and> foldl osc_step ([], 0, 0) p = (take (length p - k) p, k, 0))"
proof (induction p rule: rev_induct)
  case Nil
  then show ?case by (intro exI [of _ 0]) (auto simp: is_keep_def)
next
  case (snoc x p)
  then have "\<not> sublist OSC p" by (meson sublist_appendI sublist_order.order_trans sublist_append_rightI)
  with snoc.IH obtain k where k: "is_keep k p"
    and f: "foldl osc_step ([], 0, 0) p = (take (length p - k) p, k, 0)" by blast
  have sfx: "suffix (take k OSC) p" and "k < 25" using k by (auto simp: is_keep_def)
  have lk: "length (take k OSC) = k" using \<open>k < 25\<close> by simp
  have kl: "k \<le> length p" using suffix_length_le [OF sfx] lk by argo
  have "drop (length p - k) p = take k OSC"
    using drop_eq_suffix [of "take k OSC" p, unfolded lk, OF kl] sfx by blast
  then have p: "take (length p - k) p @ take k OSC = p" by (metis append_take_drop_id)
  show ?case
  proof (cases "x = OSC ! k")
    case True
    have "k \<noteq> 24"
    proof
      assume "k = 24"
      then have "take k OSC @ [x] = OSC" using True take_Suc_conv_app_nth [of 24 OSC] by simp
      then have "suffix OSC (p @ [x])" using sfx by (metis suffix_snoc suffix_def append.assoc)
      then show False using snoc.prems by blast
    qed
    with \<open>k < 25\<close> have "k < 24" by simp
    with True is_keep_snoc(1) [OF k] f kl show ?thesis
      by (intro exI [of _ "k + 1"]) (simp add: osc_step_def)
  next
    case False
    have "foldl osc_step ([], 0, 0) (p @ [x]) =
        (if x = 27 then (p, 1, 0) else (p @ [x], 0, 0))"
      using False f p by (simp add: osc_step_def flip: append.assoc)
    with is_keep_snoc(2) [OF k False] show ?thesis
      by (intro exI [of _ "if x = 27 then 1 else 0"]) auto
  qed
qed

text \<open>Up to the first complete occurrence the matcher emits exactly the bytes before it.\<close>

lemma osc_run_first:
  assumes "find_sub OSC p = Some i"
  shows "foldl osc_step ([], 0, 0) (take (i + 25) p) = (take i p, 0, 1)"
proof -
  have i: "i + 25 \<le> length p" "take 25 (drop i p) = OSC"
    using find_sub_Some_split [OF assms] by simp_all
  have sp: "take (i + 25) p = take i p @ OSC" using i by (simp add: take_add)
  have osc: "OSC = take 24 OSC @ [OSC ! 24]" using take_Suc_conv_app_nth [of 24 OSC] by simp
  define q where "q = take i p @ take 24 OSC"
  have lq: "length q = i + 24" using i by (simp add: q_def)
  have "\<not> sublist OSC q"
  proof
    assume "sublist OSC q"
    then obtain xs ys where q: "q = xs @ OSC @ ys" by (auto simp: sublist_def)
    have "take (i + 25) p = q @ [OSC ! 24]" using sp osc q_def by simp
    then have "prefix OSC (drop (length xs) (take (i + 25) p))" using q by simp
    then have "prefix OSC (drop (length xs) p)"
      by (metis append_take_drop_id drop_take prefix_prefix take_is_prefix)
    moreover have "length xs < i" using q lq by simp
    ultimately show False using assms find_sub_eq_Some_iff by blast
  qed
  from osc_run_clean [OF this] obtain k where
    k: "is_keep k q" "foldl osc_step ([], 0, 0) q = (take (length q - k) q, k, 0)" by blast
  have "is_keep 24 q"
    by (auto simp: is_keep_def q_def intro: suffixI)
  with k(1) have "k = 24" by (rule is_keep_unique)
  with k(2) lq have "foldl osc_step ([], 0, 0) q = (take i q, 24, 0)" by simp
  moreover have "take i q = take i p" using i by (simp add: q_def)
  moreover have "take (i + 25) p = q @ [OSC ! 24]" using sp osc q_def by simp
  ultimately show ?thesis by (simp add: osc_step_def)
qed

lemma filter_loop_run:
  "filter_loop p out c = (out', n', t) \<Longrightarrow>
     \<exists>k. t = take k OSC \<and> k < 25 \<and> foldl osc_step (out, 0, c) p = (out', k, n')"
proof (induction p out c rule: filter_loop.induct)
  case (1 p out c)
  consider "p = []" | i where "p \<noteq> []" "find_sub OSC p = Some i" | "p \<noteq> []" "find_sub OSC p = None"
    by blast
  then show ?case
  proof cases
    case 1
    with "1.prems" show ?thesis by (auto simp: filter_loop.simps intro: exI [of _ 0])
  next
    case 2
    have "foldl osc_step (out, 0, c) (take (i + 25) p) = (out @ take i p, 0, c + 1)"
      using osc_foldl_shift [of out "[]" 0 c "take (i + 25) p"] osc_run_first [OF 2(2)] by simp
    moreover have "foldl osc_step (out, 0, c) p
        = foldl osc_step (foldl osc_step (out, 0, c) (take (i + 25) p)) (drop (i + 25) p)"
      by (simp flip: foldl_append)
    moreover have "filter_loop (drop (i + 25) p) (out @ take i p) (c + 1) = (out', n', t)"
      using "1.prems" 2 by (subst (asm) filter_loop.simps) simp
    ultimately show ?thesis using "1.IH"(1) [OF 2] by simp
  next
    case 3
    then obtain k where k: "is_keep k p"
      "foldl osc_step ([], 0, 0) p = (take (length p - k) p, k, 0)"
      using osc_run_clean [of p] by (auto simp: find_sub_None_iff)
    have kk: "possible_control_prefix p = k"
      using possible_control_prefix_keep k(1) by (rule is_keep_unique)
    have lk: "length (take k OSC) = k" "suffix (take k OSC) p" using k(1) by (auto simp: is_keep_def)
    then have kl: "length (take k OSC) \<le> length p" using suffix_length_le by blast
    have "drop (length p - k) p = take k OSC"
      using drop_eq_suffix [OF kl] lk by simp
    with "1.prems" 3 kk lk(1) have "out' = out @ take (length p - k) p" "n' = c" "t = take k OSC"
      by (auto simp: filter_loop.simps [of p] Let_def split: if_splits)
    moreover have "foldl osc_step (out, 0, c) p = (out @ take (length p - k) p, k, c)"
      using osc_foldl_shift [of out "[]" 0 c p] k(2) by simp
    ultimately show ?thesis using k(1) by (auto simp: is_keep_def)
  qed
qed

lemma osc_foldl_prefix: "k < 25 \<Longrightarrow> foldl osc_step ([], 0, 0) (take k OSC) = ([], k, 0)"
  by (induction k) (simp_all add: take_Suc_conv_app_nth osc_step_def)

section \<open>Properties of the filter\<close>

text \<open>
  C31: whatever part of the control sequence is already held back, filtering a chunk computes
  what the byte-by-byte matcher computes: the same output, the same number of requests, and
  the held tail is the matcher's state.
\<close>

theorem filter_implements_matcher:
  assumes "k < 25" and "filter_pty_controls (take k OSC) data = (out, n, t)"
  shows "\<exists>k'<25. t = take k' OSC \<and> osc_run k data = (out, k', n)"
proof -
  obtain k' where "t = take k' OSC" "k' < 25"
    and "foldl osc_step ([], 0, 0) (take k OSC @ data) = (out, k', n)"
    using filter_loop_run [of "take k OSC @ data" "[]" 0 out n t] assms(2)
    by (auto simp: filter_pty_controls_def)
  then show ?thesis using osc_foldl_prefix [OF assms(1)] by (auto simp: osc_run_def)
qed

lemma filter_implements_matcher_witness:
  "\<exists>k'<25. [27, 93] = take k' OSC \<and> osc_run 2 [120, 27, 93] = ([27, 93, 120], k', 0)"
  by (rule filter_implements_matcher [of 2]) code_simp+

fun filter_stream :: "bytes \<Rightarrow> bytes list \<Rightarrow> bytes \<times> nat \<times> bytes" where
  "filter_stream tail [] = ([], 0, tail)"
| "filter_stream tail (c # cs) =
     (case filter_pty_controls tail c of (out, n, tail') \<Rightarrow>
        case filter_stream tail' cs of (out', n', t) \<Rightarrow> (out @ out', n + n', t))"

lemma filter_stream_run:
  "k < 25 \<Longrightarrow> filter_stream (take k OSC) cs = (out, n, t) \<Longrightarrow>
     \<exists>k'<25. t = take k' OSC \<and> osc_run k (concat cs) = (out, k', n)"
proof (induction cs arbitrary: k out n)
  case Nil
  then show ?case by (auto simp: osc_run_def)
next
  case (Cons c cs)
  obtain o1 n1 t1 where c: "filter_pty_controls (take k OSC) c = (o1, n1, t1)" by (metis prod_cases3)
  then obtain k1 where k1: "k1 < 25" "t1 = take k1 OSC" "osc_run k c = (o1, k1, n1)"
    using filter_loop_run [of "take k OSC @ c" "[]" 0 o1 n1 t1] osc_foldl_prefix [OF Cons.prems(1)]
    by (auto simp: filter_pty_controls_def osc_run_def)
  obtain o2 n2 where r: "filter_stream (take k1 OSC) cs = (o2, n2, t)" "out = o1 @ o2" "n = n1 + n2"
    using Cons.prems(2) c k1(2) by (auto split: prod.splits)
  from Cons.IH [OF k1(1) r(1)] obtain k' where
    k': "k' < 25" "t = take k' OSC" "osc_run k1 (concat cs) = (o2, k', n2)" by blast
  have "osc_run k (concat (c # cs)) = foldl osc_step (o1, k1, n1) (concat cs)"
    using k1(3) by (simp add: osc_run_def)
  also have "\<dots> = (out, k', n)"
    using osc_foldl_shift [of o1 "[]" k1 n1 "concat cs"] k'(3) r by (simp add: osc_run_def)
  finally show ?case using k' by blast
qed

text \<open>
  C30: how the kernel splits the PTY output into reads is not observable: the outputs of the
  successive filter calls, the requests counted and the tail kept at the end are those of one
  call on the whole stream.
\<close>

theorem filter_chunking_irrelevant:
  "filter_stream [] chunks = filter_pty_controls [] (concat chunks)"
proof -
  obtain o1 n1 t1 where s: "filter_stream (take 0 OSC) chunks = (o1, n1, t1)" by (metis prod_cases3)
  obtain o2 n2 t2 where w: "filter_pty_controls [] (concat chunks) = (o2, n2, t2)" by (metis prod_cases3)
  from filter_stream_run [OF _ s] obtain k1 where
    "t1 = take k1 OSC" "osc_run 0 (concat chunks) = (o1, k1, n1)" by auto
  moreover from w obtain k2 where
    "t2 = take k2 OSC" "osc_run 0 (concat chunks) = (o2, k2, n2)"
    using filter_loop_run [of "concat chunks" "[]" 0 o2 n2 t2]
    by (auto simp: filter_pty_controls_def osc_run_def)
  ultimately show ?thesis using s w by simp
qed

lemma filter_loop_conserves:
  "filter_loop p out c = (out', n', t) \<Longrightarrow>
     length out' + 25 * n' + length t = length out + 25 * c + length p \<and> c \<le> n' \<and>
     (n' = c \<longrightarrow> out' @ t = out @ p)"
proof (induction p out c rule: filter_loop.induct)
  case (1 p out c)
  show ?case
  proof (cases "p = [] \<or> find_sub OSC p = None")
    case True
    have "possible_control_prefix p \<le> length p"
      using possible_control_prefix_keep [of p] suffix_length_le [of "take (possible_control_prefix p) OSC" p]
      by (auto simp: is_keep_def)
    with True "1.prems" show ?thesis
      by (auto simp: filter_loop.simps [of p] Let_def split: if_splits)
  next
    case False
    then obtain i where i: "p \<noteq> []" "find_sub OSC p = Some i" by blast
    have "i + 25 \<le> length p" using find_sub_Some_split [OF i(2)] by simp
    moreover have "filter_loop (drop (i + 25) p) (out @ take i p) (c + 1) = (out', n', t)"
      using "1.prems" i by (subst (asm) filter_loop.simps) simp
    ultimately show ?thesis using "1.IH"(1) [OF i] by fastforce
  qed
qed

text \<open>
  the filter drops nothing but complete control sequences, of 25 bytes each: every other
  byte is in the output or in the kept tail, in order when nothing was removed, and the tail
  kept back is shorter than one control sequence.
\<close>

theorem filter_conserves_bytes:
  assumes "filter_pty_controls tail data = (out, n, t)"
  shows "length out + 25 * n + length t = length tail + length data \<and>
    (n = 0 \<longrightarrow> out @ t = tail @ data) \<and> length t < 25"
proof -
  have f: "filter_loop (tail @ data) [] 0 = (out, n, t)" using assms by (simp add: filter_pty_controls_def)
  from filter_loop_run [OF f] have "length t < 25" by auto
  with filter_loop_conserves [OF f] show ?thesis by auto
qed

lemma filter_conserves_bytes_witness:
  "length [97 :: byte, 98] + 25 * 1 + length [27 :: byte] = length [97 :: byte] + length (OSC @ [98, 27]) \<and>
    length [27 :: byte] < 25"
proof -
  have "filter_pty_controls [97] (OSC @ [98, 27]) = ([97, 98], 1, [27])" by code_simp
  from filter_conserves_bytes [OF this] show ?thesis by blast
qed

text \<open>
  one pass is not enough to keep the sequence from the screen: a control sequence wrapped
  in another is removed, and the two halves around it join to a complete control sequence
  in the output.
\<close>

theorem filter_nested_sequence_survives:
  "filter_pty_controls [] (take 10 OSC @ OSC @ drop 10 OSC) = (OSC, 1, [])"
  by code_simp

end
