(* ===== verification/PtySession.thy ===== *)
theory PtySession
  imports PtyFilter
begin

text \<open>
  \<open>PTYTerminalSession\<close> of \<open>zmux/pty_session.py\<close>: output (private-control filter, scrollback,
  cursor-at-line-start flag), the line discipline of the host console, history, the setup gate,
  the real-PTY mode, Ctrl+C, and the worker that executes queued lines.  Text is a list of
  code points, \<open>data.decode("utf-8", errors="replace")\<close> on input and UTF-8 on output.

  The session keeps a log of its effects on the outside: every chunk handed to
  \<open>_emit_output\<close>, every call on a \<open>RealPtyProcess\<close> (identified by the order in which they were
  spawned), interrupts, storage requests and crash records; \<open>PtyGone\<close> records that the session was told that
  its current PTY ended.  What the session asks of \<open>zmux.linuxenv\<close>, of the
  Python compiler and of the command executor is the argument \<open>host\<close> and the outcome of a run.
\<close>

section \<open>State\<close>

datatype mode = Shell | Repl
datatype esc_state = NoEsc | Esc | Csi | Ss3

text \<open>What \<open>_exec_loop\<close> is doing: waiting for a line, about to clear the latch, running, ended.\<close>

datatype worker = Idle | Claimed ustr mode nat | Running ustr mode | Ended

datatype event =
    Out bytes
  | PtySpawn nat int int
  | PtyWrite nat bytes
  | PtyResize nat int int
  | PtyKill nat
  | PtyGone nat
  | ShellInterrupt
  | InjectInterrupt
  | StorageRequest
  | CrashRecord string ustr

record session =
  s_running :: bool
  s_line :: ustr
  s_pylines :: "ustr list"
  s_pty :: "nat option"
  s_next_pty :: nat
  s_rows :: int
  s_cols :: int
  s_width :: int
  s_at_start :: bool
  s_mode :: mode
  s_history :: "ustr list"
  s_hindex :: "nat option"
  s_stash :: ustr
  s_esc :: esc_state
  s_awaiting :: bool
  s_start_after :: bool
  s_tail :: bytes
  s_storage_pending :: bool
  s_cmdq :: "(ustr \<times> mode) option list"
  s_stdinq :: "ustr list"
  s_busy :: bool
  s_interrupt :: bool
  s_epoch :: nat
  s_procs :: bool
  s_cwd :: ustr
  s_scroll :: bytes
  s_worker :: worker
  s_log :: "event list"

text \<open>
  The answers of \<open>linuxenv\<close> and \<open>RealPtyProcess\<close> to one operation: is the rootfs installed, is
  there a proot binary, does building the argument vector or forking raise \<open>RuntimeError\<close>;
  the interpreter's version string; whether the setup gate is on (\<open>ZMUX_TEST\<close> unset).
\<close>

record host =
  h_installed :: bool
  h_proot :: bool
  h_argv_error :: "ustr option"
  h_fork_error :: "ustr option"
  h_version :: ustr
  h_gate :: bool

definition scrollback_max_size :: nat where
  "scrollback_max_size = 2 ^ 20"

definition HISTORY_LIMIT :: nat where
  "HISTORY_LIMIT = 500"

definition init_session :: session where
  "init_session = \<lparr>s_running = False, s_line = [], s_pylines = [], s_pty = None, s_next_pty = 0,
     s_rows = 24, s_cols = 80, s_width = 80, s_at_start = True, s_mode = Shell, s_history = [],
     s_hindex = None, s_stash = [], s_esc = NoEsc, s_awaiting = False, s_start_after = False,
     s_tail = [], s_storage_pending = False, s_cmdq = [], s_stdinq = [], s_busy = False,
     s_interrupt = False, s_epoch = 0, s_procs = False, s_cwd = u ''~'', s_scroll = [],
     s_worker = Idle, s_log = []\<rparr>"

definition log :: "event \<Rightarrow> session \<Rightarrow> session" where
  "log e s = s\<lparr>s_log := s_log s @ [e]\<rparr>"

section \<open>Output\<close>

definition request_storage_setup :: "session \<Rightarrow> session" where
  "request_storage_setup s =
     (if s_storage_pending s then s else log StorageRequest (s\<lparr>s_storage_pending := True\<rparr>))"

text \<open>The scrollback after appending \<open>data\<close>, and the line-start flag after emitting it.\<close>

definition keep_last :: "nat \<Rightarrow> 'a list \<Rightarrow> 'a list" where
  "keep_last n xs = (if length xs > n then drop (length xs - n) xs else xs)"

definition line_start :: "bytes \<Rightarrow> bool \<Rightarrow> bool" where
  "line_start data old =
     (if occurs [27, 91, 50, 74] data \<or> suffix [27, 91, 72] data then True
      else if suffix [10] data then True
      else if \<not> suffix [13] data then False
      else old)"

definition emit :: "bytes \<Rightarrow> session \<Rightarrow> session" where
  "emit data0 s =
     (case filter_pty_controls (s_tail s) data0 of (data, storage_requests, tail) \<Rightarrow>
        let s = (request_storage_setup ^^ storage_requests) (s\<lparr>s_tail := tail\<rparr>)
        in if data = [] then s
           else log (Out data)
             (s\<lparr>s_scroll := keep_last scrollback_max_size (s_scroll s @ data),
                s_at_start := line_start data (s_at_start s)\<rparr>))"

definition crlf_bytes :: bytes where "crlf_bytes = [13, 10]"

definition emit_text :: "ustr \<Rightarrow> session \<Rightarrow> session" where
  "emit_text t s = emit (utf8_encode t) s"

text \<open>The storage worker thread: a success is the formatted report, a failure the error text.\<close>

definition storage_worker :: "ustr + ustr \<Rightarrow> session \<Rightarrow> session" where
  "storage_worker outcome s =
     (let s = emit (crlf_bytes @ b ''[ZMUX] Requesting Android storage access...'' @ crlf_bytes) s;
          s = (case outcome of
                 Inr text \<Rightarrow> emit_text (lf_to_crlf (text @ [LF])) s
               | Inl err \<Rightarrow> emit_text ([CR, LF] @ u ''[ZMUX] Storage setup failed: '' @ err @ [CR, LF]) s)
      in s\<lparr>s_storage_pending := False\<rparr>)"

definition prompt :: "session \<Rightarrow> ustr" where
  "prompt s = (if s_mode s = Repl then u ''>>> '' else u ''zmux:'' @ s_cwd s @ u ''$ '')"

definition fresh_line :: "session \<Rightarrow> session" where
  "fresh_line s = (if s_at_start s then s else emit crlf_bytes s)"

definition emit_prompt :: "session \<Rightarrow> session" where
  "emit_prompt s = (let s = fresh_line s in emit_text (prompt s) s)"

definition emit_setup_prompt :: "session \<Rightarrow> session" where
  "emit_setup_prompt s = emit (b ''alpine-setup> '') (fresh_line s)"

section \<open>The real PTY\<close>

definition auto_start_alpine :: "host \<Rightarrow> bool" where
  "auto_start_alpine h \<longleftrightarrow> h_installed h \<and> h_proot h"

definition enter_linux_pty :: "host \<Rightarrow> session \<Rightarrow> session" where
  "enter_linux_pty h s =
     (if \<not> s_running s \<or> s_pty s \<noteq> None \<or> s_busy s then s
      else if \<not> h_installed h then
        emit_prompt (emit (b ''zmux: Alpine environment is not installed.'' @ crlf_bytes @
          b ''  Run `linux-setup` once (downloads ~4 MiB, SHA-512 verified),'' @ crlf_bytes @
          b ''  then `linux` opens the real Alpine shell.'' @ crlf_bytes) s)
      else case h_argv_error h of
        Some err \<Rightarrow> emit_prompt (emit_text (u ''zmux: '' @ err @ [CR, LF]) s)
      | None \<Rightarrow>
          let s = emit (crlf_bytes @ b ''[ZMUX Alpine Linux - real PTY]'' @ crlf_bytes) (s\<lparr>s_mode := Shell\<rparr>)
          in case h_fork_error h of
               Some err \<Rightarrow> emit_prompt (emit_text (u ''zmux: '' @ err @ [CR, LF]) s)
             | None \<Rightarrow>
                 let p = s_next_pty s
                 in log (PtySpawn p (s_rows s) (s_cols s)) (s\<lparr>s_pty := Some p, s_next_pty := p + 1\<rparr>))"

text \<open>\<open>_pty_exited\<close>: the exit code is an integer, or None when the child could not be reaped.\<close>

definition code_text :: "int option \<Rightarrow> ustr" where
  "code_text code = (case code of None \<Rightarrow> u ''None'' | Some c \<Rightarrow> u (int_str c))"

definition pty_exited :: "host \<Rightarrow> nat \<Rightarrow> int option \<Rightarrow> session \<Rightarrow> session" where
  "pty_exited h p code s =
     (if s_pty s \<noteq> Some p then s
      else let s = log (PtyGone p) (s\<lparr>s_pty := None\<rparr>);
               s = emit_text ([CR, LF] @ u ''[Alpine shell exited (code '' @ code_text code @ u '')]'' @ [CR, LF]) s
           in if s_running s \<and> auto_start_alpine h then enter_linux_pty h s else s)"

definition kill_pty :: "session \<Rightarrow> session" where
  "kill_pty s = (case s_pty s of None \<Rightarrow> s | Some p \<Rightarrow> log (PtyKill p) (s\<lparr>s_pty := None\<rparr>))"

definition leave_linux_pty :: "bool \<Rightarrow> session \<Rightarrow> session" where
  "leave_linux_pty detach s =
     emit_prompt (emit (if detach
        then crlf_bytes @ b ''[detached from Alpine shell - ZMUX host console]'' @ crlf_bytes
        else crlf_bytes @ b ''[Alpine shell stopped]'' @ crlf_bytes) (kill_pty s))"

definition toggle_pty :: "host \<Rightarrow> session \<Rightarrow> session" where
  "toggle_pty h s =
     (if \<not> s_running s then s
      else if s_pty s \<noteq> None then leave_linux_pty True s
      else enter_linux_pty h s)"

section \<open>History and submission\<close>

definition replace_line :: "ustr \<Rightarrow> session \<Rightarrow> session" where
  "replace_line text s = emit ([13, 27, 91, 75] @ utf8_encode text) (s\<lparr>s_line := text\<rparr>)"

definition history_move :: "int \<Rightarrow> session \<Rightarrow> session" where
  "history_move direction s =
     (let new_index = int (the (s_hindex s)) + direction
      in if new_index \<ge> int (length (s_history s))
         then replace_line (s_stash s) (s\<lparr>s_hindex := None\<rparr>)
         else let i = nat (max 0 new_index)
              in replace_line (s_history s ! i) (s\<lparr>s_hindex := Some i\<rparr>))"

definition history_step :: "int \<Rightarrow> session \<Rightarrow> session" where
  "history_step direction s =
     (if s_busy s \<or> s_history s = [] then s
      else if s_hindex s = None then
        (if direction > 0 then s
         else history_move direction (s\<lparr>s_stash := s_line s, s_hindex := Some (length (s_history s))\<rparr>))
      else history_move direction s)"

definition history_record :: "ustr \<Rightarrow> session \<Rightarrow> session" where
  "history_record line s =
     (let h = s_history s;
          h' = (if line \<noteq> [] \<and> (h = [] \<or> last h \<noteq> line) then keep_last HISTORY_LIMIT (h @ [line]) else h)
      in s\<lparr>s_history := h', s_hindex := None\<rparr>)"

definition strip :: "ustr \<Rightarrow> ustr" where
  "strip = strip_by py_space"

definition enqueue :: "ustr \<Rightarrow> mode \<Rightarrow> session \<Rightarrow> session" where
  "enqueue line m s = s\<lparr>s_cmdq := s_cmdq s @ [Some (line, m)]\<rparr>"

definition enter_repl :: "host \<Rightarrow> session \<Rightarrow> session" where
  "enter_repl h s =
     emit_prompt (emit_text (u ''Python '' @ h_version h @ u '' (embedded ZMUX runtime)'' @ [CR, LF] @
       u ''Type \"exit()\" or Ctrl+D to return to the shell'' @ [CR, LF]) (s\<lparr>s_mode := Repl\<rparr>))"

definition leave_repl :: "session \<Rightarrow> session" where
  "leave_repl s = emit_prompt (s\<lparr>s_mode := Shell, s_pylines := []\<rparr>)"

definition submit_line :: "host \<Rightarrow> ustr \<Rightarrow> session \<Rightarrow> session" where
  "submit_line h line s =
     (if s_busy s then s\<lparr>s_stdinq := s_stdinq s @ [line]\<rparr>
      else
        let stripped = strip line
        in if stripped = [] then
             (if s_pylines s \<noteq> [] then enqueue line (s_mode s) s else emit_prompt s)
           else
             let s = history_record stripped s
             in if s_awaiting s then
                  (if stripped = u ''linux-setup'' then enqueue line Shell s
                   else emit_setup_prompt (emit (b ''Only `linux-setup` is available until Alpine is ready.'' @ crlf_bytes) s))
                else if s_mode s = Shell \<and> stripped \<in> {u ''python'', u ''python3''} then enter_repl h s
                else if s_mode s = Shell \<and> \<not> s_busy s \<and> stripped \<in> {u ''linux'', u ''alpine''} then enter_linux_pty h s
                else if s_mode s = Repl \<and> stripped \<in> {u ''exit'', u ''quit'', u ''exit()'', u ''quit()''} then leave_repl s
                else enqueue line (s_mode s) s)"

section \<open>Input\<close>

text \<open>\<open>PythonShell.interrupt\<close> and \<open>clear_interrupt\<close> as the session sees them.\<close>

definition shell_interrupt :: "session \<Rightarrow> session" where
  "shell_interrupt s = log ShellInterrupt (s\<lparr>s_epoch := s_epoch s + 1, s_interrupt := True\<rparr>)"

definition clear_interrupt :: "nat option \<Rightarrow> session \<Rightarrow> session" where
  "clear_interrupt epoch s =
     (if epoch = None \<or> epoch = Some (s_epoch s) then s\<lparr>s_interrupt := False\<rparr> else s)"

definition interrupt_running :: "session \<Rightarrow> session" where
  "interrupt_running s =
     (let s = emit ([94, 67] @ crlf_bytes) (s\<lparr>s_line := [], s_pylines := []\<rparr>)
      in if s_busy s then
           let s = shell_interrupt s in if \<not> s_procs s then log InjectInterrupt s else s
         else emit_prompt s)"

definition handle_escape_char :: "nat \<Rightarrow> session \<Rightarrow> session" where
  "handle_escape_char c s =
     (if s_esc s = NoEsc \<and> c = 27 then s\<lparr>s_esc := Esc\<rparr>
      else if s_esc s = Esc then
        s\<lparr>s_esc := (if c = 91 then Csi else if c = 79 then Ss3 else NoEsc)\<rparr>
      else if s_esc s = Ss3 then
        (if c = 65 then history_step (-1) s else if c = 66 then history_step 1 s else s)\<lparr>s_esc := NoEsc\<rparr>
      else if 0x40 \<le> c \<and> c < 0x7F then
        (if c = 65 then history_step (-1) s else if c = 66 then history_step 1 s else s)\<lparr>s_esc := NoEsc\<rparr>
      else s)"

definition handle_char :: "host \<Rightarrow> nat \<Rightarrow> session \<Rightarrow> session" where
  "handle_char h c s =
     (if s_esc s \<noteq> NoEsc \<or> c = 27 then handle_escape_char c s
      else if c = 3 then interrupt_running s
      else if c = 4 then
        (if s_mode s = Repl \<and> s_line s = [] \<and> \<not> s_busy s then leave_repl s else s)
      else if c = 127 \<or> c = 8 then
        (if s_line s \<noteq> [] then emit [8, 32, 8] (s\<lparr>s_line := butlast (s_line s)\<rparr>) else s)
      else if c = CR \<or> c = LF then
        (let s = emit crlf_bytes s; s = submit_line h (s_line s) s in s\<lparr>s_line := []\<rparr>)
      else if c \<ge> 32 then emit_text [c] (s\<lparr>s_line := s_line s @ [c]\<rparr>)
      else s)"

definition write_input :: "host \<Rightarrow> bytes \<Rightarrow> session \<Rightarrow> session" where
  "write_input h data s =
     (if \<not> s_running s then s
      else case s_pty s of
        Some p \<Rightarrow> log (PtyWrite p data) s
      | None \<Rightarrow> fold (handle_char h) (utf8_replace data) s)"

section \<open>Lifecycle\<close>

text \<open>
  What one execution of a line leaves: the chunks it streamed to the sink, and either the
  text of an exception or the result dictionary, of which \<open>streamed\<close> names the parts already
  on the screen.
\<close>

record exec_result =
  r_stdout :: ustr
  r_stderr :: ustr
  r_out_streamed :: bool
  r_err_streamed :: bool

datatype outcome = Finished exec_result | Raised ustr | Interrupted

definition pending_text :: "exec_result \<Rightarrow> ustr" where
  "pending_text r = (if r_out_streamed r then [] else r_stdout r) @ (if r_err_streamed r then [] else r_stderr r)"

fun run_rc :: "(bytes list \<times> (ustr + exec_result)) list \<Rightarrow> session \<Rightarrow> session" where
  "run_rc [] s = s"
| "run_rc ((live, res) # rest) s =
     (let s = fold emit live s;
          s = (case res of
                 Inl err \<Rightarrow> emit_text (u ''.zmuxrc: '' @ err @ [CR, LF]) s
               | Inr r \<Rightarrow> if pending_text r \<noteq> [] then emit_text (lf_to_crlf (pending_text r)) s else s)
      in run_rc rest s)"

definition start :: "host \<Rightarrow> (bytes list \<times> (ustr + exec_result)) list \<Rightarrow> session \<Rightarrow> session" where
  "start h rc s =
     (if s_running s then s
      else
        let s = run_rc rc (s\<lparr>s_running := True, s_worker := Idle\<rparr>)
        in if auto_start_alpine h then enter_linux_pty h s
           else if h_gate h then
             emit_setup_prompt (emit
               (b ''ZMUX needs its Alpine Linux environment before a terminal can open.'' @ crlf_bytes @
                b ''Type `linux-setup` to download and verify Alpine, then ZMUX opens it automatically.'' @ crlf_bytes)
               (s\<lparr>s_awaiting := True\<rparr>))
           else emit_prompt s)"

definition stop :: "session \<Rightarrow> session" where
  "stop s =
     (let s = shell_interrupt (kill_pty (s\<lparr>s_running := False, s_line := [], s_pylines := []\<rparr>))
      in s\<lparr>s_cmdq := s_cmdq s @ [None]\<rparr>)"

definition resize :: "int \<Rightarrow> int \<Rightarrow> session \<Rightarrow> session" where
  "resize cols rows s =
     (let s = (if cols > 0 then s\<lparr>s_cols := cols\<rparr> else s);
          s = (if rows > 0 then s\<lparr>s_rows := rows\<rparr> else s)
      in case s_pty s of
           Some p \<Rightarrow> log (PtyResize p (s_rows s) (s_cols s)) s
         | None \<Rightarrow> if cols > 0 then s\<lparr>s_width := max 20 cols\<rparr> else s)"

section \<open>The worker\<close>

text \<open>
  \<open>_exec_loop\<close> in the steps another thread can come between: taking a line (the epoch is read
  and the busy flag set), clearing the Ctrl+C latch, running, finishing.
\<close>

definition worker_take :: "session \<Rightarrow> session" where
  "worker_take s =
     (case s_cmdq s of
        [] \<Rightarrow> s
      | item # rest \<Rightarrow>
          let s = s\<lparr>s_cmdq := rest\<rparr>
          in case item of
               None \<Rightarrow> s\<lparr>s_worker := Ended\<rparr>
             | Some (line, m) \<Rightarrow>
                 if \<not> s_running s then s\<lparr>s_worker := Ended\<rparr>
                 else s\<lparr>s_busy := True, s_worker := Claimed line m (s_epoch s)\<rparr>)"

definition worker_begin :: "ustr \<Rightarrow> mode \<Rightarrow> nat \<Rightarrow> session \<Rightarrow> session" where
  "worker_begin line m epoch s = clear_interrupt (Some epoch) (s\<lparr>s_worker := Running line m\<rparr>)"

text \<open>\<open>_run_line\<close> and \<open>_run_python_line\<close>: which source is executed, and how, or that the block is still open.\<close>

datatype compiled = Complete | Incomplete | CompileError
datatype plan = OpenBlock | Execute ustr bool

definition first_word :: "ustr \<Rightarrow> ustr" where
  "first_word line = (case words_by py_space line of [] \<Rightarrow> [] | w # _ \<Rightarrow> w)"

definition python_plan :: "(ustr \<Rightarrow> compiled) \<Rightarrow> ustr list \<Rightarrow> ustr \<Rightarrow> plan" where
  "python_plan compile pylines line =
     (let candidate = join_with [LF] (pylines @ [line])
      in if compile candidate = Incomplete then OpenBlock else Execute candidate True)"

text \<open>
  \<open>_shell_commands\<close>: the names listed there; \<open>extra\<close> holds for the built-ins of the shell
  object, the known TUI programs and whatever \<open>_is_external_command\<close> finds.
\<close>

definition session_commands :: "ustr list" where
  "session_commands = map u [''pip'', ''zpip'', ''help'', ''zmux-info'', ''zmux-setup-storage'', ''python'',
     ''python3'', ''git'', ''linux'', ''alpine'', ''linux-setup'', ''gates'', ''zmux-pty-probe'']"

definition run_plan :: "(ustr \<Rightarrow> bool) \<Rightarrow> (ustr \<Rightarrow> compiled) \<Rightarrow> ustr list \<Rightarrow> ustr \<Rightarrow> mode \<Rightarrow> plan" where
  "run_plan extra compile pylines line m =
     (if m = Repl then python_plan compile pylines line
      else if first_word line \<in> set session_commands \<or> extra (first_word line) then Execute line False
      else python_plan compile pylines line)"

definition execute_and_render :: "host \<Rightarrow> exec_result \<Rightarrow> session \<Rightarrow> session" where
  "execute_and_render h r s =
     (let s = (if pending_text r \<noteq> [] then emit_text (crlf (pending_text r)) s else s)
      in if s_awaiting s then
           (if h_installed h \<and> h_proot h then s\<lparr>s_awaiting := False, s_start_after := True\<rparr>
            else emit_setup_prompt s)
         else emit_prompt s)"

definition run_line :: "host \<Rightarrow> ustr \<Rightarrow> plan \<Rightarrow> outcome \<Rightarrow> session \<Rightarrow> session" where
  "run_line h line p outcome s =
     (case p of
        OpenBlock \<Rightarrow> (emit (b ''... '') (s\<lparr>s_pylines := s_pylines s @ [line]\<rparr>))\<lparr>s_busy := False\<rparr>
      | Execute src force_python \<Rightarrow>
          (case outcome of
             Finished r \<Rightarrow>
               let s = execute_and_render h r s
               in if force_python then s\<lparr>s_pylines := []\<rparr> else s
           | Interrupted \<Rightarrow>
               let s = emit (b ''KeyboardInterrupt'' @ crlf_bytes) s
               in emit_prompt (s\<lparr>s_interrupt := True\<rparr>)
           | Raised err \<Rightarrow>
               emit_prompt (emit_text (u ''[session error: '' @ err @ u '']'' @ [CR, LF])
                 (log (CrashRecord ''terminal-exec'' err) s))))"

definition finish_command :: "host \<Rightarrow> session \<Rightarrow> session" where
  "finish_command h s =
     (let interrupted = s_interrupt s; s = s\<lparr>s_busy := False\<rparr>
      in if interrupted then clear_interrupt None (s\<lparr>s_stdinq := []\<rparr>)
         else if s_start_after s then enter_linux_pty h (s\<lparr>s_start_after := False\<rparr>)
         else fold (submit_line h) (s_stdinq s) (s\<lparr>s_stdinq := []\<rparr>))"

definition worker_finish :: "host \<Rightarrow> ustr \<Rightarrow> plan \<Rightarrow> outcome \<Rightarrow> session \<Rightarrow> session" where
  "worker_finish h line p outcome s =
     (finish_command h (run_line h line p outcome s))\<lparr>s_worker := Idle\<rparr>"

text \<open>\<open>_QueueInput.readline\<close>: raises, ends, or takes the next typed line; \<open>None\<close> when it would wait.\<close>

definition stdin_readline :: "session \<Rightarrow> ((outcome + ustr) \<times> session) option" where
  "stdin_readline s =
     (if s_interrupt s then Some (Inl Interrupted, s)
      else if \<not> s_running s then Some (Inl (Raised (u ''EOF'')), s)
      else case s_stdinq s of
             [] \<Rightarrow> None
           | l # ls \<Rightarrow> Some (Inr (l @ [LF]), s\<lparr>s_stdinq := ls\<rparr>))"

end
