(* ===== verification/PtySessionInv.thy ===== *)
theory PtySessionInv
  imports PtySession
begin

text \<open>
  The reachable states of a terminal session (\<open>PtySession\<close>) and what holds in all of them.
  Every operation is a sequence of the effects \<open>eff\<close> (emit, spawn, kill, resize, ...), so an
  invariant is proved once per effect and carried to the operations and to the step relation.
\<close>

section \<open>Effects\<close>

definition same_core :: "session \<Rightarrow> session \<Rightarrow> bool" where
  "same_core s t \<longleftrightarrow> s_running s = s_running t \<and> s_pty s = s_pty t \<and> s_next_pty s = s_next_pty t \<and>
     s_rows s = s_rows t \<and> s_cols s = s_cols t \<and> s_history s = s_history t \<and> s_hindex s = s_hindex t \<and>
     s_scroll s = s_scroll t \<and> s_tail s = s_tail t \<and> s_log s = s_log t"

inductive eff :: "session \<Rightarrow> session \<Rightarrow> bool" for s where
  eff_refl: "eff s s"
| eff_core: "eff s t \<Longrightarrow> same_core t t' \<Longrightarrow> eff s t'"
| eff_emit: "eff s t \<Longrightarrow> eff s (emit d t)"
| eff_inert: "eff s t \<Longrightarrow> e \<in> {ShellInterrupt, InjectInterrupt} \<union> range (CrashRecord w) \<Longrightarrow> eff s (log e t)"
| eff_write: "eff s t \<Longrightarrow> s_pty t = Some p \<Longrightarrow> eff s (log (PtyWrite p d) t)"
| eff_spawn: "eff s t \<Longrightarrow> s_pty t = None \<Longrightarrow> s_running t \<Longrightarrow>
    eff s (log (PtySpawn (s_next_pty t) (s_rows t) (s_cols t))
      (t\<lparr>s_pty := Some (s_next_pty t), s_next_pty := s_next_pty t + 1\<rparr>))"
| eff_kill: "eff s t \<Longrightarrow> eff s (kill_pty t)"
| eff_gone: "eff s t \<Longrightarrow> s_pty t = Some p \<Longrightarrow> eff s (log (PtyGone p) (t\<lparr>s_pty := None\<rparr>))"
| eff_resize: "eff s t \<Longrightarrow> eff s (resize c r t)"
| eff_run: "eff s t \<Longrightarrow> eff s (t\<lparr>s_running := True\<rparr>)"
| eff_halt: "eff s t \<Longrightarrow> eff s (kill_pty (t\<lparr>s_running := False\<rparr>))"
| eff_record: "eff s t \<Longrightarrow> eff s (history_record l t)"
| eff_index: "eff s t \<Longrightarrow> i < length (s_history t) \<Longrightarrow> eff s (t\<lparr>s_hindex := Some i\<rparr>)"
| eff_noindex: "eff s t \<Longrightarrow> eff s (t\<lparr>s_hindex := None\<rparr>)"

lemma eff_trans:
  assumes "eff t v" and "eff s t"
  shows "eff s v"
  using assms(1)
proof (induction rule: eff.induct)
  case eff_refl
  show ?case by (rule assms(2))
qed ((rule eff.intros; assumption)+)

lemma eff_fields:
  assumes "eff s t"
  shows "eff s (t\<lparr>s_line := a\<rparr>)" "eff s (t\<lparr>s_pylines := b1\<rparr>)" "eff s (t\<lparr>s_mode := m\<rparr>)"
    "eff s (t\<lparr>s_stash := a\<rparr>)" "eff s (t\<lparr>s_esc := e\<rparr>)" "eff s (t\<lparr>s_awaiting := f\<rparr>)"
    "eff s (t\<lparr>s_start_after := f\<rparr>)" "eff s (t\<lparr>s_storage_pending := f\<rparr>)" "eff s (t\<lparr>s_cmdq := q\<rparr>)"
    "eff s (t\<lparr>s_stdinq := b1\<rparr>)" "eff s (t\<lparr>s_busy := f\<rparr>)" "eff s (t\<lparr>s_interrupt := f\<rparr>)"
    "eff s (t\<lparr>s_epoch := n\<rparr>)" "eff s (t\<lparr>s_procs := f\<rparr>)" "eff s (t\<lparr>s_cwd := a\<rparr>)"
    "eff s (t\<lparr>s_worker := w\<rparr>)" "eff s (t\<lparr>s_width := c\<rparr>)" "eff s (t\<lparr>s_at_start := f\<rparr>)"
  by (rule eff_core [OF assms], simp add: same_core_def)+

lemma eff_spawnI:
  "eff s t \<Longrightarrow> s_pty t = None \<Longrightarrow> s_running t \<Longrightarrow> p = s_next_pty t \<Longrightarrow> r = s_rows t \<Longrightarrow> c = s_cols t \<Longrightarrow>
     n = Suc p \<Longrightarrow> eff s (log (PtySpawn p r c) (t\<lparr>s_pty := Some p, s_next_pty := n\<rparr>))"
  using eff_spawn [of s t] by simp

lemmas eff_intros = eff_fields eff_emit eff_inert eff_write eff_kill eff_gone eff_resize eff_run
  eff_halt eff_record eff_noindex

lemma request_power:
  "(\<And>t. P (request_storage_setup t) = P t) \<Longrightarrow> P ((request_storage_setup ^^ n) t) = P t"
  by (induction n) simp_all

lemma emit_frame:
  assumes "\<And>t. P (request_storage_setup t) = P t" "\<And>t x y. P (t\<lparr>s_scroll := x, s_at_start := y\<rparr>) = P t"
    "\<And>t x. P (t\<lparr>s_tail := x\<rparr>) = P t" "\<And>t e. P (log e t) = P t"
  shows "P (emit d s) = P s"
proof -
  obtain out n tl1 where f: "filter_pty_controls (s_tail s) d = (out, n, tl1)" by (metis prod_cases3)
  have "P ((request_storage_setup ^^ n) (s\<lparr>s_tail := tl1\<rparr>)) = P (s\<lparr>s_tail := tl1\<rparr>)"
    using assms(1) by (rule request_power)
  then show ?thesis by (simp add: emit_def f Let_def assms)
qed

lemma emit_fields [simp]:
  "s_running (emit d s) = s_running s" "s_pty (emit d s) = s_pty s" "s_next_pty (emit d s) = s_next_pty s"
  "s_history (emit d s) = s_history s" "s_hindex (emit d s) = s_hindex s" "s_rows (emit d s) = s_rows s"
  "s_cols (emit d s) = s_cols s" "s_busy (emit d s) = s_busy s" "s_mode (emit d s) = s_mode s"
  "s_cmdq (emit d s) = s_cmdq s" "s_stdinq (emit d s) = s_stdinq s" "s_line (emit d s) = s_line s"
  "s_pylines (emit d s) = s_pylines s" "s_esc (emit d s) = s_esc s" "s_awaiting (emit d s) = s_awaiting s"
  "s_start_after (emit d s) = s_start_after s" "s_interrupt (emit d s) = s_interrupt s"
  "s_epoch (emit d s) = s_epoch s" "s_procs (emit d s) = s_procs s" "s_cwd (emit d s) = s_cwd s"
  "s_stash (emit d s) = s_stash s" "s_worker (emit d s) = s_worker s" "s_width (emit d s) = s_width s"
  by (rule emit_frame; simp add: request_storage_setup_def log_def)+

lemma log_fields [simp]:
  "s_running (log e s) = s_running s" "s_pty (log e s) = s_pty s" "s_next_pty (log e s) = s_next_pty s"
  "s_history (log e s) = s_history s" "s_hindex (log e s) = s_hindex s" "s_rows (log e s) = s_rows s"
  "s_cols (log e s) = s_cols s" "s_busy (log e s) = s_busy s" "s_mode (log e s) = s_mode s"
  "s_cmdq (log e s) = s_cmdq s" "s_stdinq (log e s) = s_stdinq s" "s_line (log e s) = s_line s"
  "s_pylines (log e s) = s_pylines s" "s_esc (log e s) = s_esc s" "s_awaiting (log e s) = s_awaiting s"
  "s_start_after (log e s) = s_start_after s" "s_scroll (log e s) = s_scroll s" "s_tail (log e s) = s_tail s"
  "s_interrupt (log e s) = s_interrupt s" "s_worker (log e s) = s_worker s" "s_log (log e s) = s_log s @ [e]"
  "s_epoch (log e s) = s_epoch s"
  by (simp_all add: log_def)

section \<open>Every operation is a sequence of effects\<close>

lemma eff_emit_text: "eff s t \<Longrightarrow> eff s (emit_text x t)"
  by (simp add: emit_text_def eff_emit)

lemma eff_emit_prompt: "eff s t \<Longrightarrow> eff s (emit_prompt t)"
  by (simp add: emit_prompt_def fresh_line_def Let_def eff_emit_text eff_emit)

lemma eff_setup_prompt: "eff s t \<Longrightarrow> eff s (emit_setup_prompt t)"
  by (simp add: emit_setup_prompt_def fresh_line_def eff_emit)

lemma eff_enter: "eff s t \<Longrightarrow> eff s (enter_linux_pty h t)"
  unfolding enter_linux_pty_def Let_def
  by (auto split: option.split intro!: eff_emit_prompt eff_emit_text eff_emit eff_spawnI eff_fields)

lemma eff_leave: "eff s t \<Longrightarrow> eff s (leave_linux_pty d t)"
  by (simp add: leave_linux_pty_def eff_emit_prompt eff_emit eff_kill)

lemma eff_toggle: "eff s t \<Longrightarrow> eff s (toggle_pty h t)"
  by (simp add: toggle_pty_def eff_enter eff_leave)

lemma eff_exited: "eff s t \<Longrightarrow> eff s (pty_exited h p c t)"
  by (auto simp: pty_exited_def Let_def intro!: eff_enter eff_emit_text eff_gone)

lemma eff_replace: "eff s t \<Longrightarrow> eff s (replace_line x t)"
  by (simp add: replace_line_def eff_emit eff_fields)

lemma eff_shell_interrupt: "eff s t \<Longrightarrow> eff s (shell_interrupt t)"
  by (simp add: shell_interrupt_def eff_inert eff_fields)

lemma eff_clear: "eff s t \<Longrightarrow> eff s (clear_interrupt e t)"
  by (simp add: clear_interrupt_def eff_fields)

lemma eff_enqueue: "eff s t \<Longrightarrow> eff s (enqueue l m t)"
  by (simp add: enqueue_def eff_fields)

lemmas eff_ops = eff_emit_text eff_emit_prompt eff_setup_prompt eff_enter eff_leave eff_toggle eff_exited
  eff_replace eff_shell_interrupt eff_clear eff_enqueue eff_emit eff_record eff_fields eff_kill eff_resize

lemma eff_submit: "eff s t \<Longrightarrow> eff s (submit_line h l t)"
  by (simp add: submit_line_def Let_def enter_repl_def leave_repl_def eff_ops)

lemma eff_interrupt_running: "eff s t \<Longrightarrow> eff s (interrupt_running t)"
  by (simp add: interrupt_running_def Let_def eff_ops eff_inert)

lemma eff_history_move:
  assumes "eff s (t\<lparr>s_hindex := None\<rparr>)" "\<And>i. i < length (s_history t) \<Longrightarrow> eff s (t\<lparr>s_hindex := Some i\<rparr>)"
    "s_history t \<noteq> []"
  shows "eff s (history_move d t)"
proof -
  have "nat (max 0 n) < length (s_history t)" if "n < int (length (s_history t))" for n
    using that assms(3) by (auto simp: max_def)
  with assms(1,2) show ?thesis by (auto simp: history_move_def Let_def intro!: eff_replace)
qed

lemma eff_history_step: "eff s t \<Longrightarrow> eff s (history_step d t)"
proof -
  assume e: "eff s t"
  let ?t = "t\<lparr>s_stash := s_line t, s_hindex := Some (length (s_history t))\<rparr>"
  have st: "eff s (t\<lparr>s_stash := s_line t\<rparr>)" by (rule eff_fields(4) [OF e])
  have "eff s (?t\<lparr>s_hindex := None\<rparr>)" using eff_noindex [OF st] by simp
  moreover have "eff s (?t\<lparr>s_hindex := Some i\<rparr>)" if "i < length (s_history ?t)" for i
    using eff_index [OF st, of i] that by simp
  ultimately have "eff s (history_move d ?t)" if "s_history t \<noteq> []"
    using that by (intro eff_history_move) simp_all
  moreover have "eff s (history_move d t)" if "s_history t \<noteq> []"
    using that by (intro eff_history_move eff_noindex eff_index e)
  ultimately show ?thesis by (simp add: history_step_def e)
qed

lemma eff_handle_char: "eff s t \<Longrightarrow> eff s (handle_char h c t)"
  by (simp add: handle_char_def handle_escape_char_def Let_def leave_repl_def eff_ops eff_history_step
      eff_interrupt_running eff_submit)

lemma eff_fold: "(\<And>x t. eff s t \<Longrightarrow> eff s (f x t)) \<Longrightarrow> eff s t \<Longrightarrow> eff s (fold f xs t)"
  by (induction xs arbitrary: t) simp_all

lemma eff_write_input: "eff s t \<Longrightarrow> eff s (write_input h d t)"
  by (auto simp: write_input_def eff_write intro!: eff_fold eff_handle_char split: option.split)

lemma eff_run_rc: "eff s t \<Longrightarrow> eff s (run_rc rc t)"
proof (induction rc arbitrary: t)
  case (Cons x rc)
  obtain live res where x: "x = (live, res)" by fastforce
  have "eff s (fold emit live t)" by (intro eff_fold eff_emit Cons.prems)
  then show ?case unfolding x run_rc.simps Let_def
    by (intro Cons.IH) (auto split: sum.split intro: eff_emit_text)
qed simp

lemma eff_start: "eff s t \<Longrightarrow> eff s (start h rc t)"
  by (auto simp: start_def Let_def intro!: eff_ops eff_run_rc eff_run)

lemma eff_stop: "eff s t \<Longrightarrow> eff s (stop t)"
proof -
  assume "eff s t"
  then have "eff s (kill_pty ((t\<lparr>s_line := [], s_pylines := []\<rparr>)\<lparr>s_running := False\<rparr>))"
    by (intro eff_halt eff_fields)
  moreover have "t\<lparr>s_running := False, s_line := [], s_pylines := []\<rparr>
      = (t\<lparr>s_line := [], s_pylines := []\<rparr>)\<lparr>s_running := False\<rparr>" by simp
  ultimately show ?thesis unfolding stop_def Let_def
    by (intro eff_fields eff_shell_interrupt) (simp only:)
qed

lemma eff_storage: "eff s t \<Longrightarrow> eff s (storage_worker r t)"
  by (auto simp: storage_worker_def Let_def split: sum.split intro!: eff_ops)

lemma eff_take: "eff s t \<Longrightarrow> eff s (worker_take t)"
  by (auto simp: worker_take_def Let_def eff_fields split: list.split option.split)

lemma eff_begin: "eff s t \<Longrightarrow> eff s (worker_begin l m e t)"
  by (simp add: worker_begin_def eff_ops)

lemma eff_render: "eff s t \<Longrightarrow> eff s (execute_and_render h r t)"
  by (simp add: execute_and_render_def Let_def eff_ops)

lemma eff_run_line: "eff s t \<Longrightarrow> eff s (run_line h l p r t)"
  by (auto simp: run_line_def Let_def split: plan.split outcome.split intro!: eff_ops eff_render eff_inert)

lemma eff_finish_command: "eff s t \<Longrightarrow> eff s (finish_command h t)"
  by (auto simp: finish_command_def Let_def intro!: eff_ops eff_fold eff_submit)

lemma eff_finish: "eff s t \<Longrightarrow> eff s (worker_finish h l p r t)"
  by (auto simp: worker_finish_def intro!: eff_fields eff_finish_command eff_run_line)

section \<open>The step relation\<close>

text \<open>
  A session is started once (the epoch is 0 until it is stopped or interrupted); from then on
  input, resizes, toggles, PTY output and exits (also of a PTY that is no longer current), the
  storage worker and the steps of the command worker come in any order.
\<close>

inductive session_step :: "session \<Rightarrow> session \<Rightarrow> bool" where
  step_start: "\<not> s_running s \<Longrightarrow> s_epoch s = 0 \<Longrightarrow> session_step s (start h rc s)"
| step_input: "session_step s (write_input h d s)"
| step_resize: "session_step s (resize c r s)"
| step_toggle: "session_step s (toggle_pty h s)"
| step_stop: "session_step s (stop s)"
| step_pty_output: "session_step s (emit d s)"
| step_pty_exit: "session_step s (pty_exited h p code s)"
| step_storage: "s_storage_pending s \<Longrightarrow> session_step s (storage_worker r s)"
| step_take: "s_worker s = Idle \<Longrightarrow> session_step s (worker_take s)"
| step_begin: "s_worker s = Claimed l m e \<Longrightarrow> session_step s (worker_begin l m e s)"
| step_stdin: "s_worker s = Running l m \<Longrightarrow> stdin_readline s = Some (r, t) \<Longrightarrow> session_step s t"
| step_shell: "s_worker s = Running l m \<Longrightarrow> session_step s (s\<lparr>s_procs := f, s_cwd := d\<rparr>)"
| step_finish: "s_worker s = Running l m \<Longrightarrow>
    session_step s (worker_finish h l (run_plan extra compile (s_pylines s) l m) r s)"

inductive reachable :: "session \<Rightarrow> bool" where
  reach_init: "reachable init_session"
| reach_step: "reachable s \<Longrightarrow> session_step s t \<Longrightarrow> reachable t"

inductive_cases session_step_cases: "session_step s t"

lemma eff_stdin: "stdin_readline s = Some (r, t) \<Longrightarrow> eff s t"
  by (auto simp: stdin_readline_def intro: eff_refl eff_fields split: if_splits list.splits)

lemma session_step_eff: "session_step s t \<Longrightarrow> eff s t"
proof (induction rule: session_step.induct)
  case (step_shell s l m d f)
  have "eff s (s\<lparr>s_procs := f\<rparr>\<lparr>s_cwd := d\<rparr>)" by (intro eff_fields eff_refl)
  then show ?case by simp
qed (simp_all add: eff_refl eff_start eff_write_input eff_resize eff_toggle eff_stop eff_emit eff_exited
      eff_storage eff_take eff_begin eff_stdin eff_finish)

lemma reachable_eff: "reachable s \<Longrightarrow> eff init_session s"
proof (induction rule: reachable.induct)
  case reach_init
  show ?case by (rule eff_refl)
next
  case (reach_step s t)
  from session_step_eff [OF reach_step(2)] reach_step.IH show ?case by (rule eff_trans)
qed

section \<open>The invariant\<close>

text \<open>Everything the session has written to its output, and the last geometry a PTY was given.\<close>

definition written :: "event list \<Rightarrow> bytes" where
  "written es = concat (map (\<lambda>e. case e of Out d \<Rightarrow> d | _ \<Rightarrow> []) es)"

definition geometry :: "nat \<Rightarrow> event list \<Rightarrow> (int \<times> int) option" where
  "geometry p es = fold (\<lambda>e g. case e of
      PtySpawn q r c \<Rightarrow> if q = p then Some (r, c) else g
    | PtyResize q r c \<Rightarrow> if q = p then Some (r, c) else g
    | _ \<Rightarrow> g) es None"

lemma output_simps [simp]:
  "written [] = []" "written (es @ fs) = written es @ written fs"
  "written [Out d] = d" "written [PtySpawn p r c] = []" "written [PtyWrite p d] = []"
  "written [PtyResize p r c] = []" "written [PtyKill p] = []" "written [PtyGone p] = []"
  "written [ShellInterrupt] = []" "written [InjectInterrupt] = []" "written [StorageRequest] = []" "written [CrashRecord w x] = []"
  by (simp_all add: written_def)

lemma geometry_snoc [simp]:
  "geometry p (es @ [e]) = (case e of
      PtySpawn q r c \<Rightarrow> if q = p then Some (r, c) else geometry p es
    | PtyResize q r c \<Rightarrow> if q = p then Some (r, c) else geometry p es
    | _ \<Rightarrow> geometry p es)"
  by (cases e) (simp_all add: geometry_def)

definition dead :: "nat \<Rightarrow> event list \<Rightarrow> bool" where
  "dead p es \<longleftrightarrow> PtyKill p \<in> set es \<or> PtyGone p \<in> set es"

lemma dead_snoc [simp]: "dead p (es @ [e]) \<longleftrightarrow> dead p es \<or> e = PtyKill p \<or> e = PtyGone p"
  by (auto simp: dead_def)

definition spawned :: "nat \<Rightarrow> event list \<Rightarrow> bool" where
  "spawned p es \<longleftrightarrow> (\<exists>r c. PtySpawn p r c \<in> set es)"

lemma spawned_snoc [simp]:
  "spawned p (es @ [e]) \<longleftrightarrow> spawned p es \<or> (case e of PtySpawn q r c \<Rightarrow> q = p | _ \<Rightarrow> False)"
  by (auto simp: spawned_def split: event.splits)

definition out_inv :: "session \<Rightarrow> bool" where
  "out_inv s \<longleftrightarrow> s_scroll s = keep_last scrollback_max_size (written (s_log s)) \<and> (\<exists>k<25. s_tail s = take k OSC)"

definition history_inv :: "session \<Rightarrow> bool" where
  "history_inv s \<longleftrightarrow> length (s_history s) \<le> HISTORY_LIMIT \<and> distinct_adj (s_history s) \<and> [] \<notin> set (s_history s) \<and>
     (\<forall>i. s_hindex s = Some i \<longrightarrow> i < length (s_history s))"

definition pty_inv :: "session \<Rightarrow> bool" where
  "pty_inv s \<longleftrightarrow> (\<forall>p. s_pty s = Some p \<longrightarrow> s_running s \<and> p < s_next_pty s \<and>
       geometry p (s_log s) = Some (s_rows s, s_cols s) \<and> \<not> dead p (s_log s)) \<and>
     (\<forall>p < s_next_pty s. s_pty s \<noteq> Some p \<longrightarrow> dead p (s_log s)) \<and>
     (\<forall>p \<ge> s_next_pty s. \<not> dead p (s_log s) \<and> \<not> spawned p (s_log s))"

lemma keep_last_append: "keep_last n (keep_last n xs @ ys) = keep_last n (xs @ ys)"
  by (auto simp: keep_last_def add.commute)

lemma keep_last_length [simp]: "length (keep_last n xs) \<le> n"
  by (simp add: keep_last_def)

lemma keep_last_suffix: "suffix (keep_last n xs) xs"
  by (simp add: keep_last_def suffix_drop)

lemma suffix_distinct_adj: "suffix xs ys \<Longrightarrow> distinct_adj ys \<Longrightarrow> distinct_adj xs"
  by (auto simp: suffix_def)

lemma request_log: "written (s_log (request_storage_setup s)) = written (s_log s)"
  "geometry p (s_log (request_storage_setup s)) = geometry p (s_log s)"
  "dead p (s_log (request_storage_setup s)) = dead p (s_log s)"
  "spawned p (s_log (request_storage_setup s)) = spawned p (s_log s)"
  "s_scroll (request_storage_setup s) = s_scroll s" "s_tail (request_storage_setup s) = s_tail s"
  by (simp_all add: request_storage_setup_def)

lemma emit_log [simp]:
  "geometry p (s_log (emit d s)) = geometry p (s_log s)" "dead p (s_log (emit d s)) = dead p (s_log s)"
  "spawned p (s_log (emit d s)) = spawned p (s_log s)"
proof -
  obtain out n tl1 where f: "filter_pty_controls (s_tail s) d = (out, n, tl1)" by (metis prod_cases3)
  have "geometry p (s_log ((request_storage_setup ^^ n) (s\<lparr>s_tail := tl1\<rparr>))) = geometry p (s_log s)"
    using request_power [of "\<lambda>s. geometry p (s_log s)" n "s\<lparr>s_tail := tl1\<rparr>"] by (simp add: request_log)
  then show "geometry p (s_log (emit d s)) = geometry p (s_log s)" by (simp add: emit_def f Let_def)
  have "dead p (s_log ((request_storage_setup ^^ n) (s\<lparr>s_tail := tl1\<rparr>))) = dead p (s_log s)"
    using request_power [of "\<lambda>s. dead p (s_log s)" n "s\<lparr>s_tail := tl1\<rparr>"] by (simp add: request_log)
  then show "dead p (s_log (emit d s)) = dead p (s_log s)" by (simp add: emit_def f Let_def)
  have "spawned p (s_log ((request_storage_setup ^^ n) (s\<lparr>s_tail := tl1\<rparr>))) = spawned p (s_log s)"
    using request_power [of "\<lambda>s. spawned p (s_log s)" n "s\<lparr>s_tail := tl1\<rparr>"] by (simp add: request_log)
  then show "spawned p (s_log (emit d s)) = spawned p (s_log s)" by (simp add: emit_def f Let_def)
qed

lemma emit_output:
  "filter_pty_controls (s_tail s) d = (out, n, tl1) \<Longrightarrow>
     written (s_log (emit d s)) = written (s_log s) @ out \<and> s_tail (emit d s) = tl1 \<and>
     s_scroll (emit d s) = (if out = [] then s_scroll s else keep_last scrollback_max_size (s_scroll s @ out))"
  using request_power [of "\<lambda>s. written (s_log s)" n "s\<lparr>s_tail := tl1\<rparr>"]
    request_power [of s_scroll n "s\<lparr>s_tail := tl1\<rparr>"] request_power [of s_tail n "s\<lparr>s_tail := tl1\<rparr>"]
  by (simp add: emit_def Let_def request_log)

lemma out_inv_emit: "out_inv s \<Longrightarrow> out_inv (emit d s)"
proof -
  assume i: "out_inv s"
  obtain out n tl1 where f: "filter_pty_controls (s_tail s) d = (out, n, tl1)" by (metis prod_cases3)
  obtain k where "s_tail s = take k OSC" using i by (auto simp: out_inv_def)
  with f have "\<exists>k<25. tl1 = take k OSC"
    using filter_loop_run [of "take k OSC @ d" "[]" 0 out n tl1] by (auto simp: filter_pty_controls_def)
  with i emit_output [OF f] show ?thesis by (auto simp: out_inv_def keep_last_append)
qed

lemma keep_last_history:
  "history_inv s \<Longrightarrow> history_inv (history_record l s)"
proof -
  assume i: "history_inv s"
  let ?h = "keep_last HISTORY_LIMIT (s_history s @ [l])"
  have "distinct_adj (s_history s @ [l])" if "l \<noteq> []" "s_history s = [] \<or> last (s_history s) \<noteq> l"
    using i that by (auto simp: history_inv_def distinct_adj_append_iff)
  then have "distinct_adj ?h" if "l \<noteq> []" "s_history s = [] \<or> last (s_history s) \<noteq> l"
    using that suffix_distinct_adj [OF keep_last_suffix] by blast
  moreover have "[] \<notin> set ?h" if "l \<noteq> []"
    using i that set_mono_suffix [OF keep_last_suffix, of HISTORY_LIMIT "s_history s @ [l]"]
    by (auto simp: history_inv_def)
  ultimately show ?thesis using i by (simp add: history_inv_def history_record_def Let_def)
qed

lemma eff_out_inv: "eff s t \<Longrightarrow> out_inv s \<Longrightarrow> out_inv t"
  by (induction rule: eff.induct)
    (auto simp: out_inv_emit, auto simp: out_inv_def same_core_def kill_pty_def resize_def history_record_def
      Let_def split: option.splits)

lemma eff_history_inv: "eff s t \<Longrightarrow> history_inv s \<Longrightarrow> history_inv t"
  by (induction rule: eff.induct)
    (auto simp: keep_last_history, auto simp: history_inv_def same_core_def kill_pty_def resize_def
      Let_def split: option.splits)

lemma pty_inv_cong:
  "s_pty s = s_pty t \<Longrightarrow> s_running s = s_running t \<Longrightarrow> s_next_pty s = s_next_pty t \<Longrightarrow> s_rows s = s_rows t \<Longrightarrow>
   s_cols s = s_cols t \<Longrightarrow> (\<And>p. geometry p (s_log s) = geometry p (s_log t)) \<Longrightarrow>
   (\<And>p. dead p (s_log s) = dead p (s_log t)) \<Longrightarrow>
   (\<And>p. spawned p (s_log s) = spawned p (s_log t)) \<Longrightarrow> pty_inv s \<Longrightarrow> pty_inv t"
  by (simp add: pty_inv_def)

lemma pty_inv_kill: "pty_inv s \<Longrightarrow> pty_inv (kill_pty (s\<lparr>s_running := f\<rparr>))" if "f = False \<or> f = s_running s"
  using that by (cases "s_pty s") (auto simp: pty_inv_def kill_pty_def)

lemma eff_pty_inv: "eff s t \<Longrightarrow> pty_inv s \<Longrightarrow> pty_inv t"
proof (induction rule: eff.induct)
  case (eff_core t t')
  show ?case
    by (rule pty_inv_cong [of t]) (use eff_core in \<open>simp_all add: same_core_def\<close>)
next
  case (eff_emit t d)
  then show ?case by (simp add: pty_inv_def)
next
  case (eff_inert t e)
  show ?case by (rule pty_inv_cong [of t]) (use eff_inert in auto)
next
  case (eff_write t p d)
  show ?case by (rule pty_inv_cong [of t]) (use eff_write in auto)
next
  case (eff_spawn t)
  then show ?case by (auto simp: pty_inv_def less_Suc_eq)
next
  case (eff_kill t)
  then show ?case using pty_inv_kill [of "s_running t" t] by simp
next
  case (eff_gone t p)
  then show ?case by (auto simp: pty_inv_def)
next
  case (eff_resize t c r)
  then show ?case by (cases "s_pty t") (simp_all add: pty_inv_def resize_def)
next
  case (eff_halt t)
  then show ?case using pty_inv_kill [of False t] by simp
next
  case (eff_record t l)
  then show ?case by (simp add: pty_inv_def history_record_def Let_def)
qed (simp_all add: pty_inv_def)

section \<open>The setup gate\<close>

definition setup_item :: "(ustr \<times> mode) option \<Rightarrow> bool" where
  "setup_item i = (case i of None \<Rightarrow> True | Some (l, m) \<Rightarrow> strip l = u ''linux-setup'' \<and> m = Shell)"

definition setup_worker :: "worker \<Rightarrow> bool" where
  "setup_worker w = (case w of Claimed l m e \<Rightarrow> setup_item (Some (l, m)) | Running l m \<Rightarrow> setup_item (Some (l, m))
     | _ \<Rightarrow> True)"

text \<open>The fields the gate depends on; the operations below leave all of them alone.\<close>

definition gate_fields :: "session \<Rightarrow> bool \<times> nat \<times> bool \<times> ustr list \<times> (ustr \<times> mode) option list \<times> worker" where
  "gate_fields s = (s_running s, s_epoch s, s_awaiting s, s_pylines s, s_cmdq s, s_worker s)"

lemma gate_fields_out [simp]:
  "gate_fields (emit d s) = gate_fields s" "gate_fields (emit_text x s) = gate_fields s"
  "gate_fields (log e s) = gate_fields s"
  "gate_fields (emit_prompt s) = gate_fields s" "gate_fields (emit_setup_prompt s) = gate_fields s"
  "gate_fields (history_record l s) = gate_fields s"
  "gate_fields (replace_line l s) = gate_fields s"
  "gate_fields (kill_pty s) = gate_fields s"
  by (simp_all add: gate_fields_def emit_text_def emit_prompt_def fresh_line_def emit_setup_prompt_def
      history_record_def replace_line_def kill_pty_def log_def Let_def split: option.split)

lemma gate_fields_upd [simp]:
  "gate_fields (s\<lparr>s_mode := m\<rparr>) = gate_fields s" "gate_fields (s\<lparr>s_line := l\<rparr>) = gate_fields s"
  "gate_fields (s\<lparr>s_esc := x\<rparr>) = gate_fields s" "gate_fields (s\<lparr>s_stdinq := q\<rparr>) = gate_fields s"
  "gate_fields (s\<lparr>s_busy := f\<rparr>) = gate_fields s" "gate_fields (s\<lparr>s_interrupt := f\<rparr>) = gate_fields s"
  "gate_fields (s\<lparr>s_start_after := f\<rparr>) = gate_fields s" "gate_fields (s\<lparr>s_storage_pending := f\<rparr>) = gate_fields s"
  "gate_fields (s\<lparr>s_hindex := i\<rparr>) = gate_fields s" "gate_fields (s\<lparr>s_stash := l\<rparr>) = gate_fields s"
  "gate_fields (s\<lparr>s_pty := y\<rparr>) = gate_fields s" "gate_fields (s\<lparr>s_next_pty := n\<rparr>) = gate_fields s"
  "gate_fields (s\<lparr>s_rows := r\<rparr>) = gate_fields s" "gate_fields (s\<lparr>s_cols := r\<rparr>) = gate_fields s"
  "gate_fields (s\<lparr>s_width := r\<rparr>) = gate_fields s" "gate_fields (s\<lparr>s_procs := f\<rparr>) = gate_fields s"
  "gate_fields (s\<lparr>s_cwd := l\<rparr>) = gate_fields s"
  by (simp_all add: gate_fields_def)

lemma gate_fields_ops [simp]:
  "gate_fields (enter_linux_pty h s) = gate_fields s"
  "gate_fields (leave_linux_pty d s) = gate_fields s"
  "gate_fields (toggle_pty h s) = gate_fields s"
  "gate_fields (pty_exited h p c s) = gate_fields s"
  "gate_fields (history_step n s) = gate_fields s"
  "gate_fields (handle_escape_char x s) = gate_fields s"
  "gate_fields (resize r1 r2 s) = gate_fields s"
  "gate_fields (storage_worker o2 s) = gate_fields s"
proof -
  show e: "gate_fields (enter_linux_pty h s) = gate_fields s" for s
    by (simp add: enter_linux_pty_def Let_def split: option.split)
  show "gate_fields (leave_linux_pty d s) = gate_fields s" for d s
    by (simp add: leave_linux_pty_def)
  then show "gate_fields (toggle_pty h s) = gate_fields s"
    by (simp add: toggle_pty_def e)
  show "gate_fields (pty_exited h p c s) = gate_fields s"
    by (simp add: pty_exited_def Let_def e)
  show m: "gate_fields (history_step n s) = gate_fields s" for n
    by (simp add: history_step_def history_move_def Let_def)
  show "gate_fields (handle_escape_char x s) = gate_fields s"
    by (simp add: handle_escape_char_def m)
  show "gate_fields (resize r1 r2 s) = gate_fields s"
    by (simp add: resize_def Let_def split: option.split)
  show "gate_fields (storage_worker o2 s) = gate_fields s"
    by (simp add: storage_worker_def Let_def split: sum.split)
qed

definition gated :: "session \<Rightarrow> bool" where
  "gated s \<longleftrightarrow> (case gate_fields s of (run, ep, aw, pl, q, w) \<Rightarrow>
     aw \<longrightarrow> pl = [] \<and> (\<forall>i\<in>set q. setup_item i) \<and> setup_worker w)"

definition unstarted :: "session \<Rightarrow> bool" where
  "unstarted s \<longleftrightarrow> (case gate_fields s of (run, ep, aw, pl, q, w) \<Rightarrow>
     \<not> run \<and> ep = 0 \<longrightarrow> pl = [] \<and> q = [] \<and> w = Idle)"

lemma gate_cong: "gate_fields s = gate_fields t \<Longrightarrow> gated s = gated t"
  "gate_fields s = gate_fields t \<Longrightarrow> unstarted s = unstarted t"
  by (simp_all add: gated_def unstarted_def)

lemma history_record_fields [simp]:
  "s_awaiting (history_record l s) = s_awaiting s" "s_mode (history_record l s) = s_mode s"
  "s_busy (history_record l s) = s_busy s" "s_pylines (history_record l s) = s_pylines s"
  "s_cmdq (history_record l s) = s_cmdq s" "s_running (history_record l s) = s_running s"
  by (simp_all add: history_record_def Let_def)

definition enqueued :: "ustr \<Rightarrow> mode \<Rightarrow> session \<Rightarrow> session \<Rightarrow> bool" where
  "enqueued l m s t \<longleftrightarrow> gate_fields t = gate_fields (enqueue l m s) \<and>
     (s_awaiting s \<and> s_pylines s = [] \<longrightarrow> setup_item (Some (l, m)))"

lemma gate_fields_enqueue: "gate_fields s = gate_fields t \<Longrightarrow> gate_fields (enqueue l m s) = gate_fields (enqueue l m t)"
  by (simp add: gate_fields_def enqueue_def)

lemma gate_fields_pylines: "gate_fields s = gate_fields t \<Longrightarrow> gate_fields (s\<lparr>s_pylines := p\<rparr>) = gate_fields (t\<lparr>s_pylines := p\<rparr>)"
  by (simp add: gate_fields_def)

lemma gate_fields_awaiting: "gate_fields s = gate_fields t \<Longrightarrow> gate_fields (s\<lparr>s_awaiting := p\<rparr>) = gate_fields (t\<lparr>s_awaiting := p\<rparr>)"
  by (simp add: gate_fields_def)

lemma submit_gate_cases:
  obtains "gate_fields (submit_line h l s) = gate_fields s"
    | "gate_fields (submit_line h l s) = gate_fields (s\<lparr>s_pylines := []\<rparr>)"
    | m where "enqueued l m s (submit_line h l s)"
proof -
  let ?t = "submit_line h l s" and ?r = "history_record (strip l) s"
  have r: "gate_fields ?r = gate_fields s" by simp
  have "gate_fields ?t = gate_fields s \<or> gate_fields ?t = gate_fields (s\<lparr>s_pylines := []\<rparr>) \<or>
      enqueued l Shell s ?t \<or> enqueued l Repl s ?t"
  proof (cases "s_busy s \<or> strip l = []")
    case True
    then show ?thesis
      by (cases "s_mode s") (auto simp: submit_line_def Let_def enqueued_def)
  next
    case False
    note f = False
    show ?thesis
    proof (cases "s_awaiting s")
      case True
      with f show ?thesis
        by (auto simp: submit_line_def Let_def enqueued_def setup_item_def intro: gate_fields_enqueue)
    next
      case False
      have "gate_fields (leave_repl ?r) = gate_fields (s\<lparr>s_pylines := []\<rparr>)"
        using gate_fields_pylines [OF r, of "[]"] gate_fields_upd(1)
        by (simp add: leave_repl_def) (simp add: gate_fields_def)
      moreover have "gate_fields (enter_repl h ?r) = gate_fields s" by (simp add: enter_repl_def)
      ultimately show ?thesis using f False
        by (cases "s_mode s")
          (auto simp: submit_line_def Let_def enqueued_def intro: gate_fields_enqueue)
    qed
  qed
  then show ?thesis using that by blast
qed

lemma gated_submit: "gated s \<Longrightarrow> gated (submit_line h l s)"
proof (cases rule: submit_gate_cases [of h l s])
  case 1
  assume "gated s"
  with gate_cong(1) [OF 1] show ?thesis by simp
next
  case 2
  assume "gated s"
  then have "gated (s\<lparr>s_pylines := []\<rparr>)" by (simp add: gated_def gate_fields_def)
  with gate_cong(1) [OF 2] show ?thesis by simp
next
  case (3 m)
  assume "gated s"
  then have "gated (enqueue l m s)" using 3
    by (auto simp: gated_def gate_fields_def enqueued_def enqueue_def)
  with 3 gate_cong(1) [of "submit_line h l s" "enqueue l m s"] show ?thesis by (simp add: enqueued_def)
qed

lemma gate_fields_running: "gate_fields s = gate_fields t \<Longrightarrow> s_running s = s_running t \<and> s_epoch s = s_epoch t"
  by (simp add: gate_fields_def)

lemma submit_running [simp]: "s_running (submit_line h l s) = s_running s \<and> s_epoch (submit_line h l s) = s_epoch s"
proof (cases rule: submit_gate_cases [of h l s])
  case (3 m)
  then have "gate_fields (submit_line h l s) = gate_fields (enqueue l m s)" by (simp add: enqueued_def)
  from gate_fields_running [OF this] show ?thesis by (simp add: enqueue_def)
qed (auto dest: gate_fields_running)

lemma gated_interrupt: "gated s \<Longrightarrow> gated (interrupt_running s)"
  "s_running (interrupt_running s) = s_running s"
  by (simp_all add: interrupt_running_def Let_def shell_interrupt_def emit_prompt_def fresh_line_def
      emit_text_def gated_def gate_fields_def)

lemma gated_pylines: "gated s \<Longrightarrow> gated (s\<lparr>s_pylines := []\<rparr>)"
  by (simp add: gated_def gate_fields_def)

lemma gated_char:
  assumes "gated s"
  shows "gated (handle_char h c s) \<and> s_running (handle_char h c s) = s_running s"
proof -
  let ?t = "handle_char h c s"
  have same: "gated ?t \<and> s_running ?t = s_running s" if "gate_fields ?t = gate_fields s"
    using assms gate_cong(1) [OF that] gate_fields_running [OF that] by simp
  show ?thesis
  proof (cases "s_esc s \<noteq> NoEsc \<or> c = 27")
    case True
    then show ?thesis by (intro same) (simp add: handle_char_def)
  next
    case False
    note esc = False
    consider "c = 3" | "c = 4" | "c = CR \<or> c = LF" | "c \<noteq> 3" "c \<noteq> 4" "c \<noteq> CR" "c \<noteq> LF" by blast
    then show ?thesis
    proof cases
      case 1
      with esc assms show ?thesis by (simp add: handle_char_def gated_interrupt)
    next
      case 2
      let ?l = "s\<lparr>s_mode := Shell, s_pylines := []\<rparr>"
      have "gate_fields (leave_repl s) = gate_fields (s\<lparr>s_pylines := []\<rparr>)"
        by (simp add: leave_repl_def) (simp add: gate_fields_def)
      from gate_cong(1) [OF this] gate_fields_running [OF this] gated_pylines [OF assms]
      have "gated (leave_repl s) \<and> s_running (leave_repl s) = s_running s" by simp
      with 2 esc assms show ?thesis by (simp add: handle_char_def)
    next
      case 3
      let ?e = "emit crlf_bytes s"
      have "gated ?e" using assms gate_cong(1) [of ?e s] by simp
      then have "gated (submit_line h (s_line ?e) ?e)" by (rule gated_submit)
      then have "gated ((submit_line h (s_line ?e) ?e)\<lparr>s_line := []\<rparr>)"
        using gate_cong(1) [of "(submit_line h (s_line ?e) ?e)\<lparr>s_line := []\<rparr>" "submit_line h (s_line ?e) ?e"] by simp
      with 3 esc show ?thesis by (auto simp: handle_char_def Let_def)
    next
      case 4
      with esc show ?thesis by (intro same) (simp add: handle_char_def)
    qed
  qed
qed

lemma gated_chars: "gated s \<Longrightarrow> gated (fold (handle_char h) cs s) \<and> s_running (fold (handle_char h) cs s) = s_running s"
  by (induction cs arbitrary: s) (simp_all add: gated_char)

lemma gated_submits:
  "gated s \<Longrightarrow> gated (fold (submit_line h) ls s) \<and> s_running (fold (submit_line h) ls s) = s_running s \<and>
     s_epoch (fold (submit_line h) ls s) = s_epoch s"
  by (induction ls arbitrary: s) (simp_all add: gated_submit)

definition gate_inv :: "session \<Rightarrow> bool" where
  "gate_inv s \<longleftrightarrow> gated s \<and> unstarted s"

lemma gate_inv_cong: "gate_inv s \<Longrightarrow> gate_fields t = gate_fields s \<Longrightarrow> gate_inv t"
  using gate_cong [of t s] by (simp add: gate_inv_def)

lemma gate_inv_running: "gated t \<Longrightarrow> s_running t \<Longrightarrow> gate_inv t"
  by (simp add: gate_inv_def unstarted_def gate_fields_def)

lemma gate_inv_write: "gate_inv s \<Longrightarrow> gate_inv (write_input h d s)"
proof -
  assume g: "gate_inv s"
  show ?thesis
  proof (cases "s_running s \<and> s_pty s = None")
    case True
    with g have "gate_inv (fold (handle_char h) (utf8_replace d) s)"
      using gated_chars [of s h "utf8_replace d"] by (intro gate_inv_running) (auto simp: gate_inv_def)
    with True show ?thesis by (simp add: write_input_def)
  next
    case False
    with g show ?thesis by (auto simp: write_input_def intro: gate_inv_cong)
  qed
qed

lemma run_rc_gate [simp]: "gate_fields (run_rc rc s) = gate_fields s"
proof (induction rc arbitrary: s)
  case (Cons x rc)
  obtain live res where x: "x = (live, res)" by fastforce
  have "gate_fields (fold emit live t) = gate_fields t" for t by (induction live arbitrary: t) simp_all
  then show ?case by (auto simp: x Cons.IH Let_def split: sum.split)
qed simp

lemma gate_inv_start: "\<not> s_running s \<Longrightarrow> s_epoch s = 0 \<Longrightarrow> gate_inv s \<Longrightarrow> gate_inv (start h rc s)"
proof (rule gate_inv_running)
  assume s: "\<not> s_running s" "s_epoch s = 0" "gate_inv s"
  let ?s = "s\<lparr>s_running := True, s_worker := Idle\<rparr>"
  have q: "s_pylines s = []" "s_cmdq s = []"
    using s by (auto simp: gate_inv_def unstarted_def gate_fields_def)
  have gf: "gate_fields (start h rc s) = gate_fields ?s \<or> gate_fields (start h rc s) = gate_fields (?s\<lparr>s_awaiting := True\<rparr>)"
    using s(1) gate_fields_awaiting [OF run_rc_gate, of True rc ?s] by (auto simp: start_def Let_def)
  then show "s_running (start h rc s)" by (auto dest: gate_fields_running)
  have "gated ?s" "gated (?s\<lparr>s_awaiting := True\<rparr>)"
    using q by (auto simp: gated_def gate_fields_def setup_worker_def)
  with gf gate_cong(1) show "gated (start h rc s)" by blast
qed

text \<open>A line that strips to one word is a command line whose first word is that word.\<close>

lemma words_by_strip:
  assumes "strip_by sp xs = w" "w \<noteq> []" "\<forall>x\<in>set w. \<not> sp x"
  shows "words_by sp xs = [w]"
proof -
  let ?ys = "dropWhile sp xs"
  have "rev w = dropWhile sp (rev ?ys)" using assms(1) by (auto simp: strip_by_def)
  then obtain zs where zs: "?ys = w @ zs" "\<forall>z\<in>set zs. sp z"
    by (metis rev_append rev_rev_ident takeWhile_dropWhile_id set_rev set_takeWhileD)
  then have "takeWhile (\<lambda>x. \<not> sp x) ?ys = w" "dropWhile (\<lambda>x. \<not> sp x) ?ys = zs"
    using assms(3) by (cases zs; simp)+
  moreover have "words_by sp zs = []" using zs(2) by (subst words_by.simps) simp
  ultimately show ?thesis using assms(2) zs(1) by (subst words_by.simps) simp
qed

lemma setup_plan:
  assumes "setup_item (Some (l, m))"
  shows "run_plan extra compile pl l m = Execute l False"
proof -
  have "words_by py_space l = [u ''linux-setup'']"
    by (rule words_by_strip) (use assms in \<open>simp_all add: setup_item_def strip_def py_space_def\<close>)
  then have "first_word l = u ''linux-setup''" by (simp add: first_word_def)
  moreover have "u ''linux-setup'' \<in> set session_commands" by (simp add: session_commands_def)
  ultimately show ?thesis using assms by (simp add: run_plan_def setup_item_def)
qed

lemma gate_fields_clear [simp]: "gate_fields (clear_interrupt e s) = gate_fields s"
  by (simp add: clear_interrupt_def)

lemma gated_run_line:
  assumes "gated s" "s_awaiting s \<longrightarrow> p \<noteq> OpenBlock"
  shows "gated (run_line h l p r s) \<and> s_running (run_line h l p r s) = s_running s \<and>
    s_epoch (run_line h l p r s) = s_epoch s"
proof (cases p)
  case OpenBlock
  with assms show ?thesis by (simp add: run_line_def gated_def gate_fields_def)
next
  case (Execute src f)
  have g: "gated t \<and> s_running t = s_running s \<and> s_epoch t = s_epoch s" if "gate_fields t = gate_fields s" for t
    using assms(1) gate_cong(1) [OF that] gate_fields_running [OF that] by simp
  have e: "gated (execute_and_render h q s) \<and> s_running (execute_and_render h q s) = s_running s \<and>
      s_epoch (execute_and_render h q s) = s_epoch s" for q
  proof -
    let ?p = "if pending_text q \<noteq> [] then emit_text (crlf (pending_text q)) s else s"
    have p: "gate_fields ?p = gate_fields s" by simp
    then have "gate_fields (?p\<lparr>s_awaiting := False, s_start_after := True\<rparr>) = gate_fields (s\<lparr>s_awaiting := False\<rparr>)"
      using gate_fields_awaiting [OF p] by simp
    then have "gate_fields (execute_and_render h q s) \<in> {gate_fields s, gate_fields (s\<lparr>s_awaiting := False\<rparr>)}"
      using p unfolding execute_and_render_def Let_def by (auto simp del: emit_fields)
    then show ?thesis
    proof
      assume "gate_fields (execute_and_render h q s) = gate_fields s"
      then show ?thesis by (rule g)
    next
      assume "gate_fields (execute_and_render h q s) \<in> {gate_fields (s\<lparr>s_awaiting := False\<rparr>)}"
      then have "gate_fields (execute_and_render h q s) = gate_fields (s\<lparr>s_awaiting := False\<rparr>)" by simp
      from gate_cong(1) [OF this] gate_fields_running [OF this] show ?thesis
        by (simp add: gated_def gate_fields_def)
    qed
  qed
  show ?thesis
  proof (cases r)
    case (Finished q)
    with e [of q] gated_pylines [of "execute_and_render h q s"] Execute show ?thesis
      by (simp add: run_line_def Let_def)
  qed (use Execute in \<open>auto simp: run_line_def Let_def intro!: g\<close>)
qed

lemma gated_finish_command:
  assumes "gated s"
  shows "gated (finish_command h s) \<and> s_running (finish_command h s) = s_running s \<and>
    s_epoch (finish_command h s) = s_epoch s"
proof -
  have g: "gated t \<and> s_running t = s_running s \<and> s_epoch t = s_epoch s" if "gate_fields t = gate_fields s" for t
    using assms gate_cong(1) [OF that] gate_fields_running [OF that] by simp
  show ?thesis
  proof (cases "s_interrupt s \<or> s_start_after s")
    case True
    then show ?thesis by (intro g) (auto simp: finish_command_def Let_def)
  next
    case False
    have "gated (s\<lparr>s_busy := False, s_stdinq := []\<rparr>)" using g [of "s\<lparr>s_busy := False, s_stdinq := []\<rparr>"] by simp
    from gated_submits [OF this, of h "s_stdinq s"] False show ?thesis
      by (simp add: finish_command_def Let_def)
  qed
qed

lemma gate_inv_finish:
  assumes "gate_inv s" "s_worker s = Running l m"
  shows "gate_inv (worker_finish h l (run_plan extra compile (s_pylines s) l m) r s)"
proof -
  let ?p = "run_plan extra compile (s_pylines s) l m"
  let ?t = "finish_command h (run_line h l ?p r s)"
  have "gated s" using assms(1) by (simp add: gate_inv_def)
  moreover have "s_awaiting s \<longrightarrow> ?p \<noteq> OpenBlock"
    using \<open>gated s\<close> assms(2) setup_plan by (auto simp: gated_def gate_fields_def setup_worker_def)
  ultimately have r: "gated (run_line h l ?p r s)" "s_running (run_line h l ?p r s) = s_running s"
    "s_epoch (run_line h l ?p r s) = s_epoch s" using gated_run_line by blast+
  from gated_finish_command [OF r(1), of h] r
  have t: "gated ?t" "s_running ?t = s_running s" "s_epoch ?t = s_epoch s" by simp_all
  have "s_running s \<or> s_epoch s \<noteq> 0"
    using assms by (auto simp: gate_inv_def unstarted_def gate_fields_def)
  with t show ?thesis
    by (auto simp: worker_finish_def gate_inv_def gated_def unstarted_def gate_fields_def setup_worker_def)
qed

lemma session_step_gate: "session_step s t \<Longrightarrow> gate_inv s \<Longrightarrow> gate_inv t"
proof (induction rule: session_step.induct)
  case (step_start s h rc)
  then show ?case by (rule gate_inv_start)
next
  case (step_input s h d)
  then show ?case by (rule gate_inv_write)
next
  case (step_stop s)
  then show ?case
    by (simp add: stop_def Let_def gate_inv_def gated_def unstarted_def gate_fields_def shell_interrupt_def
        kill_pty_def setup_item_def split: option.split)
next
  case (step_take s)
  then show ?case
    by (auto simp: worker_take_def Let_def gate_inv_def gated_def unstarted_def gate_fields_def setup_worker_def
        split: list.splits option.splits)
next
  case (step_begin s l m e)
  then show ?case
    by (auto simp: worker_begin_def clear_interrupt_def gate_inv_def gated_def unstarted_def gate_fields_def
        setup_worker_def)
next
  case (step_stdin s l m r t)
  then show ?case
    by (auto simp: stdin_readline_def split: if_splits list.splits intro: gate_inv_cong)
next
  case (step_finish s l m h extra compile r)
  then show ?case by (intro gate_inv_finish)
qed (auto intro: gate_inv_cong)

lemma reachable_gate: "reachable s \<Longrightarrow> gate_inv s"
proof (induction rule: reachable.induct)
  case reach_init
  show ?case
    by (simp add: gate_inv_def gated_def unstarted_def gate_fields_def init_session_def)
qed (rule session_step_gate)

section \<open>Properties of every reachable session\<close>

lemma init_invs: "out_inv init_session" "history_inv init_session" "pty_inv init_session"
  by (auto simp: out_inv_def init_session_def keep_last_def history_inv_def pty_inv_def dead_def
      spawned_def intro: exI [of _ 0])

text \<open>Three states used as examples: just started, a line typed, the line being executed.\<close>

definition bare_host :: host where
  "bare_host = \<lparr>h_installed = False, h_proot = False, h_argv_error = None, h_fork_error = None,
     h_version = u ''3.11'', h_gate = True\<rparr>"

definition alpine_host :: host where
  "alpine_host = bare_host\<lparr>h_installed := True, h_proot := True\<rparr>"

definition test_host :: host where
  "test_host = bare_host\<lparr>h_gate := False\<rparr>"

lemma reach_start: "reachable (start h rc init_session)"
  by (rule reach_step [OF reach_init]) (simp add: step_start init_session_def)

lemma reach_typed: "reachable (write_input h d (start h rc init_session))"
  by (rule reach_step [OF reach_start step_input])

text \<open>
  C3: in every reachable state, under any interleaving of keyboard, PTY output and exits,
  resizes, toggles and worker steps, the scrollback is exactly the last mebibyte of what was
  written to the output, so a replay shows what the screen showed.
\<close>

theorem scrollback_is_last_output:
  assumes "reachable s"
  shows "s_scroll s = keep_last scrollback_max_size (written (s_log s)) \<and> length (s_scroll s) \<le> 2 ^ 20"
proof -
  have o: "out_inv s" using eff_out_inv [OF reachable_eff [OF assms] init_invs(1)] .
  moreover have "length (keep_last scrollback_max_size (written (s_log s))) \<le> scrollback_max_size"
    by (rule keep_last_length)
  ultimately show ?thesis by (simp only: out_inv_def scrollback_max_size_def)
qed

lemma scrollback_is_last_output_witness:
  "let s = write_input bare_host [108, 115] (start bare_host [] init_session)
   in s_scroll s = keep_last scrollback_max_size (written (s_log s)) \<and> length (s_scroll s) \<le> 2 ^ 20"
  unfolding Let_def by (rule scrollback_is_last_output) (rule reach_typed)

text \<open>
  the history never exceeds 500 entries, never holds an empty line or the same line twice
  in a row, and the position of an Up/Down browse is always an entry of it.
\<close>

theorem history_well_formed:
  assumes "reachable s"
  shows "length (s_history s) \<le> 500 \<and> distinct_adj (s_history s) \<and> [] \<notin> set (s_history s) \<and>
    (\<forall>i. s_hindex s = Some i \<longrightarrow> i < length (s_history s))"
  using eff_history_inv [OF reachable_eff [OF assms] init_invs(2)]
  by (simp add: history_inv_def HISTORY_LIMIT_def)

lemma history_well_formed_witness:
  "let s = write_input bare_host [108, 115, 13, 27, 91, 65] (start bare_host [] init_session)
   in length (s_history s) \<le> 500 \<and> distinct_adj (s_history s) \<and> [] \<notin> set (s_history s)"
  unfolding Let_def
  using history_well_formed [OF reach_typed [of bare_host "[108, 115, 13, 27, 91, 65]" "[]"]] by blast



lemma gate_fields_awaits: "gate_fields s = gate_fields t \<Longrightarrow> s_awaiting s = s_awaiting t"
  by (simp add: gate_fields_def)

lemma submit_awaits: "s_awaiting (submit_line h l s) = s_awaiting s"
proof (cases rule: submit_gate_cases [of h l s])
  case (3 m)
  then have "gate_fields (submit_line h l s) = gate_fields (enqueue l m s)" by (simp add: enqueued_def)
  from gate_fields_awaits [OF this] show ?thesis by (simp add: enqueue_def)
qed (auto dest: gate_fields_awaits)

lemma char_awaits: "s_awaiting (handle_char h c s) = s_awaiting s"
proof -
  have e: "s_awaiting (handle_escape_char c s) = s_awaiting s" by (rule gate_fields_awaits) simp
  have i: "s_awaiting (interrupt_running s) = s_awaiting s" "s_awaiting (leave_repl s) = s_awaiting s"
    by (simp_all add: interrupt_running_def leave_repl_def Let_def shell_interrupt_def emit_prompt_def
        fresh_line_def emit_text_def)
  show ?thesis by (simp add: handle_char_def e i Let_def submit_awaits emit_text_def)
qed

lemma write_awaits: "s_awaiting (write_input h d s) = s_awaiting s"
proof -
  have "s_awaiting (fold (handle_char h) cs t) = s_awaiting t" for cs t
    by (induction cs arbitrary: t) (simp_all add: char_awaits)
  then show ?thesis by (simp add: write_input_def split: option.split)
qed

lemma bare_awaits: "s_awaiting (start bare_host [] init_session)"
proof -
  have "s_awaiting (emit_setup_prompt t) = s_awaiting t" for t by (rule gate_fields_awaits) simp
  then show ?thesis by (simp add: start_def auto_start_alpine_def bare_host_def init_session_def Let_def)
qed

text \<open>
  C28: until Alpine is ready the setup gate lets nothing but \<open>linux-setup\<close> reach the worker,
  whatever is typed, pasted or left over as type-ahead.
\<close>

theorem setup_gate_only_linux_setup:
  assumes "reachable s" and "s_awaiting s"
  shows "(\<forall>l m. Some (l, m) \<in> set (s_cmdq s) \<longrightarrow> strip l = u ''linux-setup'' \<and> m = Shell) \<and>
    (\<forall>l m. s_worker s = Running l m \<longrightarrow> strip l = u ''linux-setup'' \<and> m = Shell)"
proof -
  have "gated s" using reachable_gate [OF assms(1)] by (simp add: gate_inv_def)
  with assms(2) have "\<forall>i\<in>set (s_cmdq s). setup_item i" "setup_worker (s_worker s)"
    by (simp_all add: gated_def gate_fields_def)
  then show ?thesis by (force simp: setup_item_def setup_worker_def)
qed

end
