(* ===== verification/PtySessionProps.thy ===== *)
theory PtySessionProps
  imports PtySessionInv
begin

text \<open>
  Functional behaviour of a terminal session: what a typed line becomes, what Ctrl+C does to
  the command that is starting and to the type-ahead, what the end of the Alpine shell leads
  to, and where the prompt is placed.
\<close>

section \<open>Line editing\<close>

text \<open>The line buffer after a sequence of printable keys and backspaces.\<close>

fun edit :: "ustr \<Rightarrow> ustr \<Rightarrow> ustr" where
  "edit buf [] = buf"
| "edit buf (c # cs) = edit (if c = 127 \<or> c = 8 then butlast buf else buf @ [c]) cs"

definition plain_key :: "nat \<Rightarrow> bool" where
  "plain_key c \<longleftrightarrow> scalar c \<and> (c = 8 \<or> 32 \<le> c)"

definition edit_state :: "session \<Rightarrow> bool \<times> nat option \<times> bool \<times> ustr list \<times> (ustr \<times> mode) option list \<times> mode \<times> bool \<times> ustr list" where
  "edit_state s = (s_running s, s_pty s, s_busy s, s_stdinq s, s_cmdq s, s_mode s, s_awaiting s, s_pylines s)"

lemma plain_key_char:
  assumes "plain_key c" "s_esc s = NoEsc"
  shows "s_line (handle_char h c s) = edit (s_line s) [c] \<and> s_esc (handle_char h c s) = NoEsc \<and>
    edit_state (handle_char h c s) = edit_state s"
  using assms by (auto simp: handle_char_def plain_key_def emit_text_def edit_state_def)

lemma plain_keys:
  "(\<And>c. c \<in> set cs \<Longrightarrow> plain_key c) \<Longrightarrow> s_esc s = NoEsc \<Longrightarrow>
     s_line (fold (handle_char h) cs s) = edit (s_line s) cs \<and> s_esc (fold (handle_char h) cs s) = NoEsc \<and>
     edit_state (fold (handle_char h) cs s) = edit_state s"
proof (induction cs arbitrary: s)
  case (Cons c cs)
  have c: "plain_key c" using Cons.prems(1) by simp
  from plain_key_char [OF c Cons.prems(2), of h]
  have h: "s_line (handle_char h c s) = edit (s_line s) [c]" "s_esc (handle_char h c s) = NoEsc"
    "edit_state (handle_char h c s) = edit_state s" by blast+
  have "s_line (fold (handle_char h) cs (handle_char h c s)) = edit (s_line (handle_char h c s)) cs \<and>
      s_esc (fold (handle_char h) cs (handle_char h c s)) = NoEsc \<and>
      edit_state (fold (handle_char h) cs (handle_char h c s)) = edit_state (handle_char h c s)"
    using Cons.prems(1) h(2) by (intro Cons.IH) simp_all
  with h show ?case by simp
qed simp

text \<open>A line that is an ordinary command in shell mode: not blank, and no word the session handles itself.\<close>

definition ordinary :: "ustr \<Rightarrow> bool" where
  "ordinary l \<longleftrightarrow> strip l \<notin> {[], u ''python'', u ''python3'', u ''linux'', u ''alpine''}"

lemma submit_ordinary:
  assumes "ordinary l" "s_mode s = Shell" "\<not> s_awaiting s" "\<not> s_busy s"
  shows "submit_line h l s = enqueue l Shell (history_record (strip l) s)"
  using assms by (simp add: submit_line_def ordinary_def Let_def)

text \<open>Typing a line and Enter submits the edited line to a session that is otherwise as before.\<close>

lemma typed_submit:
  assumes "s_running s" "s_pty s = None" "s_esc s = NoEsc" "\<forall>c\<in>set keys. plain_key c"
  obtains e where "edit_state e = edit_state s"
    "write_input h (utf8_encode (keys @ [CR])) s = (submit_line h (edit (s_line s) keys) e)\<lparr>s_line := []\<rparr>"
proof -
  let ?m = "fold (handle_char h) keys s"
  have sc: "\<And>c. c \<in> set (keys @ [CR]) \<Longrightarrow> scalar c"
    using assms(4) by (auto simp: plain_key_def scalar_def)
  have dec: "utf8_replace (utf8_encode (keys @ [CR])) = keys @ [CR]"
    by (rule utf8_replace_encode) (rule sc)
  have w: "write_input h (utf8_encode (keys @ [CR])) s = handle_char h CR ?m"
    using assms(1,2) by (simp add: write_input_def dec del: utf8_encode_simps)
  have m: "s_line ?m = edit (s_line s) keys" "s_esc ?m = NoEsc" "edit_state ?m = edit_state s"
    using plain_keys [of keys s h] assms(3,4) by auto
  have "handle_char h CR ?m = (submit_line h (edit (s_line s) keys) (emit crlf_bytes ?m))\<lparr>s_line := []\<rparr>"
    using m(1,2) by (simp add: handle_char_def Let_def)
  moreover have "edit_state (emit crlf_bytes ?m) = edit_state s" using m(3) by (simp add: edit_state_def)
  ultimately show ?thesis using that w by simp
qed

text \<open>
  C39: a typed line, edited with backspaces and ended by Enter, reaches its reader whole: while
  a command runs it becomes one line of its standard input, otherwise (for an ordinary
  command) one entry of the command queue; the line buffer is empty again.
\<close>

theorem typed_line_delivered:
  assumes "s_running s" and "s_pty s = None" and "s_esc s = NoEsc"
    and "\<forall>c\<in>set keys. plain_key c" and "line = edit (s_line s) keys"
    and "s_busy s \<or> (ordinary line \<and> s_mode s = Shell \<and> \<not> s_awaiting s)"
  shows "let t = write_input h (utf8_encode (keys @ [CR])) s in
    s_line t = [] \<and>
    (if s_busy s then s_stdinq t = s_stdinq s @ [line] \<and> s_cmdq t = s_cmdq s
     else s_cmdq t = s_cmdq s @ [Some (line, Shell)] \<and> s_stdinq t = s_stdinq s)"
proof -
  obtain e where e: "edit_state e = edit_state s"
    and w: "write_input h (utf8_encode (keys @ [CR])) s = (submit_line h line e)\<lparr>s_line := []\<rparr>"
    using typed_submit [OF assms(1-4), of h] assms(5) by metis
  show ?thesis
  proof (cases "s_busy s")
    case True
    with e have "submit_line h line e = e\<lparr>s_stdinq := s_stdinq e @ [line]\<rparr>"
      by (simp add: submit_line_def edit_state_def)
    with True e show ?thesis unfolding Let_def w by (simp add: edit_state_def)
  next
    case False
    with assms(6) e have "submit_line h line e = enqueue line Shell (history_record (strip line) e)"
      by (intro submit_ordinary) (auto simp: edit_state_def)
    with False e show ?thesis unfolding Let_def w
      by (simp add: edit_state_def enqueue_def history_record_def Let_def)
  qed
qed

definition busy_session :: session where
  "busy_session = init_session\<lparr>s_running := True, s_busy := True, s_worker := Running (u ''cat'') Shell\<rparr>"

lemma typed_line_delivered_witness:
  "let t = write_input bare_host (utf8_encode ([111, 120, 127, 107] @ [CR])) busy_session in
    s_line t = [] \<and>
    (if s_busy busy_session then s_stdinq t = s_stdinq busy_session @ [[111, 107]] \<and> s_cmdq t = s_cmdq busy_session
     else s_cmdq t = s_cmdq busy_session @ [Some ([111, 107], Shell)] \<and> s_stdinq t = s_stdinq busy_session)"
  by (rule typed_line_delivered) (simp_all add: busy_session_def init_session_def plain_key_def scalar_def)

text \<open>The setup gate of \<open>PtySessionInv\<close> at work: the one line it lets through.\<close>

lemma setup_gate_only_linux_setup_witness:
  "let s = write_input bare_host (utf8_encode (u ''linux-setup'' @ [CR])) (start bare_host [] init_session)
   in \<exists>l m. Some (l, m) \<in> set (s_cmdq s) \<and> strip l = u ''linux-setup'' \<and> m = Shell"
proof -
  let ?i = "start bare_host [] init_session"
  let ?s = "write_input bare_host (utf8_encode (u ''linux-setup'' @ [CR])) ?i"
  have i: "s_running ?i" "s_pty ?i = None" "s_esc ?i = NoEsc" "s_line ?i = []" "\<not> s_busy ?i"
    by (simp_all add: start_def auto_start_alpine_def bare_host_def init_session_def Let_def
        emit_setup_prompt_def fresh_line_def del: b_Cons)
  have k: "\<forall>c\<in>set (u ''linux-setup''). plain_key c" "edit [] (u ''linux-setup'') = u ''linux-setup''"
    "strip (u ''linux-setup'') = u ''linux-setup''" "u ''linux-setup'' \<noteq> []"
    by (simp_all add: plain_key_def scalar_def strip_def strip_by_def py_space_def)
  obtain e where e: "edit_state e = edit_state ?i"
    "?s = (submit_line bare_host (u ''linux-setup'') e)\<lparr>s_line := []\<rparr>"
    using typed_submit [OF i(1-3) k(1), of bare_host] i(4) k(2) by metis
  have "submit_line bare_host (u ''linux-setup'') e
      = enqueue (u ''linux-setup'') Shell (history_record (u ''linux-setup'') e)"
    using e(1) i(5) bare_awaits k(3,4) by (simp add: submit_line_def edit_state_def Let_def del: u_Cons)
  then have q: "Some (u ''linux-setup'', Shell) \<in> set (s_cmdq ?s)" using e(2) by (simp add: enqueue_def del: u_Cons)
  have "s_awaiting ?s" by (simp add: write_awaits bare_awaits del: utf8_encode_simps u_Cons)
  from setup_gate_only_linux_setup [OF reach_typed this] q show ?thesis unfolding Let_def by blast
qed

section \<open>Interrupts and type-ahead\<close>

lemma ctrl_c_busy:
  assumes "s_running t" "s_pty t = None" "s_esc t = NoEsc" "s_busy t"
  shows "s_interrupt (write_input h [3] t)" "s_epoch (write_input h [3] t) = s_epoch t + 1"
    "s_busy (write_input h [3] t)"
proof -
  have "utf8_replace [3] = [3]" using utf8_replace_encode [of "[3]"] by (simp add: utf8_enc1_def scalar_def)
  then have "write_input h [3] t = interrupt_running t"
    using assms by (simp add: write_input_def handle_char_def)
  with assms(4) show "s_interrupt (write_input h [3] t)" "s_epoch (write_input h [3] t) = s_epoch t + 1"
    "s_busy (write_input h [3] t)"
    by (simp_all add: interrupt_running_def shell_interrupt_def Let_def)
qed

text \<open>
  Ctrl+C pressed after the worker has taken a command but before it cleared the latch is
  not lost: the command starts with the interrupt flag set, so the checks at its start see it.
\<close>

theorem ctrl_c_survives_startup:
  assumes "s_running s" and "s_pty s = None" and "s_esc s = NoEsc" and "s_cmdq s = Some (l, m) # q"
  shows "let t = worker_take s; t' = worker_begin l m (s_epoch s) (write_input h [3] t) in
    s_worker t = Claimed l m (s_epoch s) \<and> s_worker t' = Running l m \<and> s_busy t' \<and> s_interrupt t' \<and>
    \<not> s_interrupt (worker_begin l m (s_epoch s) t)"
proof -
  let ?t = "worker_take s"
  have t: "?t = s\<lparr>s_cmdq := q, s_busy := True, s_worker := Claimed l m (s_epoch s)\<rparr>"
    using assms by (simp add: worker_take_def Let_def)
  have i: "s_interrupt (write_input h [3] ?t)" "s_epoch (write_input h [3] ?t) = s_epoch s + 1"
    "s_busy (write_input h [3] ?t)"
    using assms ctrl_c_busy [of ?t h] t by simp_all
  show ?thesis unfolding Let_def
    using i by (simp add: worker_begin_def clear_interrupt_def) (simp add: t)
qed

lemma ctrl_c_survives_startup_witness:
  "let s = busy_session\<lparr>s_cmdq := [Some (u ''sleep 9'', Shell)]\<rparr>;
       t = worker_take s; t' = worker_begin (u ''sleep 9'') Shell (s_epoch s) (write_input bare_host [3] t) in
    s_worker t = Claimed (u ''sleep 9'') Shell (s_epoch s) \<and> s_worker t' = Running (u ''sleep 9'') Shell \<and>
    s_busy t' \<and> s_interrupt t' \<and> \<not> s_interrupt (worker_begin (u ''sleep 9'') Shell (s_epoch s) t)"
  unfolding Let_def
  by (rule ctrl_c_survives_startup [unfolded Let_def, where q = "[]"]) (simp_all add: busy_session_def init_session_def)

lemma fold_submit_ordinary:
  "(\<And>l. l \<in> set ls \<Longrightarrow> ordinary l) \<Longrightarrow> s_mode s = Shell \<Longrightarrow> \<not> s_awaiting s \<Longrightarrow> \<not> s_busy s \<Longrightarrow>
     s_cmdq (fold (submit_line h) ls s) = s_cmdq s @ map (\<lambda>l. Some (l, Shell)) ls \<and>
     s_stdinq (fold (submit_line h) ls s) = s_stdinq s"
proof (induction ls arbitrary: s)
  case (Cons l ls)
  let ?t = "enqueue l Shell (history_record (strip l) s)"
  have "submit_line h l s = ?t" using Cons.prems by (intro submit_ordinary) simp_all
  moreover have "s_cmdq (fold (submit_line h) ls ?t) = s_cmdq ?t @ map (\<lambda>l. Some (l, Shell)) ls \<and>
      s_stdinq (fold (submit_line h) ls ?t) = s_stdinq ?t"
    using Cons.prems by (intro Cons.IH) (simp_all add: enqueue_def)
  ultimately show ?case by (simp add: enqueue_def history_record_def Let_def)
qed simp

text \<open>
  the lines typed while a command ran and not read by it become the next commands, in the
  order typed; after Ctrl+C they are thrown away instead, and the latch is reset.
\<close>

theorem type_ahead:
  assumes "\<not> s_start_after s" and "\<forall>l\<in>set (s_stdinq s). ordinary l" and "s_mode s = Shell" and "\<not> s_awaiting s"
  shows "let t = finish_command h s in
    \<not> s_busy t \<and> s_stdinq t = [] \<and> \<not> s_interrupt t \<and>
    s_cmdq t = s_cmdq s @ (if s_interrupt s then [] else map (\<lambda>l. Some (l, Shell)) (s_stdinq s))"
proof (cases "s_interrupt s")
  case True
  then show ?thesis by (simp add: finish_command_def Let_def clear_interrupt_def)
next
  case False
  let ?s = "s\<lparr>s_busy := False, s_stdinq := []\<rparr>"
  have f: "finish_command h s = fold (submit_line h) (s_stdinq s) ?s"
    using False assms(1) by (simp add: finish_command_def Let_def)
  have keep: "s_busy (fold (submit_line h) ls t) = s_busy t \<and> s_interrupt (fold (submit_line h) ls t) = s_interrupt t" for ls t
  proof (induction ls arbitrary: t)
    case (Cons l ls)
    have e: "s_busy (emit_prompt t) = s_busy t \<and> s_interrupt (emit_prompt t) = s_interrupt t"
      "s_busy (emit_setup_prompt t) = s_busy t \<and> s_interrupt (emit_setup_prompt t) = s_interrupt t" for t
      by (simp_all add: emit_prompt_def emit_setup_prompt_def fresh_line_def Let_def emit_text_def)
    have p: "s_busy (enter_linux_pty h t) = s_busy t \<and> s_interrupt (enter_linux_pty h t) = s_interrupt t" for t
      by (simp add: enter_linux_pty_def Let_def e emit_text_def split: option.split)
    have "s_busy (submit_line h l t) = s_busy t \<and> s_interrupt (submit_line h l t) = s_interrupt t"
      by (simp add: submit_line_def Let_def enqueue_def e p enter_repl_def leave_repl_def emit_text_def
          history_record_def)
    with Cons.IH [of "submit_line h l t"] show ?case by simp
  qed simp
  have "s_cmdq (fold (submit_line h) (s_stdinq s) ?s) = s_cmdq ?s @ map (\<lambda>l. Some (l, Shell)) (s_stdinq s) \<and>
      s_stdinq (fold (submit_line h) (s_stdinq s) ?s) = s_stdinq ?s"
    using assms by (intro fold_submit_ordinary) auto
  with False keep [of "s_stdinq s" ?s] show ?thesis by (simp add: f)
qed

lemma type_ahead_witness:
  "let s = busy_session\<lparr>s_stdinq := [u ''ls'', u ''pwd'']\<rparr>; t = finish_command bare_host s in
    \<not> s_busy t \<and> s_stdinq t = [] \<and> \<not> s_interrupt t \<and>
    s_cmdq t = s_cmdq s @ (if s_interrupt s then [] else map (\<lambda>l. Some (l, Shell)) (s_stdinq s))"
proof -
  have "ordinary (u ''ls'')" "ordinary (u ''pwd'')"
    by (simp_all add: ordinary_def strip_def strip_by_def py_space_def)
  then show ?thesis unfolding Let_def
    by (intro type_ahead [unfolded Let_def]) (simp_all add: busy_session_def init_session_def)
qed

section \<open>The end of the Alpine shell\<close>

text \<open>
  when the Alpine shell ends and Alpine is available, the session opens a new PTY, with
  the current geometry; a second report about the old one changes nothing, so a stale reader
  cannot take the new shell down.
\<close>

theorem shell_exit_reopens:
  assumes "reachable s" and "s_pty s = Some p" and "\<not> s_busy s" and "auto_start_alpine h"
    and "h_argv_error h = None" and "h_fork_error h = None"
  shows "let t = pty_exited h p code s in
    s_pty t = Some (s_next_pty s) \<and> geometry (s_next_pty s) (s_log t) = Some (s_rows s, s_cols s) \<and>
    pty_exited h' p code' t = t"
proof -
  have r: "s_running s" "p < s_next_pty s"
    using eff_pty_inv [OF reachable_eff [OF assms(1)] init_invs(3)] assms(2) by (auto simp: pty_inv_def)
  define t where "t = emit_text ([CR, LF] @ u ''[Alpine shell exited (code '' @
      code_text code @ u '')]'' @ [CR, LF]) (log (PtyGone p) (s\<lparr>s_pty := None\<rparr>))"
  have t: "s_running t" "s_pty t = None" "\<not> s_busy t" "s_next_pty t = s_next_pty s" "s_rows t = s_rows s"
    "s_cols t = s_cols s" using r assms(3) by (simp_all add: t_def emit_text_def)
  then have e: "pty_exited h p code s = enter_linux_pty h t"
    using assms(2,4) by (simp only: pty_exited_def Let_def t_def) simp
  have "s_pty (enter_linux_pty h t) = Some (s_next_pty t)"
    "geometry (s_next_pty t) (s_log (enter_linux_pty h t)) = Some (s_rows t, s_cols t)"
    using t assms(4-6) by (simp_all add: enter_linux_pty_def auto_start_alpine_def Let_def del: b_Cons)
  with t r(2) show ?thesis by (simp add: e Let_def) (simp add: pty_exited_def)
qed

lemma shell_exit_reopens_witness:
  "let t = pty_exited alpine_host 0 (Some 0) (start alpine_host [] init_session) in
    s_pty t = Some (s_next_pty (start alpine_host [] init_session)) \<and>
    geometry (s_next_pty (start alpine_host [] init_session)) (s_log t)
      = Some (s_rows (start alpine_host [] init_session), s_cols (start alpine_host [] init_session)) \<and>
    pty_exited alpine_host 0 None t = t"
proof (rule shell_exit_reopens [OF reach_start])
  show "s_pty (start alpine_host [] init_session) = Some 0" "\<not> s_busy (start alpine_host [] init_session)"
    by (simp_all add: start_def auto_start_alpine_def enter_linux_pty_def alpine_host_def bare_host_def
        init_session_def Let_def log_def del: b_Cons)
qed (simp_all add: auto_start_alpine_def alpine_host_def bare_host_def)

section \<open>The prompt\<close>

text \<open>
  when a program clears the screen and goes on writing in the same chunk, the session
  still believes the cursor to be at a line start: the prompt is pasted onto the unterminated
  text, which \<open>_emit_prompt\<close> promises never to do.
\<close>

theorem prompt_pasted_after_clear:
  "let s = emit ([27, 91, 50, 74] @ b ''hello'') (init_session\<lparr>s_running := True\<rparr>)
   in s_at_start s \<and> written (s_log (emit_prompt s)) = written (s_log s) @ b ''zmux:~$ '' \<and>
      suffix (b ''hello'') (written (s_log s))"
proof -
  have f: "filter_pty_controls [] ([27, 91, 50, 74] @ b ''hello'') = ([27, 91, 50, 74] @ b ''hello'', 0, [])"
    "filter_pty_controls [] (b ''zmux:~$ '') = (b ''zmux:~$ '', 0, [])"
    by code_simp+
  have e: "utf8_encode (u ''zmux:'' @ u ''~'' @ u ''$ '') = b ''zmux:~$ ''"
    by (simp add: utf8_enc1_def scalar_def)
  have l: "line_start ([27, 91, 50, 74] @ b ''hello'') True" by code_simp
  define d where "d = [27, 91, 50, 74] @ b ''hello''"
  let ?i = "init_session\<lparr>s_running := True\<rparr>"
  let ?s = "emit d ?i"
  have i: "s_tail ?i = []" "s_at_start ?i" "s_mode ?i = Shell" "s_cwd ?i = u ''~''" "written (s_log ?i) = []"
    by (simp_all add: init_session_def)
  have d: "filter_pty_controls (s_tail ?i) d = (d, 0, [])" "d \<noteq> []" "line_start d (s_at_start ?i)"
    using f(1) l i by (simp_all only: d_def i) simp
  have at: "s_at_start ?s" using d by (simp add: emit_def log_def)
  have s: "s_tail ?s = []" "written (s_log ?s) = d" using emit_output [OF d(1)] i by simp_all
  have "prompt ?s = u ''zmux:'' @ u ''~'' @ u ''$ ''" using i by (simp add: prompt_def)
  then have "written (s_log (emit_prompt ?s)) = d @ b ''zmux:~$ ''"
    using emit_output [of ?s "b ''zmux:~$ ''"] f(2) s at e
    by (simp only: emit_prompt_def fresh_line_def Let_def emit_text_def if_True)
  moreover have "suffix (b ''hello'') d" by (simp add: d_def suffix_def)
  ultimately show ?thesis using at s by (simp only: Let_def d_def)
qed

end
