(* ===== verification/WsFrame.thy ===== *)
theory WsFrame
  imports PyText
begin

text \<open>
  The RFC 6455 frame layer: \<open>_recv_exact\<close>, \<open>_read_frame\<close> and \<open>_send_frame\<close> of
  \<open>zmux/ws_server.py\<close>, the frame writer of \<open>tools/protocol_check.py\<close> (the client side)
  and the frame reader and writer of \<open>tools/mock_pty_ws_server.py\<close>.

  A socket is seen through its \<open>recv\<close>, an argument of the readers: \<open>recv n s\<close> returns
  at most \<open>n\<close> bytes and the socket after the call, and the empty list at end of stream.
  What the readers need of it is the locale \<open>byte_source\<close>; it is interpreted on the socket
  model \<open>sock\<close>, in which the network chooses how many of the available bytes each call
  delivers.
\<close>

section \<open>The byte-source interface\<close>

type_synonym 's recv_fun = "nat \<Rightarrow> 's \<Rightarrow> bytes \<times> 's"

function recv_exact_loop :: "'s recv_fun \<Rightarrow> nat \<Rightarrow> bytes \<Rightarrow> 's \<Rightarrow> exn + bytes \<times> 's" where
  "recv_exact_loop recv n data s =
     (if length data < n then
        (case recv (n - length data) s of (chunk, s') \<Rightarrow>
           if chunk = [] then Err ConnectionError
           else recv_exact_loop recv n (data @ chunk) s')
      else Ok (data, s))"
  by pat_completeness auto
termination
proof (relation "measure (\<lambda>(recv, n, data, s). n - length data)")
  fix recv :: "'s recv_fun" and n and data chunk :: bytes and s s' :: 's
  assume "length data < n" and "chunk \<noteq> []"
  then show "((recv, n, data @ chunk, s'), recv, n, data, s) \<in> measure (\<lambda>(recv, n, data, s). n - length data)"
    by (cases chunk) auto
qed simp

declare recv_exact_loop.simps [simp del]

definition recv_exact :: "'s recv_fun \<Rightarrow> nat \<Rightarrow> 's \<Rightarrow> exn + bytes \<times> 's" where
  "recv_exact recv n s = recv_exact_loop recv n [] s"

locale byte_source =
  fixes recv :: "nat \<Rightarrow> 's \<Rightarrow> bytes \<times> 's"
    and content :: "'s \<Rightarrow> bytes"
  assumes recv_content: "content s = fst (recv n s) @ content (snd (recv n s))"
    and recv_length: "length (fst (recv n s)) \<le> n"
    and recv_progress: "0 < n \<Longrightarrow> content s \<noteq> [] \<Longrightarrow> fst (recv n s) \<noteq> []"
begin

text \<open>However the bytes arrive, the loop returns exactly the next \<open>n\<close> of them, or fails.\<close>

lemma recv_exact_loop_flat:
  assumes "length data \<le> n"
  shows "map_sum id (apsnd content) (recv_exact_loop recv n data s) =
     (if n - length data \<le> length (content s)
      then Ok (data @ take (n - length data) (content s), drop (n - length data) (content s))
      else Err ConnectionError)"
  using assms
proof (induction recv \<equiv> recv n data s rule: recv_exact_loop.induct)
  case (1 n data s)
  obtain chunk s' where r: "recv (n - length data) s = (chunk, s')" by fastforce
  have c: "content s = chunk @ content s'" and l: "length chunk \<le> n - length data"
    using recv_content [of s "n - length data"] recv_length [of "n - length data" s] r by simp_all
  show ?case
  proof (cases "length data < n \<and> chunk \<noteq> []")
    case True
    then have "length data < n" by simp
    with l have "length (data @ chunk) \<le> n" by (unfold length_append) linarith
    with True r "1.hyps"
    have "map_sum id (apsnd content) (recv_exact_loop recv n (data @ chunk) s') =
     (if n - length (data @ chunk) \<le> length (content s')
      then Ok ((data @ chunk) @ take (n - length (data @ chunk)) (content s'),
               drop (n - length (data @ chunk)) (content s'))
      else Err ConnectionError)" by simp
    with True r c l show ?thesis by (subst recv_exact_loop.simps) auto
  next
    case False
    then consider "length data = n" | "length data < n" "chunk = []" using "1.prems" by linarith
    then show ?thesis
    proof cases
      case 1
      then show ?thesis by (subst recv_exact_loop.simps) simp
    next
      case 2
      then have "content s = []" using recv_progress [of "n - length data" s] r by auto
      with 2 r show ?thesis by (subst recv_exact_loop.simps) simp
    qed
  qed
qed

lemma recv_exact_flat:
  "map_sum id (apsnd content) (recv_exact recv n s) =
     (if n \<le> length (content s) then Ok (take n (content s), drop n (content s)) else Err ConnectionError)"
  using recv_exact_loop_flat [of "[]" n s] by (simp add: recv_exact_def)

lemma recv_exact_cases:
  obtains s' where "n \<le> length (content s)" "recv_exact recv n s = Ok (take n (content s), s')"
      "content s' = drop n (content s)"
    | "length (content s) < n" "recv_exact recv n s = Err ConnectionError"
  using recv_exact_flat [of n s] by (cases "recv_exact recv n s") (auto split: if_splits)

end

text \<open>The plain byte list as a source: the specification every other source refines.\<close>

definition flat_recv :: "nat \<Rightarrow> bytes \<Rightarrow> bytes \<times> bytes" where
  "flat_recv n bs = (take n bs, drop n bs)"

interpretation flat: byte_source flat_recv id
  by unfold_locales (auto simp: flat_recv_def)

text \<open>
  A TCP socket: \<open>sk_in\<close> is everything the peer will send before it closes, and
  \<open>sk_sched\<close> says how many bytes each successive \<open>recv\<close> finds available (at least one
  while the stream is open; everything when the schedule is exhausted).
\<close>

record sock =
  sk_in :: bytes
  sk_sched :: "nat list"

definition sock_recv :: "nat \<Rightarrow> sock \<Rightarrow> bytes \<times> sock" where
  "sock_recv n s =
     (let avail = (case sk_sched s of [] \<Rightarrow> length (sk_in s) | k # _ \<Rightarrow> max 1 k);
          m = min n avail
      in (take m (sk_in s), s\<lparr>sk_in := drop m (sk_in s), sk_sched := tl (sk_sched s)\<rparr>))"

interpretation tcp: byte_source sock_recv sk_in
  by unfold_locales (auto simp: sock_recv_def Let_def split: list.splits)

section \<open>Reading a frame\<close>

text \<open>\<open>bytes(b ^ masking_key[i % 4] for i, b in enumerate(payload))\<close>\<close>

definition xor_mask :: "bytes \<Rightarrow> bytes \<Rightarrow> bytes" where
  "xor_mask key p = map (\<lambda>(i, x). x XOR key ! (i mod 4)) (enumerate 0 p)"

definition read_len :: "'s recv_fun \<Rightarrow> nat \<Rightarrow> 's \<Rightarrow> exn + nat \<times> 's" where
  "read_len recv len7 s =
     (if len7 = 126 then
        (case recv_exact recv 2 s of Err e \<Rightarrow> Err e | Ok (lb, s) \<Rightarrow> Ok (from_big lb, s))
      else if len7 = 127 then
        (case recv_exact recv 8 s of Err e \<Rightarrow> Err e | Ok (lb, s) \<Rightarrow> Ok (from_big lb, s))
      else Ok (len7, s))"

definition read_frame :: "'s recv_fun \<Rightarrow> 's \<Rightarrow> exn + (nat \<times> bytes) \<times> 's" where
  "read_frame recv s =
     (case recv_exact recv 1 s of Err e \<Rightarrow> Err e
      | Ok (d1, s) \<Rightarrow>
          let opcode = unat (d1 ! 0 AND 0x0F) in
          (case recv_exact recv 1 s of Err e \<Rightarrow> Err e
           | Ok (d2, s) \<Rightarrow>
               let masked = (d2 ! 0 AND 0x80 \<noteq> 0); len7 = unat (d2 ! 0 AND 0x7F) in
               (case read_len recv len7 s of Err e \<Rightarrow> Err e
                | Ok (payload_len, s) \<Rightarrow>
                    (case (if masked then recv_exact recv 4 s else Ok ([], s)) of Err e \<Rightarrow> Err e
                     | Ok (masking_key, s) \<Rightarrow>
                         (case recv_exact recv payload_len s of Err e \<Rightarrow> Err e
                          | Ok (payload, s) \<Rightarrow>
                              Ok ((opcode,
                                   if masked \<and> masking_key \<noteq> [] then xor_mask masking_key payload
                                   else payload), s))))))"

text \<open>
  The mock server's reader asks for the two header bytes in one call and always applies a
  mask, all zeros when the frame is not masked.
\<close>

definition mock_read_frame :: "'s recv_fun \<Rightarrow> 's \<Rightarrow> exn + (nat \<times> bytes) \<times> 's" where
  "mock_read_frame recv s =
     (case recv_exact recv 2 s of Err e \<Rightarrow> Err e
      | Ok (hd2, s) \<Rightarrow>
          let opcode = unat (hd2 ! 0 AND 0x0F); masked = hd2 ! 1 AND 0x80;
              len7 = unat (hd2 ! 1 AND 0x7F) in
          (case read_len recv len7 s of Err e \<Rightarrow> Err e
           | Ok (len, s) \<Rightarrow>
               (case (if masked \<noteq> 0 then recv_exact recv 4 s else Ok ([0, 0, 0, 0], s)) of Err e \<Rightarrow> Err e
                | Ok (mk, s) \<Rightarrow>
                    (case recv_exact recv len s of Err e \<Rightarrow> Err e
                     | Ok (payload, s) \<Rightarrow> Ok ((opcode, xor_mask mk payload), s)))))"

lemma length_xor_mask [simp]: "length (xor_mask key p) = length p"
  by (simp add: xor_mask_def)

lemma nth_xor_mask: "i < length p \<Longrightarrow> xor_mask key p ! i = p ! i XOR key ! (i mod 4)"
  by (simp add: xor_mask_def nth_enumerate_eq)

lemma xor_mask_twice [simp]: "xor_mask key (xor_mask key p) = p"
  by (rule nth_equalityI) (simp_all add: nth_xor_mask xor.assoc)

lemma xor_mask_zero [simp]: "xor_mask [0, 0, 0, 0] p = p"
proof (rule nth_equalityI)
  fix i assume "i < length (xor_mask [0, 0, 0, 0] p)"
  moreover have "[0, 0, 0, 0 :: byte] ! (i mod 4) = 0"
    using nth_mem [of "i mod 4" "[0, 0, 0, 0 :: byte]"] by simp
  ultimately show "xor_mask [0, 0, 0, 0] p ! i = p ! i" by (simp add: nth_xor_mask)
qed simp

context byte_source
begin

text \<open>
  Reading a frame from any byte source refines reading it from the flat byte list: the way
  the network splits the stream is not observable.
\<close>

abbreviation absr :: "exn + 'a \<times> 's \<Rightarrow> exn + 'a \<times> bytes" where
  "absr \<equiv> map_sum id (apsnd content)"

lemma recv_exact_abs: "absr (recv_exact recv n s) = recv_exact flat_recv n (content s)"
  using recv_exact_flat [of n s] flat.recv_exact_flat [of n "content s"] by (simp add: sum.map_id0 prod.map_id0 apsnd_def split: if_splits)

lemma absr_bind:
  assumes "absr m = m'" "\<And>x s. absr (f (x, s)) = f' (x, content s)"
  shows "absr (case m of Err e \<Rightarrow> Err e | Ok r \<Rightarrow> f r) = (case m' of Err e \<Rightarrow> Err e | Ok r \<Rightarrow> f' r)"
  using assms by (auto split: sum.splits)

lemma read_len_abs: "absr (read_len recv n s) = read_len flat_recv n (content s)"
  unfolding read_len_def
  by (auto simp: recv_exact_abs intro!: absr_bind)

lemma read_frame_abs: "absr (read_frame recv s) = read_frame flat_recv (content s)"
  unfolding read_frame_def
  by (auto simp: recv_exact_abs read_len_abs Let_def split: prod.splits if_splits intro!: absr_bind)

lemma mock_read_frame_abs: "absr (mock_read_frame recv s) = mock_read_frame flat_recv (content s)"
  unfolding mock_read_frame_def
  by (auto simp: recv_exact_abs read_len_abs Let_def split: prod.splits if_splits intro!: absr_bind)

end

lemma flat_recv_exact [simp]:
  "recv_exact flat_recv n bs = (if n \<le> length bs then Ok (take n bs, drop n bs) else Err ConnectionError)"
  using flat.recv_exact_flat [of n bs]
  by (simp add: sum.map_id0 prod.map_id0 apsnd_def split: if_splits)

section \<open>Writing a frame\<close>

definition frame_header :: "exn \<Rightarrow> byte \<Rightarrow> byte \<Rightarrow> nat \<Rightarrow> exn + bytes" where
  "frame_header too_long op flag n =
     (if n < 126 then Ok [0x80 OR op, flag OR of_nat n]
      else if n \<le> 65535 then Ok ([0x80 OR op, flag OR 126] @ be_bytes 2 n)
      else if n < 256 ^ 8 then Ok ([0x80 OR op, flag OR 127] @ be_bytes 8 n)
      else Err too_long)"

definition send_frame :: "byte \<Rightarrow> bytes \<Rightarrow> exn + bytes" where
  "send_frame op payload =
     (case frame_header OverflowError op 0 (length payload) of Err e \<Rightarrow> Err e
      | Ok header \<Rightarrow> Ok (header @ payload))"

definition mock_send_frame :: "bytes \<Rightarrow> byte \<Rightarrow> exn + bytes" where
  "mock_send_frame payload op =
     (case frame_header StructError op 0 (length payload) of Err e \<Rightarrow> Err e
      | Ok header \<Rightarrow> Ok (header @ payload))"

definition client_send :: "bytes \<Rightarrow> bytes \<Rightarrow> byte \<Rightarrow> exn + bytes" where
  "client_send key payload op =
     (case frame_header StructError op 0x80 (length payload) of Err e \<Rightarrow> Err e
      | Ok header \<Rightarrow> Ok (header @ key @ xor_mask key payload))"

text \<open>The header bytes, read as numbers.\<close>

lemma byte_low4: "unat (x AND 0x0F :: byte) = unat x mod 16"
proof -
  have "x AND 0x0F = x mod 16" using take_bit_eq_mod [of 4 x] take_bit_eq_mask [of 4 x]
    by (simp add: mask_eq_exp_minus_1)
  then show ?thesis by (simp add: unat_mod)
qed

lemma byte_low7: "unat (x AND 0x7F :: byte) = unat x mod 128"
proof -
  have "x AND 0x7F = x mod 128" using take_bit_eq_mod [of 7 x] take_bit_eq_mask [of 7 x]
    by (simp add: mask_eq_exp_minus_1)
  then show ?thesis by (simp add: unat_mod)
qed

lemma byte_top: "(x :: byte) AND 0x80 = 0 \<longleftrightarrow> unat x < 128"
proof -
  have "bit (unat x) 7 \<longleftrightarrow> bit x 7" by (simp add: bit_unsigned_iff)
  then have "x AND 0x80 = 0 \<longleftrightarrow> even (unat x div 128)"
    using and_exp_eq_0_iff_not_bit [of x 7] bit_iff_odd [of "unat x" 7] by fastforce
  also have "\<dots> \<longleftrightarrow> unat x < 128"
  proof -
    have "unat x div 128 < 2" by (simp add: less_mult_imp_div_less)
    then have "even (unat x div 128) \<longleftrightarrow> unat x div 128 = 0" by (auto simp: less_2_cases_iff)
    then show ?thesis by auto
  qed
  finally show ?thesis .
qed

lemma byte_or80: "unat x < 128 \<Longrightarrow> unat (0x80 OR x :: byte) = 128 + unat x"
proof -
  assume x: "unat x < 128"
  then have "0x80 OR x = 0x80 + x"
    using disjunctive_add_eq_or [of "0x80" x] byte_top [of x] by (simp add: and.commute)
  with x show ?thesis by (simp add: unat_word_ariths)
qed

lemma opcode_read: "op < 16 \<Longrightarrow> unat ((0x80 OR op) AND 0x0F :: byte) = unat op"
proof -
  assume "op < 16"
  then have "unat op < 16" by (simp add: word_less_nat_alt)
  moreover from this have "(128 + unat op) mod 16 = unat op" by presburger
  ultimately show ?thesis using byte_or80 [of op] by (simp add: byte_low4)
qed

lemma len7_read:
  assumes "n < 128"
  shows "unat (of_nat n AND 0x7F :: byte) = n" "(of_nat n :: byte) AND 0x80 = 0"
    "unat ((0x80 OR of_nat n) AND 0x7F :: byte) = n" "(0x80 OR of_nat n :: byte) AND 0x80 \<noteq> 0"
  using assms byte_or80 [of "of_nat n"] by (simp_all add: byte_low7 byte_top)

lemma len7_flag:
  assumes "n < 128" "flag = 0 \<or> flag = (0x80 :: byte)"
  shows "unat ((flag OR of_nat n) AND 0x7F) = n" "((flag OR of_nat n) AND 0x80 = 0) = (flag = 0)"
  using assms len7_read [of n] by auto

section \<open>What is written is what is read\<close>

text \<open>
  A written header is two bytes and an extended length from which the readers recover the
  opcode, the mask flag and the payload length.
\<close>

lemma frame_header_read:
  assumes "frame_header e op flag n = Ok header" "flag = 0 \<or> flag = (0x80 :: byte)"
  obtains b2 ext where "header = (0x80 OR op) # b2 # ext"
    "(b2 AND 0x80 = 0) = (flag = 0)"
    "\<And>rest. read_len flat_recv (unat (b2 AND 0x7F)) (ext @ rest) = Ok (n, rest)"
proof -
  consider "n < 126" | "126 \<le> n" "n \<le> 65535" | "65535 < n" "n < 256 ^ 8"
    using assms(1) by (fastforce simp: frame_header_def split: if_splits)
  then show ?thesis
  proof cases
    case 1
    with assms have "header = [0x80 OR op, flag OR of_nat n]" by (simp add: frame_header_def)
    moreover have "unat ((flag OR of_nat n) AND 0x7F) = n" "((flag OR of_nat n) AND 0x80 = 0) = (flag = 0)"
      using len7_flag [of n flag] 1 assms(2) by simp_all
    ultimately show ?thesis
      using 1 by (intro that [of "flag OR of_nat n" "[]"]) (simp_all add: read_len_def)
  next
    case 2
    with assms have "header = [0x80 OR op, flag OR 126] @ be_bytes 2 n" by (simp add: frame_header_def)
    moreover have "unat ((flag OR 126) AND 0x7F) = 126" "((flag OR 126) AND 0x80 = 0) = (flag = 0)"
      using len7_flag [of 126 flag] assms(2) by simp_all
    ultimately show ?thesis
      using 2 by (intro that [of "flag OR 126" "be_bytes 2 n"]) (simp_all add: read_len_def)
  next
    case 3
    with assms have "header = [0x80 OR op, flag OR 127] @ be_bytes 8 n" by (simp add: frame_header_def)
    moreover have "unat ((flag OR 127) AND 0x7F) = 127" "((flag OR 127) AND 0x80 = 0) = (flag = 0)"
      using len7_flag [of 127 flag] assms(2) by simp_all
    ultimately show ?thesis
      using 3 by (intro that [of "flag OR 127" "be_bytes 8 n"]) (simp_all add: read_len_def)
  qed
qed

lemma read_frame_unmasked:
  assumes "frame_header e op 0 (length p) = Ok header" "op < 16"
  shows "read_frame flat_recv (header @ p @ rest) = Ok ((unat op, p), rest)"
proof -
  obtain b2 ext where h: "header = (0x80 OR op) # b2 # ext" "b2 AND 0x80 = 0"
    "\<And>rest. read_len flat_recv (unat (b2 AND 0x7F)) (ext @ rest) = Ok (length p, rest)"
    using assms(1) by (rule frame_header_read) auto
  show ?thesis by (simp add: read_frame_def h Let_def opcode_read [OF assms(2)])
qed

lemma read_frame_masked:
  assumes "frame_header e op 0x80 (length p) = Ok header" "op < 16" "length key = 4"
  shows "read_frame flat_recv (header @ key @ p @ rest) = Ok ((unat op, xor_mask key p), rest)"
proof -
  obtain b2 ext where h: "header = (0x80 OR op) # b2 # ext" "b2 AND 0x80 \<noteq> 0"
    "\<And>rest. read_len flat_recv (unat (b2 AND 0x7F)) (ext @ rest) = Ok (length p, rest)"
    using assms(1) by (rule frame_header_read) auto
  moreover have "key \<noteq> []" using assms(3) by auto
  ultimately show ?thesis using assms(3) by (simp add: read_frame_def Let_def opcode_read [OF assms(2)])
qed

lemma mock_read_frame_flat: "mock_read_frame flat_recv bs = read_frame flat_recv bs"
proof (cases bs)
  case (Cons x xs)
  then show ?thesis
    by (cases xs) (auto simp: mock_read_frame_def read_frame_def Let_def split: sum.splits)
qed (simp add: mock_read_frame_def read_frame_def)
lemma frame_header_Ok:
  "n < 256 ^ 8 \<Longrightarrow> \<exists>header. frame_header e op flag n = Ok header"
  by (simp add: frame_header_def)

lemma tcp_read_frame_Ok:
  "read_frame flat_recv (sk_in s) = Ok (r, rest) \<Longrightarrow>
     \<exists>s'. read_frame sock_recv s = Ok (r, s') \<and> sk_in s' = rest"
  using tcp.read_frame_abs [of s] by (cases "read_frame sock_recv s") (auto simp: apsnd_def)

text \<open>Reading is stable under more input, and fails only by reaching the end of the stream.\<close>

lemma read_len_mono:
  "read_len flat_recv n bs = Ok (m, r) \<Longrightarrow> read_len flat_recv n (bs @ t) = Ok (m, r @ t)"
  by (auto simp: read_len_def split: if_splits)

lemma read_frame_mono:
  "read_frame flat_recv bs = Ok (f, r) \<Longrightarrow> read_frame flat_recv (bs @ t) = Ok (f, r @ t)"
  by (auto simp: read_frame_def Let_def read_len_mono split: if_splits sum.splits)

lemma read_len_shrinks: "read_len flat_recv n bs = Ok (m, r) \<Longrightarrow> length r \<le> length bs"
  by (auto simp: read_len_def split: if_splits)

lemma read_frame_shrinks: "read_frame flat_recv bs = Ok (f, r) \<Longrightarrow> length r < length bs"
  by (auto simp: read_frame_def Let_def split: if_splits sum.splits dest!: read_len_shrinks)

lemma tcp_read_frame_shrinks: "read_frame sock_recv s = Ok (f, s') \<Longrightarrow> length (sk_in s') < length (sk_in s)"
  using tcp.read_frame_abs [of s] by (auto dest!: read_frame_shrinks [OF sym])

lemma tcp_mock_read_shrinks: "mock_read_frame sock_recv s = Ok (f, s') \<Longrightarrow> length (sk_in s') < length (sk_in s)"
  using tcp.mock_read_frame_abs [of s] by (auto simp: mock_read_frame_flat dest!: read_frame_shrinks [OF sym])

lemma read_len_Err: "read_len flat_recv n bs = Err e \<Longrightarrow> e = ConnectionError"
  by (auto simp: read_len_def split: if_splits)

lemma read_frame_Err: "read_frame flat_recv bs = Err e \<Longrightarrow> e = ConnectionError"
  by (auto simp: read_frame_def Let_def read_len_Err split: if_splits sum.splits)

lemma read_frame_prefix:
  assumes "read_frame flat_recv f = Ok (x, [])" "strict_prefix pre f"
  shows "read_frame flat_recv pre = Err ConnectionError"
proof (cases "read_frame flat_recv pre")
  case (Inl e)
  then show ?thesis using read_frame_Err [of pre e] by simp
next
  case (Inr r)
  obtain t where t: "f = pre @ t" "t \<noteq> []" using assms(2) by (auto simp: strict_prefix_def prefix_def)
  obtain y r' where "r = (y, r')" by fastforce
  with Inr t assms(1) show ?thesis using read_frame_mono [of pre y r' t] by simp
qed

section \<open>Properties of the frame layer\<close>

text \<open>
  C10: every frame the server writes (any payload that fits a 64-bit length) is read back as
  the same opcode and payload, leaving exactly the bytes that follow it, whatever way TCP
  splits the stream into \<open>recv\<close> results.
\<close>

theorem send_frame_roundtrip:
  assumes "op < 16" and "length payload < 256 ^ 8"
  shows "\<exists>frame. send_frame op payload = Ok frame \<and>
    (\<forall>rest sched. \<exists>s'. read_frame sock_recv \<lparr>sk_in = frame @ rest, sk_sched = sched\<rparr>
        = Ok ((unat op, payload), s') \<and> sk_in s' = rest)"
proof -
  obtain header where h: "frame_header OverflowError op 0 (length payload) = Ok header"
    using frame_header_Ok [OF assms(2)] by blast
  then have "send_frame op payload = Ok (header @ payload)" by (simp add: send_frame_def)
  moreover have "\<exists>s'. read_frame sock_recv \<lparr>sk_in = (header @ payload) @ rest, sk_sched = sched\<rparr>
      = Ok ((unat op, payload), s') \<and> sk_in s' = rest" for rest sched
    by (rule tcp_read_frame_Ok) (simp add: read_frame_unmasked [OF h assms(1)])
  ultimately show ?thesis by blast
qed

lemma send_frame_roundtrip_witness:
  "\<exists>frame. send_frame 1 [104, 105] = Ok frame \<and>
    (\<forall>rest sched. \<exists>s'. read_frame sock_recv \<lparr>sk_in = frame @ rest, sk_sched = sched\<rparr>
        = Ok ((unat (1 :: byte), [104, 105]), s') \<and> sk_in s' = rest)"
  by (rule send_frame_roundtrip) simp_all

text \<open>
  a masked client frame (any four-byte key) is read by the server as the unmasked payload
  and opcode, whatever way TCP splits the stream.
\<close>

theorem client_frame_unmasked:
  assumes "op < 16" and "length key = 4" and "length payload < 256 ^ 8"
  shows "\<exists>frame. client_send key payload op = Ok frame \<and>
    (\<forall>rest sched. \<exists>s'. read_frame sock_recv \<lparr>sk_in = frame @ rest, sk_sched = sched\<rparr>
        = Ok ((unat op, payload), s') \<and> sk_in s' = rest)"
proof -
  obtain header where h: "frame_header StructError op 0x80 (length (xor_mask key payload)) = Ok header"
    using frame_header_Ok [of "length payload" StructError op "0x80"] assms(3) by auto
  then have "client_send key payload op = Ok (header @ key @ xor_mask key payload)"
    by (simp add: client_send_def)
  moreover have "\<exists>s'. read_frame sock_recv
        \<lparr>sk_in = (header @ key @ xor_mask key payload) @ rest, sk_sched = sched\<rparr>
      = Ok ((unat op, payload), s') \<and> sk_in s' = rest" for rest sched
    by (rule tcp_read_frame_Ok) (simp add: read_frame_masked [OF h assms(1,2)])
  ultimately show ?thesis by blast
qed

lemma client_frame_unmasked_witness:
  "\<exists>frame. client_send [1, 2, 3, 4] [104, 105] 1 = Ok frame \<and>
    (\<forall>rest sched. \<exists>s'. read_frame sock_recv \<lparr>sk_in = frame @ rest, sk_sched = sched\<rparr>
        = Ok ((unat (1 :: byte), [104, 105]), s') \<and> sk_in s' = rest)"
  by (rule client_frame_unmasked) simp_all

text \<open>
  a connection that closes inside a frame is reported as a closed connection; no frame is
  ever made up from a part of one.
\<close>

theorem truncated_frame_fails:
  assumes "op < 16" and "send_frame op payload = Ok frame" and "strict_prefix (sk_in s) frame"
  shows "read_frame sock_recv s = Err ConnectionError"
proof -
  obtain header where "frame_header OverflowError op 0 (length payload) = Ok header"
    "frame = header @ payload" using assms(2) by (auto simp: send_frame_def split: sum.splits)
  then have "read_frame flat_recv frame = Ok ((unat op, payload), [])"
    using read_frame_unmasked [of OverflowError op payload header "[]"] assms(1) by simp
  then have "read_frame flat_recv (sk_in s) = Err ConnectionError"
    using assms(3) by (rule read_frame_prefix)
  then show ?thesis using tcp.read_frame_abs [of s] by (cases "read_frame sock_recv s") auto
qed

lemma truncated_frame_fails_witness:
  "read_frame sock_recv \<lparr>sk_in = [129, 2, 104], sk_sched = [1, 1, 1]\<rparr> = Err ConnectionError"
  by (rule truncated_frame_fails [of 1 "[104, 105]" "[129, 2, 104, 105]"])
    (simp_all add: send_frame_def frame_header_def strict_prefix_def)

text \<open>
  the reader of the mock server, which asks for both header bytes at once and always
  applies a mask, and the reader of the server give the same frames, failures and remaining
  bytes on every stream.
\<close>

theorem mock_reader_equiv:
  "map_sum id (apsnd sk_in) (mock_read_frame sock_recv s) = map_sum id (apsnd sk_in) (read_frame sock_recv s)"
  by (simp add: tcp.mock_read_frame_abs tcp.read_frame_abs mock_read_frame_flat)

end
