(* ===== verification/WsHandshake.thy ===== *)
theory WsHandshake
  imports WsFrame "HOL-Library.AList"
begin

text \<open>
  The opening handshake of \<open>zmux/ws_server.py\<close>: reading the HTTP request head
  (\<open>_read_http_headers\<close>), the access token in the query string (\<open>_verify_token\<close>, with the
  parts of \<open>urllib.parse\<close> it goes through) and the accept key (\<open>_compute_accept_key\<close>).
  Parameters: \<open>lower\<close> is \<open>str.lower\<close>, \<open>netloc_ok\<close> the validity checks \<open>urlsplit\<close> makes on the
  network location, \<open>sha1\<close> the digest.
\<close>

section \<open>The request head\<close>

text \<open>\<open>xs.split(pat)\<close> for a non-empty separator.\<close>

function split_sub :: "'a list \<Rightarrow> 'a list \<Rightarrow> 'a list list" where
  "split_sub pat xs =
     (case find_sub pat xs of
        None \<Rightarrow> [xs]
      | Some i \<Rightarrow> if pat = [] then [xs] else take i xs # split_sub pat (drop (i + length pat) xs))"
  by pat_completeness auto
termination
proof (relation "measure (\<lambda>(pat, xs). length xs)", simp)
  fix pat xs :: "'a list" and i
  assume i: "find_sub pat xs = Some i" and "pat \<noteq> []"
  then have "0 < length pat" by simp
  with find_sub_Some_split [OF i] show "((pat, drop (i + length pat) xs), pat, xs) \<in> measure (\<lambda>(pat, xs). length xs)"
    by (simp del: length_greater_0_conv)
qed

declare split_sub.simps [simp del]

abbreviation (input) CRLF :: bytes where "CRLF \<equiv> [13, 10]"

function read_until_blank :: "sock \<Rightarrow> bytes \<Rightarrow> bytes \<times> sock" where
  "read_until_blank s buffer =
     (if occurs (CRLF @ CRLF) buffer then (buffer, s)
      else case sock_recv 1024 s of (chunk, s') \<Rightarrow>
        if chunk = [] then (buffer, s') else read_until_blank s' (buffer @ chunk))"
  by pat_completeness auto
termination
proof (relation "measure (\<lambda>(s, buffer). length (sk_in s))", simp)
  fix s :: sock and chunk s'
  assume "(chunk, s') = sock_recv 1024 s" "chunk \<noteq> []"
  then show "((s', buffer @ chunk), s, buffer) \<in> measure (\<lambda>(s, buffer). length (sk_in s))" for buffer
    using tcp.recv_content [of s 1024] by (cases "sock_recv 1024 s") (auto simp: neq_Nil_conv)
qed

declare read_until_blank.simps [simp del]

definition header_fields :: "(ustr \<Rightarrow> ustr) \<Rightarrow> ustr list \<Rightarrow> (ustr \<times> ustr) list" where
  "header_fields lower lines =
     foldl (\<lambda>headers line. case split_once [58] line of
         (key, Some val) \<Rightarrow> AList.update (lower (strip_by py_space key)) (strip_by py_space val) headers
       | (_, None) \<Rightarrow> headers) [] lines"

definition read_http_headers :: "(ustr \<Rightarrow> ustr) \<Rightarrow> sock \<Rightarrow> ((ustr \<times> ustr) list \<times> ustr) \<times> sock" where
  "read_http_headers lower s =
     (case read_until_blank s [] of (buffer, s) \<Rightarrow>
        if buffer = [] then (([], []), s)
        else
          let header_part = utf8_ignore (fst (split_once (CRLF @ CRLF) buffer));
              lines = split_sub [CR, LF] header_part
          in ((header_fields lower (tl lines), hd lines), s))"

section \<open>The token\<close>

text \<open>\<open>urllib.parse.urlsplit\<close>, as far as the query depends on it; \<open>None\<close> is its \<open>ValueError\<close>.\<close>

definition ascii_alpha :: "nat \<Rightarrow> bool" where
  "ascii_alpha c \<longleftrightarrow> (65 \<le> c \<and> c \<le> 90) \<or> (97 \<le> c \<and> c \<le> 122)"

definition scheme_char :: "nat \<Rightarrow> bool" where
  "scheme_char c \<longleftrightarrow> ascii_alpha c \<or> (48 \<le> c \<and> c \<le> 57) \<or> c \<in> {43, 45, 46}"

definition drop_scheme :: "ustr \<Rightarrow> ustr" where
  "drop_scheme url =
     (case split_once [58] url of
        (sch, Some rest) \<Rightarrow>
          if sch \<noteq> [] \<and> ascii_alpha (hd sch) \<and> list_all scheme_char sch then rest else url
      | (_, None) \<Rightarrow> url)"

definition url_query :: "(ustr \<Rightarrow> bool) \<Rightarrow> ustr \<Rightarrow> ustr option" where
  "url_query netloc_ok url0 =
     (let url = filter (\<lambda>c. c \<notin> {9, 13, 10}) (dropWhile (\<lambda>c. c \<le> 32) url0);
          url = drop_scheme url;
          has_netloc = (take 2 url = [47, 47]);
          netloc = (if has_netloc then takeWhile (\<lambda>c. c \<notin> {47, 63, 35}) (drop 2 url) else []);
          url = (if has_netloc then dropWhile (\<lambda>c. c \<notin> {47, 63, 35}) (drop 2 url) else url);
          url = fst (split_once [35] url)
      in if has_netloc \<and> \<not> netloc_ok netloc then None
         else Some (case snd (split_once [63] url) of None \<Rightarrow> [] | Some query \<Rightarrow> query))"

definition hex_digit :: "nat \<Rightarrow> nat option" where
  "hex_digit c = (if 48 \<le> c \<and> c \<le> 57 then Some (c - 48) else if 65 \<le> c \<and> c \<le> 70 then Some (c - 55)
     else if 97 \<le> c \<and> c \<le> 102 then Some (c - 87) else None)"

fun unquote_bytes :: "ustr \<Rightarrow> bytes" where
  "unquote_bytes (c # c1 # c2 # cs) =
     (if c = 37 then
        (case (hex_digit c1, hex_digit c2) of
           (Some d1, Some d2) \<Rightarrow> of_nat (16 * d1 + d2) # unquote_bytes cs
         | _ \<Rightarrow> of_nat c # unquote_bytes (c1 # c2 # cs))
      else of_nat c # unquote_bytes (c1 # c2 # cs))"
| "unquote_bytes cs = map of_nat cs"

function unquote :: "ustr \<Rightarrow> ustr" where
  "unquote [] = []"
| "unquote (c # cs) =
     (if c < 128
      then utf8_replace (unquote_bytes (takeWhile (\<lambda>c. c < 128) (c # cs))) @ unquote (dropWhile (\<lambda>c. c < 128) (c # cs))
      else c # unquote cs)"
  by pat_completeness auto
termination
  by (relation "measure length") (auto simp: le_imp_less_Suc length_dropWhile_le)

definition plus_space :: "ustr \<Rightarrow> ustr" where
  "plus_space = map (\<lambda>c. if c = 43 then 32 else c)"

text \<open>\<open>parse_qs(query).get("token", [])\<close>: blank values and fields without an equals sign are skipped.\<close>

definition query_field :: "ustr \<Rightarrow> ustr \<Rightarrow> ustr option" where
  "query_field name field =
     (case split_once [61] field of
        (n, Some v) \<Rightarrow> if v \<noteq> [] \<and> unquote (plus_space n) = name then Some (unquote (plus_space v)) else None
      | (_, None) \<Rightarrow> None)"

definition query_values :: "ustr \<Rightarrow> ustr \<Rightarrow> ustr list" where
  "query_values name query = List.map_filter (query_field name) (split_on 38 query)"

definition verify_token :: "(ustr \<Rightarrow> bool) \<Rightarrow> ustr \<Rightarrow> ustr \<Rightarrow> bool" where
  "verify_token netloc_ok auth_token request_line =
     (case words_by py_space request_line of
        _ # path # _ \<Rightarrow>
          (case url_query netloc_ok path of
             None \<Rightarrow> False
           | Some query \<Rightarrow>
               (case query_values (u ''token'') query of
                  [] \<Rightarrow> False
                | token # _ \<Rightarrow>
                    list_all (\<lambda>c. c < 128) token \<and> list_all (\<lambda>c. c < 128) auth_token \<and> token = auth_token))
      | _ \<Rightarrow> False)"

section \<open>The accept key\<close>

definition base64_char :: "nat \<Rightarrow> nat" where
  "base64_char i = (if i < 26 then 65 + i else if i < 52 then 71 + i else if i < 62 then i - 4
     else if i = 62 then 43 else 47)"

fun base64 :: "bytes \<Rightarrow> ustr" where
  "base64 [] = []"
| "base64 [x] = (let n = unat x * 65536
     in [base64_char (n div 262144), base64_char (n div 4096 mod 64), 61, 61])"
| "base64 [x, y] = (let n = unat x * 65536 + unat y * 256
     in [base64_char (n div 262144), base64_char (n div 4096 mod 64), base64_char (n div 64 mod 64), 61])"
| "base64 (x # y # z # xs) = (let n = unat x * 65536 + unat y * 256 + unat z
     in [base64_char (n div 262144), base64_char (n div 4096 mod 64), base64_char (n div 64 mod 64),
         base64_char (n mod 64)] @ base64 xs)"

definition GUID :: ustr where
  "GUID = u ''258EAFA5-E914-47DA-95CA-C5AB0DC85B11''"

definition compute_accept_key :: "(bytes \<Rightarrow> bytes) \<Rightarrow> ustr \<Rightarrow> ustr" where
  "compute_accept_key sha1 sec_key = base64 (sha1 (utf8_encode (sec_key @ GUID)))"

section \<open>Properties\<close>

lemma split_once_Some: "split_once pat xs = (l, Some r) \<Longrightarrow> xs = l @ pat @ r"
proof -
  assume s: "split_once pat xs = (l, Some r)"
  then obtain i where i: "find_sub pat xs = Some i" "l = take i xs" "r = drop (i + length pat) xs"
    by (auto simp: split_once_def split: option.splits)
  from find_sub_Some_split [OF i(1)] have "drop i xs = pat @ drop (i + length pat) xs"
    by (metis append_take_drop_id drop_drop add.commute)
  then show ?thesis using i by (metis append_take_drop_id)
qed

lemma split_once_free: "c \<notin> set l \<Longrightarrow> split_once [c] (l @ c # r) = (l, Some r)"
proof -
  assume "c \<notin> set l"
  then have "find_sub [c] (l @ c # r) = Some (length l)" by (induction l) auto
  then show ?thesis by (simp add: split_once_def)
qed

lemma split_once_none: "c \<notin> set l \<Longrightarrow> split_once [c] l = (l, None)"
proof -
  assume "c \<notin> set l"
  then have "find_sub [c] l = None" by (induction l) auto
  then show ?thesis by (simp add: split_once_def)
qed

lemma map_filter_mem: "y \<in> set (List.map_filter f xs) \<longleftrightarrow> (\<exists>x\<in>set xs. f x = Some y)"
  by (induction xs) (auto simp: map_filter_simps split: option.split)

lemma query_field_Some:
  "query_field name field = Some y \<Longrightarrow>
     \<exists>n v. split_once [61] field = (n, Some v) \<and> unquote (plus_space n) = name \<and> unquote (plus_space v) = y"
  by (auto simp: query_field_def split: prod.splits option.splits if_splits)

text \<open>
  C9: an access is granted only for the token itself: the request line has a target whose query
  holds a field named token whose value decodes to exactly the server's token.
\<close>

theorem verify_token_sound:
  assumes "verify_token netloc_ok auth_token request_line"
  shows "\<exists>m path rest query name val.
    words_by py_space request_line = m # path # rest \<and> url_query netloc_ok path = Some query \<and>
    name @ [61] @ val \<in> set (split_on 38 query) \<and>
    unquote (plus_space name) = u ''token'' \<and> unquote (plus_space val) = auth_token"
proof -
  obtain m path rest where w: "words_by py_space request_line = m # path # rest"
    using assms by (auto simp: verify_token_def split: list.splits)
  then obtain query where q: "url_query netloc_ok path = Some query"
    using assms by (cases "url_query netloc_ok path") (auto simp: verify_token_def)
  then obtain token ts where t: "query_values (u ''token'') query = token # ts"
    using assms w by (cases "query_values (u ''token'') query") (auto simp: verify_token_def simp del: u_Cons)
  then have a: "token = auth_token" using assms w q by (auto simp: verify_token_def simp del: u_Cons)
  note w = w q t a
  have "auth_token \<in> set (query_values (u ''token'') query)" using w by simp
  then obtain field n v where f: "field \<in> set (split_on 38 query)" "split_once [61] field = (n, Some v)"
    "unquote (plus_space n) = u ''token''" "unquote (plus_space v) = auth_token"
    unfolding query_values_def map_filter_mem by (metis query_field_Some)
  then have "n @ [61] @ v \<in> set (split_on 38 query)" using split_once_Some [OF f(2)] by simp
  with w f show ?thesis by blast
qed

text \<open>Characters that mean themselves in a query: letters, digits, minus and underscore.\<close>

definition token_char :: "nat \<Rightarrow> bool" where
  "token_char c \<longleftrightarrow> ascii_alpha c \<or> (48 \<le> c \<and> c \<le> 57) \<or> c = 45 \<or> c = 95"

lemma unquote_bytes_plain: "37 \<notin> set cs \<Longrightarrow> unquote_bytes cs = map of_nat cs"
  by (induction cs rule: unquote_bytes.induct) auto

lemma unquote_ascii:
  assumes "\<forall>c\<in>set cs. c < 128" "37 \<notin> set cs"
  shows "unquote cs = cs"
proof (cases cs)
  case (Cons c cs')
  have t: "takeWhile (\<lambda>c. c < 128) cs = cs" "dropWhile (\<lambda>c. c < 128) cs = []" "c < 128"
    using assms(1) Cons by (simp_all add: takeWhile_eq_all_conv dropWhile_eq_Nil_conv)
  have "unquote cs = utf8_replace (unquote_bytes cs) @ unquote []"
    using unquote.simps(2) [of c cs', folded Cons] t(3) by (simp only: t if_True)
  moreover have "map of_nat cs = utf8_encode cs"
    using assms(1) by (induction cs) (auto simp: utf8_enc1_def scalar_def)
  ultimately have "unquote cs = utf8_replace (utf8_encode cs)"
    using assms(2) by (simp add: unquote_bytes_plain del: utf8_encode_simps)
  moreover have "utf8_replace (utf8_encode cs) = cs"
    using assms(1) by (intro utf8_replace_encode) (auto simp: scalar_def)
  ultimately show ?thesis by simp
qed simp

lemma words_by_cons:
  assumes "w \<noteq> []" "\<forall>x\<in>set w. \<not> sp x" "sp c"
  shows "words_by sp (w @ c # rest) = w # words_by sp rest" "words_by sp w = [w]"
proof -
  have d: "dropWhile sp (w @ c # rest) = w @ c # rest" "dropWhile sp w = w"
    using assms(1,2) by (cases w; simp)+
  have t: "takeWhile (\<lambda>x. \<not> sp x) (w @ c # rest) = w" "dropWhile (\<lambda>x. \<not> sp x) (w @ c # rest) = c # rest"
    "takeWhile (\<lambda>x. \<not> sp x) w = w" "dropWhile (\<lambda>x. \<not> sp x) w = []"
    using assms(2,3) by (simp_all add: takeWhile_append2 dropWhile_append2 takeWhile_eq_all_conv dropWhile_eq_Nil_conv)
  have "words_by sp (c # rest) = words_by sp rest"
    using assms(3) by (subst (1 2) words_by.simps) simp
  then show "words_by sp (w @ c # rest) = w # words_by sp rest"
    using assms(1) by (subst words_by.simps) (simp add: d t)
  show "words_by sp w = [w]" using assms(1) by (subst words_by.simps) (simp add: d t, subst words_by.simps, simp)
qed

text \<open>
  the request the client makes, with the server's own token, is granted for every token of
  URL-safe characters; with any other token it is refused.
\<close>

theorem verify_token_request:
  assumes "token \<noteq> []" and "\<forall>c\<in>set token. token_char c" and "\<forall>c\<in>set auth_token. c < 128"
  shows "verify_token netloc_ok auth_token (u ''GET /?token='' @ token @ u '' HTTP/1.1'') \<longleftrightarrow> token = auth_token"
proof -
  have tc: "c < 128 \<and> \<not> py_space c \<and> c \<notin> {9, 13, 10, 35, 37, 38, 43, 58, 61, 63}" if "c \<in> set token" for c
    using assms(2) that by (auto simp: token_char_def ascii_alpha_def py_space_def)
  let ?path = "u ''/?token='' @ token"
  have "words_by py_space (u ''GET'' @ 32 # (?path @ 32 # u ''HTTP/1.1'')) =
      u ''GET'' # words_by py_space (?path @ 32 # u ''HTTP/1.1'')"
    by (rule words_by_cons) (simp_all add: py_space_def)
  also have "words_by py_space (?path @ 32 # u ''HTTP/1.1'') = ?path # words_by py_space (u ''HTTP/1.1'')"
    using tc by (intro words_by_cons) (auto simp: py_space_def)
  finally have w: "words_by py_space (u ''GET /?token='' @ token @ u '' HTTP/1.1'')
      = u ''GET'' # ?path # words_by py_space (u ''HTTP/1.1'')" by simp
  have "filter (\<lambda>c. c \<notin> {9, 13, 10}) ?path = ?path"
    using tc by (auto simp: filter_id_conv)
  moreover have "drop_scheme ?path = ?path"
    using tc by (subst drop_scheme_def, subst split_once_none) auto
  moreover have "split_once [35] ?path = (?path, None)"
    using tc by (intro split_once_none) auto
  moreover have "split_once [63] ?path = (u ''/'', Some (u ''token='' @ token))"
    using split_once_free [of 63 "u ''/''" "u ''token='' @ token"] by simp
  ultimately have q: "url_query netloc_ok ?path = Some (u ''token='' @ token)"
    by (simp add: url_query_def Let_def)
  have "split_on 38 (u ''token='' @ token) = [u ''token='' @ token]"
    using tc by (intro split_on_simple) auto
  moreover have "split_once [61] (u ''token='' @ token) = (u ''token'', Some token)"
    using split_once_free [of 61 "u ''token''" token] by simp
  moreover have "plus_space token = token" using tc by (auto simp: plus_space_def map_idI)
  moreover have "unquote token = token" using tc by (intro unquote_ascii) auto
  moreover have "unquote (plus_space (u ''token'')) = u ''token''"
    by (subst unquote_ascii) (simp_all add: plus_space_def)
  ultimately have v: "query_values (u ''token'') (u ''token='' @ token) = [token]"
    using assms(1) by (simp add: query_values_def map_filter_simps query_field_def)
  have "list_all (\<lambda>c. c < 128) token" "list_all (\<lambda>c. c < 128) auth_token"
    using tc assms(3) by (simp_all add: list_all_iff)
  then show ?thesis unfolding verify_token_def w by (simp add: q v del: u_Cons u_append)
qed

lemma verify_token_request_witness:
  "verify_token (\<lambda>_. True) (u ''a1-'') (u ''GET /?token='' @ u ''a1-'' @ u '' HTTP/1.1'')"
  using verify_token_request [of "u ''a1-''" "u ''a1-''" "\<lambda>_. True"]
  by (simp add: token_char_def ascii_alpha_def)

lemma token_granted: "verify_token (\<lambda>_. True) (u ''k'') (u ''GET /?token=k'')"
proof -
  have "words_by py_space (u ''GET'' @ 32 # u ''/?token=k'') = u ''GET'' # words_by py_space (u ''/?token=k'')"
    by (rule words_by_cons) (simp_all add: py_space_def)
  also have "words_by py_space (u ''/?token=k'') = [u ''/?token=k'']"
    by (rule words_by_cons [where c = 32]) (simp_all add: py_space_def)
  finally have w: "words_by py_space (u ''GET /?token=k'') = [u ''GET'', u ''/?token=k'']" by simp
  have "url_query (\<lambda>_. True) (u ''/?token=k'') = Some (u ''token=k'')"
    by (simp add: url_query_def drop_scheme_def split_once_def)
  moreover have "query_values (u ''token'') (u ''token=k'') = [u ''k'']"
    using unquote_ascii [of "u ''token''"] unquote_ascii [of "u ''k''"]
    by (simp add: query_values_def query_field_def split_once_def plus_space_def map_filter_simps)
  ultimately show ?thesis unfolding verify_token_def w by simp
qed

lemma verify_token_sound_witness:
  "\<exists>m path rest query name val.
    words_by py_space (u ''GET /?token=k'') = m # path # rest \<and> url_query (\<lambda>_. True) path = Some query \<and>
    name @ [61] @ val \<in> set (split_on 38 query) \<and>
    unquote (plus_space name) = u ''token'' \<and> unquote (plus_space val) = u ''k''"
  by (rule verify_token_sound [OF token_granted])

end
