(* ===== verification/Sessions.thy ===== *)
theory Sessions
  imports PtySessionInv "HOL-Library.AList"
begin

text \<open>
  \<open>SessionManager\<close> of \<open>zmux/sessions.py\<close>: the terminal sessions by id, their order, the active
  one, and what reaches the websocket (\<open>m_screen\<close>, the chunks passed to \<open>broadcast\<close>).  The
  manager uses a session only through \<open>term_ops\<close>; the laws it needs of it are the locale
  \<open>terminal\<close>, interpreted on \<open>PTYTerminalSession\<close> (\<open>PtySession\<close>).
\<close>

section \<open>State\<close>

record 's term_ops =
  op_fresh :: 's
  op_resize :: "int \<Rightarrow> int \<Rightarrow> 's \<Rightarrow> 's"
  op_start :: "'s \<Rightarrow> 's"
  op_stop :: "'s \<Rightarrow> 's"
  op_input :: "bytes \<Rightarrow> 's \<Rightarrow> 's"
  op_toggle :: "'s \<Rightarrow> 's"
  op_scroll :: "'s \<Rightarrow> bytes"
  op_outs :: "'s \<Rightarrow> bytes list"
  op_busy :: "'s \<Rightarrow> bool"

record 's mgr =
  m_sessions :: "(string \<times> 's) list"
  m_order :: "string list"
  m_active :: "string option"
  m_counter :: nat
  m_cols :: int
  m_rows :: int
  m_screen :: "bytes list"

definition MAX_SESSIONS :: nat where "MAX_SESSIONS = 8"

definition RESET_TERMINAL_SCREEN :: bytes where
  "RESET_TERMINAL_SCREEN = [27] @ b ''[?1049l'' @ [27] @ b ''[?47l'' @ [27] @ b ''[?1047l'' @ [27] @ b ''[2J'' @ [27] @ b ''[H''"

definition init_mgr :: "'s mgr" where
  "init_mgr = \<lparr>m_sessions = [], m_order = [], m_active = None, m_counter = 0, m_cols = 80, m_rows = 24,
     m_screen = []\<rparr>"

definition broadcast :: "bytes \<Rightarrow> 's mgr \<Rightarrow> 's mgr" where
  "broadcast d m = m\<lparr>m_screen := m_screen m @ [d]\<rparr>"

text \<open>
  Session \<open>sid\<close> goes to state \<open>t\<close>; \<open>_emit_for\<close>: what it emitted on the way reaches the websocket
  when it is the active session.
\<close>

definition put_session :: "'s term_ops \<Rightarrow> string \<Rightarrow> 's \<Rightarrow> 's mgr \<Rightarrow> 's mgr" where
  "put_session T sid t m =
     (case map_of (m_sessions m) sid of
        None \<Rightarrow> m
      | Some s \<Rightarrow> m\<lparr>m_sessions := AList.update sid t (m_sessions m),
          m_screen := m_screen m @ (if m_active m = Some sid then drop (length (op_outs T s)) (op_outs T t) else [])\<rparr>)"

definition on_session :: "'s term_ops \<Rightarrow> string \<Rightarrow> ('s \<Rightarrow> 's) \<Rightarrow> 's mgr \<Rightarrow> 's mgr" where
  "on_session T sid f m =
     (case map_of (m_sessions m) sid of None \<Rightarrow> m | Some s \<Rightarrow> put_session T sid (f s) m)"

section \<open>Operations\<close>

definition create :: "'s term_ops \<Rightarrow> bool \<Rightarrow> 's mgr \<Rightarrow> exn + string \<times> 's mgr" where
  "create T activate m =
     (if length (m_sessions m) \<ge> MAX_SESSIONS then Err (ValueError ''session limit reached (8)'')
      else
        let previous = m_active m;
            m = m\<lparr>m_counter := m_counter m + 1\<rparr>;
            sid = nat_str (m_counter m);
            m = m\<lparr>m_sessions := AList.update sid (op_fresh T) (m_sessions m), m_order := m_order m @ [sid]\<rparr>;
            m = (if activate \<or> m_active m = None then m\<lparr>m_active := Some sid\<rparr> else m);
            m = (if activate \<and> previous \<noteq> None \<and> previous \<noteq> Some sid then broadcast RESET_TERMINAL_SCREEN m else m);
            m = on_session T sid (op_resize T (m_cols m) (m_rows m)) m;
            m = on_session T sid (op_start T) m
        in Ok (sid, m))"

definition active_session :: "'s mgr \<Rightarrow> 's option" where
  "active_session m = (case m_active m of None \<Rightarrow> None | Some sid \<Rightarrow> map_of (m_sessions m) sid)"

definition switch :: "'s term_ops \<Rightarrow> string \<Rightarrow> 's mgr \<Rightarrow> bool \<times> 's mgr" where
  "switch T sid m =
     (if map_of (m_sessions m) sid = None \<or> m_active m = Some sid then (map_of (m_sessions m) sid \<noteq> None, m)
      else
        let m = m\<lparr>m_active := Some sid\<rparr>;
            m = on_session T sid (op_resize T (m_cols m) (m_rows m)) m;
            m = broadcast RESET_TERMINAL_SCREEN m;
            scrollback = (case map_of (m_sessions m) sid of None \<Rightarrow> [] | Some s \<Rightarrow> op_scroll T s)
        in (True, if scrollback \<noteq> [] then broadcast scrollback m else m))"

fun index_of :: "'a \<Rightarrow> 'a list \<Rightarrow> nat option" where
  "index_of x [] = None"
| "index_of x (y # ys) = (if x = y then Some 0 else map_option Suc (index_of x ys))"

text \<open>
  \<open>close\<close>: the popped session is stopped after the lock is released; it is no longer in the
  manager, so nothing it does is seen there.
\<close>

definition close :: "'s term_ops \<Rightarrow> string \<Rightarrow> 's mgr \<Rightarrow> exn + bool \<times> 's mgr" where
  "close T sid m =
     (case map_of (m_sessions m) sid of
        None \<Rightarrow> Ok (False, m)
      | Some s \<Rightarrow>
          (case index_of sid (m_order m) of
             None \<Rightarrow> Err (ValueError ''not in list'')
           | Some index \<Rightarrow>
               let m = m\<lparr>m_sessions := AList.delete sid (m_sessions m), m_order := remove1 sid (m_order m)\<rparr>;
                   was_active = (m_active m = Some sid);
                   successor = (if m_order m \<noteq> [] then Some (m_order m ! min index (length (m_order m) - 1)) else None);
                   m = (if was_active then m\<lparr>m_active := successor\<rparr> else m)
               in (case m_active m of
                     None \<Rightarrow> (case create T True m of Err e \<Rightarrow> Err e | Ok (_, m) \<Rightarrow> Ok (True, m))
                   | Some active \<Rightarrow>
                       if was_active then Ok (True, snd (switch T active (m\<lparr>m_active := None\<rparr>)))
                       else Ok (True, m))))"

definition mgr_write_input :: "'s term_ops \<Rightarrow> bytes \<Rightarrow> 's mgr \<Rightarrow> 's mgr" where
  "mgr_write_input T data m =
     (case m_active m of None \<Rightarrow> m | Some sid \<Rightarrow> on_session T sid (op_input T data) m)"

definition mgr_resize :: "'s term_ops \<Rightarrow> int \<Rightarrow> int \<Rightarrow> 's mgr \<Rightarrow> 's mgr" where
  "mgr_resize T cols rows m =
     (if cols \<le> 0 \<or> rows \<le> 0 then m
      else
        let m = m\<lparr>m_cols := cols, m_rows := rows\<rparr>
        in case m_active m of None \<Rightarrow> m | Some sid \<Rightarrow> on_session T sid (op_resize T cols rows) m)"

definition snapshot :: "'s term_ops \<Rightarrow> 's mgr \<Rightarrow> exn + (string \<times> bool) list \<times> string option \<times> nat" where
  "snapshot T m =
     (if \<forall>sid\<in>set (m_order m). map_of (m_sessions m) sid \<noteq> None
      then Ok (map (\<lambda>sid. (sid, op_busy T (the (map_of (m_sessions m) sid)))) (m_order m), m_active m, MAX_SESSIONS)
      else Err KeyError)"

definition stop_all :: "'s mgr \<Rightarrow> 's mgr" where
  "stop_all m = m\<lparr>m_sessions := [], m_order := [], m_active := None\<rparr>"

text \<open>\<open>get_manager\<close>: the process-wide manager, made with its first session on first use.\<close>

definition get_manager :: "'s term_ops \<Rightarrow> 's mgr option \<Rightarrow> exn + 's mgr" where
  "get_manager T g =
     (case g of
        Some m \<Rightarrow> Ok m
      | None \<Rightarrow> (case create T True init_mgr of Err e \<Rightarrow> Err e | Ok (_, m) \<Rightarrow> Ok m))"

definition reset_manager :: "'s mgr option \<Rightarrow> 's mgr option" where
  "reset_manager g = None"

definition session_ids :: "'s mgr \<Rightarrow> string list" where
  "session_ids m = m_order m"

definition lookup_session :: "'s mgr \<Rightarrow> string \<Rightarrow> 's option" where
  "lookup_session m sid = map_of (m_sessions m) sid"

section \<open>What the manager needs of a session\<close>

locale terminal =
  fixes T :: "'s term_ops"
    and ok :: "'s \<Rightarrow> bool"
    and evolves :: "'s \<Rightarrow> 's \<Rightarrow> bool"
    and cap :: nat
  assumes ok_fresh: "ok (op_fresh T)"
    and fresh_silent: "op_outs T (op_fresh T) = []"
    and ok_start: "ok (op_start T (op_resize T c r (op_fresh T)))"
    and start_extends: "prefix (op_outs T s) (op_outs T (op_start T s))"
    and resize_silent: "op_outs T (op_resize T c r s) = op_outs T s"
    and resize_evolves: "evolves s (op_resize T c r s)"
    and input_evolves: "evolves s (op_input T d s)"
    and toggle_evolves: "evolves s (op_toggle T s)"
    and evolves_ok: "evolves s t \<Longrightarrow> ok s \<Longrightarrow> ok t"
    and evolves_extends: "evolves s t \<Longrightarrow> prefix (op_outs T s) (op_outs T t)"
    and scroll_outs: "ok s \<Longrightarrow> op_scroll T s = keep_last cap (concat (op_outs T s))"

section \<open>The interpretation on \<open>PTYTerminalSession\<close>\<close>

definition outs :: "session \<Rightarrow> bytes list" where
  "outs s = List.map_filter (\<lambda>e. case e of Out d \<Rightarrow> Some d | _ \<Rightarrow> None) (s_log s)"

definition pty_ops :: "host \<Rightarrow> (bytes list \<times> (ustr + exec_result)) list \<Rightarrow> session term_ops" where
  "pty_ops h rc = \<lparr>op_fresh = init_session, op_resize = resize, op_start = start h rc, op_stop = stop,
     op_input = write_input h, op_toggle = toggle_pty h, op_scroll = s_scroll, op_outs = outs, op_busy = s_busy\<rparr>"

lemma concat_outs: "concat (outs s) = written (s_log s)"
proof -
  have "concat (List.map_filter (\<lambda>e. case e of Out d \<Rightarrow> Some d | _ \<Rightarrow> None) es)
      = concat (map (\<lambda>e. case e of Out d \<Rightarrow> d | _ \<Rightarrow> []) es)" for es
    by (induction es) (auto simp: map_filter_simps split: event.split)
  then show ?thesis by (simp add: outs_def written_def)
qed

lemma request_prefix: "prefix (s_log s) (s_log ((request_storage_setup ^^ n) s))"
proof (induction n)
  case (Suc n)
  have "prefix (s_log t) (s_log (request_storage_setup t))" for t by (simp add: request_storage_setup_def)
  with Suc show ?case by (auto intro: prefix_order.order_trans)
qed simp

lemma emit_prefix: "prefix (s_log s) (s_log (emit d s))"
proof -
  obtain out n tl1 where f: "filter_pty_controls (s_tail s) d = (out, n, tl1)" by (metis prod_cases3)
  have "prefix (s_log s) (s_log ((request_storage_setup ^^ n) (s\<lparr>s_tail := tl1\<rparr>)))"
    using request_prefix [of "s\<lparr>s_tail := tl1\<rparr>" n] by simp
  then show ?thesis by (auto simp: emit_def f Let_def intro: prefix_order.order_trans)
qed

lemma eff_log_prefix: "eff s t \<Longrightarrow> prefix (s_log s) (s_log t)"
proof (induction rule: eff.induct)
  case (eff_emit t d)
  then show ?case using emit_prefix prefix_order.order_trans by blast
qed (auto simp: same_core_def kill_pty_def resize_def history_record_def Let_def
       intro: prefix_order.order_trans split: option.splits)

lemma eff_outs_prefix: "eff s t \<Longrightarrow> prefix (outs s) (outs t)"
  using eff_log_prefix [of s t] by (auto simp: outs_def prefix_def List.map_filter_def)

interpretation pty: terminal "pty_ops h rc" reachable session_step scrollback_max_size for h rc
proof
  show "reachable (op_fresh (pty_ops h rc))" by (simp add: pty_ops_def reach_init)
  show "op_outs (pty_ops h rc) (op_fresh (pty_ops h rc)) = []"
    by (simp add: pty_ops_def outs_def init_session_def List.map_filter_def)
  show "reachable (op_start (pty_ops h rc) (op_resize (pty_ops h rc) c r (op_fresh (pty_ops h rc))))" for c r
  proof -
    have "reachable (resize c r init_session)" by (rule reach_step [OF reach_init step_resize])
    moreover have "\<not> s_running (resize c r init_session)" "s_epoch (resize c r init_session) = 0"
      by (simp_all add: resize_def init_session_def Let_def)
    ultimately show ?thesis by (auto simp: pty_ops_def intro: reach_step step_start)
  qed
  show "prefix (op_outs (pty_ops h rc) s) (op_outs (pty_ops h rc) (op_start (pty_ops h rc) s))" for s
    using eff_outs_prefix [OF eff_start [OF eff_refl]] by (simp add: pty_ops_def)
  show "op_outs (pty_ops h rc) (op_resize (pty_ops h rc) c r s) = op_outs (pty_ops h rc) s" for c r s
    by (simp add: pty_ops_def resize_def outs_def List.map_filter_def Let_def split: option.split)
  show "session_step s (op_resize (pty_ops h rc) c r s)" for s c r by (simp add: pty_ops_def step_resize)
  show "session_step s (op_input (pty_ops h rc) d s)" for s d by (simp add: pty_ops_def step_input)
  show "session_step s (op_toggle (pty_ops h rc) s)" for s by (simp add: pty_ops_def step_toggle)
  show "session_step s t \<Longrightarrow> reachable s \<Longrightarrow> reachable t" for s t by (rule reach_step)
  show "session_step s t \<Longrightarrow> prefix (op_outs (pty_ops h rc) s) (op_outs (pty_ops h rc) t)" for s t
    using eff_outs_prefix [OF session_step_eff] by (simp add: pty_ops_def)
  show "reachable s \<Longrightarrow> op_scroll (pty_ops h rc) s
      = keep_last scrollback_max_size (concat (op_outs (pty_ops h rc) s))" for s
    using eff_out_inv [OF reachable_eff init_invs(1)] by (simp add: pty_ops_def concat_outs out_inv_def)
qed

text \<open>A session as \<open>create\<close> leaves it.\<close>

definition started :: "'s term_ops \<Rightarrow> 's mgr \<Rightarrow> 's" where
  "started T m = op_start T (op_resize T (m_cols m) (m_rows m) (op_fresh T))"

text \<open>The manager with session \<open>sid\<close> popped.\<close>

definition without :: "string \<Rightarrow> 's mgr \<Rightarrow> 's mgr" where
  "without sid m = m\<lparr>m_sessions := AList.delete sid (m_sessions m), m_order := remove1 sid (m_order m)\<rparr>"

section \<open>The manager invariant\<close>

text \<open>
  The dictionary and the order list hold the same ids, each once; the active id is one of them
  and exists unless there is no session; there are at most eight; every id was made by the
  counter; every session is in a good state.
\<close>

definition mgr_inv :: "('s \<Rightarrow> bool) \<Rightarrow> 's mgr \<Rightarrow> bool" where
  "mgr_inv ok m \<longleftrightarrow> distinct (m_order m) \<and> map fst (m_sessions m) = m_order m \<and>
     (m_active m = None \<longrightarrow> m_order m = []) \<and> (\<forall>a. m_active m = Some a \<longrightarrow> a \<in> set (m_order m)) \<and>
     length (m_order m) \<le> MAX_SESSIONS \<and>
     (\<forall>sid\<in>set (m_order m). \<exists>k. 1 \<le> k \<and> k \<le> m_counter m \<and> sid = nat_str k) \<and>
     (\<forall>(sid, s)\<in>set (m_sessions m). ok s)"

text \<open>
  What is on the client's screen since the last reset is a final part of what the active
  session has written.
\<close>

definition view_ok :: "'s term_ops \<Rightarrow> 's mgr \<Rightarrow> bool" where
  "view_ok T m \<longleftrightarrow> (\<forall>sid s. m_active m = Some sid \<and> map_of (m_sessions m) sid = Some s \<longrightarrow>
     (\<exists>pre post. m_screen m = pre @ post \<and> (pre = [] \<or> last pre = RESET_TERMINAL_SCREEN) \<and>
        suffix (concat post) (concat (op_outs T s))))"

lemma AList_update_keys: "k \<in> fst ` set al \<Longrightarrow> map fst (AList.update k v al) = map fst al"
  by (induction al) auto

lemma AList_update_fresh: "k \<notin> fst ` set al \<Longrightarrow> AList.update k v al = al @ [(k, v)]"
  by (induction al) auto

lemma AList_update_set: "(k', v') \<in> set (AList.update k v al) \<Longrightarrow> (k' = k \<and> v' = v) \<or> (k', v') \<in> set al"
  by (induction al) (auto split: if_splits)

lemma AList_delete_keys: "distinct (map fst al) \<Longrightarrow> map fst (AList.delete k al) = remove1 k (map fst al)"
  by (induction al) (auto simp: AList.delete_eq filter_id_conv image_iff remove1_idem)

lemma mgr_inv_lookup: "mgr_inv ok m \<Longrightarrow> map_of (m_sessions m) sid = None \<longleftrightarrow> sid \<notin> set (m_order m)"
  by (auto simp: mgr_inv_def map_of_eq_None_iff simp flip: set_map)

lemma mgr_inv_ok: "mgr_inv ok m \<Longrightarrow> map_of (m_sessions m) sid = Some s \<Longrightarrow> ok s"
  by (auto simp: mgr_inv_def dest: map_of_SomeD)

lemma mgr_inv_broadcast: "mgr_inv ok (broadcast d m) = mgr_inv ok m"
  by (simp add: mgr_inv_def broadcast_def)

lemma broadcast_fields [simp]:
  "m_sessions (broadcast d m) = m_sessions m" "m_order (broadcast d m) = m_order m"
  "m_active (broadcast d m) = m_active m" "m_counter (broadcast d m) = m_counter m"
  "m_cols (broadcast d m) = m_cols m" "m_rows (broadcast d m) = m_rows m"
  "m_screen (broadcast d m) = m_screen m @ [d]"
  by (simp_all add: broadcast_def)

lemma on_session_fields [simp]:
  "m_order (on_session T sid f m) = m_order m" "m_active (on_session T sid f m) = m_active m"
  "m_counter (on_session T sid f m) = m_counter m" "m_cols (on_session T sid f m) = m_cols m"
  "m_rows (on_session T sid f m) = m_rows m"
  by (auto simp: on_session_def put_session_def split: option.split)

lemma on_session_lookup:
  "map_of (m_sessions (on_session T sid f m)) sid' =
     (if sid' = sid then map_option f (map_of (m_sessions m) sid) else map_of (m_sessions m) sid')"
  by (auto simp: on_session_def put_session_def update_conv' split: option.split)

lemma on_session_screen:
  "map_of (m_sessions m) sid = Some s \<Longrightarrow>
     m_screen (on_session T sid f m) = m_screen m @
       (if m_active m = Some sid then drop (length (op_outs T s)) (op_outs T (f s)) else [])"
  by (simp add: on_session_def put_session_def)

lemma mgr_inv_on_session:
  assumes "mgr_inv ok m" "\<And>s. map_of (m_sessions m) sid = Some s \<Longrightarrow> ok (f s)"
  shows "mgr_inv ok (on_session T sid f m)"
proof (cases "map_of (m_sessions m) sid")
  case None
  with assms(1) show ?thesis by (simp add: on_session_def)
next
  case (Some s)
  then have "sid \<in> fst ` set (m_sessions m)" by (force dest: map_of_SomeD)
  then have k: "map fst (AList.update sid (f s) (m_sessions m)) = map fst (m_sessions m)"
    by (rule AList_update_keys)
  have "\<forall>(i, t)\<in>set (AList.update sid (f s) (m_sessions m)). ok t"
    using assms(2) [OF Some] assms(1) by (auto simp: mgr_inv_def dest!: AList_update_set)
  with assms(1) k Some show ?thesis by (simp add: mgr_inv_def on_session_def put_session_def)
qed

lemma AList_update_last: "k \<notin> fst ` set al \<Longrightarrow> AList.update k v (al @ [(k, w)]) = al @ [(k, v)]"
  by (induction al) auto

lemma mgr_inv_new_id: "mgr_inv ok m \<Longrightarrow> nat_str (m_counter m + 1) \<notin> fst ` set (m_sessions m)"
proof -
  assume "mgr_inv ok m"
  then have "\<forall>sid\<in>set (map fst (m_sessions m)). \<exists>k\<le>m_counter m. sid = nat_str k"
    by (auto simp: mgr_inv_def)
  then show ?thesis by fastforce
qed

lemma mgr_inv_length: "mgr_inv ok m \<Longrightarrow> length (m_sessions m) = length (m_order m)"
  unfolding mgr_inv_def by (metis length_map)

context terminal
begin

lemma create_result:
  fixes activate :: bool
  assumes "mgr_inv ok m" "length (m_sessions m) < MAX_SESSIONS"
  defines "sid \<equiv> nat_str (m_counter m + 1)"
  defines "act \<equiv> if activate \<or> m_active m = None then Some sid else m_active m"
  shows "create T activate m = Ok (sid, m\<lparr>m_counter := m_counter m + 1,
      m_sessions := m_sessions m @ [(sid, started T m)], m_order := m_order m @ [sid], m_active := act,
      m_screen := m_screen m @ (if activate \<and> m_active m \<noteq> None then [RESET_TERMINAL_SCREEN] else [])
        @ (if act = Some sid then op_outs T (started T m) else [])\<rparr>)"
proof -
  have n: "sid \<notin> fst ` set (m_sessions m)" using mgr_inv_new_id [OF assms(1)] by (simp add: sid_def)
  then have a: "m_active m \<noteq> Some sid" using assms(1) by (auto simp: mgr_inv_def simp flip: set_map)
  let ?scr = "if activate \<and> m_active m \<noteq> None then [RESET_TERMINAL_SCREEN] else []"
  let ?m = "\<lambda>v scr. m\<lparr>m_counter := m_counter m + 1, m_sessions := m_sessions m @ [(sid, v)],
      m_order := m_order m @ [sid], m_active := act, m_screen := m_screen m @ scr\<rparr>"
  have on: "on_session T sid f (?m v scr) = ?m (f v) (scr @ (if act = Some sid
      then drop (length (op_outs T v)) (op_outs T (f v)) else []))" for f v scr
    using n map_of_eq_None_iff [of "m_sessions m" sid]
    by (auto simp: on_session_def put_session_def map_add_def AList_update_last)
  have "create T activate m = Ok (sid, on_session T sid (op_start T)
      (on_session T sid (op_resize T (m_cols m) (m_rows m)) (?m (op_fresh T) ?scr)))"
    using assms(2) a n unfolding create_def Let_def
    by (cases m; cases "m_active m"; cases activate)
      (simp_all add: not_le AList_update_fresh broadcast_def sid_def act_def)
  then show ?thesis unfolding on by (simp add: resize_silent fresh_silent started_def)
qed

lemma ok_started: "ok (started T m)"
  by (simp add: started_def ok_start)

lemma create_inv:
  assumes "mgr_inv ok m" "create T activate m = Ok (sid, m')"
  shows "mgr_inv ok m' \<and> m_order m' = m_order m @ [sid]"
proof -
  have len: "length (m_sessions m) < MAX_SESSIONS"
    using assms(2) by (auto simp: create_def split: if_splits)
  note r = create_result [OF assms(1) len, of activate]
  have s: "sid = nat_str (m_counter m + 1)" using r assms(2) by simp
  then have "sid \<notin> set (map fst (m_sessions m))" using mgr_inv_new_id [OF assms(1)] by simp
  then have n: "sid \<notin> set (m_order m)" using assms(1) by (simp add: mgr_inv_def del: set_map)
  have "\<exists>k\<ge>1. k \<le> Suc (m_counter m) \<and> x = nat_str k" if "x \<in> set (m_order m)" for x
    using that assms(1) le_SucI unfolding mgr_inv_def by blast
  then show ?thesis
    using r assms n len ok_started [of m] s mgr_inv_length [OF assms(1)]
    by (auto simp: mgr_inv_def)
qed

text \<open>The tabs listed are exactly the sessions that can be found.\<close>

lemma listed_found: "mgr_inv ok m \<Longrightarrow> sid \<in> set (session_ids m) \<longleftrightarrow> lookup_session m sid \<noteq> None"
  by (auto simp: session_ids_def lookup_session_def mgr_inv_lookup)

lemma create_view:
  assumes "mgr_inv ok m" "create T activate m = Ok (sid, m')" "view_ok T m" "activate" "m_active m \<noteq> None"
  shows "view_ok T m'"
proof -
  have len: "length (m_sessions m) < MAX_SESSIONS"
    using assms(2) by (auto simp: create_def split: if_splits)
  note r = create_result [OF assms(1) len, of activate]
  have s: "sid = nat_str (m_counter m + 1)" using r assms(2) by simp
  have n: "sid \<notin> fst ` set (m_sessions m)" using mgr_inv_new_id [OF assms(1)] by (simp add: s)
  have l: "map_of (m_sessions m') sid = Some (started T m)"
    using r assms(2) n map_of_eq_None_iff [of "m_sessions m" sid] by (auto simp: map_add_def)
  have sc: "m_screen m' = (m_screen m @ [RESET_TERMINAL_SCREEN]) @ op_outs T (started T m)"
    and a: "m_active m' = Some sid" using r assms(2,4,5) by auto
  show ?thesis unfolding view_ok_def
  proof (intro allI impI)
    fix i t assume "m_active m' = Some i \<and> map_of (m_sessions m') i = Some t"
    then have t: "t = started T m" using a l by simp
    show "\<exists>pre post. m_screen m' = pre @ post \<and> (pre = [] \<or> last pre = RESET_TERMINAL_SCREEN) \<and>
        suffix (concat post) (concat (op_outs T t))"
      by (intro exI [of _ "m_screen m @ [RESET_TERMINAL_SCREEN]"] exI [of _ "op_outs T (started T m)"])
        (simp add: sc t)
  qed
qed

text \<open>Switching: the screen is reset and what follows is the session's scrollback.\<close>

lemma mgr_inv_activate: "mgr_inv ok m \<Longrightarrow> map_of (m_sessions m) sid = Some s \<Longrightarrow> mgr_inv ok (m\<lparr>m_active := Some sid\<rparr>)"
  using mgr_inv_lookup [of ok m sid] by (auto simp: mgr_inv_def)

lemma switch_result:
  assumes "mgr_inv ok (m\<lparr>m_active := Some sid\<rparr>)" "map_of (m_sessions m) sid = Some s" "m_active m \<noteq> Some sid"
  obtains m' where "switch T sid m = (True, m')" "mgr_inv ok m'" "m_active m' = Some sid"
    "m_order m' = m_order m"
    "map_of (m_sessions m') sid = Some (op_resize T (m_cols m) (m_rows m) s)"
    "concat (m_screen m') = concat (m_screen m) @ RESET_TERMINAL_SCREEN @ keep_last cap (concat (op_outs T s))"
    "\<exists>post. m_screen m' = (m_screen m @ [RESET_TERMINAL_SCREEN]) @ post \<and> concat post = keep_last cap (concat (op_outs T s))"
proof -
  let ?t = "op_resize T (m_cols m) (m_rows m) s"
  let ?m1 = "m\<lparr>m_active := Some sid\<rparr>"
  let ?m2 = "on_session T sid (op_resize T (m_cols m) (m_rows m)) ?m1"
  let ?m3 = "broadcast RESET_TERMINAL_SCREEN ?m2"
  have s: "ok s" using mgr_inv_ok [OF assms(1)] assms(2) by simp
  then have t: "ok ?t" using resize_evolves evolves_ok by blast
  have sc: "op_scroll T ?t = keep_last cap (concat (op_outs T s))"
    using scroll_outs [OF t] by (simp add: resize_silent)
  have i2: "mgr_inv ok ?m2" using assms(1) t assms(2) by (intro mgr_inv_on_session) auto
  then have i3: "mgr_inv ok ?m3" by (simp add: mgr_inv_broadcast)
  have l: "map_of (m_sessions ?m3) sid = Some ?t" using assms(2) by (simp add: on_session_lookup)
  have scr: "m_screen ?m3 = m_screen m @ [RESET_TERMINAL_SCREEN]"
    using assms(2) by (simp add: on_session_screen resize_silent)
  define m' where "m' = (if op_scroll T ?t \<noteq> [] then broadcast (op_scroll T ?t) ?m3 else ?m3)"
  have "switch T sid m = (True, m')" using assms(2,3) l by (simp add: switch_def Let_def m'_def)
  moreover have "mgr_inv ok m'" using i3 by (simp add: m'_def mgr_inv_broadcast)
  moreover have "m_active m' = Some sid" "m_order m' = m_order m" "map_of (m_sessions m') sid = Some ?t"
    using l by (simp_all add: m'_def)
  moreover have "\<exists>post. m_screen m' = (m_screen m @ [RESET_TERMINAL_SCREEN]) @ post \<and> concat post = keep_last cap (concat (op_outs T s))"
    using scr sc by (auto simp: m'_def intro: exI [of _ "[op_scroll T ?t]"])
  ultimately show ?thesis using that by auto
qed

lemma switch_inv: "mgr_inv ok m \<Longrightarrow> mgr_inv ok (snd (switch T sid m)) \<and> m_order (snd (switch T sid m)) = m_order m"
proof (cases "map_of (m_sessions m) sid = None \<or> m_active m = Some sid")
  case False
  assume i: "mgr_inv ok m"
  from False obtain s where s: "map_of (m_sessions m) sid = Some s" "m_active m \<noteq> Some sid" by auto
  from switch_result [OF mgr_inv_activate [OF i s(1)] s] show ?thesis by (metis snd_conv)
qed (simp add: switch_def)

lemma switch_view: "mgr_inv ok m \<Longrightarrow> view_ok T m \<Longrightarrow> view_ok T (snd (switch T sid m))"
proof (cases "map_of (m_sessions m) sid = None \<or> m_active m = Some sid")
  case False
  assume i: "mgr_inv ok m"
  from False obtain s where s: "map_of (m_sessions m) sid = Some s" "m_active m \<noteq> Some sid" by auto
  from switch_result [OF mgr_inv_activate [OF i s(1)] s] obtain m' post where m': "switch T sid m = (True, m')" "m_active m' = Some sid"
    "map_of (m_sessions m') sid = Some (op_resize T (m_cols m) (m_rows m) s)"
    "m_screen m' = (m_screen m @ [RESET_TERMINAL_SCREEN]) @ post" "concat post = keep_last cap (concat (op_outs T s))"
    by metis
  have "view_ok T m'" unfolding view_ok_def
  proof (intro allI impI)
    fix i t assume "m_active m' = Some i \<and> map_of (m_sessions m') i = Some t"
    then have "op_outs T t = op_outs T s" using m' by (auto simp: resize_silent)
    then show "\<exists>pre post. m_screen m' = pre @ post \<and> (pre = [] \<or> last pre = RESET_TERMINAL_SCREEN) \<and>
        suffix (concat post) (concat (op_outs T t))"
      using m' keep_last_suffix [of cap "concat (op_outs T s)"]
      by (intro exI [of _ "m_screen m @ [RESET_TERMINAL_SCREEN]"] exI [of _ post]) simp
  qed
  with m' show ?thesis by simp
qed (simp add: switch_def)

text \<open>Closing: the id is gone, something is active, and what is active shows its own screen.\<close>

lemma index_of_Some: "index_of x xs = Some i \<Longrightarrow> i < length xs \<and> xs ! i = x"
  by (induction xs arbitrary: i) (auto split: if_splits)

lemma index_of_None: "index_of x xs = None \<longleftrightarrow> x \<notin> set xs"
  by (induction xs) auto

lemma without_lookup: "map_of (m_sessions (without sid m)) x = (if x = sid then None else map_of (m_sessions m) x)"
  by (simp add: without_def delete_conv')

lemma without_fields: "m_active (without sid m) = m_active m" "m_screen (without sid m) = m_screen m"
  by (simp_all add: without_def)

lemma without_inv:
  assumes "mgr_inv ok m" "a \<in> set (remove1 sid (m_order m))"
  shows "mgr_inv ok ((without sid m)\<lparr>m_active := Some a\<rparr>)"
proof -
  have "map fst (AList.delete sid (m_sessions m)) = remove1 sid (m_order m)"
    using assms(1) AList_delete_keys [of "m_sessions m" sid] by (simp add: mgr_inv_def)
  moreover have "set (AList.delete sid (m_sessions m)) \<subseteq> set (m_sessions m)"
    by (auto simp: AList.delete_eq)
  moreover have "length (remove1 sid (m_order m)) \<le> MAX_SESSIONS"
    using assms(1) by (auto simp: mgr_inv_def length_remove1)
  ultimately show ?thesis using assms
    by (auto simp: mgr_inv_def without_def dest: notin_set_remove1)
qed

text \<open>Closing the only tab: a fresh session takes its place, under a name of its own.\<close>

lemma close_last:
  assumes i: "mgr_inv ok m" and l: "map_of (m_sessions m) sid = Some s" and o: "m_order m = [sid]"
    and a: "m_active m = Some sid"
  obtains m' new where "close T sid m = Ok (True, m')" "mgr_inv ok m'" "m_order m' = [new]" "new \<noteq> sid"
    "m_active m' = Some new" "m_screen m' = m_screen m @ op_outs T (started T m)"
proof -
  let ?m = "(without sid m)\<lparr>m_active := None\<rparr>"
  have "map fst (AList.delete sid (m_sessions m)) = []"
    using i o AList_delete_keys [of "m_sessions m" sid] by (simp add: mgr_inv_def)
  then have "m_sessions ?m = []" by (simp add: without_def)
  then have e: "mgr_inv ok ?m" "length (m_sessions ?m) < MAX_SESSIONS"
    using o by (simp_all add: mgr_inv_def without_def MAX_SESSIONS_def)
  from create_result [OF e, of True] obtain new m' where c: "create T True ?m = Ok (new, m')"
    and r: "new = nat_str (m_counter m + 1)" "m_active m' = Some new" "m_screen m' = m_screen m @ op_outs T (started T m)"
    by (auto simp: without_def started_def)
  obtain k where "k \<le> m_counter m" "sid = nat_str k" using i o by (auto simp: mgr_inv_def)
  then have "new \<noteq> sid" using r(1) by auto
  moreover have "close T sid m = Ok (True, m')"
    using o l a c by (simp add: close_def Let_def without_def)
  moreover have "mgr_inv ok m'" "m_order m' = [new]"
    using create_inv [OF e(1) c] o by (simp_all add: without_def)
  ultimately show ?thesis using that r by blast
qed

lemma close_cases:
  assumes i: "mgr_inv ok m" and l: "map_of (m_sessions m) sid = Some s"
  obtains (last) m' new where "m_order m = [sid]" "m_active m = Some sid"
      "close T sid m = Ok (True, m')" "mgr_inv ok m'" "m_order m' = [new]" "new \<noteq> sid" "m_active m' = Some new"
      "m_screen m' = m_screen m @ op_outs T (started T m)"
    | (inactive) m' where "m_active m \<noteq> Some sid" "close T sid m = Ok (True, m')" "mgr_inv ok m'"
      "m_order m' = remove1 sid (m_order m)" "m_active m' = m_active m" "m' = without sid m"
    | (active) j where "m_active m = Some sid" "m_order m = take j (m_order m) @ sid # drop (Suc j) (m_order m)"
      "remove1 sid (m_order m) \<noteq> []"
      "close T sid m = Ok (True, snd (switch T (remove1 sid (m_order m) ! min j (length (m_order m) - 2))
         ((without sid m)\<lparr>m_active := None\<rparr>)))"
proof -
  have so: "sid \<in> set (m_order m)" using mgr_inv_lookup [OF i, of sid] l by simp
  then obtain j where j: "index_of sid (m_order m) = Some j" by (metis index_of_None not_None_eq)
  have jl: "j < length (m_order m)" "m_order m ! j = sid" using index_of_Some [OF j] by auto
  have d: "distinct (m_order m)" using i by (simp add: mgr_inv_def)
  have len: "length (remove1 sid (m_order m)) = length (m_order m) - 1" using so by (simp add: length_remove1)
  obtain a where a: "m_active m = Some a" "a \<in> set (m_order m)"
    using i so by (cases "m_active m") (auto simp: mgr_inv_def)
  consider "a \<noteq> sid" | "a = sid" "remove1 sid (m_order m) \<noteq> []" | "a = sid" "remove1 sid (m_order m) = []" by blast
  then show ?thesis
  proof cases
    case 1
    have "mgr_inv ok ((without sid m)\<lparr>m_active := Some a\<rparr>)" using 1 a(2) by (intro without_inv i) simp
    moreover have "(without sid m)\<lparr>m_active := Some a\<rparr> = without sid m" using a by (cases m) (simp add: without_def)
    ultimately have "mgr_inv ok (without sid m)" by simp
    moreover have "close T sid m = Ok (True, without sid m)"
      using 1 l j a(1) by (simp add: close_def Let_def without_def)
    ultimately show ?thesis using inactive a 1 by (simp add: without_def)
  next
    case 2
    have "close T sid m = Ok (True, snd (switch T (remove1 sid (m_order m) ! min j (length (m_order m) - 2))
         ((without sid m)\<lparr>m_active := None\<rparr>)))"
      using 2 l j a(1) len by (simp add: close_def Let_def without_def numeral_2_eq_2)
    then show ?thesis using active [of j] 2 a(1) id_take_nth_drop [OF jl(1)] jl(2) by simp
  next
    case 3
    have "m_order m = [sid]" using 3 len so by (cases "m_order m") (auto split: if_splits)
    moreover have "m_active m = Some sid" using 3 a(1) by simp
    ultimately show ?thesis using close_last [OF i l] last by metis
  qed
qed

lemma successor_in:
  assumes "remove1 sid xs \<noteq> []" "sid \<in> set xs"
  shows "remove1 sid xs ! min j (length xs - 2) \<in> set (remove1 sid xs)"
proof -
  have "length (remove1 sid xs) = length xs - 1" using assms(2) by (simp add: length_remove1)
  moreover from this assms(1) have "0 < length xs - 1" by (metis length_greater_0_conv)
  ultimately show ?thesis by (intro nth_mem) simp
qed

lemma close_active_result:
  fixes j :: nat
  assumes i: "mgr_inv ok m" and l: "map_of (m_sessions m) sid = Some s"
    and a: "remove1 sid (m_order m) \<noteq> []"
  defines "x \<equiv> remove1 sid (m_order m) ! min j (length (m_order m) - 2)"
  obtains t m' post where "map_of (m_sessions m) x = Some t" "x \<noteq> sid"
    "switch T x ((without sid m)\<lparr>m_active := None\<rparr>) = (True, m')"
    "mgr_inv ok m'" "m_active m' = Some x" "m_order m' = remove1 sid (m_order m)"
    "map_of (m_sessions m') x = Some (op_resize T (m_cols m) (m_rows m) t)"
    "m_screen m' = (m_screen m @ [RESET_TERMINAL_SCREEN]) @ post" "concat post = keep_last cap (concat (op_outs T t))"
proof -
  have so: "sid \<in> set (m_order m)" using mgr_inv_lookup [OF i, of sid] l by simp
  have x: "x \<in> set (remove1 sid (m_order m))" unfolding x_def using a so by (rule successor_in)
  moreover have "distinct (m_order m)" using i by (simp add: mgr_inv_def)
  ultimately have xs: "x \<noteq> sid" "x \<in> set (m_order m)" by (auto dest: notin_set_remove1)
  then obtain t where t: "map_of (m_sessions m) x = Some t" using mgr_inv_lookup [OF i, of x] by auto
  let ?m = "(without sid m)\<lparr>m_active := None\<rparr>"
  have "mgr_inv ok (?m\<lparr>m_active := Some x\<rparr>)" using without_inv [OF i x] by simp
  moreover have "map_of (m_sessions ?m) x = Some t" using t xs without_lookup [of sid m x] by simp
  ultimately show ?thesis
    using switch_result [of x ?m t] t xs(1) that
    by (auto simp: without_def)
qed

lemma close_inv:
  assumes "mgr_inv ok m"
  shows "\<exists>m'. close T sid m = Ok (map_of (m_sessions m) sid \<noteq> None, m') \<and> mgr_inv ok m' \<and>
    (map_of (m_sessions m) sid \<noteq> None \<longrightarrow> m_order m' \<noteq> [] \<and> sid \<notin> set (m_order m'))"
proof (cases "map_of (m_sessions m) sid")
  case None
  then show ?thesis using assms by (simp add: close_def)
next
  case (Some s)
  have d: "distinct (m_order m)" using assms by (simp add: mgr_inv_def)
  from assms Some show ?thesis
  proof (cases rule: close_cases)
    case (last m' new)
    then show ?thesis using Some by simp
  next
    case (inactive m')
    have "sid \<in> set (m_order m)" using mgr_inv_lookup [OF assms, of sid] Some by simp
    with assms obtain a where a: "m_active m = Some a" "a \<in> set (m_order m)"
      by (cases "m_active m") (auto simp: mgr_inv_def)
    with inactive(1) have "a \<in> set (remove1 sid (m_order m))" by simp
    then have "m_order m' \<noteq> []" using inactive(4) by auto
    then show ?thesis using Some inactive d by simp
  next
    case (active j)
    from close_active_result [OF assms Some active(3), of j]
    obtain m' where "switch T (remove1 sid (m_order m) ! min j (length (m_order m) - 2))
        ((without sid m)\<lparr>m_active := None\<rparr>) = (True, m')" "mgr_inv ok m'" "m_order m' = remove1 sid (m_order m)"
      by metis
    then show ?thesis using Some active d by simp
  qed
qed

lemma close_view:
  assumes i: "mgr_inv ok m" and v: "view_ok T m" and o: "m_order m \<noteq> [sid]" and c: "close T sid m = Ok (r, m')"
  shows "view_ok T m'"
proof (cases "map_of (m_sessions m) sid")
  case None
  then show ?thesis using v c by (simp add: close_def)
next
  case (Some s)
  from i Some show ?thesis
  proof (cases rule: close_cases)
    case (last m' new)
    then show ?thesis using o by simp
  next
    case (inactive m'')
    then have "view_ok T (without sid m)"
      using v unfolding view_ok_def without_lookup without_fields by (metis option.discI)
    then show ?thesis using inactive c by simp
  next
    case (active j)
    from close_active_result [OF i Some active(3), of j]
    obtain x t m2 post where m2: "switch T (remove1 sid (m_order m) ! min j (length (m_order m) - 2))
        ((without sid m)\<lparr>m_active := None\<rparr>) = (True, m2)" "m_active m2 = Some x"
      "map_of (m_sessions m2) x = Some (op_resize T (m_cols m) (m_rows m) t)"
      "m_screen m2 = (m_screen m @ [RESET_TERMINAL_SCREEN]) @ post" "concat post = keep_last cap (concat (op_outs T t))"
      by metis
    have "view_ok T m2" unfolding view_ok_def
    proof (intro allI impI)
      fix i t' assume "m_active m2 = Some i \<and> map_of (m_sessions m2) i = Some t'"
      then have "op_outs T t' = op_outs T t" using m2 by (auto simp: resize_silent)
      then show "\<exists>pre post. m_screen m2 = pre @ post \<and> (pre = [] \<or> last pre = RESET_TERMINAL_SCREEN) \<and>
          suffix (concat post) (concat (op_outs T t'))"
        using m2 keep_last_suffix [of cap "concat (op_outs T t)"]
        by (intro exI [of _ "m_screen m @ [RESET_TERMINAL_SCREEN]"] exI [of _ post]) simp
    qed
    then show ?thesis using active c m2 by simp
  qed
qed

lemma on_session_view:
  assumes "view_ok T m" "\<And>s. map_of (m_sessions m) sid = Some s \<Longrightarrow> prefix (op_outs T s) (op_outs T (f s))"
  shows "view_ok T (on_session T sid f m)"
proof (cases "map_of (m_sessions m) sid")
  case None
  then show ?thesis using assms(1) by (simp add: on_session_def)
next
  case (Some s)
  show ?thesis unfolding view_ok_def
  proof (intro allI impI)
    fix i t assume it: "m_active (on_session T sid f m) = Some i \<and> map_of (m_sessions (on_session T sid f m)) i = Some t"
    show "\<exists>pre post. m_screen (on_session T sid f m) = pre @ post \<and>
        (pre = [] \<or> last pre = RESET_TERMINAL_SCREEN) \<and> suffix (concat post) (concat (op_outs T t))"
    proof (cases "i = sid")
      case True
      with it Some have t: "t = f s" "m_active m = Some sid" by (auto simp: on_session_lookup)
      obtain new where new: "op_outs T (f s) = op_outs T s @ new" using assms(2) [OF Some] by (auto simp: prefix_def)
      obtain pre post where p: "m_screen m = pre @ post" "pre = [] \<or> last pre = RESET_TERMINAL_SCREEN"
        "suffix (concat post) (concat (op_outs T s))" using assms(1) t(2) Some unfolding view_ok_def by blast
      then have "m_screen (on_session T sid f m) = pre @ (post @ new)"
        using on_session_screen [OF Some, of T f] t(2) new by simp
      moreover have "suffix (concat (post @ new)) (concat (op_outs T t))" using p(3) t(1) new by (auto simp: suffix_def)
      ultimately show ?thesis using p(2) by blast
    next
      case False
      with it have "m_active m = Some i" "map_of (m_sessions m) i = Some t" by (auto simp: on_session_lookup)
      moreover have "m_screen (on_session T sid f m) = m_screen m"
        using on_session_screen [OF Some, of T f] False \<open>m_active m = Some i\<close> by simp
      ultimately show ?thesis using assms(1) unfolding view_ok_def by metis
    qed
  qed
qed

lemma on_session_evolves:
  assumes "mgr_inv ok m" "\<And>s. map_of (m_sessions m) sid = Some s \<Longrightarrow> evolves s (f s)"
  shows "mgr_inv ok (on_session T sid f m)"
proof (rule mgr_inv_on_session [OF assms(1)])
  fix s assume s: "map_of (m_sessions m) sid = Some s"
  show "ok (f s)" by (rule evolves_ok [OF assms(2) [OF s] mgr_inv_ok [OF assms(1) s]])
qed

end

text \<open>
  The manager's histories: every public operation, and any step of any session (its threads
  run whether or not it is on screen).
\<close>

inductive mgr_step :: "'s term_ops \<Rightarrow> ('s \<Rightarrow> 's \<Rightarrow> bool) \<Rightarrow> 's mgr \<Rightarrow> 's mgr \<Rightarrow> bool" for T evolves where
  mgr_create: "create T True m = Ok (sid, m') \<Longrightarrow> mgr_step T evolves m m'"
| mgr_switch: "switch T sid m = (r, m') \<Longrightarrow> mgr_step T evolves m m'"
| mgr_close: "close T sid m = Ok (r, m') \<Longrightarrow> mgr_step T evolves m m'"
| mgr_input: "mgr_step T evolves m (mgr_write_input T d m)"
| mgr_resize: "mgr_step T evolves m (mgr_resize T c r m)"
| mgr_toggle: "m_active m = Some sid \<Longrightarrow> mgr_step T evolves m (on_session T sid (op_toggle T) m)"
| mgr_session: "map_of (m_sessions m) sid = Some s \<Longrightarrow> evolves s t \<Longrightarrow>
    mgr_step T evolves m (put_session T sid t m)"

inductive mgr_reachable :: "'s term_ops \<Rightarrow> ('s \<Rightarrow> 's \<Rightarrow> bool) \<Rightarrow> 's mgr \<Rightarrow> bool" for T evolves where
  mgr_init: "get_manager T None = Ok m \<Longrightarrow> mgr_reachable T evolves m"
| mgr_next: "mgr_reachable T evolves m \<Longrightarrow> mgr_step T evolves m m' \<Longrightarrow> mgr_reachable T evolves m'"

inductive_cases mgr_step_cases: "mgr_step T evolves m m'"

lemma put_session_on: "put_session T sid t m = on_session T sid (\<lambda>_. t) m"
  by (simp add: on_session_def put_session_def split: option.split)

context terminal
begin

lemma init_mgr_inv: "mgr_inv ok init_mgr"
  by (simp add: mgr_inv_def init_mgr_def)

lemma step_inv: "mgr_step T evolves m m' \<Longrightarrow> mgr_inv ok m \<Longrightarrow> m_order m \<noteq> [] \<Longrightarrow> mgr_inv ok m' \<and> m_order m' \<noteq> []"
proof (induction rule: mgr_step.induct)
  case (mgr_create m sid m')
  then show ?case using create_inv [of m True sid m'] by simp
next
  case (mgr_switch sid m r m')
  then show ?case using switch_inv [of m sid] by simp
next
  case (mgr_close sid m r m')
  then show ?case using close_inv [of m sid] by (cases "map_of (m_sessions m) sid") (auto simp: close_def)
next
  case (mgr_input m d)
  then show ?case
    by (auto simp: mgr_write_input_def split: option.split intro!: on_session_evolves input_evolves)
next
  case (mgr_resize m c r)
  have "mgr_inv ok (m\<lparr>m_cols := c, m_rows := r\<rparr>)" using mgr_resize(1) by (simp add: mgr_inv_def)
  with mgr_resize show ?case
    by (auto simp: mgr_resize_def Let_def split: option.split intro!: on_session_evolves resize_evolves)
next
  case (mgr_toggle m sid)
  then show ?case by (auto intro!: on_session_evolves toggle_evolves)
next
  case (mgr_session m sid s t)
  then show ?case by (auto simp: put_session_on intro!: on_session_evolves)
qed

lemma reachable_inv: "mgr_reachable T evolves m \<Longrightarrow> mgr_inv ok m \<and> m_order m \<noteq> []"
proof (induction rule: mgr_reachable.induct)
  case (mgr_init m)
  then obtain sid where "create T True init_mgr = Ok (sid, m)"
    by (auto simp: get_manager_def split: sum.splits)
  from create_inv [OF init_mgr_inv this] show ?case by (simp add: init_mgr_def)
next
  case (mgr_next m m')
  then show ?case using step_inv by blast
qed

lemma view_init: "get_manager T None = Ok m \<Longrightarrow> view_ok T m"
proof -
  assume g: "get_manager T None = Ok m"
  then obtain sid where c: "create T True init_mgr = Ok (sid, m)"
    by (auto simp: get_manager_def split: sum.splits)
  have "length (m_sessions (init_mgr :: 's mgr)) < MAX_SESSIONS" by (simp add: init_mgr_def MAX_SESSIONS_def)
  from create_result [OF init_mgr_inv this, of True] c
  have m: "m_sessions m = [(sid, started T init_mgr)]" "m_active m = Some sid"
    "m_screen m = op_outs T (started T init_mgr)" by (auto simp: init_mgr_def)
  show ?thesis unfolding view_ok_def
  proof (intro allI impI)
    fix i t assume "m_active m = Some i \<and> map_of (m_sessions m) i = Some t"
    with m show "\<exists>pre post. m_screen m = pre @ post \<and> (pre = [] \<or> last pre = RESET_TERMINAL_SCREEN) \<and>
        suffix (concat post) (concat (op_outs T t))"
      by (intro exI [of _ "[]"] exI [of _ "m_screen m"]) (auto split: if_splits)
  qed
qed

lemma step_view:
  assumes "mgr_step T evolves m m'" "mgr_inv ok m" "m_order m \<noteq> []" "view_ok T m"
    "\<nexists>sid. m_order m = [sid] \<and> sid \<notin> set (m_order m')"
  shows "view_ok T m'"
  using assms
proof (induction rule: mgr_step.induct)
  case (mgr_create m sid m')
  then have "m_active m \<noteq> None" by (auto simp: mgr_inv_def)
  with mgr_create create_view [of m True sid m'] show ?case by simp
next
  case (mgr_switch sid m r m')
  then show ?case using switch_view [of m sid] by simp
next
  case (mgr_close sid m r m')
  have "m_order m \<noteq> [sid]"
  proof
    assume o: "m_order m = [sid]"
    then have "map_of (m_sessions m) sid \<noteq> None" using mgr_inv_lookup [OF mgr_close(2), of sid] by simp
    with o mgr_close close_inv [OF mgr_close(2), of sid] show False by auto
  qed
  with mgr_close show ?case using close_view by blast
next
  case (mgr_input m d)
  then show ?case
    by (auto simp: mgr_write_input_def split: option.split intro!: on_session_view evolves_extends input_evolves)
next
  case (mgr_resize m c r)
  have "view_ok T (m\<lparr>m_cols := c, m_rows := r\<rparr>)" using mgr_resize(3) by (simp add: view_ok_def)
  with mgr_resize show ?case
    by (auto simp: mgr_resize_def Let_def resize_silent split: option.split intro!: on_session_view)
next
  case (mgr_toggle m sid)
  then show ?case by (auto intro!: on_session_view evolves_extends toggle_evolves)
next
  case (mgr_session m sid s t)
  then show ?case by (auto simp: put_session_on intro!: on_session_view evolves_extends)
qed

end

section \<open>Properties of the session manager\<close>

abbreviation reachable_mgr :: "host \<Rightarrow> (bytes list \<times> (ustr + exec_result)) list \<Rightarrow> session mgr \<Rightarrow> bool" where
  "reachable_mgr h rc \<equiv> mgr_reachable (pty_ops h rc) session_step"

definition demo_mgr :: "session mgr" where
  "demo_mgr = (case get_manager (pty_ops bare_host []) None of Ok m \<Rightarrow> m | Err _ \<Rightarrow> init_mgr)"

lemma demo_reachable: "reachable_mgr bare_host [] demo_mgr"
proof -
  have "length (m_sessions (init_mgr :: session mgr)) < MAX_SESSIONS" by (simp add: init_mgr_def MAX_SESSIONS_def)
  from pty.create_result [OF pty.init_mgr_inv this, of bare_host "[]" True]
  show ?thesis by (intro mgr_init) (simp add: demo_mgr_def get_manager_def)
qed

text \<open>
  C1: in every history of the manager (tabs opened, switched and closed, input, resizes, PTY
  toggles, and the sessions' own threads running in between) there is at least one session and
  at most eight, ids are never mixed up, and the active id names a live session.
\<close>

theorem manager_well_formed:
  assumes "reachable_mgr h rc m"
  shows "distinct (m_order m) \<and> map fst (m_sessions m) = m_order m \<and>
    1 \<le> length (m_order m) \<and> length (m_order m) \<le> 8 \<and>
    (\<exists>sid s. m_active m = Some sid \<and> map_of (m_sessions m) sid = Some s \<and> reachable s)"
proof -
  have i: "mgr_inv reachable m" "m_order m \<noteq> []" using pty.reachable_inv [OF assms] by blast+
  then obtain sid where a: "m_active m = Some sid" "sid \<in> set (m_order m)"
    by (cases "m_active m") (auto simp: mgr_inv_def)
  then obtain s where "map_of (m_sessions m) sid = Some s" using mgr_inv_lookup [OF i(1), of sid] by auto
  moreover from this have "reachable s" by (rule mgr_inv_ok [OF i(1)])
  ultimately show ?thesis using i a by (auto simp: mgr_inv_def MAX_SESSIONS_def Suc_le_eq)
qed

lemma manager_well_formed_witness:
  "distinct (m_order demo_mgr) \<and> map fst (m_sessions demo_mgr) = m_order demo_mgr \<and>
    1 \<le> length (m_order demo_mgr) \<and> length (m_order demo_mgr) \<le> 8 \<and>
    (\<exists>sid s. m_active demo_mgr = Some sid \<and> map_of (m_sessions demo_mgr) sid = Some s \<and> reachable s)"
  by (rule manager_well_formed [OF demo_reachable])


lemma demo_view: "view_ok (pty_ops bare_host []) demo_mgr"
proof -
  have "length (m_sessions (init_mgr :: session mgr)) < MAX_SESSIONS" by (simp add: init_mgr_def MAX_SESSIONS_def)
  from pty.create_result [OF pty.init_mgr_inv this, of bare_host "[]" True]
  show ?thesis by (intro pty.view_init) (simp add: demo_mgr_def get_manager_def)
qed


text \<open>
  switching to a background session clears the client's screen and replays the last
  mebibyte of that session's output, and nothing else.
\<close>

theorem switch_replays_scrollback:
  assumes "reachable_mgr h rc m" and "map_of (m_sessions m) sid = Some s" and "m_active m \<noteq> Some sid"
  shows "\<exists>m'. switch (pty_ops h rc) sid m = (True, m') \<and> m_active m' = Some sid \<and> m_order m' = m_order m \<and>
    concat (m_screen m') = concat (m_screen m) @ RESET_TERMINAL_SCREEN @
      keep_last scrollback_max_size (written (s_log s))"
proof -
  have i: "mgr_inv reachable m" using pty.reachable_inv [OF assms(1)] by blast
  have o: "concat (op_outs (pty_ops h rc) s) = written (s_log s)" by (simp add: pty_ops_def concat_outs)
  from pty.switch_result [OF pty.mgr_inv_activate [OF i assms(2)] assms(2,3), of h rc]
  show ?thesis unfolding o by blast
qed

definition two_tabs :: "session mgr" where
  "two_tabs = (case create (pty_ops bare_host []) True demo_mgr of Ok (_, m) \<Rightarrow> m | Err _ \<Rightarrow> init_mgr)"

lemma two_tabs_facts:
  "create (pty_ops bare_host []) True demo_mgr = Ok (''2'', two_tabs)"
  "reachable_mgr bare_host [] two_tabs" "m_order two_tabs = [''1'', ''2'']" "m_active two_tabs = Some ''2''"
  "\<exists>s. map_of (m_sessions two_tabs) ''1'' = Some s"
proof -
  have l: "length (m_sessions (init_mgr :: session mgr)) < MAX_SESSIONS" by (simp add: init_mgr_def MAX_SESSIONS_def)
  have n: "nat_str 1 = ''1''" "nat_str 2 = ''2''" "nat_str (Suc 0) = ''1''" "nat_str (Suc (Suc 0)) = ''2''" by code_simp+
  from pty.create_result [OF pty.init_mgr_inv l, of bare_host "[]" True]
  have d: "m_sessions demo_mgr = [(''1'', started (pty_ops bare_host []) init_mgr)]" "m_order demo_mgr = [''1'']"
    "m_active demo_mgr = Some ''1''" "m_counter demo_mgr = 1"
    by (simp_all add: demo_mgr_def get_manager_def init_mgr_def n)
  have i: "mgr_inv reachable demo_mgr" using pty.reachable_inv [OF demo_reachable] by blast
  have "length (m_sessions demo_mgr) < MAX_SESSIONS" by (simp add: d MAX_SESSIONS_def)
  from pty.create_result [OF i this, of bare_host "[]" True]
  show c: "create (pty_ops bare_host []) True demo_mgr = Ok (''2'', two_tabs)"
    and "m_order two_tabs = [''1'', ''2'']" "m_active two_tabs = Some ''2''"
    "\<exists>s. map_of (m_sessions two_tabs) ''1'' = Some s"
    by (simp_all add: two_tabs_def d n)
  show "reachable_mgr bare_host [] two_tabs" by (rule mgr_next [OF demo_reachable mgr_create [OF c]])
qed

lemma switch_replays_scrollback_witness:
  "\<exists>s m'. map_of (m_sessions two_tabs) ''1'' = Some s \<and> switch (pty_ops bare_host []) ''1'' two_tabs = (True, m') \<and>
    m_active m' = Some ''1'' \<and> m_order m' = m_order two_tabs \<and>
    concat (m_screen m') = concat (m_screen two_tabs) @ RESET_TERMINAL_SCREEN @
      keep_last scrollback_max_size (written (s_log s))"
proof -
  obtain s where "map_of (m_sessions two_tabs) ''1'' = Some s" using two_tabs_facts(5) by blast
  with switch_replays_scrollback [OF two_tabs_facts(2) this] two_tabs_facts(4) show ?thesis by auto
qed

text \<open>
  closing the active one of several tabs removes exactly it and activates its right
  neighbour, or the left one when it was the last in the row; the order of the others stays.
\<close>

theorem close_activates_neighbour:
  assumes "reachable_mgr h rc m" and "m_active m = Some sid" and "m_order m = xs @ sid # ys" and "xs @ ys \<noteq> []"
  shows "\<exists>m'. close (pty_ops h rc) sid m = Ok (True, m') \<and> m_order m' = xs @ ys \<and>
    m_active m' = Some (if ys = [] then last xs else hd ys)"
proof -
  have i: "mgr_inv reachable m" using pty.reachable_inv [OF assms(1)] by blast
  then have d: "distinct (xs @ sid # ys)" using assms(3) by (simp add: mgr_inv_def)
  then have r: "remove1 sid (m_order m) = xs @ ys" using assms(3) by (simp add: remove1_append)
  obtain s where s: "map_of (m_sessions m) sid = Some s" using mgr_inv_lookup [OF i, of sid] assms(3) by auto
  from i s show ?thesis
  proof (cases rule: pty.close_cases [of _ _ _ h rc])
    case (last m' new)
    then show ?thesis using assms(3,4) by (simp add: append_eq_Cons_conv)
  next
    case (inactive m')
    then show ?thesis using assms(2) by simp
  next
    case (active j)
    have "j < length (m_order m)" "m_order m ! j = sid"
      using active(2) by (metis append_take_drop_id drop_eq_Nil length_take list.distinct(1) min_def nth_append_length not_le self_append_conv)+
    then have "j = length xs"
      using d assms(3) by (metis length_append length_Cons add_Suc_right less_add_Suc1 nth_append_length nth_eq_iff_index_eq)
    have len: "length (m_order m) = length xs + length ys + 1" using assms(3) by simp
    have x: "remove1 sid (m_order m) ! min j (length (m_order m) - 2) = (if ys = [] then last xs else hd ys)"
      using \<open>j = length xs\<close> len assms(4) unfolding r
      by (cases ys) (auto simp: nth_append last_conv_nth)
    obtain m' where
      "switch (pty_ops h rc) (remove1 sid (m_order m) ! min j (length (m_order m) - 2))
         ((without sid m)\<lparr>m_active := None\<rparr>) = (True, m')"
      "m_active m' = Some (remove1 sid (m_order m) ! min j (length (m_order m) - 2))"
      "m_order m' = remove1 sid (m_order m)"
      by (rule pty.close_active_result [OF i s active(3), of j h rc])
    then show ?thesis using active(4) x r by simp
  qed
qed

lemma close_activates_neighbour_witness:
  "\<exists>m'. close (pty_ops bare_host []) ''2'' two_tabs = Ok (True, m') \<and> m_order m' = [''1''] @ [] \<and>
    m_active m' = Some (if ([] :: string list) = [] then last [''1''] else hd [])"
  by (rule close_activates_neighbour [OF two_tabs_facts(2,4)]) (simp_all add: two_tabs_facts(3))

text \<open>
  closing the only tab opens a new one at once, so there is always a terminal; but the
  client's screen is not reset in between: what follows on the old screen is just what the
  new session writes while it starts.
\<close>

theorem close_last_tab_keeps_old_screen:
  assumes "reachable_mgr h rc m" and "m_order m = [sid]"
  shows "\<exists>m' new. close (pty_ops h rc) sid m = Ok (True, m') \<and> m_order m' = [new] \<and> new \<noteq> sid \<and>
    m_active m' = Some new \<and>
    m_screen m' = m_screen m @ outs (start h rc (resize (m_cols m) (m_rows m) init_session))"
proof -
  have i: "mgr_inv reachable m" using pty.reachable_inv [OF assms(1)] by blast
  obtain s where s: "map_of (m_sessions m) sid = Some s" using mgr_inv_lookup [OF i, of sid] assms(2) by auto
  have a: "m_active m = Some sid" using i assms(2) by (cases "m_active m") (auto simp: mgr_inv_def)
  from i s show ?thesis
  proof (cases rule: pty.close_cases [of _ _ _ h rc])
    case (last m' new)
    then show ?thesis by (auto simp: started_def pty_ops_def)
  next
    case (inactive m')
    then show ?thesis using a by simp
  next
    case (active j)
    then show ?thesis using assms(2) by simp
  qed
qed

lemma close_last_tab_keeps_old_screen_witness:
  "\<exists>m' new. close (pty_ops bare_host []) ''1'' demo_mgr = Ok (True, m') \<and> m_order m' = [new] \<and> new \<noteq> ''1'' \<and>
    m_active m' = Some new \<and>
    m_screen m' = m_screen demo_mgr @
      outs (start bare_host [] (resize (m_cols demo_mgr) (m_rows demo_mgr) init_session))"
proof (rule close_last_tab_keeps_old_screen [OF demo_reachable])
  show "m_order demo_mgr = [''1'']"
    using two_tabs_facts(1,3) pty.create_inv [OF conjunct1 [OF pty.reachable_inv [OF demo_reachable]], of bare_host "[]" True]
    by fastforce
qed

end
