(* ===== verification/WsServer.thy ===== *)
theory WsServer
  imports WsHandshake Sessions "HOL-Library.Monad_Syntax"
begin

text \<open>
  \<open>WebSocketServer\<close> of \<open>zmux/ws_server.py\<close>: the set of clients and its lock, \<open>broadcast\<close>,
  \<open>_unregister_client\<close>, \<open>stop\<close>, the client handler with its message loop, and the routing of
  messages to the session manager (\<open>Sessions\<close>).

  \<open>clients_lock\<close> is a plain \<open>Lock\<close>: taking it while it is held never returns.  An operation
  that would do so has the value \<open>None\<close>.  A client is a number; \<open>fails c\<close> says that sending to
  \<open>c\<close> raises (disconnected, or stalled beyond the send timeout).
\<close>

section \<open>State and the lock\<close>

record server =
  w_running :: bool
  w_clients :: "nat list"
  w_locked :: bool
  w_closed :: "nat list"
  w_sent :: "(nat \<times> byte \<times> bytes) list"
  w_http :: "(nat \<times> ustr) list"

definition init_server :: server where
  "init_server = \<lparr>w_running = False, w_clients = [], w_locked = False, w_closed = [], w_sent = [], w_http = []\<rparr>"

definition acquire :: "server \<Rightarrow> server option" where
  "acquire s = (if w_locked s then None else Some (s\<lparr>w_locked := True\<rparr>))"

definition release :: "server \<Rightarrow> server" where
  "release s = s\<lparr>w_locked := False\<rparr>"

section \<open>Clients\<close>

definition unregister_client :: "nat \<Rightarrow> server \<Rightarrow> server option" where
  "unregister_client c s = do {
     s \<leftarrow> acquire s;
     let s = (if c \<in> set (w_clients s)
              then s\<lparr>w_clients := removeAll c (w_clients s), w_closed := w_closed s @ [c]\<rparr> else s);
     Some (release s)
   }"

definition register_client :: "nat \<Rightarrow> server \<Rightarrow> server option" where
  "register_client c s = do {
     s \<leftarrow> acquire s;
     Some (release (s\<lparr>w_clients := List.insert c (w_clients s)\<rparr>))
   }"

text \<open>One \<open>_send_frame\<close>: whether it succeeded, and the frame in the client's stream.\<close>

definition try_send :: "(nat \<Rightarrow> bool) \<Rightarrow> byte \<Rightarrow> bytes \<Rightarrow> nat \<Rightarrow> server \<Rightarrow> bool \<times> server" where
  "try_send fails opcode data c s =
     (case send_frame opcode data of
        Err _ \<Rightarrow> (False, s)
      | Ok _ \<Rightarrow> if fails c then (False, s) else (True, s\<lparr>w_sent := w_sent s @ [(c, opcode, data)]\<rparr>))"

fun send_each :: "(nat \<Rightarrow> bool) \<Rightarrow> bytes \<Rightarrow> nat list \<Rightarrow> server \<Rightarrow> nat list \<times> server" where
  "send_each fails data [] s = ([], s)"
| "send_each fails data (c # cs) s =
     (case try_send fails 2 data c s of (sent, s) \<Rightarrow>
        case send_each fails data cs s of (gone, s) \<Rightarrow> (if sent then gone else c # gone, s))"

fun unregister_each :: "nat list \<Rightarrow> server \<Rightarrow> server option" where
  "unregister_each [] s = Some s"
| "unregister_each (c # cs) s = do { s \<leftarrow> unregister_client c s; unregister_each cs s }"

definition ws_broadcast :: "(nat \<Rightarrow> bool) \<Rightarrow> bytes \<Rightarrow> server \<Rightarrow> server option" where
  "ws_broadcast fails data s = do {
     s \<leftarrow> acquire s;
     let clients = w_clients s;
     let s = release s;
     let (gone, s) = send_each fails data clients s;
     unregister_each gone s
   }"

fun state_each :: "(nat \<Rightarrow> bool) \<Rightarrow> bytes \<Rightarrow> nat list \<Rightarrow> server \<Rightarrow> server option" where
  "state_each fails message [] s = Some s"
| "state_each fails message (c # cs) s = do {
     let (sent, s) = try_send fails 1 message c s;
     s \<leftarrow> (if sent then Some s else unregister_client c s);
     state_each fails message cs s
   }"

definition push_state :: "(nat \<Rightarrow> bool) \<Rightarrow> bytes \<Rightarrow> server \<Rightarrow> server option" where
  "push_state fails message s = do {
     s \<leftarrow> acquire s;
     let clients = w_clients s;
     state_each fails message clients (release s)
   }"

definition ws_stop :: "server \<Rightarrow> server option" where
  "ws_stop s = do {
     s \<leftarrow> acquire (s\<lparr>w_running := False\<rparr>);
     Some (release (s\<lparr>w_closed := w_closed s @ w_clients s, w_clients := []\<rparr>))
   }"

section \<open>The server together with the session manager\<close>

record world =
  g_srv :: server
  g_mgr :: "session mgr option"

text \<open>
  What a step depends on outside the server: the answers of the host to the sessions, which
  clients fail, and the JSON library: \<open>loads\<close>, \<open>int(x)\<close> of a value, \<open>str(x)\<close> of a value that
  is not a string, and the text of the tab state.
\<close>

datatype json = JNull | JBool bool | JInt int | JFloat ustr | JStr ustr | JList "json list" | JObj "(ustr \<times> json) list"

record deps =
  d_host :: host
  d_rc :: "(bytes list \<times> (ustr + exec_result)) list"
  d_fails :: "nat \<Rightarrow> bool"
  d_loads :: "ustr \<Rightarrow> exn + json"
  d_int :: "json \<Rightarrow> exn + int"
  d_str :: "json \<Rightarrow> ustr"
  d_state_text :: "(string \<times> bool) list \<times> string option \<times> nat \<Rightarrow> ustr"

abbreviation ops :: "deps \<Rightarrow> session term_ops" where
  "ops d \<equiv> pty_ops (d_host d) (d_rc d)"

fun broadcast_all :: "(nat \<Rightarrow> bool) \<Rightarrow> bytes list \<Rightarrow> server \<Rightarrow> server option" where
  "broadcast_all fails [] s = Some s"
| "broadcast_all fails (c # cs) s = do { s \<leftarrow> ws_broadcast fails c s; broadcast_all fails cs s }"

text \<open>
  The manager goes from \<open>m\<close> to \<open>m'\<close>: each chunk it passed to \<open>broadcast\<close> goes to the clients.
\<close>

definition commit :: "deps \<Rightarrow> session mgr \<Rightarrow> session mgr \<Rightarrow> world \<Rightarrow> world option" where
  "commit d m m' w = do {
     s \<leftarrow> broadcast_all (d_fails d) (drop (length (m_screen m)) (m_screen m')) (g_srv w);
     Some (w\<lparr>g_srv := s, g_mgr := Some m'\<rparr>)
   }"

text \<open>\<open>get_manager(self)\<close> at the start of an operation; it cannot fail, see \<open>manager_available\<close>.\<close>

definition manager_of :: "deps \<Rightarrow> world \<Rightarrow> session mgr" where
  "manager_of d w = (case get_manager (ops d) (g_mgr w) of Ok m \<Rightarrow> m | Err _ \<Rightarrow> init_mgr)"

definition with_manager :: "deps \<Rightarrow> (session mgr \<Rightarrow> session mgr) \<Rightarrow> world \<Rightarrow> world option" where
  "with_manager d f w =
     (case g_mgr w of
        Some m \<Rightarrow> commit d m (f m) w
      | None \<Rightarrow> let m = manager_of d w in do { w \<leftarrow> commit d init_mgr m w; commit d m (f m) w })"

definition send_sessions_state :: "deps \<Rightarrow> world \<Rightarrow> world option" where
  "send_sessions_state d w = do {
     w \<leftarrow> with_manager d id w;
     (case snapshot (ops d) (manager_of d w) of
        Err _ \<Rightarrow> Some w
      | Ok st \<Rightarrow> do {
          s \<leftarrow> push_state (d_fails d) (utf8_encode (d_state_text d st)) (g_srv w);
          Some (w\<lparr>g_srv := s\<rparr>) })
   }"

definition json_get :: "ustr \<Rightarrow> (ustr \<times> json) list \<Rightarrow> json option" where
  "json_get k obj = map_of obj k"

text \<open>An id a message names; one that is not ASCII text is no session's id.\<close>

definition id_of :: "deps \<Rightarrow> json option \<Rightarrow> string" where
  "id_of d v =
     (let t = (case v of None \<Rightarrow> [] | Some (JStr t) \<Rightarrow> t | Some j \<Rightarrow> d_str d j)
      in if list_all (\<lambda>c. c < 128) t then map char_of t else [])"

definition handle_session_action :: "deps \<Rightarrow> ustr \<Rightarrow> (ustr \<times> json) list \<Rightarrow> world \<Rightarrow> world option" where
  "handle_session_action d action obj w = do {
     w \<leftarrow> (if action = u ''session.new'' then do {
             w \<leftarrow> with_manager d id w;
             (case create (ops d) True (manager_of d w) of
                Err (ValueError msg) \<Rightarrow> do {
                  s \<leftarrow> ws_broadcast (d_fails d) (crlf_bytes @ b ''[zmux: '' @ b msg @ b '']'' @ crlf_bytes) (g_srv w);
                  Some (w\<lparr>g_srv := s\<rparr>) }
              | Err _ \<Rightarrow> Some w
              | Ok (sid, m) \<Rightarrow> do {
                  w \<leftarrow> commit d (manager_of d w) m w;
                  with_manager d (\<lambda>m. snd (switch (ops d) sid m)) w }) }
           else if action = u ''session.switch'' then
             with_manager d (\<lambda>m. snd (switch (ops d) (id_of d (json_get (u ''id'') obj)) m)) w
           else if action = u ''session.close'' then
             with_manager d (\<lambda>m. case close (ops d) (id_of d (json_get (u ''id'') obj)) m of
                 Ok (_, m) \<Rightarrow> m | Err _ \<Rightarrow> m) w
           else with_manager d id w);
     send_sessions_state d w
   }"

text \<open>
  \<open>TIOCSWINSZ\<close> packs the size into unsigned 16-bit fields: a live PTY given a larger one raises
  \<open>struct.error\<close>, after the manager and the session have stored it.
\<close>

definition resize_raises :: "int \<Rightarrow> int \<Rightarrow> session mgr \<Rightarrow> bool" where
  "resize_raises cols rows m \<longleftrightarrow> cols > 0 \<and> rows > 0 \<and> (cols > 65535 \<or> rows > 65535) \<and>
     (case active_session m of None \<Rightarrow> False | Some s \<Rightarrow> s_pty s \<noteq> None)"

definition store_size :: "deps \<Rightarrow> int \<Rightarrow> int \<Rightarrow> session mgr \<Rightarrow> session mgr" where
  "store_size d cols rows m =
     (let m = m\<lparr>m_cols := cols, m_rows := rows\<rparr>
      in case m_active m of None \<Rightarrow> m
         | Some sid \<Rightarrow> on_session (ops d) sid (\<lambda>s. s\<lparr>s_cols := cols, s_rows := rows\<rparr>) m)"

definition raw_input :: "deps \<Rightarrow> bytes \<Rightarrow> world \<Rightarrow> world option" where
  "raw_input d payload w = with_manager d (mgr_write_input (ops d) payload) w"

text \<open>\<open>data.get("cols", 80)\<close> and \<open>int(...)\<close>.\<close>

definition int_field :: "deps \<Rightarrow> ustr \<Rightarrow> int \<Rightarrow> (ustr \<times> json) list \<Rightarrow> exn + int" where
  "int_field d k dflt obj = (case json_get k obj of None \<Rightarrow> Ok dflt | Some v \<Rightarrow> d_int d v)"

definition handle_client_message :: "deps \<Rightarrow> bytes \<Rightarrow> world \<Rightarrow> world option" where
  "handle_client_message d payload w =
     (case utf8_strict payload of
        None \<Rightarrow> raw_input d payload w
      | Some msg \<Rightarrow>
          let t = strip msg in
          if \<not> (prefix [123] t \<and> suffix [125] t) then raw_input d payload w
          else
            (case d_loads d msg of
               Ok (JObj obj) \<Rightarrow>
                 (case json_get (u ''action'') obj of
                    Some (JStr action) \<Rightarrow>
                      if action = u ''resize'' then
                        (case (int_field d (u ''cols'') 80 obj, int_field d (u ''rows'') 24 obj) of
                           (Ok cols, Ok rows) \<Rightarrow>
                             do { w \<leftarrow> with_manager d id w;
                                  if resize_raises cols rows (manager_of d w) then
                                    do { w \<leftarrow> with_manager d (store_size d cols rows) w; raw_input d payload w }
                                  else with_manager d (mgr_resize (ops d) cols rows) w }
                         | _ \<Rightarrow> raw_input d payload w)
                      else if action \<in> {u ''session.new'', u ''session.switch'', u ''session.close'', u ''session.list''} then
                        handle_session_action d action obj w
                      else if action = u ''pty.toggle'' then
                        with_manager d (\<lambda>m. case m_active m of None \<Rightarrow> m
                          | Some sid \<Rightarrow> on_session (ops d) sid (op_toggle (ops d)) m) w
                      else raw_input d payload w
                  | _ \<Rightarrow> raw_input d payload w)
             | _ \<Rightarrow> raw_input d payload w))"

section \<open>A connection\<close>

text \<open>
  The message loop: it ends when the server stops, the peer closes or sends a close frame, or
  answering a ping fails; \<open>None\<close> is a deadlock on the clients lock.
\<close>

function message_loop :: "deps \<Rightarrow> nat \<Rightarrow> sock \<Rightarrow> world \<Rightarrow> world option" where
  "message_loop d c sk w =
     (if \<not> w_running (g_srv w) then Some w
      else case read_frame sock_recv sk of
        Err _ \<Rightarrow> Some w
      | Ok ((opcode, payload), sk') \<Rightarrow>
          if opcode = 8 then Some w
          else if opcode = 9 then
            (case try_send (d_fails d) 10 payload c (g_srv w) of
               (False, s) \<Rightarrow> Some w
             | (True, s) \<Rightarrow> message_loop d c sk' (w\<lparr>g_srv := s\<rparr>))
          else if opcode \<in> {1, 2} then
            (case handle_client_message d payload w of
               None \<Rightarrow> None
             | Some w \<Rightarrow> message_loop d c sk' w)
          else message_loop d c sk' w)"
  by pat_completeness auto
termination
  by (relation "measure (\<lambda>(d, c, sk, w). length (sk_in sk))") (auto dest: tcp_read_frame_shrinks)

declare message_loop.simps [simp del]

record http_deps =
  hd_lower :: "ustr \<Rightarrow> ustr"
  hd_netloc_ok :: "ustr \<Rightarrow> bool"
  hd_sha1 :: "bytes \<Rightarrow> bytes"
  hd_token :: ustr

definition respond :: "nat \<Rightarrow> ustr \<Rightarrow> server \<Rightarrow> server" where
  "respond c text s = s\<lparr>w_http := w_http s @ [(c, text)]\<rparr>"

definition close_socket :: "nat \<Rightarrow> server \<Rightarrow> server" where
  "close_socket c s = s\<lparr>w_closed := w_closed s @ [c]\<rparr>"

definition http_401 :: ustr where
  "http_401 = u ''HTTP/1.1 401 Unauthorized'' @ [CR, LF] @ u ''Connection: close'' @ [CR, LF, CR, LF]"

definition http_400 :: ustr where
  "http_400 = u ''HTTP/1.1 400 Bad Request'' @ [CR, LF] @ u ''Connection: close'' @ [CR, LF, CR, LF]"

definition http_101 :: "ustr \<Rightarrow> ustr" where
  "http_101 accept_key = u ''HTTP/1.1 101 Switching Protocols'' @ [CR, LF] @ u ''Upgrade: websocket'' @ [CR, LF] @
     u ''Connection: Upgrade'' @ [CR, LF] @ u ''Sec-WebSocket-Accept: '' @ accept_key @ [CR, LF, CR, LF]"

text \<open>The screen of the active session, replayed to a client that has just connected.\<close>

definition replay :: "deps \<Rightarrow> nat \<Rightarrow> world \<Rightarrow> world option" where
  "replay d c w = do {
     w \<leftarrow> with_manager d id w;
     let scrollback = (case active_session (manager_of d w) of Some s \<Rightarrow> s_scroll s | None \<Rightarrow> []);
     (case try_send (d_fails d) 2 RESET_TERMINAL_SCREEN c (g_srv w) of
        (False, s) \<Rightarrow> Some w
      | (True, s) \<Rightarrow>
          (case (if scrollback \<noteq> [] then try_send (d_fails d) 2 scrollback c s else (True, s)) of
             (False, s) \<Rightarrow> Some (w\<lparr>g_srv := s\<rparr>)
           | (True, s) \<Rightarrow> send_sessions_state d (w\<lparr>g_srv := s\<rparr>)))
   }"

definition unregister_world :: "nat \<Rightarrow> world \<Rightarrow> world option" where
  "unregister_world c w = do { s \<leftarrow> unregister_client c (g_srv w); Some (w\<lparr>g_srv := s\<rparr>) }"

definition handle_client :: "http_deps \<Rightarrow> deps \<Rightarrow> nat \<Rightarrow> sock \<Rightarrow> world \<Rightarrow> world option" where
  "handle_client hp d c sk w =
     (case read_http_headers (hd_lower hp) sk of
        ((headers, request_line), sk) \<Rightarrow>
          if headers = [] \<or> request_line = [] then unregister_world c (w\<lparr>g_srv := close_socket c (g_srv w)\<rparr>)
          else if \<not> verify_token (hd_netloc_ok hp) (hd_token hp) request_line then
            (if d_fails d c then unregister_world c w
             else unregister_world c (w\<lparr>g_srv := close_socket c (respond c http_401 (g_srv w))\<rparr>))
          else
            let sec_key = (case map_of headers (u ''sec-websocket-key'') of None \<Rightarrow> [] | Some k \<Rightarrow> k) in
            if d_fails d c then unregister_world c w
            else if sec_key = [] then
              unregister_world c (w\<lparr>g_srv := close_socket c (respond c http_400 (g_srv w))\<rparr>)
            else do {
              s \<leftarrow> register_client c (respond c (http_101 (compute_accept_key (hd_sha1 hp) sec_key)) (g_srv w));
              w \<leftarrow> replay d c (w\<lparr>g_srv := s\<rparr>);
              w \<leftarrow> message_loop d c sk w;
              unregister_world c w
            })"

section \<open>No operation deadlocks\<close>

lemma unregister_unlocked:
  "\<not> w_locked s \<Longrightarrow> \<exists>s'. unregister_client c s = Some s' \<and> \<not> w_locked s'"
  by (auto simp: unregister_client_def acquire_def release_def)

lemma unregister_result:
  assumes "\<not> w_locked s" "c \<in> set (w_clients s)"
  shows "unregister_client c s = Some (s\<lparr>w_clients := removeAll c (w_clients s), w_closed := w_closed s @ [c]\<rparr>)"
  using assms by (cases s) (simp add: unregister_client_def acquire_def release_def)

lemma unregister_each_unlocked: "\<not> w_locked s \<Longrightarrow> \<exists>s'. unregister_each cs s = Some s' \<and> \<not> w_locked s'"
proof (induction cs arbitrary: s)
  case (Cons c cs)
  from unregister_unlocked [OF Cons.prems, of c] obtain s' where "unregister_client c s = Some s'" "\<not> w_locked s'"
    by blast
  with Cons.IH [of s'] show ?case by simp
qed simp

lemma try_send_locked [simp]: "w_locked (snd (try_send fails op data c s)) = w_locked s"
  by (simp add: try_send_def split: sum.split)

lemma send_each_locked: "w_locked (snd (send_each fails data cs s)) = w_locked s"
proof (induction cs arbitrary: s)
  case (Cons c cs)
  obtain sent s1 where t: "try_send fails 2 data c s = (sent, s1)" by fastforce
  then have "w_locked s1 = w_locked s" using try_send_locked [of fails 2 data c s] by simp
  moreover obtain gone s2 where "send_each fails data cs s1 = (gone, s2)" by fastforce
  ultimately show ?case using Cons.IH [of s1] t by simp
qed simp

lemma broadcast_unlocked: "\<not> w_locked s \<Longrightarrow> \<exists>s'. ws_broadcast fails data s = Some s' \<and> \<not> w_locked s'"
proof -
  assume u: "\<not> w_locked s"
  have "\<not> w_locked (snd (send_each fails data (w_clients s) (release (s\<lparr>w_locked := True\<rparr>))))"
    by (simp add: send_each_locked release_def)
  then show ?thesis using u
    by (cases "send_each fails data (w_clients s) (release (s\<lparr>w_locked := True\<rparr>))")
      (simp add: ws_broadcast_def acquire_def Let_def unregister_each_unlocked)
qed

lemma broadcast_all_unlocked: "\<not> w_locked s \<Longrightarrow> \<exists>s'. broadcast_all fails cs s = Some s' \<and> \<not> w_locked s'"
proof (induction cs arbitrary: s)
  case (Cons c cs)
  from broadcast_unlocked [OF Cons.prems] obtain s' where "ws_broadcast fails c s = Some s'" "\<not> w_locked s'"
    by blast
  with Cons.IH [of s'] show ?case by simp
qed simp

lemma state_each_unlocked: "\<not> w_locked s \<Longrightarrow> \<exists>s'. state_each fails msg cs s = Some s' \<and> \<not> w_locked s'"
proof (induction cs arbitrary: s)
  case (Cons c cs)
  obtain sent s1 where t: "try_send fails 1 msg c s = (sent, s1)" by fastforce
  then have u1: "\<not> w_locked s1" using try_send_locked [of fails 1 msg c s] Cons.prems by simp
  obtain s2 where s2: "(if sent then Some s1 else unregister_client c s1) = Some s2" "\<not> w_locked s2"
    using u1 unregister_unlocked [OF u1, of c] by (cases sent) auto
  from Cons.IH [OF s2(2)] t s2(1) show ?case by simp
qed simp

lemma push_state_unlocked: "\<not> w_locked s \<Longrightarrow> \<exists>s'. push_state fails msg s = Some s' \<and> \<not> w_locked s'"
  by (simp add: push_state_def acquire_def Let_def state_each_unlocked release_def)

definition unlocked :: "world \<Rightarrow> bool" where
  "unlocked w \<longleftrightarrow> \<not> w_locked (g_srv w)"

text \<open>\<open>live r\<close>: the operation returned, with the lock free.\<close>

definition live :: "world option \<Rightarrow> bool" where
  "live r \<longleftrightarrow> (\<exists>w. r = Some w \<and> unlocked w)"

lemma live_Some [simp]: "live (Some w) = unlocked w" and live_None [simp]: "\<not> live None"
  by (simp_all add: live_def)

lemma live_bind: "live r \<Longrightarrow> (\<And>w. unlocked w \<Longrightarrow> live (f w)) \<Longrightarrow> live (r \<bind> f)"
  by (auto simp: live_def)

lemma live_server:
  "\<exists>s'. r = Some s' \<and> \<not> w_locked s' \<Longrightarrow> live (r \<bind> (\<lambda>s. Some (w\<lparr>g_srv := s\<rparr>)))"
  "\<exists>s'. r = Some s' \<and> \<not> w_locked s' \<Longrightarrow> live (r \<bind> (\<lambda>s. Some (w\<lparr>g_srv := s, g_mgr := m\<rparr>)))"
  by (auto simp: unlocked_def)

lemma live_cases:
  "live x \<Longrightarrow> (\<And>a. live (f a)) \<Longrightarrow> live (case z of None \<Rightarrow> x | Some a \<Rightarrow> f a)"
  "(\<And>a. live (g a)) \<Longrightarrow> (\<And>c. live (h c)) \<Longrightarrow> live (case y of Inl a \<Rightarrow> g a | Inr c \<Rightarrow> h c)"
  "(\<And>a c. live (k a c)) \<Longrightarrow> live (case p of (a, c) \<Rightarrow> k a c)"
  "live r1 \<Longrightarrow> live r2 \<Longrightarrow> live (if q then r1 else r2)"
  by (simp_all split: option.split sum.split prod.split)

lemma live_json:
  "live x1 \<Longrightarrow> (\<And>a. live (x2 a)) \<Longrightarrow> (\<And>a. live (x3 a)) \<Longrightarrow> (\<And>a. live (x4 a)) \<Longrightarrow> (\<And>a. live (x5 a)) \<Longrightarrow>
   (\<And>a. live (x6 a)) \<Longrightarrow> (\<And>a. live (x7 a)) \<Longrightarrow> live (case_json x1 x2 x3 x4 x5 x6 x7 j)"
  by (cases j) simp_all

lemma live_exn:
  "(\<And>a. live (x1 a)) \<Longrightarrow> live x2 \<Longrightarrow> live x3 \<Longrightarrow> live x4 \<Longrightarrow> live x5 \<Longrightarrow> live x6 \<Longrightarrow> live x7 \<Longrightarrow> live x8 \<Longrightarrow> (\<And>a. live (x9 a)) \<Longrightarrow>
   (\<And>a. live (x10 a)) \<Longrightarrow> (\<And>a. live (x11 a)) \<Longrightarrow> live x12 \<Longrightarrow> live x13 \<Longrightarrow> live x14 \<Longrightarrow>
   live (case_exn x1 x2 x3 x4 x5 x6 x7 x8 x9 x10 x11 x12 x13 x14 e)"
  by (cases e) simp_all

lemma commit_live: "unlocked w \<Longrightarrow> live (commit d m m' w)"
  unfolding commit_def by (intro live_server broadcast_all_unlocked) (simp add: unlocked_def)

lemma with_manager_live: "unlocked w \<Longrightarrow> live (with_manager d f w)"
  unfolding with_manager_def Let_def by (intro live_cases live_bind commit_live)

lemma broadcast_live: "unlocked w \<Longrightarrow> live (ws_broadcast fails x (g_srv w) \<bind> (\<lambda>s. Some (w\<lparr>g_srv := s\<rparr>)))"
  by (intro live_server broadcast_unlocked) (simp add: unlocked_def)

lemma push_live: "unlocked w \<Longrightarrow> live (push_state fails x (g_srv w) \<bind> (\<lambda>s. Some (w\<lparr>g_srv := s\<rparr>)))"
  by (intro live_server push_state_unlocked) (simp add: unlocked_def)

lemmas live_intros = live_bind live_cases live_json live_exn with_manager_live commit_live broadcast_live push_live

lemma send_state_live: "unlocked w \<Longrightarrow> live (send_sessions_state d w)"
  unfolding send_sessions_state_def by (intro live_intros) simp_all

lemma action_live: "unlocked w \<Longrightarrow> live (handle_session_action d action obj w)"
  unfolding handle_session_action_def by (intro live_intros send_state_live) simp_all

lemma raw_live: "unlocked w \<Longrightarrow> live (raw_input d p w)"
  by (simp add: raw_input_def with_manager_live)

lemma message_live: "unlocked w \<Longrightarrow> live (handle_client_message d p w)"
  unfolding handle_client_message_def Let_def by (intro live_intros raw_live action_live)

lemma try_send_world: "unlocked w \<Longrightarrow> try_send fails op x c (g_srv w) = (r, s) \<Longrightarrow> unlocked (w\<lparr>g_srv := s\<rparr>)"
  using try_send_locked [of fails op x c "g_srv w"] by (simp add: unlocked_def)

lemma loop_live: "unlocked w \<Longrightarrow> live (message_loop d c sk w)"
proof (induction d c sk w rule: message_loop.induct)
  case (1 d c sk w)
  show ?case
  proof (cases "w_running (g_srv w)")
    case True
    show ?thesis
    proof (cases "read_frame sock_recv sk")
      case (Inl e)
      with True 1 show ?thesis by (subst message_loop.simps) simp
    next
      case (Inr r)
      obtain opcode payload sk' where r: "r = ((opcode, payload), sk')" by (metis surj_pair)
      obtain sent s where t: "try_send (d_fails d) 10 payload c (g_srv w) = (sent, s)" by fastforce
      have ping: "live (message_loop d c sk' (w\<lparr>g_srv := s\<rparr>))" if "sent" "opcode = 9"
      proof -
        have "(sent, s) = try_send (d_fails d) 10 payload c (g_srv w)" using t by simp
        from "1.IH"(1) [OF _ Inr, of "(opcode, payload)" sk' opcode payload, OF _ _ _ _ _ this] show ?thesis
          using that True r try_send_world [OF "1.prems" t] by simp
      qed
      have data: "live (message_loop d c sk' w')"
        if "handle_client_message d payload w = Some w'" "opcode = 1 \<or> opcode = 2" for w'
        by (rule "1.IH"(2)) (use that True Inr r message_live [OF "1.prems", of d payload] in auto)
      have other: "live (message_loop d c sk' w)" if "opcode \<notin> {8, 9, 1, 2}"
        by (rule "1.IH"(3)) (use that True Inr r "1.prems" in auto)
      obtain w' where w': "handle_client_message d payload w = Some w'"
        using message_live [OF "1.prems", of d payload] by (auto simp: live_def)
      show ?thesis using True Inr r t ping data other w' "1.prems"
        by (subst message_loop.simps) (cases sent; auto)
    qed
  next
    case False
    with 1 show ?thesis by (subst message_loop.simps) simp
  qed
qed

lemma replay_live: "unlocked w \<Longrightarrow> live (replay d c w)"
  unfolding replay_def
proof (intro live_bind with_manager_live)
  fix w assume u: "unlocked w"
  obtain r1 s1 where t1: "try_send (d_fails d) 2 RESET_TERMINAL_SCREEN c (g_srv w) = (r1, s1)" by fastforce
  let ?sb = "case active_session (manager_of d w) of Some s \<Rightarrow> s_scroll s | None \<Rightarrow> []"
  obtain r2 s2 where t2: "(if ?sb \<noteq> [] then try_send (d_fails d) 2 ?sb c s1 else (True, s1)) = (r2, s2)" by fastforce
  have u1: "unlocked (w\<lparr>g_srv := s1\<rparr>)" using try_send_world [OF u t1] .
  have u2: "unlocked (w\<lparr>g_srv := s2\<rparr>)"
    using t2 try_send_world [OF u1, of "d_fails d" 2 ?sb c r2 s2] u1 by (auto split: if_splits)
  show "live (let scrollback = ?sb in case try_send (d_fails d) 2 RESET_TERMINAL_SCREEN c (g_srv w) of
        (False, s) \<Rightarrow> Some w
      | (True, s) \<Rightarrow>
          (case (if scrollback \<noteq> [] then try_send (d_fails d) 2 scrollback c s else (True, s)) of
             (False, s) \<Rightarrow> Some (w\<lparr>g_srv := s\<rparr>)
           | (True, s) \<Rightarrow> send_sessions_state d (w\<lparr>g_srv := s\<rparr>)))"
    using u u2 send_state_live [OF u2, of d] unfolding Let_def t1
    by (cases r1; cases r2) (simp_all add: t2)
qed

lemma unregister_world_result:
  "unlocked w \<Longrightarrow> \<exists>w'. unregister_world c w = Some w' \<and> unlocked w' \<and> c \<notin> set (w_clients (g_srv w'))"
  by (auto simp: unregister_world_def unregister_client_def acquire_def release_def unlocked_def)

section \<open>Properties\<close>

text \<open>
  C4: a client handler always comes to its end, however the client behaves: it never deadlocks
  on the clients lock, also when sends fail inside \<open>broadcast\<close>, and it leaves the lock free
  and the client unregistered.
\<close>

theorem handle_client_returns:
  assumes "unlocked w"
  shows "\<exists>w'. handle_client hp d c sk w = Some w' \<and> unlocked w' \<and> c \<notin> set (w_clients (g_srv w'))"
proof -
  obtain headers line sk' where r: "read_http_headers (hd_lower hp) sk = ((headers, line), sk')" by (metis surj_pair)
  have e: "\<exists>w'. unregister_world c w1 = Some w' \<and> unlocked w' \<and> c \<notin> set (w_clients (g_srv w'))" if "unlocked w1" for w1
    using that by (rule unregister_world_result)
  have u: "unlocked (w\<lparr>g_srv := close_socket c s\<rparr>)" "unlocked (w\<lparr>g_srv := close_socket c (respond c x s)\<rparr>)"
    if "\<not> w_locked s" for s x
    using that by (simp_all add: unlocked_def close_socket_def respond_def)
  have full: "\<exists>w'. (register_client c (respond c x (g_srv w)) \<bind> (\<lambda>s. replay d c (w\<lparr>g_srv := s\<rparr>) \<bind>
      (\<lambda>w. message_loop d c sk' w \<bind> unregister_world c))) = Some w' \<and> unlocked w' \<and> c \<notin> set (w_clients (g_srv w'))" for x
  proof -
    obtain s where s: "register_client c (respond c x (g_srv w)) = Some s" "\<not> w_locked s"
      using assms by (auto simp: register_client_def acquire_def release_def respond_def unlocked_def)
    then have "live (replay d c (w\<lparr>g_srv := s\<rparr>))" by (intro replay_live) (simp add: unlocked_def)
    then obtain w1 where w1: "replay d c (w\<lparr>g_srv := s\<rparr>) = Some w1" "unlocked w1" by (auto simp: live_def)
    from loop_live [OF w1(2), of d c sk'] obtain w2 where w2: "message_loop d c sk' w1 = Some w2" "unlocked w2"
      unfolding live_def by blast
    from e [OF w2(2)] show ?thesis by (simp add: s(1) w1(1) w2(1))
  qed
  have "\<not> w_locked (g_srv w)" using assms by (simp add: unlocked_def)
  then show ?thesis unfolding handle_client_def r Let_def
    using e [OF assms] e [OF u(1)] e [OF u(2)] full by simp
qed

lemma send_each_result:
  "length data < 256 ^ 8 \<Longrightarrow> send_each fails data cs s =
     (filter fails cs, s\<lparr>w_sent := w_sent s @ map (\<lambda>c. (c, 2, data)) (filter (\<lambda>c. \<not> fails c) cs)\<rparr>)"
proof (induction cs arbitrary: s)
  case (Cons c cs)
  obtain fr where "send_frame 2 data = Ok fr"
    using frame_header_Ok [OF Cons.prems, of OverflowError 2 0] by (auto simp: send_frame_def)
  with Cons show ?case by (simp add: try_send_def)
qed simp

lemma unregister_each_result:
  "\<not> w_locked s \<Longrightarrow> distinct cs \<Longrightarrow> set cs \<subseteq> set (w_clients s) \<Longrightarrow> unregister_each cs s =
     Some (s\<lparr>w_clients := filter (\<lambda>c. c \<notin> set cs) (w_clients s), w_closed := w_closed s @ cs\<rparr>)"
proof (induction cs arbitrary: s)
  case (Cons c cs)
  let ?s = "s\<lparr>w_clients := removeAll c (w_clients s), w_closed := w_closed s @ [c]\<rparr>"
  have "unregister_each cs ?s = Some (?s\<lparr>w_clients := filter (\<lambda>c. c \<notin> set cs) (w_clients ?s), w_closed := w_closed ?s @ cs\<rparr>)"
    using Cons.prems by (intro Cons.IH) auto
  moreover have "filter (\<lambda>x. x \<notin> set cs) (removeAll c (w_clients s)) = filter (\<lambda>x. x \<notin> set (c # cs)) (w_clients s)"
    by (auto simp: removeAll_filter_not_eq intro!: filter_cong)
  ultimately show ?case using Cons.prems unregister_result [of s c] by simp
qed simp

text \<open>
  C5: a broadcast reaches every client that can be written to, with one binary frame each and
  in order; exactly the clients that cannot are closed and removed.
\<close>

theorem broadcast_delivers:
  assumes "\<not> w_locked s" and "distinct (w_clients s)" and "length data < 256 ^ 8"
  shows "\<exists>s'. ws_broadcast fails data s = Some s' \<and> \<not> w_locked s' \<and>
    w_sent s' = w_sent s @ map (\<lambda>c. (c, 2, data)) (filter (\<lambda>c. \<not> fails c) (w_clients s)) \<and>
    w_clients s' = filter (\<lambda>c. \<not> fails c) (w_clients s) \<and>
    w_closed s' = w_closed s @ filter fails (w_clients s)"
proof -
  let ?s = "s\<lparr>w_sent := w_sent s @ map (\<lambda>c. (c, 2, data)) (filter (\<lambda>c. \<not> fails c) (w_clients s))\<rparr>"
  have rel: "release (s\<lparr>w_locked := True\<rparr>) = s" using assms(1) by (cases s) (simp add: release_def)
  have "unregister_each (filter fails (w_clients s)) ?s = Some (?s\<lparr>
      w_clients := filter (\<lambda>c. c \<notin> set (filter fails (w_clients s))) (w_clients ?s),
      w_closed := w_closed ?s @ filter fails (w_clients s)\<rparr>)"
    using assms(1,2) by (intro unregister_each_result) auto
  moreover have "filter (\<lambda>c. c \<notin> set (filter fails (w_clients s))) (w_clients s) = filter (\<lambda>c. \<not> fails c) (w_clients s)"
    by (rule filter_cong) auto
  ultimately show ?thesis using assms(1) send_each_result [OF assms(3), of fails "w_clients s" s]
    by (simp add: ws_broadcast_def acquire_def Let_def rel)
qed

lemma broadcast_delivers_witness:
  "\<exists>s'. ws_broadcast (\<lambda>c. c = 7) [104, 105] (init_server\<lparr>w_clients := [3, 7]\<rparr>) = Some s' \<and> \<not> w_locked s' \<and>
    w_sent s' = [(3, 2, [104, 105])] \<and> w_clients s' = [3] \<and> w_closed s' = [7]"
  using broadcast_delivers [of "init_server\<lparr>w_clients := [3, 7]\<rparr>" "[104, 105]" "\<lambda>c. c = 7"]
  by (simp add: init_server_def)

text \<open>
  C8: a client without the right token gets the 401 answer and nothing else: it is closed, never
  registered, no frame is sent to it and the sessions are not touched.
\<close>

theorem unauthorized_client_gets_nothing:
  assumes "read_http_headers (hd_lower hp) sk = ((headers, line), sk')" and "headers \<noteq> []" and "line \<noteq> []"
    and "\<not> verify_token (hd_netloc_ok hp) (hd_token hp) line" and "unlocked w" and "c \<notin> set (w_clients (g_srv w))"
    and "\<not> d_fails d c"
  shows "\<exists>w'. handle_client hp d c sk w = Some w' \<and> g_mgr w' = g_mgr w \<and>
    w_clients (g_srv w') = w_clients (g_srv w) \<and> w_sent (g_srv w') = w_sent (g_srv w) \<and>
    w_http (g_srv w') = w_http (g_srv w) @ [(c, http_401)] \<and> w_closed (g_srv w') = w_closed (g_srv w) @ [c]"
  using assms by (simp add: handle_client_def unregister_world_def unregister_client_def acquire_def
      release_def unlocked_def respond_def close_socket_def)

lemma handle_client_returns_witness:
  "\<exists>w'. handle_client \<lparr>hd_lower = id, hd_netloc_ok = \<lambda>_. True, hd_sha1 = id, hd_token = u ''k''\<rparr>
      \<lparr>d_host = bare_host, d_rc = [], d_fails = \<lambda>_. False, d_loads = \<lambda>_. Err KeyError, d_int = \<lambda>_. Err TypeError,
       d_str = \<lambda>_. [], d_state_text = \<lambda>_. []\<rparr> 4 \<lparr>sk_in = [71, 69, 84], sk_sched = []\<rparr>
      \<lparr>g_srv = init_server, g_mgr = None\<rparr> = Some w' \<and> unlocked w' \<and> 4 \<notin> set (w_clients (g_srv w'))"
  by (rule handle_client_returns) (simp add: unlocked_def init_server_def)

lemma commit_mgr:
  "unlocked w \<Longrightarrow> \<exists>w'. commit d m m' w = Some w' \<and> unlocked w' \<and> g_mgr w' = Some m'"
  using broadcast_all_unlocked [of "g_srv w" "d_fails d" "drop (length (m_screen m)) (m_screen m')"]
  by (auto simp: commit_def unlocked_def)

lemma with_manager_mgr:
  "unlocked w \<Longrightarrow> g_mgr w = Some m \<Longrightarrow> \<exists>w'. with_manager d f w = Some w' \<and> unlocked w' \<and> g_mgr w' = Some (f m)"
  by (simp add: with_manager_def commit_mgr)

text \<open>
  what the user types reaches the active session as it is: any payload that is not text in
  braces (and any that is not UTF-8) becomes its raw input, once.
\<close>

theorem keystrokes_forwarded:
  assumes "unlocked w" and "g_mgr w = Some m"
    and "utf8_strict payload = None \<or> (\<exists>msg. utf8_strict payload = Some msg \<and>
           \<not> (prefix [123] (strip msg) \<and> suffix [125] (strip msg)))"
  shows "\<exists>w'. handle_client_message d payload w = Some w' \<and> g_mgr w' = Some (mgr_write_input (ops d) payload m)"
proof -
  have "handle_client_message d payload w = raw_input d payload w"
    using assms(3) by (auto simp: handle_client_message_def Let_def)
  then show ?thesis using with_manager_mgr [OF assms(1,2), of d "mgr_write_input (ops d) payload"]
    by (auto simp: raw_input_def)
qed

definition demo_deps :: deps where
  "demo_deps = \<lparr>d_host = bare_host, d_rc = [], d_fails = \<lambda>_. False,
     d_loads = \<lambda>_. Ok (JObj [(u ''action'', JStr (u ''resize'')), (u ''cols'', JInt 70000), (u ''rows'', JInt 24)]),
     d_int = \<lambda>j. case j of JInt i \<Rightarrow> Ok i | _ \<Rightarrow> Err TypeError,
     d_str = \<lambda>_. [], d_state_text = \<lambda>_. []\<rparr>"

definition demo_world :: world where
  "demo_world = \<lparr>g_srv = init_server\<lparr>w_running := True\<rparr>, g_mgr = Some demo_mgr\<rparr>"

lemma strict_ls: "utf8_strict [108, 115] = Some [108, 115]"
proof -
  have "utf8_strict (utf8_encode [108, 115]) = Some [108, 115]"
    by (rule utf8_strict_encode) (auto simp: scalar_def)
  then show ?thesis by (simp add: utf8_enc1_def scalar_def)
qed

lemma keystrokes_forwarded_witness:
  "\<exists>w'. handle_client_message demo_deps [108, 115] demo_world = Some w' \<and>
    g_mgr w' = Some (mgr_write_input (ops demo_deps) [108, 115] demo_mgr)"
  by (rule keystrokes_forwarded)
    (simp_all add: demo_world_def unlocked_def init_server_def strict_ls strip_def strip_by_def py_space_def)

text \<open>
  a resize message with a size that does not fit 16 bits, while the active session runs
  Alpine, is not dropped: the exception of the resize is swallowed and the JSON text itself is
  written to the shell as if it had been typed.
\<close>

theorem oversize_resize_is_typed:
  assumes "unlocked w" and "g_mgr w = Some m" and "m_active m = Some sid"
    and "map_of (m_sessions m) sid = Some s" and "s_running s" and "s_pty s = Some p"
    and "utf8_strict payload = Some msg" and "prefix [123] (strip msg)" and "suffix [125] (strip msg)"
    and "d_loads d msg = Ok (JObj obj)" and "json_get (u ''action'') obj = Some (JStr (u ''resize''))"
    and "int_field d (u ''cols'') 80 obj = Ok cols" and "int_field d (u ''rows'') 24 obj = Ok rows"
    and "cols > 65535" and "rows > 0"
  shows "\<exists>w' m' s'. handle_client_message d payload w = Some w' \<and> g_mgr w' = Some m' \<and>
    map_of (m_sessions m') sid = Some s' \<and> s_log s' = s_log s @ [PtyWrite p payload]"
proof -
  obtain w1 where w1: "with_manager d id w = Some w1" "unlocked w1" "g_mgr w1 = Some m"
    using with_manager_mgr [OF assms(1,2), of d id] by auto
  then have mo: "manager_of d w1 = m" by (simp add: manager_of_def get_manager_def)
  have rr: "resize_raises cols rows m"
    using assms by (simp add: resize_raises_def active_session_def)
  let ?m2 = "store_size d cols rows m"
  obtain w2 where w2: "with_manager d (store_size d cols rows) w1 = Some w2" "unlocked w2" "g_mgr w2 = Some ?m2"
    using with_manager_mgr [OF w1(2,3)] by blast
  obtain w3 where w3: "raw_input d payload w2 = Some w3" "g_mgr w3 = Some (mgr_write_input (ops d) payload ?m2)"
    using with_manager_mgr [OF w2(2,3), of d "mgr_write_input (ops d) payload"] by (auto simp: raw_input_def)
  have "handle_client_message d payload w = Some w3"
    using assms w1(1) w2(1) w3(1) rr by (simp add: handle_client_message_def Let_def mo)
  moreover have "map_of (m_sessions (mgr_write_input (ops d) payload ?m2)) sid
      = Some (log (PtyWrite p payload) (s\<lparr>s_cols := cols, s_rows := rows\<rparr>))"
    using assms(3-6) by (simp add: mgr_write_input_def store_size_def Let_def on_session_lookup pty_ops_def write_input_def)
  ultimately show ?thesis using w3(2) by fastforce
qed

lemma oversize_resize_is_typed_witness:
  "\<exists>w' m' s'. handle_client_message (demo_deps\<lparr>d_host := alpine_host\<rparr>) [123, 125]
      \<lparr>g_srv = init_server, g_mgr = Some (init_mgr\<lparr>m_sessions := [(''1'', start alpine_host [] init_session)],
         m_order := [''1''], m_active := Some ''1''\<rparr>)\<rparr> = Some w' \<and> g_mgr w' = Some m' \<and>
    map_of (m_sessions m') ''1'' = Some s' \<and> s_log s' = s_log (start alpine_host [] init_session) @ [PtyWrite 0 [123, 125]]"
proof -
  let ?s = "start alpine_host [] init_session"
  let ?m = "init_mgr\<lparr>m_sessions := [(''1'', ?s)], m_order := [''1''], m_active := Some ''1''\<rparr>"
  have p: "s_pty ?s = Some 0" "s_running ?s"
    by (simp_all add: start_def auto_start_alpine_def enter_linux_pty_def alpine_host_def bare_host_def
        init_session_def Let_def log_def del: b_Cons)
  have "utf8_strict (utf8_encode [123, 125]) = Some [123, 125]"
    by (rule utf8_strict_encode) (auto simp: scalar_def)
  then have t: "utf8_strict [123, 125] = Some [123, 125]" by (simp add: utf8_enc1_def scalar_def)
  have st: "strip [123, 125] = [123, 125]" by (simp add: strip_def strip_by_def py_space_def)
  show ?thesis
    by (rule oversize_resize_is_typed [where msg = "[123, 125]" and cols = 70000 and rows = 24
          and obj = "[(u ''action'', JStr (u ''resize'')), (u ''cols'', JInt 70000), (u ''rows'', JInt 24)]" and m = ?m])
      (simp_all add: t st p unlocked_def init_server_def demo_deps_def json_get_def int_field_def suffix_def)
qed

text \<open>
  the server does not reassemble fragmented messages: a continuation frame (opcode 0) is
  read and dropped, and the loop goes on as if it had not been sent.
\<close>

theorem continuation_frames_dropped:
  assumes "w_running (g_srv w)" and "read_frame sock_recv sk = Ok ((0, payload), sk')"
  shows "message_loop d c sk w = message_loop d c sk' w"
  using assms by (subst message_loop.simps) simp

lemma continuation_frames_dropped_witness:
  "message_loop demo_deps 4 \<lparr>sk_in = [0x80, 1, 98], sk_sched = []\<rparr> demo_world = Some demo_world"
proof -
  have "read_frame sock_recv \<lparr>sk_in = [0x80, 1, 98], sk_sched = []\<rparr> = Ok ((0, [98]), \<lparr>sk_in = [], sk_sched = []\<rparr>)"
    by code_simp
  moreover have "message_loop demo_deps 4 \<lparr>sk_in = [], sk_sched = []\<rparr> demo_world = Some demo_world"
  proof -
    have "read_frame sock_recv \<lparr>sk_in = [], sk_sched = []\<rparr> = Err ConnectionError" by code_simp
    then show ?thesis by (subst message_loop.simps) simp
  qed
  ultimately show ?thesis
    using continuation_frames_dropped [of demo_world "\<lparr>sk_in = [0x80, 1, 98], sk_sched = []\<rparr>" "[98]"]
    by (simp add: demo_world_def init_server_def)
qed

lemma unauthorized_client_gets_nothing_witness:
  "\<exists>w'. handle_client \<lparr>hd_lower = id, hd_netloc_ok = \<lambda>_. True, hd_sha1 = id, hd_token = u ''k''\<rparr> demo_deps 4
      \<lparr>sk_in = b ''GET'' @ [13, 10] @ b ''A:B'' @ [13, 10, 13, 10], sk_sched = []\<rparr> demo_world = Some w' \<and>
    g_mgr w' = Some demo_mgr \<and> w_clients (g_srv w') = [] \<and> w_sent (g_srv w') = [] \<and>
    w_http (g_srv w') = [(4, http_401)] \<and> w_closed (g_srv w') = [4]"
proof -
  let ?sk = "\<lparr>sk_in = b ''GET'' @ [13, 10] @ b ''A:B'' @ [13, 10, 13, 10], sk_sched = []\<rparr>"
  have c: "sock_recv 1024 ?sk = (sk_in ?sk, \<lparr>sk_in = [], sk_sched = []\<rparr>)" by (simp add: sock_recv_def)
  have o: "occurs [13, 10, 13, 10] (sk_in ?sk)" "\<not> occurs [13, 10, 13, 10] ([] :: bytes)" by (simp_all add: occurs_def)
  have ub: "read_until_blank ?sk [] = (sk_in ?sk, \<lparr>sk_in = [], sk_sched = []\<rparr>)"
    using o c by (subst read_until_blank.simps, simp del: b_Cons, subst read_until_blank.simps, simp del: b_Cons)
  have "split_once [13, 10, 13, 10] (sk_in ?sk) = (b ''GET'' @ [13, 10] @ b ''A:B'', Some [])"
    by (simp add: split_once_def)
  moreover have "utf8_ignore (b ''GET'' @ [13, 10] @ b ''A:B'') = u ''GET'' @ [13, 10] @ u ''A:B''"
    by (simp add: utf8_ignore_def utf8_step_def map_filter_simps)
  moreover have "split_sub [13, 10] (u ''GET'' @ [13, 10] @ u ''A:B'') = [u ''GET'', u ''A:B'']"
    by (subst split_sub.simps, simp, subst split_sub.simps, simp)
  moreover have "header_fields id [u ''A:B''] = [(u ''A'', u ''B'')]"
    by (simp add: header_fields_def split_once_def strip_by_def py_space_def)
  ultimately have r: "read_http_headers id ?sk = (([(u ''A'', u ''B'')], u ''GET''), \<lparr>sk_in = [], sk_sched = []\<rparr>)"
    using ub by (simp add: read_http_headers_def Let_def del: b_Cons u_Cons)
  have "words_by py_space (u ''GET'') = [u ''GET'']"
    by (rule words_by_cons [where c = 32]) (simp_all add: py_space_def)
  then have "\<not> verify_token (\<lambda>_. True) (u ''k'') (u ''GET'')" by (simp add: verify_token_def del: u_Cons)
  with unauthorized_client_gets_nothing [of "\<lparr>hd_lower = id, hd_netloc_ok = \<lambda>_. True, hd_sha1 = id, hd_token = u ''k''\<rparr>" ?sk
      "[(u ''A'', u ''B'')]" "u ''GET''" "\<lparr>sk_in = [], sk_sched = []\<rparr>" demo_world 4 demo_deps] r
  show ?thesis by (simp add: demo_world_def init_server_def unlocked_def demo_deps_def)
qed

end
