(* ===== verification/Streams.thy ===== *)
theory Streams
  imports PyText
begin

text \<open>
  The line-streaming output proxy of \<open>zmux/streams.py\<close>: \<open>StreamingWriter\<close> with its pending
  partial line, the accumulated text for REST callers, and the bytes handed to the sink.  The
  sink is a log of the calls made to it.  Text is a list of code points.
\<close>

section \<open>The writer\<close>

definition PARTIAL_FLUSH_THRESHOLD :: nat where "PARTIAL_FLUSH_THRESHOLD = 256"

record writer =
  w_pending :: ustr
  w_buffer :: "ustr list"
  w_out :: "bytes list"

definition new_writer :: writer where
  "new_writer = \<lparr>w_pending = [], w_buffer = [], w_out = []\<rparr>"

definition w_emit :: "ustr \<Rightarrow> writer \<Rightarrow> writer" where
  "w_emit payload W = W\<lparr>w_out := w_out W @ [utf8_encode (crlf payload)]\<rparr>"

definition w_flush :: "writer \<Rightarrow> writer" where
  "w_flush W = (if w_pending W \<noteq> [] then (w_emit (w_pending W) W)\<lparr>w_pending := []\<rparr> else W)"

text \<open>\<open>head, _, pending = text.rpartition("\n")\<close> when a newline occurs.\<close>

definition rpartition_lf :: "ustr \<Rightarrow> ustr \<times> ustr" where
  "rpartition_lf t =
     (rev (drop 1 (dropWhile (\<lambda>x. x \<noteq> LF) (rev t))), rev (takeWhile (\<lambda>x. x \<noteq> LF) (rev t)))"

definition w_write :: "ustr \<Rightarrow> writer \<Rightarrow> nat \<times> writer" where
  "w_write text W =
     (if text = [] then (0, W)
      else
        let W = W\<lparr>w_buffer := w_buffer W @ [text], w_pending := w_pending W @ text\<rparr>;
            W' = (if LF \<in> set (w_pending W)
                  then case rpartition_lf (w_pending W) of (before, rest) \<Rightarrow>
                         w_emit (before @ [LF]) (W\<lparr>w_pending := rest\<rparr>)
                  else if PARTIAL_FLUSH_THRESHOLD \<le> length (w_pending W) then w_flush W else W)
        in (length text, W'))"

definition w_getvalue :: "writer \<Rightarrow> ustr" where
  "w_getvalue W = concat (w_buffer W)"

text \<open>What a program does with the proxy: writes and explicit flushes, in order.\<close>

datatype w_op = Write ustr | Flush

fun w_step :: "w_op \<Rightarrow> writer \<Rightarrow> writer" where
  "w_step (Write t) W = snd (w_write t W)"
| "w_step Flush W = w_flush W"

definition w_run :: "w_op list \<Rightarrow> writer \<Rightarrow> writer" where
  "w_run ops W = fold w_step ops W"

definition written :: "w_op list \<Rightarrow> ustr" where
  "written ops = concat (map (\<lambda>x. case x of Write t \<Rightarrow> t | Flush \<Rightarrow> []) ops)"

section \<open>Lemmas\<close>

lemma rpartition_lf_split:
  assumes "LF \<in> set t" "rpartition_lf t = (before, rest)"
  shows "t = before @ LF # rest \<and> LF \<notin> set rest"
proof -
  from assms(1) have "LF \<in> set (rev t)" by simp
  then obtain a b where ab: "rev t = a @ LF # b" "LF \<notin> set a" by (meson split_list_first)
  have tk: "takeWhile (\<lambda>x. x \<noteq> LF) (a @ LF # b) = a" "dropWhile (\<lambda>x. x \<noteq> LF) (a @ LF # b) = LF # b"
    using ab(2) by (induction a) auto
  have "rest = rev a" "before = rev b" using assms(2) ab(1) tk by (simp_all add: rpartition_lf_def)
  moreover have "t = rev (a @ LF # b)" using ab(1) by (metis rev_rev_ident)
  ultimately show ?thesis using ab(2) by simp
qed

text \<open>The invariant: what the sink got are whole pieces of the text, in order, and the rest is pending.\<close>

definition streams_ok :: "ustr \<Rightarrow> writer \<Rightarrow> bool" where
  "streams_ok t W \<longleftrightarrow>
     (\<exists>ps. w_out W = map (\<lambda>p. utf8_encode (crlf p)) ps \<and> t = concat ps @ w_pending W \<and> [] \<notin> set ps) \<and>
     w_getvalue W = t \<and> LF \<notin> set (w_pending W)"

lemma streams_ok_new: "streams_ok [] new_writer"
  by (auto simp: streams_ok_def new_writer_def w_getvalue_def PARTIAL_FLUSH_THRESHOLD_def)

lemma streams_ok_flush: "streams_ok t W \<Longrightarrow> streams_ok t (w_flush W)"
proof -
  assume ok: "streams_ok t W"
  then obtain ps where ps: "w_out W = map (\<lambda>p. utf8_encode (crlf p)) ps" "t = concat ps @ w_pending W" "[] \<notin> set ps"
    by (auto simp: streams_ok_def)
  show ?thesis
  proof (cases "w_pending W = []")
    case True
    with ok show ?thesis by (simp add: w_flush_def)
  next
    case False
    with ok ps show ?thesis
      unfolding streams_ok_def
      by (intro conjI exI [of _ "ps @ [w_pending W]"])
        (auto simp: w_flush_def w_emit_def w_getvalue_def PARTIAL_FLUSH_THRESHOLD_def)
  qed
qed

lemma streams_ok_write: "streams_ok t W \<Longrightarrow> streams_ok (t @ x) (snd (w_write x W))"
proof -
  assume ok: "streams_ok t W"
  then obtain ps where ps: "w_out W = map (\<lambda>p. utf8_encode (crlf p)) ps" "t = concat ps @ w_pending W" "[] \<notin> set ps"
    by (auto simp: streams_ok_def)
  let ?W = "W\<lparr>w_buffer := w_buffer W @ [x], w_pending := w_pending W @ x\<rparr>"
  have v: "w_getvalue ?W = t @ x" using ok by (simp add: streams_ok_def w_getvalue_def)
  show ?thesis
  proof (cases "x = []")
    case True
    with ok show ?thesis by (simp add: w_write_def)
  next
    case x: False
    show ?thesis
    proof (cases "LF \<in> set (w_pending ?W)")
      case True
      obtain h r where hr: "rpartition_lf (w_pending ?W) = (h, r)" by (cases "rpartition_lf (w_pending ?W)")
      note sp = rpartition_lf_split [OF True hr]
      have w: "snd (w_write x W) = w_emit (h @ [LF]) (?W\<lparr>w_pending := r\<rparr>)"
        using x True hr by (simp add: w_write_def Let_def)
      have "t @ x = concat (ps @ [h @ [LF]]) @ r" using ps(2) sp by simp
      with ps v sp show ?thesis
        unfolding w streams_ok_def
        by (intro conjI exI [of _ "ps @ [h @ [LF]]"]) (auto simp: w_emit_def w_getvalue_def)
    next
      case False
      then have "streams_ok (t @ x) ?W"
        using ps v by (auto simp: streams_ok_def w_getvalue_def)
      then show ?thesis
        using x False by (simp add: w_write_def Let_def streams_ok_flush)
    qed
  qed
qed

lemma streams_ok_run: "streams_ok t W \<Longrightarrow> streams_ok (t @ written ops) (w_run ops W)"
proof (induction ops arbitrary: t W)
  case (Cons x ops)
  have "streams_ok (t @ (case x of Write y \<Rightarrow> y | Flush \<Rightarrow> [])) (w_step x W)"
    using Cons.prems by (cases x) (simp_all add: streams_ok_write streams_ok_flush)
  from Cons.IH [OF this] show ?case by (simp add: w_run_def written_def)
qed (simp add: w_run_def written_def)

text \<open>Pieces that neither end in a carriage return nor start with a line feed translate one by one.\<close>

lemma crlf_to_lf_append:
  "\<not> (s \<noteq> [] \<and> last s = CR \<and> t \<noteq> [] \<and> hd t = LF) \<Longrightarrow> crlf_to_lf (s @ t) = crlf_to_lf s @ crlf_to_lf t"
proof (induction s rule: crlf_to_lf.induct)
  case (2 x)
  then show ?case by (cases t) auto
next
  case (3 x y zs)
  show ?case
  proof (cases "x = CR \<and> y = LF")
    case True
    with 3 show ?thesis by (cases "zs = []") auto
  next
    case False
    with 3 show ?thesis by auto
  qed
qed simp

lemma crlf_append:
  "\<not> (s \<noteq> [] \<and> last s = CR \<and> t \<noteq> [] \<and> hd t = LF) \<Longrightarrow> crlf (s @ t) = crlf s @ crlf t"
  by (simp add: crlf_def crlf_to_lf_append)

lemma crlf_concat: "CR \<notin> set (concat ps) \<Longrightarrow> concat (map crlf ps) = crlf (concat ps)"
proof (induction ps)
  case (Cons p ps)
  then have "\<not> (p \<noteq> [] \<and> last p = CR)" by (metis Un_iff last_in_set set_append concat.simps(2))
  then have "crlf (p @ concat ps) = crlf p @ crlf (concat ps)" by (intro crlf_append) blast
  with Cons show ?case by simp
qed simp

lemma utf8_encode_concat: "utf8_encode (concat ts) = concat (map utf8_encode ts)"
  by (induction ts) auto

section \<open>Properties\<close>

text \<open>
  Nothing a program writes is lost or reordered, however it is cut into writes and flushes: the
  REST text is exactly what was written, the sink got whole consecutive pieces of it, each
  encoded with CRLF line ends, and what is not yet sent is one partial line without a newline.
\<close>

theorem streaming_lossless:
  "w_getvalue (w_run ops new_writer) = written ops \<and>
   (\<exists>ps. w_out (w_run ops new_writer) = map (\<lambda>p. utf8_encode (crlf p)) ps \<and>
         written ops = concat ps @ w_pending (w_run ops new_writer)) \<and>
   LF \<notin> set (w_pending (w_run ops new_writer))"
  using streams_ok_run [OF streams_ok_new, of ops] unfolding streams_ok_def by auto



text \<open>
  The partial-line threshold holds after every write that leaves no complete line, and only
  then: the part after the last newline of a write is kept back whatever its length.
\<close>

lemma partial_line_bounded:
  assumes "x \<noteq> []" "LF \<notin> set (w_pending W @ x)"
  shows "length (w_pending (snd (w_write x W))) < PARTIAL_FLUSH_THRESHOLD"
proof -
  let ?W = "W\<lparr>w_buffer := w_buffer W @ [x], w_pending := w_pending W @ x\<rparr>"
  have "snd (w_write x W) = (if PARTIAL_FLUSH_THRESHOLD \<le> length (w_pending ?W) then w_flush ?W else ?W)"
    using assms by (simp add: w_write_def Let_def)
  moreover have "w_pending (w_flush ?W) = []" by (simp add: w_flush_def w_emit_def)
  ultimately show ?thesis by (auto simp: PARTIAL_FLUSH_THRESHOLD_def)
qed

lemma tail_after_newline_unbounded:
  assumes "LF \<notin> set r"
  shows "w_pending (snd (w_write (LF # r) new_writer)) = r"
proof -
  let ?W = "new_writer\<lparr>w_buffer := [LF # r], w_pending := LF # r\<rparr>"
  obtain h q where hq: "rpartition_lf (LF # r) = (h, q)" by (cases "rpartition_lf (LF # r)")
  have "LF # r = h @ LF # q \<and> LF \<notin> set q" by (rule rpartition_lf_split [OF _ hq]) simp
  then have "q = r" using assms by (cases h) auto
  then show ?thesis using hq by (simp add: w_write_def Let_def new_writer_def w_emit_def)
qed

end
