(* ===== verification/PathLib.thy ===== *)
theory PathLib
  imports PyText
begin

text \<open>
  The part of Python's \<open>pathlib\<close>, \<open>posixpath\<close> and \<open>str\<close> the file-handling components use:
  pure POSIX paths as a root and a list of names, parsing and printing them, joining,
  \<open>parent\<close>, \<open>name\<close>, \<open>relative_to\<close>, \<open>startswith\<close>, \<open>lower\<close> on ASCII text and
  \<open>splitlines\<close>.  These are models of the standard library, shared by the components.
\<close>

section \<open>Text helpers\<close>

definition startswith :: "'a list \<Rightarrow> 'a list \<Rightarrow> bool" where
  "startswith s p = prefix p s"

definition endswith :: "'a list \<Rightarrow> 'a list \<Rightarrow> bool" where
  "endswith s p = suffix p s"

definition lower_char :: "char \<Rightarrow> char" where
  "lower_char c = (let n = of_char c :: nat in if 65 \<le> n \<and> n \<le> 90 then char_of (n + 32) else c)"

definition lower :: "string \<Rightarrow> string" where
  "lower s = map lower_char s"

definition str_strip :: "string \<Rightarrow> string" where
  "str_strip s = strip_by char_space s"

text \<open>\<open>str.splitlines()\<close>: the line boundaries of Python, a final one opening no line.\<close>

definition line_break :: "char \<Rightarrow> bool" where
  "line_break c = (let n = of_char c :: nat in (10 \<le> n \<and> n \<le> 13) \<or> (28 \<le> n \<and> n \<le> 30) \<or> n = 133)"

fun splitlines_from :: "string \<Rightarrow> string \<Rightarrow> string list" where
  "splitlines_from cur [] = (if cur = [] then [] else [cur])"
| "splitlines_from cur (c # cs) =
     (if line_break c then
        cur # splitlines_from [] (if c = CHR 0x0D \<and> cs \<noteq> [] \<and> hd cs = CHR 0x0A then tl cs else cs)
      else splitlines_from (cur @ [c]) cs)"

definition splitlines :: "string \<Rightarrow> string list" where
  "splitlines s = splitlines_from [] s"

lemma splitlines_from_no_break:
  "\<forall>c \<in> set cur. \<not> line_break c \<Longrightarrow> l \<in> set (splitlines_from cur s) \<Longrightarrow> \<forall>c \<in> set l. \<not> line_break c"
proof (induction cur s arbitrary: l rule: splitlines_from.induct)
  case (1 cur)
  then show ?case by (cases "cur = []") simp_all
next
  case (2 cur c cs)
  show ?case
  proof (cases "line_break c")
    case True
    with "2.prems" "2.IH"(1) show ?thesis by (simp only: splitlines_from.simps if_True) auto
  next
    case False
    with "2.prems" "2.IH"(2) show ?thesis by simp
  qed
qed

lemma splitlines_no_break: "l \<in> set (splitlines s) \<Longrightarrow> c \<in> set l \<Longrightarrow> \<not> line_break c"
  using splitlines_from_no_break [of "[]" l s] by (simp add: splitlines_def)

lemma strip_by_hd: "strip_by sp xs \<noteq> [] \<Longrightarrow> \<not> sp (hd (strip_by sp xs))"
proof -
  assume ne: "strip_by sp xs \<noteq> []"
  let ?ys = "dropWhile sp xs"
  obtain t where "rev ?ys = t @ dropWhile sp (rev ?ys)"
    using suffix_dropWhile [of sp "rev ?ys"] by (auto simp: suffix_def)
  then have "?ys = rev (t @ dropWhile sp (rev ?ys))" by (metis rev_rev_ident)
  then have s: "?ys = strip_by sp xs @ rev t" by (simp add: strip_by_def)
  have "hd ?ys = hd (strip_by sp xs @ rev t)" by (rule arg_cong [OF s])
  moreover from s ne have "?ys \<noteq> []" by (metis append_is_Nil_conv)
  ultimately have "hd (strip_by sp xs) = hd ?ys" "?ys \<noteq> []" using ne by simp_all
  then show ?thesis using hd_dropWhile [of sp xs] by simp
qed

section \<open>Pure POSIX paths\<close>

datatype path = Path (p_root: string) (p_names: "string list")

abbreviation (input) SEP :: char where "SEP \<equiv> CHR ''/''"

definition path_root :: "string \<Rightarrow> string" where
  "path_root s =
     (if \<not> startswith s ''/'' then ''''
      else if startswith s ''//'' \<and> \<not> startswith s ''///'' then ''//'' else ''/'')"

definition to_path :: "string \<Rightarrow> path" where
  "to_path s = Path (path_root s) (filter (\<lambda>w. w \<noteq> '''' \<and> w \<noteq> ''.'') (split_on SEP s))"

definition path_str :: "path \<Rightarrow> string" where
  "path_str p = (let s = p_root p @ join_with ''/'' (p_names p) in if s = '''' then ''.'' else s)"

definition path_parts :: "path \<Rightarrow> string list" where
  "path_parts p = (if p_root p = '''' then p_names p else p_root p # p_names p)"

definition is_absolute :: "path \<Rightarrow> bool" where
  "is_absolute p = (p_root p \<noteq> '''')"

text \<open>\<open>p / q\<close>: an absolute right operand replaces the left one.\<close>

definition joinpath :: "path \<Rightarrow> path \<Rightarrow> path" where
  "joinpath p q = (if is_absolute q then q else Path (p_root p) (p_names p @ p_names q))"

definition child :: "path \<Rightarrow> string \<Rightarrow> path" where
  "child p s = joinpath p (to_path s)"

definition parent_path :: "path \<Rightarrow> path" where
  "parent_path p = Path (p_root p) (butlast (p_names p))"

definition path_name :: "path \<Rightarrow> string" where
  "path_name p = (if p_names p = [] then '''' else last (p_names p))"

definition relative_to :: "path \<Rightarrow> path \<Rightarrow> path option" where
  "relative_to p q =
     (if p_root p = p_root q \<and> prefix (p_names q) (p_names p)
      then Some (Path '''' (drop (length (p_names q)) (p_names p))) else None)"

definition good_name :: "string \<Rightarrow> bool" where
  "good_name w \<longleftrightarrow> w \<noteq> '''' \<and> w \<noteq> ''.'' \<and> SEP \<notin> set w"

definition wf_path :: "path \<Rightarrow> bool" where
  "wf_path p \<longleftrightarrow> p_root p \<in> {'''', ''/'', ''//''} \<and> (\<forall>w \<in> set (p_names p). good_name w)"

lemma wf_to_path [simp]: "wf_path (to_path s)"
  using split_on_no_sep [of _ SEP s] by (auto simp: wf_path_def to_path_def path_root_def good_name_def)

lemma wf_joinpath [simp]: "wf_path p \<Longrightarrow> wf_path q \<Longrightarrow> wf_path (joinpath p q)"
  by (auto simp: wf_path_def joinpath_def)

lemma wf_child [simp]: "wf_path p \<Longrightarrow> wf_path (child p s)"
  by (simp add: child_def)

lemma wf_parent [simp]: "wf_path p \<Longrightarrow> wf_path (parent_path p)"
  by (auto simp: wf_path_def parent_path_def dest: in_set_butlastD)

lemma to_path_simple [simp]: "good_name w \<Longrightarrow> to_path w = Path '''' [w]"
proof -
  assume w: "good_name w"
  then have "\<not> startswith w ''/''" by (cases w) (auto simp: good_name_def startswith_def)
  with w show ?thesis by (auto simp: to_path_def path_root_def good_name_def split_on_simple)
qed

lemma child_simple [simp]: "good_name w \<Longrightarrow> child p w = Path (p_root p) (p_names p @ [w])"
  by (simp add: child_def joinpath_def is_absolute_def)

lemma parent_child [simp]: "good_name w \<Longrightarrow> parent_path (child p w) = p"
  by (cases p) (simp add: parent_path_def)

lemma path_name_child [simp]: "good_name w \<Longrightarrow> path_name (child p w) = w"
  by (simp add: path_name_def)

text \<open>Printing a well-formed path and parsing it again is the identity.\<close>

lemma filter_good: "\<forall>w \<in> set ws. good_name w \<Longrightarrow> filter (\<lambda>w. w \<noteq> '''' \<and> w \<noteq> ''.'') ws = ws"
  by (auto simp: good_name_def filter_id_conv)

lemma split_join_names:
  "\<forall>w \<in> set ws. good_name w \<Longrightarrow> ws \<noteq> [] \<Longrightarrow> split_on SEP (join_with ''/'' ws) = ws"
  by (intro split_on_join) (auto simp: good_name_def)

lemma join_names_hd:
  "\<forall>w \<in> set ws. good_name w \<Longrightarrow> ws \<noteq> [] \<Longrightarrow> join_with ''/'' ws \<noteq> [] \<and> hd (join_with ''/'' ws) \<noteq> SEP"
  by (cases ws; cases "hd ws") (auto simp: join_with_def good_name_def)

lemma to_path_str: "wf_path p \<Longrightarrow> to_path (path_str p) = p"
proof (cases p)
  case (Path root ws)
  assume wf: "wf_path p"
  with Path have g: "\<forall>w \<in> set ws. good_name w" and r: "root \<in> {'''', ''/'', ''//''}"
    by (auto simp: wf_path_def)
  show ?thesis
  proof (cases "ws = []")
    case True
    with Path r show ?thesis
      by (auto simp: to_path_def path_str_def path_root_def startswith_def join_with_def)
  next
    case False
    obtain c s where j: "join_with ''/'' ws = c # s" "c \<noteq> SEP"
      using join_names_hd [OF g False] by (cases "join_with ''/'' ws") auto
    have "split_on SEP (c # s) = ws" using split_join_names [OF g False] j by simp
    then have "filter (\<lambda>w. w \<noteq> '''' \<and> w \<noteq> ''.'') (split_on SEP (root @ c # s)) = ws"
      using r filter_good [OF g] by auto
    moreover have "path_root (root @ c # s) = root"
      using r j by (auto simp: path_root_def startswith_def)
    ultimately show ?thesis using Path j by (simp add: to_path_def path_str_def)
  qed
qed

lemma path_str_inject: "wf_path p \<Longrightarrow> wf_path q \<Longrightarrow> path_str p = path_str q \<longleftrightarrow> p = q"
  by (metis to_path_str)

lemma relative_to_child: "relative_to (Path (p_root q) (p_names q @ ws)) q = Some (Path '''' ws)"
  by (simp add: relative_to_def)

lemma relative_to_Some:
  "relative_to p q = Some r \<longleftrightarrow> p_root r = '''' \<and> p_root p = p_root q \<and> p_names p = p_names q @ p_names r"
  by (cases r) (auto simp: relative_to_def prefix_def)

end
