(* ===== verification/RealPty.thy ===== *)
theory RealPty
  imports PathLib
begin

text \<open>
  The PTY-backed child process of \<open>zmux/realpty.py\<close>: spawning (descriptors, \<open>fork\<close>, the
  system calls of the child up to \<open>execve\<close>), the reader thread with its reap path, and the
  calls other threads make meanwhile (\<open>write\<close>, \<open>resize\<close>, \<open>terminate\<close>, \<open>kill\<close>, \<open>close\<close>,
  \<open>wait_exited\<close>).  The answers of the operating system are arguments of the steps.
\<close>

section \<open>Window size\<close>

definition pack_H :: "int \<Rightarrow> exn + nat" where
  "pack_H v = (if 0 \<le> v \<and> v < 65536 then Ok (nat v) else Err StructError)"

text \<open>\<open>set_winsize\<close>: the sizes the ioctl gets, \<open>ioctl_ok\<close> its success.\<close>

definition set_winsize :: "bool \<Rightarrow> int \<Rightarrow> int \<Rightarrow> exn + nat \<times> nat" where
  "set_winsize ioctl_ok rows cols =
     (case (pack_H (max 1 rows), pack_H (max 1 cols)) of
        (Ok r, Ok c) \<Rightarrow> if ioctl_ok then Ok (r, c) else Err (OSError ''ioctl'')
      | _ \<Rightarrow> Err StructError)"

section \<open>Spawning\<close>

datatype rp_exec = Reading | Cleanup | Reaped | Finished

record rpty =
  rp_pid :: nat
  rp_master_open :: bool
  rp_exited :: bool
  rp_reaped :: bool
  rp_exit_code :: "int option"
  rp_reader :: rp_exec
  rp_emitted :: "bytes list"
  rp_written :: "bytes list"
  rp_winsize :: "(nat \<times> nat) option"
  rp_signals :: "nat list"
  rp_exit_calls :: nat

text \<open>The child: its system calls in order; the first failure ends in \<open>_exit(127)\<close>.\<close>

datatype syscall = Setsid | Ctty nat | Dup2 nat nat | Close nat | Chdir string | Execve "string list"

definition child_calls :: "nat \<Rightarrow> nat \<Rightarrow> string option \<Rightarrow> string list \<Rightarrow> syscall list" where
  "child_calls master slave cwd argv =
     [Setsid, Ctty slave, Dup2 slave 0, Dup2 slave 1, Dup2 slave 2] @
     (if slave > 2 then [Close slave] else []) @ [Close master] @
     (case cwd of None \<Rightarrow> [] | Some d \<Rightarrow> if d = '''' then [] else [Chdir d]) @ [Execve argv]"

datatype child_end = Execed "string list" | Exited int

fun run_child :: "(syscall \<Rightarrow> bool) \<Rightarrow> syscall list \<Rightarrow> child_end" where
  "run_child ok [] = Exited 127"
| "run_child ok (c # cs) =
     (if \<not> ok c then Exited 127
      else case c of Execve argv \<Rightarrow> Execed argv | _ \<Rightarrow> run_child ok cs)"

text \<open>
  The parent: \<open>pty\<close> the descriptors \<open>openpty\<close> returns, \<open>forked\<close> the pid or the failure.  The
  second component is the set of descriptors left open in the parent.
\<close>

definition spawn ::
    "string list \<Rightarrow> int \<Rightarrow> int \<Rightarrow> exn + nat \<times> nat \<Rightarrow> bool \<Rightarrow> exn + nat \<Rightarrow> (exn + rpty) \<times> nat set" where
  "spawn argv rows cols pty ioctl_ok forked =
     (if argv = [] then (Err (ValueError ''argv must not be empty''), {})
      else case pty of
        Err e \<Rightarrow> (Err e, {})
      | Ok (master, slave) \<Rightarrow>
         (case set_winsize ioctl_ok rows cols of
            Err StructError \<Rightarrow> (Err StructError, {master, slave})
          | ws \<Rightarrow>
             (case forked of
                Err e \<Rightarrow> (Err (RuntimeError ''fork failed (PTY unavailable?)''), {})
              | Ok pid \<Rightarrow>
                 (Ok \<lparr>rp_pid = pid, rp_master_open = True, rp_exited = False, rp_reaped = False,
                      rp_exit_code = None, rp_reader = Reading, rp_emitted = [], rp_written = [],
                      rp_winsize = (case ws of Ok s \<Rightarrow> Some s | Err _ \<Rightarrow> None),
                      rp_signals = [], rp_exit_calls = 0\<rparr>, {master}))))"

section \<open>The reader thread\<close>

text \<open>What \<open>os.read\<close> and the sink did in one turn of the loop.\<close>

datatype read_result = Data bytes bool | Eof | ReadError

definition read_turn :: "read_result \<Rightarrow> rpty \<Rightarrow> rpty" where
  "read_turn r P =
     (if rp_exited P then P\<lparr>rp_reader := Cleanup\<rparr>
      else case r of
        ReadError \<Rightarrow> P\<lparr>rp_reader := Cleanup\<rparr>
      | Eof \<Rightarrow> P\<lparr>rp_reader := Cleanup\<rparr>
      | Data bs sink_ok \<Rightarrow>
          if bs = [] then P\<lparr>rp_reader := Cleanup\<rparr>
          else let P = P\<lparr>rp_emitted := rp_emitted P @ [bs]\<rparr>
               in if sink_ok then P else P\<lparr>rp_reader := Cleanup\<rparr>)"

text \<open>\<open>waitpid\<close>: not yet dead, no such child, or the wait status.\<close>

datatype wait_result = StillAlive | NoChild | Status nat

definition exitcode_of :: "nat \<Rightarrow> int" where
  "exitcode_of status = (if status mod 128 = 0 then int (status div 256) else - int (status mod 128))"

definition SIGKILL :: nat where "SIGKILL = 9"
definition SIGTERM :: nat where "SIGTERM = 15"

definition finish_wait :: "wait_result \<Rightarrow> rpty \<Rightarrow> rpty" where
  "finish_wait w P =
     (case w of Status s \<Rightarrow> P\<lparr>rp_exit_code := Some (exitcode_of s), rp_reaped := True\<rparr>
      | _ \<Rightarrow> P\<lparr>rp_reaped := True\<rparr>)"

text \<open>\<open>_reap\<close>: \<open>w1\<close> answers the non-blocking wait, \<open>w2\<close> the blocking one.\<close>

definition reap :: "wait_result \<Rightarrow> wait_result \<Rightarrow> rpty \<Rightarrow> rpty" where
  "reap w1 w2 P =
     (if rp_reaped P then P
      else case w1 of
        StillAlive \<Rightarrow> finish_wait w2 (P\<lparr>rp_signals := rp_signals P @ [SIGKILL]\<rparr>)
      | _ \<Rightarrow> finish_wait w1 P)"

definition notify_exit :: "bool \<Rightarrow> rpty \<Rightarrow> rpty" where
  "notify_exit has_callback P =
     P\<lparr>rp_exit_calls := rp_exit_calls P + (if has_callback then 1 else 0), rp_reader := Finished\<rparr>"

section \<open>The callers\<close>

definition rp_write :: "bytes \<Rightarrow> bool \<Rightarrow> rpty \<Rightarrow> bool \<times> rpty" where
  "rp_write bs write_ok P =
     (if bs = [] \<or> rp_exited P then (False, P)
      else if write_ok then (True, P\<lparr>rp_written := rp_written P @ [bs]\<rparr>)
      else (False, P))"

definition rp_resize :: "int \<Rightarrow> int \<Rightarrow> bool \<Rightarrow> rpty \<Rightarrow> (exn + unit) \<times> rpty" where
  "rp_resize rows cols ioctl_ok P =
     (if rp_exited P then (Ok (), P)
      else case set_winsize ioctl_ok rows cols of
        Ok s \<Rightarrow> (Ok (), P\<lparr>rp_winsize := Some s\<rparr>)
      | Err StructError \<Rightarrow> (Err StructError, P)
      | Err e \<Rightarrow> (Ok (), P))"

definition rp_terminate :: "rpty \<Rightarrow> rpty" where
  "rp_terminate P = P\<lparr>rp_signals := rp_signals P @ [SIGTERM]\<rparr>"

definition rp_close :: "rpty \<Rightarrow> rpty" where
  "rp_close P = P\<lparr>rp_master_open := False, rp_exited := True\<rparr>"

definition rp_kill :: "rpty \<Rightarrow> rpty" where
  "rp_kill P = rp_close (P\<lparr>rp_signals := rp_signals P @ [SIGKILL]\<rparr>)"

definition wait_exited :: "rpty \<Rightarrow> int option" where
  "wait_exited P = (if rp_reaped P then rp_exit_code P else None)"

section \<open>The step relation\<close>

inductive rp_step :: "bool \<Rightarrow> rpty \<Rightarrow> rpty \<Rightarrow> bool" for cb :: bool where
  turn: "rp_reader P = Reading \<Longrightarrow> rp_step cb P (read_turn r P)"
| cleanup: "rp_reader P = Cleanup \<Longrightarrow> rp_step cb P ((reap w1 w2 (P\<lparr>rp_exited := True\<rparr>))\<lparr>rp_reader := Reaped\<rparr>)"
| notify: "rp_reader P = Reaped \<Longrightarrow> rp_step cb P (notify_exit cb P)"
| caller_write: "rp_step cb P (snd (rp_write bs ok P))"
| caller_resize: "rp_step cb P (snd (rp_resize r c ok P))"
| caller_terminate: "rp_step cb P (rp_terminate P)"
| caller_kill: "rp_step cb P (rp_kill P)"
| caller_close: "rp_step cb P (rp_close P)"

inductive_cases rp_step_E: "rp_step cb P Q"

inductive rp_reach :: "bool \<Rightarrow> rpty \<Rightarrow> rpty \<Rightarrow> bool" for cb :: bool and P0 :: rpty where
  start: "rp_reach cb P0 P0"
| step: "rp_reach cb P0 P \<Longrightarrow> rp_step cb P Q \<Longrightarrow> rp_reach cb P0 Q"

text \<open>The life cycle invariant.\<close>

definition rp_inv :: "bool \<Rightarrow> rpty \<Rightarrow> bool" where
  "rp_inv cb P \<longleftrightarrow>
     (rp_reaped P \<longleftrightarrow> rp_reader P \<in> {Reaped, Finished}) \<and>
     (rp_reader P \<in> {Reaped, Finished} \<longrightarrow> rp_exited P) \<and>
     (rp_exit_code P \<noteq> None \<longrightarrow> rp_reaped P) \<and>
     rp_exit_calls P = (if rp_reader P = Finished \<and> cb then 1 else 0) \<and>
     (\<not> rp_master_open P \<longrightarrow> rp_exited P)"

lemmas rp_defs = read_turn_def reap_def finish_wait_def notify_exit_def rp_write_def rp_resize_def
  rp_terminate_def rp_close_def rp_kill_def

lemma rp_inv_spawn: "fst (spawn argv rows cols pty ok forked) = Ok P \<Longrightarrow> rp_inv cb P"
  by (auto simp: spawn_def rp_inv_def split: if_splits sum.splits prod.splits exn.splits)

lemma rp_inv_step: "rp_step cb P Q \<Longrightarrow> rp_inv cb P \<Longrightarrow> rp_inv cb Q"
proof (induction rule: rp_step.induct)
  case (turn P r)
  then show ?case by (auto simp: rp_inv_def read_turn_def Let_def split: read_result.splits)
next
  case (cleanup P w1 w2)
  then show ?case by (auto simp: rp_inv_def reap_def finish_wait_def split: wait_result.splits)
qed (auto simp: rp_inv_def rp_defs split: sum.splits exn.splits prod.splits)

lemma rp_inv_reach: "rp_reach cb P0 P \<Longrightarrow> rp_inv cb P0 \<Longrightarrow> rp_inv cb P"
  by (induction rule: rp_reach.induct) (auto intro: rp_inv_step)

text \<open>The exit status, once known, never changes, and no step un-reaps the child.\<close>

lemma rp_step_stable:
  "rp_step cb P Q \<Longrightarrow> rp_inv cb P \<Longrightarrow> rp_reaped P \<Longrightarrow> rp_reaped Q \<and> rp_exit_code Q = rp_exit_code P"
proof (induction rule: rp_step.induct)
  case (turn P r)
  then show ?case by (auto simp: rp_inv_def)
next
  case (cleanup P w1 w2)
  then show ?case by (auto simp: rp_inv_def)
qed (auto simp: rp_defs split: sum.splits exn.splits prod.splits)

lemma rp_reach_stable:
  "rp_reach cb P Q \<Longrightarrow> rp_inv cb P \<Longrightarrow> rp_reaped P \<Longrightarrow> rp_reaped Q \<and> rp_exit_code Q = rp_exit_code P"
  by (induction rule: rp_reach.induct) (auto dest: rp_step_stable rp_inv_reach)

text \<open>After \<open>close\<close> the reader needs three turns, whatever the read returns.\<close>

definition reader_turn :: "bool \<Rightarrow> read_result \<Rightarrow> wait_result \<Rightarrow> wait_result \<Rightarrow> rpty \<Rightarrow> rpty" where
  "reader_turn cb r w1 w2 P =
     (case rp_reader P of
        Reading \<Rightarrow> read_turn r P
      | Cleanup \<Rightarrow> (reap w1 w2 (P\<lparr>rp_exited := True\<rparr>))\<lparr>rp_reader := Reaped\<rparr>
      | Reaped \<Rightarrow> notify_exit cb P
      | Finished \<Rightarrow> P)"

lemma reader_turn_step: "rp_reader P \<noteq> Finished \<Longrightarrow> rp_step cb P (reader_turn cb r w1 w2 P)"
  by (cases "rp_reader P") (auto simp: reader_turn_def intro: rp_step.intros)

section \<open>Properties\<close>

text \<open>
  C24: Life cycle: at every reachable moment the exit callback has run at most once, only from the
  reader and only after the child was reaped and the writers were shut off; the exit status is
  published before the callback and never changes afterwards.
\<close>

theorem on_exit_once_after_reap:
  assumes "fst (spawn argv rows cols pty ok forked) = Ok P0" "rp_reach cb P0 P"
  shows "rp_exit_calls P \<le> 1 \<and>
    (rp_exit_calls P = 1 \<longrightarrow> rp_reaped P \<and> rp_exited P \<and> rp_reader P = Finished) \<and>
    (rp_exit_code P \<noteq> None \<longrightarrow> rp_reaped P) \<and>
    (rp_reaped P \<longrightarrow> (\<forall>Q. rp_reach cb P Q \<longrightarrow> wait_exited Q = wait_exited P))"
proof -
  have inv: "rp_inv cb P" using assms rp_inv_spawn rp_inv_reach by blast
  then have "rp_reaped P \<longrightarrow> (\<forall>Q. rp_reach cb P Q \<longrightarrow> wait_exited Q = wait_exited P)"
    using rp_reach_stable [of cb P] by (auto simp: wait_exited_def)
  with inv show ?thesis by (auto simp: rp_inv_def split: if_splits)
qed

definition demo_pty :: rpty where
  "demo_pty = \<lparr>rp_pid = 7, rp_master_open = True, rp_exited = False, rp_reaped = False,
     rp_exit_code = None, rp_reader = Reading, rp_emitted = [], rp_written = [],
     rp_winsize = Some (24, 80), rp_signals = [], rp_exit_calls = 0\<rparr>"

lemma demo_spawn: "fst (spawn [''/bin/sh''] 24 80 (Ok (5, 6)) True (Ok 7)) = Ok demo_pty"
  by (simp add: spawn_def set_winsize_def pack_H_def demo_pty_def)

lemma on_exit_once_after_reap_witness:
  "rp_exit_calls (reader_turn True Eof (Status 10752) NoChild
     (reader_turn True Eof (Status 10752) NoChild (reader_turn True Eof NoChild NoChild demo_pty))) \<le> 1 \<and>
   wait_exited (reader_turn True Eof (Status 10752) NoChild
     (reader_turn True Eof (Status 10752) NoChild (reader_turn True Eof NoChild NoChild demo_pty))) = Some 42"
proof -
  let ?P1 = "reader_turn True Eof NoChild NoChild demo_pty"
  let ?P2 = "reader_turn True Eof (Status 10752) NoChild ?P1"
  let ?P3 = "reader_turn True Eof (Status 10752) NoChild ?P2"
  have r: "rp_reader demo_pty \<noteq> Finished" "rp_reader ?P1 \<noteq> Finished" "rp_reader ?P2 \<noteq> Finished"
    by (simp_all add: reader_turn_def rp_defs demo_pty_def)
  have "rp_reach True demo_pty ?P3"
    using rp_reach.start [of True demo_pty] r by (blast intro: rp_reach.step reader_turn_step)
  from on_exit_once_after_reap [OF demo_spawn this]
  show ?thesis by (simp add: reader_turn_def rp_defs demo_pty_def wait_exited_def exitcode_of_def)
qed

text \<open>
  C38: Shutdown is bounded: after \<open>kill\<close> the next three turns of the reader end it, whatever the
  pending read and the waits return; the child has then been signalled and reaped, and no write
  is accepted any more.
\<close>

theorem kill_ends_reader:
  assumes "rp_inv cb P"
    and Q_def: "Q = reader_turn cb r3 a3 b3 (reader_turn cb r2 a2 b2 (reader_turn cb r1 a1 b1 (rp_kill P)))"
  shows "rp_reader Q = Finished \<and> rp_reaped Q \<and> SIGKILL \<in> set (rp_signals Q) \<and> \<not> fst (rp_write bs ok Q)"
proof -
  have sig: "SIGKILL \<in> set (rp_signals X) \<Longrightarrow> SIGKILL \<in> set (rp_signals (reader_turn cb r a b X))" for X r a b
    by (auto simp: reader_turn_def rp_defs Let_def split: rp_exec.splits read_result.splits wait_result.splits)
  have ex: "rp_exited X \<Longrightarrow> rp_exited (reader_turn cb r a b X)" for X r a b
    by (auto simp: reader_turn_def rp_defs Let_def split: rp_exec.splits read_result.splits wait_result.splits)
  have t: "rp_exited X \<Longrightarrow> rp_reader (reader_turn cb r a b X) =
      (case rp_reader X of Reading \<Rightarrow> Cleanup | Cleanup \<Rightarrow> Reaped | _ \<Rightarrow> Finished)" for X r a b
    by (auto simp: reader_turn_def rp_defs split: rp_exec.splits)
  have inv: "rp_inv cb X \<Longrightarrow> rp_inv cb (reader_turn cb r a b X)" for X r a b
    using rp_inv_step [OF reader_turn_step [of X cb r a b]] by (cases "rp_reader X = Finished") (auto simp: reader_turn_def)
  have k: "rp_exited (rp_kill P)" "SIGKILL \<in> set (rp_signals (rp_kill P))" "rp_inv cb (rp_kill P)"
    using assms(1) rp_inv_step [OF rp_step.caller_kill] by (simp_all add: rp_kill_def rp_close_def)
  have "rp_reader Q = Finished"
    unfolding Q_def by (cases "rp_reader (rp_kill P)") (simp_all only: t [OF k(1)] t [OF ex [OF k(1)]]
      t [OF ex [OF ex [OF k(1)]]] rp_exec.case)
  moreover have "rp_inv cb Q" "rp_exited Q" "SIGKILL \<in> set (rp_signals Q)"
    unfolding Q_def by (simp_all add: inv ex sig k)
  ultimately show ?thesis by (auto simp: rp_inv_def rp_write_def)
qed

lemma kill_ends_reader_witness:
  "rp_reader (reader_turn True Eof NoChild NoChild (reader_turn True Eof StillAlive (Status 9)
     (reader_turn True (Data [1] True) NoChild NoChild (rp_kill demo_pty)))) = Finished"
proof -
  have "rp_inv True demo_pty" using rp_inv_spawn [OF demo_spawn] by simp
  from kill_ends_reader [OF this refl] show ?thesis by blast
qed

text \<open>
  Descriptors: a failed \<open>openpty\<close> or \<open>fork\<close> leaves none open and a success only the master, but
  a size beyond 16 bits raises \<open>struct.error\<close> with both still open.
\<close>

theorem spawn_descriptors:
  "(case spawn argv rows cols pty ok forked of
      (Ok P, fds) \<Rightarrow> (\<exists>m s. pty = Ok (m, s) \<and> fds = {m})
    | (Err e, fds) \<Rightarrow>
        if e = StructError \<and> (rows > 65535 \<or> cols > 65535)
        then fds = {} \<or> (\<exists>m s. pty = Ok (m, s) \<and> fds = {m, s}) else fds = {}) \<and>
   (argv \<noteq> [] \<and> pty = Ok (5, 6) \<and> rows > 65535 \<longrightarrow>
      spawn argv rows cols pty ok forked = (Err StructError, {5, 6}))"
  by (auto simp: spawn_def set_winsize_def pack_H_def split: sum.splits prod.splits exn.splits if_splits)


lemma spawn_descriptors_witness:
  "spawn [''/bin/sh''] 70000 80 (Ok (5, 6)) True (Ok 7) = (Err StructError, {5, 6})"
  using spawn_descriptors [where argv = "[''/bin/sh'']" and rows = 70000 and cols = 80 and pty = "Ok (5, 6)" and ok = True and forked = "Ok 7"] by simp

end
