(* ===== verification/FileSys.thy ===== *)
theory FileSys
  imports PathLib "HOL-Library.List_Lexorder"
begin

text \<open>
  The file system the components act on, as the part of the operating system their calls
  observe: a finite table from locations (lists of names below the root) to nodes, kernel
  path resolution with symbolic links, and the \<open>pathlib\<close>, \<open>os\<close> and \<open>shutil\<close> calls the sources
  make, each returning the new table or the \<open>OSError\<close> it raises.  \<open>fs_denied\<close> names the
  locations the process may not change, so that the error branches of the code are reachable;
  \<open>fs_log\<close> is the text the process has sent to its progress sink, in order, and \<open>fs_serial\<close>
  counts the random identifiers it has drawn.
  File contents are text, or bytes that do not decode; modes are the permission bits.
\<close>

section \<open>Nodes and the table\<close>

datatype content = Text string | Binary bytes

datatype node = Reg content nat | Dir nat | Lnk string

type_synonym loc = "string list"

record fsys =
  fs_table :: "(loc \<times> node) list"
  fs_denied :: "loc \<Rightarrow> bool"
  fs_log :: "string list"
  fs_serial :: nat

definition node_at :: "fsys \<Rightarrow> loc \<Rightarrow> node option" where
  "node_at F l = (if l = [] then Some (Dir 493) else map_of (fs_table F) l)"

definition put_node :: "fsys \<Rightarrow> loc \<Rightarrow> node \<Rightarrow> fsys" where
  "put_node F l n = F\<lparr>fs_table := (l, n) # filter (\<lambda>e. fst e \<noteq> l) (fs_table F)\<rparr>"

definition drop_tree :: "fsys \<Rightarrow> loc \<Rightarrow> fsys" where
  "drop_tree F l = F\<lparr>fs_table := filter (\<lambda>e. \<not> prefix l (fst e)) (fs_table F)\<rparr>"

definition move_tree :: "fsys \<Rightarrow> loc \<Rightarrow> loc \<Rightarrow> fsys" where
  "move_tree F s d =
     F\<lparr>fs_table := map (\<lambda>(l, n). if prefix s l then (d @ drop (length s) l, n) else (l, n))
        (filter (\<lambda>e. \<not> prefix d (fst e)) (fs_table F))\<rparr>"

definition children :: "fsys \<Rightarrow> loc \<Rightarrow> string list" where
  "children F l = map (\<lambda>e. last (fst e)) (filter (\<lambda>e. fst e \<noteq> [] \<and> butlast (fst e) = l) (fs_table F))"

lemma node_at_Nil [simp]: "node_at F [] = Some (Dir 493)"
  by (simp add: node_at_def)

lemma map_of_filter_fst: "P l \<Longrightarrow> map_of (filter (\<lambda>e. P (fst e)) es) l = map_of es l"
  by (induction es) auto

lemma map_of_filter_fst_None: "\<not> P l \<Longrightarrow> map_of (filter (\<lambda>e. P (fst e)) es) l = None"
  by (induction es) auto

lemma node_at_put [simp]:
  "node_at (put_node F l n) k = (if k = l \<and> l \<noteq> [] then Some n else node_at F k)"
  by (auto simp: node_at_def put_node_def map_of_filter_fst [where P = "\<lambda>x. x \<noteq> l"])

lemma node_at_drop [simp]:
  "node_at (drop_tree F l) k = (if prefix l k \<and> k \<noteq> [] then None else node_at F k)"
  by (auto simp: node_at_def drop_tree_def map_of_filter_fst [where P = "\<lambda>x. \<not> prefix l x"]
      map_of_filter_fst_None [where P = "\<lambda>x. \<not> prefix l x"])

lemma fs_denied_put [simp]: "fs_denied (put_node F l n) = fs_denied F"
  and fs_denied_drop [simp]: "fs_denied (drop_tree F l) = fs_denied F"
  and fs_denied_move [simp]: "fs_denied (move_tree F s d) = fs_denied F"
  by (simp_all add: put_node_def drop_tree_def move_tree_def)

lemma map_of_move_moved:
  "\<lbrakk>\<forall>e \<in> set es. \<not> prefix d (fst e); \<not> prefix s d\<rbrakk> \<Longrightarrow>
   map_of (map (\<lambda>(l, n). if prefix s l then (d @ drop (length s) l, n) else (l, n)) es) (d @ k)
     = map_of es (s @ k)"
proof (induction es)
  case (Cons e es)
  obtain l n where e: "e = (l, n)" by (cases e)
  show ?case
  proof (cases "prefix s l")
    case True
    then obtain r where r: "l = s @ r" by (auto simp: prefix_def)
    with Cons e show ?thesis by auto
  next
    case False
    moreover from Cons.prems e have "\<not> prefix d l" by simp
    ultimately have "l \<noteq> d @ k" "l \<noteq> s @ k" by auto
    with Cons e False show ?thesis by auto
  qed
qed simp

lemma map_of_move_other:
  "\<lbrakk>\<not> prefix d k; \<not> prefix s k\<rbrakk> \<Longrightarrow>
   map_of (map (\<lambda>(l, n). if prefix s l then (d @ drop (length s) l, n) else (l, n)) es) k = map_of es k"
  by (induction es) (auto simp: prefix_def)

lemma map_of_move_source:
  "\<lbrakk>prefix s k; \<not> prefix d k\<rbrakk> \<Longrightarrow>
   map_of (map (\<lambda>(l, n). if prefix s l then (d @ drop (length s) l, n) else (l, n)) es) k = None"
  by (induction es) (auto split: if_splits)

text \<open>A rename moves the whole subtree; nothing outside the two trees changes.\<close>

lemma node_at_move:
  assumes "\<not> prefix s d" "\<not> prefix d s"
  shows "prefix d l \<Longrightarrow> node_at (move_tree F s d) l = node_at F (s @ drop (length d) l)"
    and "\<lbrakk>prefix s l; \<not> prefix d l\<rbrakk> \<Longrightarrow> node_at (move_tree F s d) l = None"
    and "\<lbrakk>\<not> prefix d l; \<not> prefix s l\<rbrakk> \<Longrightarrow> node_at (move_tree F s d) l = node_at F l"
proof -
  let ?es = "filter (\<lambda>e. \<not> prefix d (fst e)) (fs_table F)"
  have ne: "s \<noteq> []" "d \<noteq> []" using assms by auto
  show "node_at (move_tree F s d) l = node_at F (s @ drop (length d) l)" if p: "prefix d l"
  proof -
    obtain k where k: "l = d @ k" using p by (auto simp: prefix_def)
    have nd: "\<not> prefix d (s @ k)" using assms by (metis prefix_append prefixI prefix_same_cases)
    have "map_of (fs_table (move_tree F s d)) (d @ k) = map_of ?es (s @ k)"
      unfolding move_tree_def using assms by (simp add: map_of_move_moved)
    also have "\<dots> = map_of (fs_table F) (s @ k)"
      using nd by (simp add: map_of_filter_fst [where P = "\<lambda>x. \<not> prefix d x"])
    finally show ?thesis using ne by (simp add: node_at_def k)
  qed
  show "node_at (move_tree F s d) l = None" if "prefix s l" "\<not> prefix d l"
    using that ne by (auto simp: node_at_def move_tree_def map_of_move_source)
  show "node_at (move_tree F s d) l = node_at F l" if "\<not> prefix d l" "\<not> prefix s l"
    using that ne by (auto simp: node_at_def move_tree_def map_of_move_other
        map_of_filter_fst [where P = "\<lambda>x. \<not> prefix d x"])
qed

section \<open>Path resolution\<close>

text \<open>
  The kernel's walk: every component but the last must be a directory or a link to one, the
  last may be missing; at most \<open>n\<close> links are followed (the kernel allows 40).
\<close>

definition link_base :: "loc \<Rightarrow> string \<Rightarrow> loc" where
  "link_base cur t = (if startswith t ''/'' then [] else cur)"

function walk :: "fsys \<Rightarrow> nat \<Rightarrow> bool \<Rightarrow> loc \<Rightarrow> string list \<Rightarrow> exn + loc" where
  "walk F n follow cur [] = Ok cur"
| "walk F n follow cur (w # ws) =
     (if w = ''..'' then walk F n follow (butlast cur) ws
      else case node_at F (cur @ [w]) of
        None \<Rightarrow> if ws = [] then Ok (cur @ [w]) else Err FileNotFoundError
      | Some (Reg c m) \<Rightarrow> if ws = [] then Ok (cur @ [w]) else Err (OSError ''Not a directory'')
      | Some (Dir m) \<Rightarrow> walk F n follow (cur @ [w]) ws
      | Some (Lnk t) \<Rightarrow>
          if ws = [] \<and> \<not> follow then Ok (cur @ [w])
          else (case n of 0 \<Rightarrow> Err (OSError ''Too many levels of symbolic links'')
                | Suc m \<Rightarrow> walk F m follow (link_base cur t) (p_names (to_path t) @ ws)))"
  by pat_completeness auto
termination by (relation "measures [\<lambda>(F, n, follow, cur, ws). n, \<lambda>(F, n, follow, cur, ws). length ws]") auto

definition link_limit :: nat where "link_limit = 40"

definition locate :: "fsys \<Rightarrow> bool \<Rightarrow> path \<Rightarrow> exn + loc" where
  "locate F follow p = walk F link_limit follow [] (p_names p)"

definition lookup :: "fsys \<Rightarrow> bool \<Rightarrow> path \<Rightarrow> exn + loc \<times> node" where
  "lookup F follow p =
     (case locate F follow p of Err e \<Rightarrow> Err e
      | Ok l \<Rightarrow> (case node_at F l of None \<Rightarrow> Err FileNotFoundError | Some n \<Rightarrow> Ok (l, n)))"

definition lstat :: "fsys \<Rightarrow> path \<Rightarrow> exn + node" where
  "lstat F p = (case lookup F False p of Err e \<Rightarrow> Err e | Ok (l, n) \<Rightarrow> Ok n)"

definition stat :: "fsys \<Rightarrow> path \<Rightarrow> exn + node" where
  "stat F p = (case lookup F True p of Err e \<Rightarrow> Err e | Ok (l, n) \<Rightarrow> Ok n)"

definition is_reg :: "node \<Rightarrow> bool" where "is_reg n = (case n of Reg _ _ \<Rightarrow> True | _ \<Rightarrow> False)"
definition is_dirnode :: "node \<Rightarrow> bool" where "is_dirnode n = (case n of Dir _ \<Rightarrow> True | _ \<Rightarrow> False)"
definition is_lnk :: "node \<Rightarrow> bool" where "is_lnk n = (case n of Lnk _ \<Rightarrow> True | _ \<Rightarrow> False)"

lemma is_node_simps [simp]:
  "is_reg (Reg c m)" "\<not> is_reg (Dir m)" "\<not> is_reg (Lnk t)"
  "is_dirnode (Dir m)" "\<not> is_dirnode (Reg c m)" "\<not> is_dirnode (Lnk t)"
  "is_lnk (Lnk t)" "\<not> is_lnk (Reg c m)" "\<not> is_lnk (Dir m)"
  by (simp_all add: is_reg_def is_dirnode_def is_lnk_def)

lemma is_reg_iff: "is_reg n \<longleftrightarrow> (\<exists>c m. n = Reg c m)" by (cases n) auto
lemma is_dirnode_iff: "is_dirnode n \<longleftrightarrow> (\<exists>m. n = Dir m)" by (cases n) auto
lemma is_lnk_iff: "is_lnk n \<longleftrightarrow> (\<exists>t. n = Lnk t)" by (cases n) auto

text \<open>\<open>Path.is_file\<close>, \<open>is_dir\<close>, \<open>exists\<close>, \<open>is_symlink\<close>: a failed \<open>stat\<close> is \<open>False\<close>.\<close>

definition is_file :: "fsys \<Rightarrow> path \<Rightarrow> bool" where
  "is_file F p = (case stat F p of Err _ \<Rightarrow> False | Ok n \<Rightarrow> is_reg n)"

definition is_dir :: "fsys \<Rightarrow> path \<Rightarrow> bool" where
  "is_dir F p = (case stat F p of Err _ \<Rightarrow> False | Ok n \<Rightarrow> is_dirnode n)"

definition path_exists :: "fsys \<Rightarrow> path \<Rightarrow> bool" where
  "path_exists F p = (case stat F p of Err _ \<Rightarrow> False | Ok n \<Rightarrow> True)"

definition is_symlink :: "fsys \<Rightarrow> path \<Rightarrow> bool" where
  "is_symlink F p = (case lstat F p of Err _ \<Rightarrow> False | Ok n \<Rightarrow> is_lnk n)"

text \<open>
  \<open>Path.resolve()\<close> (not strict): links are expanded, missing components are kept, and \<open>..\<close>
  drops the last resolved name.
\<close>

function realpath :: "fsys \<Rightarrow> nat \<Rightarrow> loc \<Rightarrow> string list \<Rightarrow> exn + loc" where
  "realpath F n cur [] = Ok cur"
| "realpath F n cur (w # ws) =
     (if w = ''..'' then realpath F n (butlast cur) ws
      else case node_at F (cur @ [w]) of
        Some (Lnk t) \<Rightarrow>
          (case n of 0 \<Rightarrow> Err (RuntimeError ''Symlink loop'')
           | Suc m \<Rightarrow> realpath F m (link_base cur t) (p_names (to_path t) @ ws))
      | _ \<Rightarrow> realpath F n (cur @ [w]) ws)"
  by pat_completeness auto
termination by (relation "measures [\<lambda>(F, n, cur, ws). n, \<lambda>(F, n, cur, ws). length ws]") auto

definition resolve_path :: "fsys \<Rightarrow> path \<Rightarrow> exn + path" where
  "resolve_path F p =
     (case realpath F link_limit [] (p_names p) of Err e \<Rightarrow> Err e | Ok l \<Rightarrow> Ok (Path ''/'' l))"

text \<open>Without links and dots on the way, both walks end at the path itself.\<close>

definition plain :: "fsys \<Rightarrow> loc \<Rightarrow> bool" where
  "plain F l \<longleftrightarrow> ''..'' \<notin> set l \<and>
     (\<forall>k. strict_prefix k l \<longrightarrow> (\<exists>m. node_at F k = Some (Dir m)))"

lemma plain_Nil [simp]: "plain F []"
  by (simp add: plain_def)

lemma plain_prefixD: "plain F (l @ [w]) \<Longrightarrow> plain F l \<and> (\<exists>m. node_at F l = Some (Dir m)) \<and> w \<noteq> ''..''"
  by (auto simp: plain_def strict_prefix_def)

lemma walk_plain:
  "plain F (cur @ ws) \<Longrightarrow> (ws \<noteq> [] \<Longrightarrow> \<not> follow \<or> (\<forall>t. node_at F (cur @ ws) \<noteq> Some (Lnk t))) \<Longrightarrow>
     walk F n follow cur ws = Ok (cur @ ws)"
proof (induction ws arbitrary: cur)
  case (Cons w ws)
  from Cons.prems(1) have w: "w \<noteq> ''..''" by (auto simp: plain_def dest: sym)
  show ?case
  proof (cases "ws = []")
    case True
    with Cons.prems w show ?thesis by (auto split: option.splits node.splits)
  next
    case False
    then have "strict_prefix (cur @ [w]) (cur @ w # ws)" by (simp add: strict_prefix_def)
    with Cons.prems(1) obtain m where "node_at F (cur @ [w]) = Some (Dir m)" by (auto simp: plain_def)
    with Cons.IH [of "cur @ [w]"] Cons.prems False w show ?thesis by simp
  qed
qed simp

lemma realpath_plain:
  "plain F (cur @ ws) \<Longrightarrow> (\<And>t. node_at F (cur @ ws) \<noteq> Some (Lnk t)) \<Longrightarrow> realpath F n cur ws = Ok (cur @ ws)"
proof (induction ws arbitrary: cur)
  case (Cons w ws)
  from Cons.prems(1) have w: "w \<noteq> ''..''" by (auto simp: plain_def dest: sym)
  have nl: "node_at F (cur @ [w]) \<noteq> Some (Lnk t)" for t
  proof (cases "ws = []")
    case False
    then have "strict_prefix (cur @ [w]) (cur @ w # ws)" by (simp add: strict_prefix_def)
    with Cons.prems(1) show ?thesis by (auto simp: plain_def)
  qed (use Cons.prems in simp)
  with Cons.IH [of "cur @ [w]"] Cons.prems w show ?case by (auto split: option.splits node.splits)
qed simp

text \<open>A resolved path holds no \<open>..\<close>, and no link at any prefix.\<close>

definition link_free :: "fsys \<Rightarrow> loc \<Rightarrow> bool" where
  "link_free F l \<longleftrightarrow> ''..'' \<notin> set l \<and> (\<forall>k t. prefix k l \<longrightarrow> node_at F k \<noteq> Some (Lnk t))"

lemma link_free_Nil [simp]: "link_free F []"
  by (simp add: link_free_def)

lemma link_free_butlast: "link_free F l \<Longrightarrow> link_free F (butlast l)"
  unfolding link_free_def by (meson in_set_butlastD prefix_order.trans prefixeq_butlast)

lemma link_free_snoc:
  "link_free F l \<Longrightarrow> w \<noteq> ''..'' \<Longrightarrow> (\<And>t. node_at F (l @ [w]) \<noteq> Some (Lnk t)) \<Longrightarrow> link_free F (l @ [w])"
  by (auto simp: link_free_def prefix_snoc)

lemma realpath_link_free: "link_free F cur \<Longrightarrow> realpath F n cur ws = Ok l \<Longrightarrow> link_free F l"
proof (induction F n cur ws rule: realpath.induct)
  case (1 F n cur)
  then show ?case by simp
next
  case (2 F n cur w ws)
  show ?case
  proof (cases "w = ''..''")
    case True
    with 2 show ?thesis by (simp add: link_free_butlast)
  next
    case False
    show ?thesis
    proof (cases "\<exists>t. node_at F (cur @ [w]) = Some (Lnk t)")
      case True
      then obtain t where t: "node_at F (cur @ [w]) = Some (Lnk t)" by blast
      with "2.prems" False obtain m where m: "n = Suc m"
        "realpath F m (link_base cur t) (p_names (to_path t) @ ws) = Ok l"
        by (cases n) auto
      have "link_free F (link_base cur t)" using "2.prems"(1) by (simp add: link_base_def)
      with m "2.IH" False t show ?thesis by blast
    next
      case nl: False
      then have lf: "link_free F (cur @ [w])" using "2.prems"(1) False by (intro link_free_snoc) auto
      have "realpath F n (cur @ [w]) ws = Ok l"
        using "2.prems"(2) False nl by (auto split: option.splits node.splits)
      then show ?thesis using lf nl False "2.IH" 
        by (cases "node_at F (cur @ [w])"; cases "the (node_at F (cur @ [w]))") auto
    qed
  qed
qed

section \<open>Effects\<close>

text \<open>
  An operation takes the table and returns its result or the exception, with the table as it
  then is: an exception does not undo what was done before it.
\<close>

type_synonym 'a io = "fsys \<Rightarrow> (exn + 'a) \<times> fsys"

definition ret :: "'a \<Rightarrow> 'a io" where "ret x F = (Ok x, F)"
definition raise :: "exn \<Rightarrow> 'a io" where "raise e F = (Err e, F)"

definition bind_io :: "'a io \<Rightarrow> ('a \<Rightarrow> 'b io) \<Rightarrow> 'b io" where
  "bind_io m f F = (case m F of (Err e, F') \<Rightarrow> (Err e, F') | (Ok x, F') \<Rightarrow> f x F')"

definition seq_io :: "'a io \<Rightarrow> 'b io \<Rightarrow> 'b io" where
  "seq_io m k = bind_io m (\<lambda>_. k)"

definition try_io :: "'a io \<Rightarrow> (exn \<Rightarrow> 'a io) \<Rightarrow> 'a io" where
  "try_io m h F = (case m F of (Err e, F') \<Rightarrow> h e F' | (Ok x, F') \<Rightarrow> (Ok x, F'))"

definition finally_io :: "'a io \<Rightarrow> 'b io \<Rightarrow> 'a io" where
  "finally_io m k F =
     (case m F of (r, F') \<Rightarrow> (case k F' of (Err e, F'') \<Rightarrow> (Err e, F'') | (Ok _, F'') \<Rightarrow> (r, F'')))"

definition ask :: "(fsys \<Rightarrow> 'a) \<Rightarrow> 'a io" where "ask q F = (Ok (q F), F)"

text \<open>The \<open>OSError\<close> family: what \<open>except OSError\<close> catches.\<close>

definition is_oserror :: "exn \<Rightarrow> bool" where
  "is_oserror e = (case e of OSError _ \<Rightarrow> True | IsADirectoryError \<Rightarrow> True | FileNotFoundError \<Rightarrow> True
     | PermissionError \<Rightarrow> True | ConnectionError \<Rightarrow> True | _ \<Rightarrow> False)"

definition is_valueerror :: "exn \<Rightarrow> bool" where
  "is_valueerror e = (case e of ValueError _ \<Rightarrow> True | ElfError _ \<Rightarrow> True | _ \<Rightarrow> False)"

definition try_os :: "'a io \<Rightarrow> 'a \<Rightarrow> 'a io" where
  "try_os m x = try_io m (\<lambda>e. if is_oserror e then ret x else raise e)"

lemma io_simps [simp]:
  "ret x F = (Ok x, F)" "raise e F = (Err e, F)" "ask q F = (Ok (q F), F)"
  by (simp_all add: ret_def raise_def ask_def)

lemma is_oserror_simps [simp]:
  "is_oserror (OSError s)" "is_oserror IsADirectoryError" "is_oserror FileNotFoundError"
  "is_oserror PermissionError" "is_oserror ConnectionError" "\<not> is_oserror (ValueError s)"
  "\<not> is_oserror (RuntimeError s)" "\<not> is_oserror (ElfError s)" "\<not> is_oserror TypeError"
  "\<not> is_oserror KeyError" "\<not> is_oserror AttributeError" "\<not> is_oserror IndexError" "\<not> is_oserror OverflowError" "\<not> is_oserror StructError"
  by (simp_all add: is_oserror_def)

text \<open>A small invariant calculus: \<open>keeps R m\<close> when the table before and after stand in \<open>R\<close>.\<close>

definition keeps :: "(fsys \<Rightarrow> fsys \<Rightarrow> bool) \<Rightarrow> 'a io \<Rightarrow> bool" where
  "keeps R m \<longleftrightarrow> (\<forall>F. R F (snd (m F)))"

lemma keeps_D: "keeps R m \<Longrightarrow> m F = (r, F') \<Longrightarrow> R F F'"
  by (auto simp: keeps_def dest: spec [of _ F])

named_theorems keeps_intros \<open>rules for the invariant calculus\<close>

lemma keeps_ret [keeps_intros]: "reflp R \<Longrightarrow> keeps R (ret x)"
  and keeps_raise [keeps_intros]: "reflp R \<Longrightarrow> keeps R (raise e)"
  and keeps_ask [keeps_intros]: "reflp R \<Longrightarrow> keeps R (ask q)"
  by (simp_all add: keeps_def reflp_def)

lemma keeps_Pair [keeps_intros]: "reflp R \<Longrightarrow> keeps R (Pair r)"
  by (simp add: keeps_def reflp_def)

lemma keeps_bind [keeps_intros]:
  "transp R \<Longrightarrow> keeps R m \<Longrightarrow> (\<And>x. keeps R (f x)) \<Longrightarrow> keeps R (bind_io m f)"
  unfolding keeps_def bind_io_def
  by (auto split: prod.splits sum.splits) (metis snd_conv transpD)+

lemma keeps_seq [keeps_intros]: "transp R \<Longrightarrow> keeps R m \<Longrightarrow> keeps R k \<Longrightarrow> keeps R (seq_io m k)"
  by (simp add: seq_io_def keeps_bind)

lemma keeps_try [keeps_intros]:
  "transp R \<Longrightarrow> keeps R m \<Longrightarrow> (\<And>e. keeps R (h e)) \<Longrightarrow> keeps R (try_io m h)"
  unfolding keeps_def try_io_def
  by (auto split: prod.splits sum.splits) (metis snd_conv transpD)+

lemma keeps_try_os [keeps_intros]:
  "reflp R \<Longrightarrow> transp R \<Longrightarrow> keeps R m \<Longrightarrow> keeps R (try_os m x)"
  by (auto simp: try_os_def intro!: keeps_intros)

lemma keeps_finally [keeps_intros]:
  "transp R \<Longrightarrow> keeps R m \<Longrightarrow> keeps R k \<Longrightarrow> keeps R (finally_io m k)"
  unfolding keeps_def finally_io_def
  by (auto split: prod.splits sum.splits) (metis snd_conv transpD)+

section \<open>Operations\<close>

definition read_text :: "path \<Rightarrow> string io" where
  "read_text p F =
     (case lookup F True p of
        Err e \<Rightarrow> (Err e, F)
      | Ok (l, Reg (Text s) m) \<Rightarrow> (Ok s, F)
      | Ok (l, Reg (Binary bs) m) \<Rightarrow> (Err (ValueError ''invalid utf-8''), F)
      | Ok (l, _) \<Rightarrow> (Err IsADirectoryError, F))"

definition readlink :: "path \<Rightarrow> string io" where
  "readlink p F =
     (case lookup F False p of
        Err e \<Rightarrow> (Err e, F)
      | Ok (l, Lnk t) \<Rightarrow> (Ok t, F)
      | Ok (l, _) \<Rightarrow> (Err (OSError ''Invalid argument''), F))"

definition change :: "loc \<Rightarrow> (fsys \<Rightarrow> fsys) \<Rightarrow> unit io" where
  "change l g F = (if fs_denied F l then (Err PermissionError, F) else (Ok (), g F))"

text \<open>\<open>open(p, "w")\<close> and a write: an existing file keeps its mode, a new one gets 0644.\<close>

definition write_content :: "path \<Rightarrow> content \<Rightarrow> unit io" where
  "write_content p c F =
     (case locate F True p of
        Err e \<Rightarrow> (Err e, F)
      | Ok l \<Rightarrow> (case node_at F l of
            None \<Rightarrow> change l (\<lambda>F. put_node F l (Reg c 420)) F
          | Some (Reg c0 m) \<Rightarrow> change l (\<lambda>F. put_node F l (Reg c m)) F
          | Some _ \<Rightarrow> (Err IsADirectoryError, F)))"

definition write_text :: "path \<Rightarrow> string \<Rightarrow> unit io" where
  "write_text p s = write_content p (Text s)"

definition set_mode :: "nat \<Rightarrow> node \<Rightarrow> node" where
  "set_mode m n = (case n of Reg c _ \<Rightarrow> Reg c m | Dir _ \<Rightarrow> Dir m | Lnk t \<Rightarrow> Lnk t)"

definition chmod :: "path \<Rightarrow> nat \<Rightarrow> unit io" where
  "chmod p m F =
     (case lookup F True p of
        Err e \<Rightarrow> (Err e, F)
      | Ok (l, n) \<Rightarrow> change l (\<lambda>F. put_node F l (set_mode m n)) F)"

definition os_mkdir :: "path \<Rightarrow> unit io" where
  "os_mkdir p F =
     (case locate F False p of
        Err e \<Rightarrow> (Err e, F)
      | Ok l \<Rightarrow> (if node_at F l \<noteq> None then (Err (OSError ''File exists''), F)
                 else change l (\<lambda>F. put_node F l (Dir 493)) F))"

text \<open>\<open>Path.mkdir(parents=True, exist_ok=True)\<close>.\<close>

function mkdir_parents :: "path \<Rightarrow> unit io" where
  "mkdir_parents p F =
     (case os_mkdir p F of
        (Ok _, F') \<Rightarrow> (Ok (), F')
      | (Err FileNotFoundError, F') \<Rightarrow>
          (if p_names p = [] then (Err FileNotFoundError, F')
           else case mkdir_parents (parent_path p) F' of
                  (Err e, F'') \<Rightarrow> (Err e, F'')
                | (Ok _, F'') \<Rightarrow>
                    (case os_mkdir p F'' of
                       (Ok _, F3) \<Rightarrow> (Ok (), F3)
                     | (Err e, F3) \<Rightarrow> if is_oserror e \<and> is_dir F3 p then (Ok (), F3) else (Err e, F3)))
      | (Err e, F') \<Rightarrow> if is_oserror e \<and> is_dir F' p then (Ok (), F') else (Err e, F'))"
  by pat_completeness auto
termination by (relation "measure (\<lambda>(p, F). length (p_names p))") (auto simp: parent_path_def)

declare mkdir_parents.simps [simp del]

definition unlink :: "path \<Rightarrow> unit io" where
  "unlink p F =
     (case lookup F False p of
        Err e \<Rightarrow> (Err e, F)
      | Ok (l, Dir m) \<Rightarrow> (Err IsADirectoryError, F)
      | Ok (l, _) \<Rightarrow> change l (\<lambda>F. drop_tree F l) F)"

definition unlink_missing_ok :: "path \<Rightarrow> unit io" where
  "unlink_missing_ok p = try_io (unlink p) (\<lambda>e. if e = FileNotFoundError then ret () else raise e)"

definition rmdir :: "path \<Rightarrow> unit io" where
  "rmdir p F =
     (case lookup F False p of
        Err e \<Rightarrow> (Err e, F)
      | Ok (l, Dir m) \<Rightarrow>
          if l = [] then (Err (OSError ''Device or resource busy''), F)
          else if children F l \<noteq> [] then (Err (OSError ''Directory not empty''), F)
          else change l (\<lambda>F. drop_tree F l) F
      | Ok (l, _) \<Rightarrow> (Err (OSError ''Not a directory''), F))"

text \<open>
  \<open>shutil.rmtree(p, ignore_errors=True)\<close>: a link or a plain file is left alone; in a directory
  everything goes except what may not be changed and the directories that hold it.
\<close>

definition stuck :: "fsys \<Rightarrow> loc \<Rightarrow> loc \<Rightarrow> bool" where
  "stuck F l k \<longleftrightarrow> (\<exists>e \<in> set (fs_table F). prefix l (fst e) \<and> prefix k (fst e) \<and> fs_denied F (fst e))"

definition rmtree_ignore :: "path \<Rightarrow> unit io" where
  "rmtree_ignore p F =
     (case lookup F False p of
        Ok (l, Dir m) \<Rightarrow>
          (Ok (), F\<lparr>fs_table := filter (\<lambda>e. \<not> prefix l (fst e) \<or> stuck F l (fst e)) (fs_table F)\<rparr>)
      | _ \<Rightarrow> (Ok (), F))"

text \<open>\<open>os.replace\<close>: a file replaces a file or link, a directory an empty directory.\<close>

definition os_replace :: "path \<Rightarrow> path \<Rightarrow> unit io" where
  "os_replace p q F =
     (case lookup F False p of
        Err e \<Rightarrow> (Err e, F)
      | Ok (s, n) \<Rightarrow>
         (case locate F False q of
            Err e \<Rightarrow> (Err e, F)
          | Ok d \<Rightarrow>
              if s = d then (Ok (), F)
              else if prefix s d then (Err (OSError ''Invalid argument''), F)
              else if prefix d s then (Err (OSError ''Directory not empty''), F)
              else if fs_denied F s \<or> fs_denied F d then (Err PermissionError, F)
              else (case node_at F d of
                  Some (Dir m) \<Rightarrow>
                    if \<not> is_dirnode n then (Err IsADirectoryError, F)
                    else if children F d \<noteq> [] then (Err (OSError ''Directory not empty''), F)
                    else (Ok (), move_tree F s d)
                | Some _ \<Rightarrow>
                    if is_dirnode n then (Err (OSError ''Not a directory''), F)
                    else (Ok (), move_tree F s d)
                | None \<Rightarrow> (Ok (), move_tree F s d))))"

text \<open>\<open>shutil.copy2\<close> onto a file name.\<close>

definition copy_file :: "path \<Rightarrow> path \<Rightarrow> unit io" where
  "copy_file p q F =
     (case lookup F True p of
        Err e \<Rightarrow> (Err e, F)
      | Ok (l, Reg c m) \<Rightarrow>
          (case write_content q c F of
             (Err e, F') \<Rightarrow> (Err e, F')
           | (Ok _, F') \<Rightarrow> chmod q m F')
      | Ok (l, _) \<Rightarrow> (Err IsADirectoryError, F))"

definition symlink_to :: "path \<Rightarrow> string \<Rightarrow> unit io" where
  "symlink_to p t F =
     (case locate F False p of
        Err e \<Rightarrow> (Err e, F)
      | Ok l \<Rightarrow> (if node_at F l \<noteq> None then (Err (OSError ''File exists''), F)
                 else change l (\<lambda>F. put_node F l (Lnk t)) F))"

definition touch :: "path \<Rightarrow> unit io" where
  "touch p F =
     (case locate F True p of
        Err e \<Rightarrow> (Err e, F)
      | Ok l \<Rightarrow> (case node_at F l of
            Some n \<Rightarrow> change l (\<lambda>F. F) F
          | None \<Rightarrow> change l (\<lambda>F. put_node F l (Reg (Text '''') 420)) F))"

text \<open>\<open>sorted(p.iterdir())\<close>, as names.\<close>

definition iterdir :: "path \<Rightarrow> string list io" where
  "iterdir p F =
     (case lookup F True p of
        Err e \<Rightarrow> (Err e, F)
      | Ok (l, Dir m) \<Rightarrow> (Ok (sort (children F l)), F)
      | Ok (l, _) \<Rightarrow> (Err (OSError ''Not a directory''), F))"

text \<open>A line of progress.\<close>

definition emit :: "string \<Rightarrow> unit io" where
  "emit s F = (Ok (), F\<lparr>fs_log := fs_log F @ [s]\<rparr>)"

lemma node_at_log [simp]: "node_at (fs_log_update g F) l = node_at F l"
  and node_at_serial [simp]: "node_at (fs_serial_update h F) l = node_at F l"
  by (simp_all add: node_at_def)

section \<open>Which exceptions\<close>

definition raises_only :: "(exn \<Rightarrow> bool) \<Rightarrow> 'a io \<Rightarrow> bool" where
  "raises_only P m \<longleftrightarrow> (\<forall>F e. fst (m F) = Err e \<longrightarrow> P e)"

named_theorems raises_intros \<open>rules for the exceptions an operation can raise\<close>

lemma raises_ret [raises_intros]: "raises_only P (ret x)"
  and raises_raise [raises_intros]: "P e \<Longrightarrow> raises_only P (raise e)"
  and raises_ask [raises_intros]: "raises_only P (ask q)"
  by (simp_all add: raises_only_def)

lemma raises_Pair [simp, raises_intros]: "raises_only P (Pair (Ok x))"
  by (simp add: raises_only_def)

lemma raises_bind [raises_intros]:
  "raises_only P m \<Longrightarrow> (\<And>x. raises_only P (f x)) \<Longrightarrow> raises_only P (bind_io m f)"
  unfolding raises_only_def bind_io_def
  by (auto split: prod.splits sum.splits) (metis fst_conv)+

lemma raises_seq [raises_intros]: "raises_only P m \<Longrightarrow> raises_only P k \<Longrightarrow> raises_only P (seq_io m k)"
  by (simp add: seq_io_def raises_bind)

lemma raises_try_os:
  "raises_only (\<lambda>e. is_oserror e \<or> P e) m \<Longrightarrow> (\<And>e. P e \<Longrightarrow> \<not> is_oserror e) \<Longrightarrow> raises_only P (try_os m x)"
  unfolding raises_only_def try_os_def try_io_def
  by (auto split: prod.splits sum.splits if_splits) (metis fst_conv)+

lemma raises_try_os_none [raises_intros]: "raises_only is_oserror m \<Longrightarrow> raises_only P (try_os m x)"
  unfolding raises_only_def try_os_def try_io_def
  by (auto split: prod.splits sum.splits if_splits) (metis fst_conv)+

lemma raises_mono: "raises_only P m \<Longrightarrow> (\<And>e. P e \<Longrightarrow> Q e) \<Longrightarrow> raises_only Q m"
  by (auto simp: raises_only_def)

lemma walk_oserror: "walk F n follow cur ws = Err e \<Longrightarrow> is_oserror e"
  by (induction F n follow cur ws rule: walk.induct)
    (auto split: if_splits option.splits node.splits nat.splits)

lemma locate_oserror: "locate F follow p = Err e \<Longrightarrow> is_oserror e"
  by (simp add: locate_def walk_oserror)

lemma lookup_oserror: "lookup F follow p = Err e \<Longrightarrow> is_oserror e"
  by (auto simp: lookup_def split: sum.splits option.splits dest: locate_oserror)

lemma change_oserror: "fst (change l g F) = Err e \<Longrightarrow> is_oserror e"
  by (auto simp: change_def split: if_splits)

lemmas os_errors = locate_oserror lookup_oserror change_oserror

lemma raises_write_content [raises_intros]: "raises_only is_oserror (write_content p c)"
  by (auto simp: raises_only_def write_content_def split: sum.splits option.splits node.splits dest: os_errors)

lemma raises_emit [raises_intros]: "raises_only P (emit s)"
  by (simp add: raises_only_def emit_def)

lemma raises_write_text [raises_intros]: "raises_only is_oserror (write_text p s)"
  by (simp add: write_text_def raises_intros)

lemma raises_chmod [raises_intros]: "raises_only is_oserror (chmod p m)"
  by (auto simp: raises_only_def chmod_def split: sum.splits dest: os_errors)

lemma raises_os_mkdir [raises_intros]: "raises_only is_oserror (os_mkdir p)"
  by (auto simp: raises_only_def os_mkdir_def split: sum.splits if_splits dest: os_errors)

lemma os_mkdir_err: "os_mkdir p F = (Err e, F') \<Longrightarrow> is_oserror e"
  using raises_os_mkdir [of p] by (auto simp: raises_only_def) (metis fst_conv)

lemma mkdir_parents_err: "mkdir_parents p F = (Err e, F') \<Longrightarrow> is_oserror e"
proof (induction p F arbitrary: e F' rule: mkdir_parents.induct)
  case (1 p F)
  show ?case
  proof (cases "os_mkdir p F")
    case (Pair r F1)
    show ?thesis
    proof (cases r)
      case (Inr x)
      with Pair "1.prems" show ?thesis by (simp add: mkdir_parents.simps [of p])
    next
      case (Inl e1)
      show ?thesis
      proof (cases "e1 = FileNotFoundError \<and> p_names p \<noteq> []")
        case False
        with Pair Inl "1.prems" os_mkdir_err [of p F e1 F1] show ?thesis
          by (subst (asm) mkdir_parents.simps) (auto split: exn.splits if_splits)
      next
        case True
        with Pair Inl "1.prems" "1.IH" show ?thesis
          by (subst (asm) mkdir_parents.simps)
            (auto split: prod.splits sum.splits if_splits dest: os_mkdir_err)
      qed
    qed
  qed
qed

lemma raises_mkdir_parents [raises_intros]: "raises_only is_oserror (mkdir_parents p)"
proof -
  have "is_oserror e" if "fst (mkdir_parents p F) = Err e" for F e
    using mkdir_parents_err [of p F e "snd (mkdir_parents p F)"] that by (metis prod.collapse)
  then show ?thesis by (simp add: raises_only_def)
qed

lemma raises_unlink [raises_intros]: "raises_only is_oserror (unlink p)"
  by (auto simp: raises_only_def unlink_def split: sum.splits node.splits dest: os_errors)

lemma raises_unlink_missing_ok [raises_intros]: "raises_only is_oserror (unlink_missing_ok p)"
  using raises_unlink [of p]
  unfolding raises_only_def unlink_missing_ok_def try_io_def
  by (auto split: prod.splits sum.splits if_splits) (metis fst_conv)+

lemma raises_touch [raises_intros]: "raises_only is_oserror (touch p)"
  by (auto simp: raises_only_def touch_def split: sum.splits option.splits dest: os_errors)

lemma raises_rmdir [raises_intros]: "raises_only is_oserror (rmdir p)"
  by (auto simp: raises_only_def rmdir_def split: sum.splits node.splits if_splits dest: os_errors)

lemma raises_os_replace [raises_intros]: "raises_only is_oserror (os_replace p q)"
  by (auto simp: raises_only_def os_replace_def split: sum.splits option.splits node.splits if_splits dest: os_errors)

lemma raises_iterdir [raises_intros]: "raises_only is_oserror (iterdir p)"
  by (auto simp: raises_only_def iterdir_def split: sum.splits node.splits dest: os_errors)

lemma raises_read_text: "raises_only (\<lambda>e. is_oserror e \<or> e = ValueError ''invalid utf-8'') (read_text p)"
  by (auto simp: raises_only_def read_text_def split: sum.splits node.splits content.splits dest: os_errors)

lemma raises_rmtree_ignore [raises_intros]: "raises_only P (rmtree_ignore p)"
  by (auto simp: raises_only_def rmtree_ignore_def split: sum.splits node.splits)

section \<open>Resolution is stable under writing files\<close>

text \<open>
  \<open>grown F F'\<close>: every directory and link of \<open>F\<close> is still there and every file is still a file,
  which holds after any number of file writes, mode changes of files and new entries.
\<close>

definition grown :: "fsys \<Rightarrow> fsys \<Rightarrow> bool" where
  "grown F F' \<longleftrightarrow> (\<forall>l n. node_at F l = Some n \<longrightarrow>
     (if is_reg n then (\<exists>n'. node_at F' l = Some n' \<and> is_reg n') else node_at F' l = Some n))"

lemma grown_refl [simp]: "grown F F"
  by (auto simp: grown_def)

lemma grown_trans: "grown F G \<Longrightarrow> grown G H \<Longrightarrow> grown F H"
  unfolding grown_def by (metis (full_types))

lemma grown_refl_trans [simp]: "reflp grown" "transp grown"
  by (auto simp: reflp_def transp_def intro: grown_trans)

lemma grown_put:
  "node_at F l = None \<or> (\<exists>n0. node_at F l = Some n0 \<and> is_reg n0 \<and> is_reg n) \<Longrightarrow> grown F (put_node F l n)"
  by (auto simp: grown_def)

lemma walk_grown:
  "grown F F' \<Longrightarrow> walk F n follow cur ws = Ok l \<Longrightarrow>
     (\<And>t. node_at F l = None \<Longrightarrow> node_at F' l \<noteq> Some (Lnk t)) \<Longrightarrow> walk F' n follow cur ws = Ok l"
proof (induction F n follow cur ws rule: walk.induct)
  case (1 F n follow cur)
  then show ?case by simp
next
  case (2 F n follow cur w ws)
  show ?case
  proof (cases "w = ''..''")
    case True
    with 2 show ?thesis by simp
  next
    case False
    show ?thesis
    proof (cases "node_at F (cur @ [w])")
      case None
      with "2.prems"(2) False have l: "l = cur @ [w]" "ws = []" by (simp_all split: if_splits)
      with "2.prems"(3) None have "node_at F' (cur @ [w]) \<noteq> Some (Lnk t)" for t by simp
      with l False show ?thesis by (auto split: option.splits node.splits)
    next
      case (Some nd)
      with "2.prems"(1) have g: "if is_reg nd then (\<exists>n'. node_at F' (cur @ [w]) = Some n' \<and> is_reg n')
          else node_at F' (cur @ [w]) = Some nd" by (auto simp: grown_def)
      show ?thesis
      proof (cases nd)
        case (Reg c m)
        with g obtain c' m' where "node_at F' (cur @ [w]) = Some (Reg c' m')" by (auto simp: is_reg_iff)
        with "2.prems" False Some Reg show ?thesis by (auto split: if_splits)
      next
        case (Dir m)
        with g have "node_at F' (cur @ [w]) = Some (Dir m)" by simp
        with "2.prems" False Some Dir "2.IH"(2) show ?thesis by simp
      next
        case (Lnk t)
        with g have "node_at F' (cur @ [w]) = Some (Lnk t)" by simp
        with "2.prems" False Some Lnk "2.IH"(3) show ?thesis by (auto split: if_splits nat.splits)
      qed
    qed
  qed
qed

lemma locate_grown:
  "grown F F' \<Longrightarrow> locate F follow p = Ok l \<Longrightarrow> node_at F l = Some n \<Longrightarrow> locate F' follow p = Ok l"
  unfolding locate_def by (rule walk_grown) auto

lemma lookup_grown:
  assumes "grown F F'" "lookup F follow p = Ok (l, n)"
  shows "\<exists>n'. lookup F' follow p = Ok (l, n') \<and> (if is_reg n then is_reg n' else n' = n)"
proof -
  from assms(2) have l: "locate F follow p = Ok l" "node_at F l = Some n"
    by (auto simp: lookup_def split: sum.splits option.splits)
  moreover from assms(1) l(2) obtain n' where "node_at F' l = Some n'" "if is_reg n then is_reg n' else n' = n"
    unfolding grown_def by (metis (full_types))
  ultimately show ?thesis using locate_grown [OF assms(1)] by (auto simp: lookup_def)
qed

text \<open>What a successful write and mode change leave behind.\<close>

lemma write_content_Ok:
  assumes "write_content p c F = (Ok x, F')"
  shows "\<exists>l m. lookup F' True p = Ok (l, Reg c m) \<and> F' = put_node F l (Reg c m) \<and> grown F F'"
proof -
  from assms obtain l where l: "locate F True p = Ok l"
    by (auto simp: write_content_def split: sum.splits)
  show ?thesis
  proof (cases "node_at F l")
    case None
    with assms l have F': "F' = put_node F l (Reg c 420)"
      by (auto simp: write_content_def change_def split: if_splits)
    have "l \<noteq> []" using None by auto
    then have g: "grown F F'" "node_at F' l = Some (Reg c 420)" using None F' by (simp_all add: grown_put)
    moreover have "locate F' True p = Ok l"
      using walk_grown [OF g(1)] l g(2) by (auto simp: locate_def)
    ultimately show ?thesis using F' by (auto simp: lookup_def)
  next
    case (Some n)
    with assms l obtain c0 m where n: "n = Reg c0 m" and F': "F' = put_node F l (Reg c m)"
      by (auto simp: write_content_def change_def split: node.splits if_splits)
    from Some n have "l \<noteq> []" by auto
    then have g: "grown F F'" "node_at F' l = Some (Reg c m)" using Some n F' by (simp_all add: grown_put)
    moreover have "locate F' True p = Ok l"
      using locate_grown [OF g(1) l Some] .
    ultimately show ?thesis using F' by (auto simp: lookup_def)
  qed
qed

end
