(* ===== verification/Crypto.thy ===== *)
theory Crypto
  imports PyText
begin

text \<open>
  The parts of Python's \<open>hashlib\<close>, \<open>hmac\<close> and \<open>bytes\<close> the runtime calls: SHA-256 (FIPS 180-4),
  HMAC-SHA256 (RFC 2104), PBKDF2 with it (RFC 8018), and hexadecimal text.  The definitions
  compute; the components need of them only the digest lengths and that hex text reads back.
\<close>

section \<open>SHA-256\<close>

type_synonym word32 = "32 word"

definition sha_K :: "word32 list" where
  "sha_K =
    [0x428A2F98, 0x71374491, 0xB5C0FBCF, 0xE9B5DBA5, 0x3956C25B, 0x59F111F1, 0x923F82A4, 0xAB1C5ED5,
     0xD807AA98, 0x12835B01, 0x243185BE, 0x550C7DC3, 0x72BE5D74, 0x80DEB1FE, 0x9BDC06A7, 0xC19BF174,
     0xE49B69C1, 0xEFBE4786, 0x0FC19DC6, 0x240CA1CC, 0x2DE92C6F, 0x4A7484AA, 0x5CB0A9DC, 0x76F988DA,
     0x983E5152, 0xA831C66D, 0xB00327C8, 0xBF597FC7, 0xC6E00BF3, 0xD5A79147, 0x06CA6351, 0x14292967,
     0x27B70A85, 0x2E1B2138, 0x4D2C6DFC, 0x53380D13, 0x650A7354, 0x766A0ABB, 0x81C2C92E, 0x92722C85,
     0xA2BFE8A1, 0xA81A664B, 0xC24B8B70, 0xC76C51A3, 0xD192E819, 0xD6990624, 0xF40E3585, 0x106AA070,
     0x19A4C116, 0x1E376C08, 0x2748774C, 0x34B0BCB5, 0x391C0CB3, 0x4ED8AA4A, 0x5B9CCA4F, 0x682E6FF3,
     0x748F82EE, 0x78A5636F, 0x84C87814, 0x8CC70208, 0x90BEFFFA, 0xA4506CEB, 0xBEF9A3F7, 0xC67178F2]"

definition sha_H0 :: "word32 list" where
  "sha_H0 =
    [0x6A09E667, 0xBB67AE85, 0x3C6EF372, 0xA54FF53A, 0x510E527F, 0x9B05688C, 0x1F83D9AB, 0x5BE0CD19]"

definition rotr :: "nat \<Rightarrow> word32 \<Rightarrow> word32" where
  "rotr n w = drop_bit n w OR push_bit (32 - n) w"

definition word_of_bytes :: "bytes \<Rightarrow> word32" where
  "word_of_bytes bs = of_nat (from_big bs)"

definition bytes_of_word :: "word32 \<Rightarrow> bytes" where
  "bytes_of_word w = be_bytes 4 (unat w)"

function chunks_of :: "nat \<Rightarrow> 'a list \<Rightarrow> 'a list list" where
  "chunks_of n xs = (if xs = [] then [] else if n = 0 then [xs] else take n xs # chunks_of n (drop n xs))"
  by pat_completeness auto
termination by (relation "measure (\<lambda>(n, xs). length xs)") auto

declare chunks_of.simps [simp del]

definition sha_pad :: "bytes \<Rightarrow> bytes" where
  "sha_pad m = m @ [0x80] @ replicate ((119 - length m mod 64) mod 64) 0 @ be_bytes 8 (8 * length m)"

fun extend_schedule :: "nat \<Rightarrow> word32 list \<Rightarrow> word32 list" where
  "extend_schedule 0 w = w"
| "extend_schedule (Suc n) w =
     (let i = length w; a = w ! (i - 15); c = w ! (i - 2);
          s0 = rotr 7 a XOR rotr 18 a XOR drop_bit 3 a;
          s1 = rotr 17 c XOR rotr 19 c XOR drop_bit 10 c
      in extend_schedule n (w @ [w ! (i - 16) + s0 + w ! (i - 7) + s1]))"

definition sha_round :: "word32 list \<Rightarrow> word32 \<times> word32 \<Rightarrow> word32 list" where
  "sha_round s kw =
     (let a = s ! 0; b = s ! 1; c = s ! 2; d = s ! 3; e = s ! 4; f = s ! 5; g = s ! 6; h = s ! 7;
          S1 = rotr 6 e XOR rotr 11 e XOR rotr 25 e;
          ch = (e AND f) XOR (NOT e AND g);
          t1 = h + S1 + ch + fst kw + snd kw;
          S0 = rotr 2 a XOR rotr 13 a XOR rotr 22 a;
          maj = (a AND b) XOR (a AND c) XOR (b AND c)
      in [t1 + (S0 + maj), a, b, c, d + t1, e, f, g])"

definition sha_block :: "word32 list \<Rightarrow> bytes \<Rightarrow> word32 list" where
  "sha_block s blk =
     (let w = extend_schedule 48 (map word_of_bytes (chunks_of 4 blk))
      in map (\<lambda>(x, y). x + y) (zip s (foldl sha_round s (zip sha_K w))))"

definition sha256 :: "bytes \<Rightarrow> bytes" where
  "sha256 m = concat (map bytes_of_word (foldl sha_block sha_H0 (chunks_of 64 (sha_pad m))))"

section \<open>HMAC and PBKDF2\<close>

definition hmac_key :: "bytes \<Rightarrow> bytes" where
  "hmac_key k = (let k' = (if length k > 64 then sha256 k else k) in k' @ replicate (64 - length k') 0)"

definition hmac_sha256 :: "bytes \<Rightarrow> bytes \<Rightarrow> bytes" where
  "hmac_sha256 k m =
     (let k' = hmac_key k
      in sha256 (map (\<lambda>x. x XOR 0x5C) k' @ sha256 (map (\<lambda>x. x XOR 0x36) k' @ m)))"

definition xor_bytes :: "bytes \<Rightarrow> bytes \<Rightarrow> bytes" where
  "xor_bytes xs ys = map (\<lambda>(x, y). x XOR y) (zip xs ys)"

fun pbkdf2_iter :: "nat \<Rightarrow> bytes \<Rightarrow> bytes \<Rightarrow> bytes \<Rightarrow> bytes" where
  "pbkdf2_iter 0 key uu acc = acc"
| "pbkdf2_iter (Suc n) key uu acc =
     (let u' = hmac_sha256 key uu in pbkdf2_iter n key u' (xor_bytes acc u'))"

definition pbkdf2_block :: "bytes \<Rightarrow> bytes \<Rightarrow> nat \<Rightarrow> nat \<Rightarrow> bytes" where
  "pbkdf2_block key salt rounds i =
     (let u1 = hmac_sha256 key (salt @ be_bytes 4 i) in pbkdf2_iter (rounds - 1) key u1 u1)"

text \<open>\<open>hashlib.pbkdf2_hmac("sha256", key, salt, rounds, dklen=64)\<close>.\<close>

definition pbkdf2_64 :: "bytes \<Rightarrow> bytes \<Rightarrow> nat \<Rightarrow> bytes" where
  "pbkdf2_64 key salt rounds = pbkdf2_block key salt rounds 1 @ pbkdf2_block key salt rounds 2"

section \<open>Lengths\<close>

lemma length_sha_round [simp]: "length (sha_round s kw) = 8"
  by (simp add: sha_round_def Let_def)

lemma length_foldl_round: "length s = 8 \<Longrightarrow> length (foldl sha_round s kws) = 8"
  by (induction kws arbitrary: s) auto

lemma length_sha_block: "length s = 8 \<Longrightarrow> length (sha_block s blk) = 8"
  by (simp add: sha_block_def length_foldl_round Let_def)

lemma length_foldl_block: "length s = 8 \<Longrightarrow> length (foldl sha_block s bs) = 8"
  by (induction bs arbitrary: s) (auto simp: length_sha_block)

lemma length_words: "length (concat (map bytes_of_word ws)) = 4 * length ws"
  by (induction ws) (auto simp: bytes_of_word_def)

lemma length_sha256 [simp]: "length (sha256 m) = 32"
proof -
  have "length sha_H0 = 8" by (simp add: sha_H0_def)
  then show ?thesis by (simp add: sha256_def length_words length_foldl_block)
qed

lemma length_hmac [simp]: "length (hmac_sha256 k m) = 32"
  by (simp add: hmac_sha256_def Let_def)

lemma length_xor_bytes [simp]: "length (xor_bytes xs ys) = min (length xs) (length ys)"
  by (simp add: xor_bytes_def)

lemma length_pbkdf2_iter: "length acc = 32 \<Longrightarrow> length (pbkdf2_iter n key uu acc) = 32"
  by (induction n arbitrary: uu acc) (auto simp: Let_def)

lemma length_pbkdf2_64 [simp]: "length (pbkdf2_64 key salt rounds) = 64"
  by (simp add: pbkdf2_64_def pbkdf2_block_def Let_def length_pbkdf2_iter)

lemma xor_bytes_twice: "length ks = length xs \<Longrightarrow> xor_bytes (xor_bytes xs ks) ks = xs"
proof (induction xs arbitrary: ks)
  case (Cons x xs)
  then show ?case by (cases ks) (auto simp: xor_bytes_def xor.assoc)
qed (simp add: xor_bytes_def)

section \<open>Hexadecimal text\<close>

definition hex_digit :: "nat \<Rightarrow> char" where
  "hex_digit n = (if n < 10 then char_of (48 + n) else char_of (87 + n))"

definition to_hex :: "bytes \<Rightarrow> string" where
  "to_hex bs = concat (map (\<lambda>x. [hex_digit (unat x div 16), hex_digit (unat x mod 16)]) bs)"

definition hex_value :: "char \<Rightarrow> nat option" where
  "hex_value c = (let n = of_char c :: nat in
     if 48 \<le> n \<and> n \<le> 57 then Some (n - 48)
     else if 97 \<le> n \<and> n \<le> 102 then Some (n - 87)
     else if 65 \<le> n \<and> n \<le> 70 then Some (n - 55) else None)"

definition hex_space :: "char \<Rightarrow> bool" where
  "hex_space c = (let n = of_char c :: nat in n = 32 \<or> (9 \<le> n \<and> n \<le> 13))"

text \<open>\<open>bytes.fromhex\<close>: pairs of digits, with ASCII white space between pairs.\<close>

fun from_hex :: "string \<Rightarrow> bytes option" where
  "from_hex [] = Some []"
| "from_hex [c] = (if hex_space c then Some [] else None)"
| "from_hex (c # d # cs) =
     (if hex_space c then from_hex (d # cs)
      else case (hex_value c, hex_value d) of
        (Some x, Some y) \<Rightarrow> map_option (Cons (of_nat (16 * x + y))) (from_hex cs)
      | _ \<Rightarrow> None)"

lemma hex_value_digit: "n < 16 \<Longrightarrow> hex_value (hex_digit n) = Some n \<and> \<not> hex_space (hex_digit n)"
  by (auto simp: hex_value_def hex_digit_def hex_space_def Let_def)

lemma from_to_hex [simp]: "from_hex (to_hex bs) = Some bs"
proof (induction bs)
  case (Cons x bs)
  have "16 * (unat x div 16) + unat x mod 16 = unat x" by simp
  moreover have "unat x div 16 < 16" using unat_byte_less [of x] by (simp add: less_mult_imp_div_less)
  ultimately show ?case
    using Cons hex_value_digit [of "unat x div 16"] hex_value_digit [of "unat x mod 16"]
    by (simp add: to_hex_def)
qed (simp add: to_hex_def)

lemma length_to_hex [simp]: "length (to_hex bs) = 2 * length bs"
  by (induction bs) (auto simp: to_hex_def)

end
