(* ===== verification/Json.thy ===== *)
theory Json
  imports PathLib
begin

text \<open>
  Python's \<open>json\<close> module on the values the runtime exchanges: \<open>dumps\<close> with given separators
  (ASCII only, as by default) and \<open>loads\<close>, over a datatype of JSON values whose objects are
  insertion-ordered dictionaries; \<open>loads\<close> reads back what \<open>dumps\<close> wrote.  Numbers that are no
  integers are kept as their text; the non-standard \<open>NaN\<close> and \<open>Infinity\<close> are not read.
\<close>

section \<open>Values\<close>

datatype pyval =
    PNone | PBool bool | PInt int | PFloat string | PStr string
  | PList "pyval list" | PDict "(string \<times> pyval) list"

fun dict_put :: "'k \<Rightarrow> 'v \<Rightarrow> ('k \<times> 'v) list \<Rightarrow> ('k \<times> 'v) list" where
  "dict_put k v [] = [(k, v)]"
| "dict_put k v ((k', v') # d) = (if k' = k then (k, v) # d else (k', v') # dict_put k v d)"

definition dict_of :: "('k \<times> 'v) list \<Rightarrow> ('k \<times> 'v) list" where
  "dict_of kvs = foldl (\<lambda>d (k, v). dict_put k v d) [] kvs"

definition dict_del :: "'k \<Rightarrow> ('k \<times> 'v) list \<Rightarrow> ('k \<times> 'v) list" where
  "dict_del k d = filter (\<lambda>e. fst e \<noteq> k) d"

lemma map_of_dict_put [simp]: "map_of (dict_put k v d) = (map_of d)(k \<mapsto> v)"
  by (induction k v d rule: dict_put.induct) (auto simp: fun_eq_iff)

lemma map_of_dict_del [simp]: "map_of (dict_del k d) j = (if j = k then None else map_of d j)"
  unfolding dict_del_def by (induction d) auto

lemma keys_dict_put: "map fst (dict_put k v d) = (if k \<in> set (map fst d) then map fst d else map fst d @ [k])"
  by (induction k v d rule: dict_put.induct) auto

lemma dict_put_new: "k \<notin> set (map fst d) \<Longrightarrow> dict_put k v d = d @ [(k, v)]"
  by (induction k v d rule: dict_put.induct) auto

lemma dict_of_distinct_gen:
  "distinct (map fst (acc @ kvs)) \<Longrightarrow> foldl (\<lambda>d (k, v). dict_put k v d) acc kvs = acc @ kvs"
proof (induction kvs arbitrary: acc)
  case (Cons kv kvs)
  obtain k v where kv: "kv = (k, v)" by (cases kv)
  with Cons.prems have "dict_put k v acc = acc @ [(k, v)]" by (intro dict_put_new) auto
  with Cons.IH [of "acc @ [kv]"] Cons.prems kv show ?case by simp
qed simp

lemma dict_of_distinct: "distinct (map fst kvs) \<Longrightarrow> dict_of kvs = kvs"
  using dict_of_distinct_gen [of "[]" kvs] by (simp add: dict_of_def)

text \<open>Truth value, as in \<open>if x:\<close>.\<close>

fun truthy :: "pyval \<Rightarrow> bool" where
  "truthy PNone = False"
| "truthy (PBool x) = x"
| "truthy (PInt i) = (i \<noteq> 0)"
| "truthy (PFloat s) = True"
| "truthy (PStr s) = (s \<noteq> '''')"
| "truthy (PList xs) = (xs \<noteq> [])"
| "truthy (PDict d) = (d \<noteq> [])"

section \<open>Printing\<close>

abbreviation (input) JQ :: char where "JQ \<equiv> CHR 0x22"
abbreviation (input) JB :: char where "JB \<equiv> CHR 0x5C"

definition hexd :: "nat \<Rightarrow> char" where
  "hexd n = (if n < 10 then char_of (48 + n) else char_of (87 + n))"

definition json_escape :: "char \<Rightarrow> string" where
  "json_escape c =
     (let n = of_char c :: nat in
      if c = JQ then [JB, JQ] else if c = JB then [JB, JB]
      else if n = 10 then [JB, CHR ''n''] else if n = 13 then [JB, CHR ''r'']
      else if n = 9 then [JB, CHR ''t''] else if n = 12 then [JB, CHR ''f'']
      else if n = 8 then [JB, CHR ''b'']
      else if 32 \<le> n \<and> n < 127 then [c]
      else [JB, CHR ''u'', CHR ''0'', CHR ''0'', hexd (n div 16), hexd (n mod 16)])"

definition json_str :: "string \<Rightarrow> string" where
  "json_str s = JQ # concat (map json_escape s) @ [JQ]"

fun json_print :: "string \<Rightarrow> string \<Rightarrow> pyval \<Rightarrow> string" where
  "json_print i k PNone = ''null''"
| "json_print i k (PBool x) = (if x then ''true'' else ''false'')"
| "json_print i k (PInt n) = int_str n"
| "json_print i k (PFloat s) = s"
| "json_print i k (PStr s) = json_str s"
| "json_print i k (PList vs) = ''['' @ join_with i (map (json_print i k) vs) @ '']''"
| "json_print i k (PDict d) =
     ''{'' @ join_with i (map (\<lambda>(n, v). json_str n @ k @ json_print i k v) d) @ ''}''"

definition json_dumps :: "pyval \<Rightarrow> string" where
  "json_dumps v = json_print '', '' '': '' v"

definition json_dumps_compact :: "pyval \<Rightarrow> string" where
  "json_dumps_compact v = json_print '','' '':'' v"

section \<open>Parsing\<close>

definition json_ws :: "char \<Rightarrow> bool" where
  "json_ws c \<longleftrightarrow> c = CHR '' '' \<or> c = CHR 0x09 \<or> c = CHR 0x0A \<or> c = CHR 0x0D"

definition skip_ws :: "string \<Rightarrow> string" where
  "skip_ws s = dropWhile json_ws s"

definition hexv :: "char \<Rightarrow> nat option" where
  "hexv c = (let n = of_char c :: nat in
     if 48 \<le> n \<and> n \<le> 57 then Some (n - 48)
     else if 97 \<le> n \<and> n \<le> 102 then Some (n - 87)
     else if 65 \<le> n \<and> n \<le> 70 then Some (n - 55) else None)"

definition simple_escape :: "char \<Rightarrow> char option" where
  "simple_escape c =
     (if c = JQ then Some JQ else if c = JB then Some JB else if c = CHR ''/'' then Some (CHR ''/'')
      else if c = CHR ''n'' then Some (CHR 0x0A) else if c = CHR ''r'' then Some (CHR 0x0D)
      else if c = CHR ''t'' then Some (CHR 0x09) else if c = CHR ''f'' then Some (CHR 0x0C)
      else if c = CHR ''b'' then Some (CHR 0x08) else None)"

text \<open>The body of a string literal; a raw control character is an error, as in strict mode, and so is
  an escape beyond the characters the text type holds.\<close>

fun jstring :: "string \<Rightarrow> (string \<times> string) option" where
  "jstring [] = None"
| "jstring (c # cs) =
     (if c = JQ then Some ([], cs)
      else if c = JB then
        (case cs of
           [] \<Rightarrow> None
         | e # r \<Rightarrow>
             if e = CHR ''u'' then
               (case r of
                  h1 # h2 # h3 # h4 # r' \<Rightarrow>
                    (case (hexv h1, hexv h2, hexv h3, hexv h4) of
                       (Some x1, Some x2, Some x3, Some x4) \<Rightarrow>
                         if x1 = 0 \<and> x2 = 0
                         then map_option (\<lambda>(t, q). (char_of (16 * x3 + x4) # t, q)) (jstring r') else None
                     | _ \<Rightarrow> None)
                | _ \<Rightarrow> None)
             else (case simple_escape e of None \<Rightarrow> None
                   | Some x \<Rightarrow> map_option (\<lambda>(t, q). (x # t, q)) (jstring r)))
      else if (of_char c :: nat) < 32 then None
      else map_option (\<lambda>(t, q). (c # t, q)) (jstring cs))"

definition is_digit :: "char \<Rightarrow> bool" where
  "is_digit c = (let n = of_char c :: nat in 48 \<le> n \<and> n \<le> 57)"

definition jdigits :: "string \<Rightarrow> (string \<times> string) option" where
  "jdigits s = (let ds = takeWhile is_digit s in if ds = [] then None else Some (ds, dropWhile is_digit s))"

text \<open>The integer part, then an optional fraction and exponent, which make it a float.\<close>

definition jnat :: "string \<Rightarrow> (string \<times> string) option" where
  "jnat s = (case s of c # cs \<Rightarrow> if c = CHR ''0'' then Some (''0'', cs) else jdigits s | [] \<Rightarrow> None)"

definition jfrac :: "string \<Rightarrow> string \<times> string" where
  "jfrac s = (case s of c # cs \<Rightarrow>
       if c = CHR ''.'' then (case jdigits cs of Some (d, r) \<Rightarrow> (c # d, r) | None \<Rightarrow> ('''', s)) else ('''', s)
     | [] \<Rightarrow> ('''', s))"

definition jexp :: "string \<Rightarrow> string \<times> string" where
  "jexp s = (case s of c # cs \<Rightarrow>
       if c = CHR ''e'' \<or> c = CHR ''E'' then
         (case cs of
            g # r \<Rightarrow> if g = CHR ''+'' \<or> g = CHR ''-''
                     then (case jdigits r of Some (d, q) \<Rightarrow> (c # g # d, q) | None \<Rightarrow> ('''', s))
                     else (case jdigits cs of Some (d, q) \<Rightarrow> (c # d, q) | None \<Rightarrow> ('''', s))
          | [] \<Rightarrow> ('''', s))
       else ('''', s)
     | [] \<Rightarrow> ('''', s))"

definition jnumber :: "string \<Rightarrow> (pyval \<times> string) option" where
  "jnumber s =
     (let neg = (s \<noteq> [] \<and> hd s = CHR ''-'')
      in case jnat (if neg then tl s else s) of None \<Rightarrow> None
         | Some (ds, r) \<Rightarrow>
             (case jfrac r of (fr, r1) \<Rightarrow> case jexp r1 of (ex, r2) \<Rightarrow>
                if fr = '''' \<and> ex = ''''
                then Some (PInt (if neg then - int (digits_value ds) else int (digits_value ds)), r2)
                else Some (PFloat ((if neg then ''-'' else '''') @ ds @ fr @ ex), r2)))"

fun jvalue :: "nat \<Rightarrow> string \<Rightarrow> (pyval \<times> string) option"
and jelems :: "nat \<Rightarrow> string \<Rightarrow> (pyval list \<times> string) option"
and jmembers :: "nat \<Rightarrow> string \<Rightarrow> ((string \<times> pyval) list \<times> string) option" where
  "jvalue 0 s = None"
| "jvalue (Suc n) s =
     (case skip_ws s of
        [] \<Rightarrow> None
      | c # cs \<Rightarrow>
          if c = JQ then map_option (\<lambda>(t, r). (PStr t, r)) (jstring cs)
          else if c = CHR ''['' then
            (if startswith (skip_ws cs) '']'' then Some (PList [], tl (skip_ws cs))
             else map_option (\<lambda>(vs, r). (PList vs, r)) (jelems n cs))
          else if c = CHR ''{'' then
            (if startswith (skip_ws cs) ''}'' then Some (PDict [], tl (skip_ws cs))
             else map_option (\<lambda>(kvs, r). (PDict (dict_of kvs), r)) (jmembers n cs))
          else if startswith (c # cs) ''null'' then Some (PNone, drop 4 (c # cs))
          else if startswith (c # cs) ''true'' then Some (PBool True, drop 4 (c # cs))
          else if startswith (c # cs) ''false'' then Some (PBool False, drop 5 (c # cs))
          else jnumber (c # cs))"
| "jelems 0 s = None"
| "jelems (Suc n) s =
     (case jvalue n s of None \<Rightarrow> None
      | Some (v, r) \<Rightarrow>
          (case skip_ws r of
             [] \<Rightarrow> None
           | c # cs \<Rightarrow> if c = CHR '','' then map_option (\<lambda>(vs, q). (v # vs, q)) (jelems n cs)
                       else if c = CHR '']'' then Some ([v], cs) else None))"
| "jmembers 0 s = None"
| "jmembers (Suc n) s =
     (case skip_ws s of
        [] \<Rightarrow> None
      | c # cs \<Rightarrow> if c \<noteq> JQ then None
         else (case jstring cs of None \<Rightarrow> None
           | Some (k, r) \<Rightarrow>
              (case skip_ws r of
                 [] \<Rightarrow> None
               | c1 # cs1 \<Rightarrow> if c1 \<noteq> CHR '':'' then None
                  else (case jvalue n cs1 of None \<Rightarrow> None
                    | Some (v, r1) \<Rightarrow>
                       (case skip_ws r1 of
                          [] \<Rightarrow> None
                        | c2 # cs2 \<Rightarrow>
                            if c2 = CHR '','' then map_option (\<lambda>(kvs, q). ((k, v) # kvs, q)) (jmembers n cs2)
                            else if c2 = CHR ''}'' then Some ([(k, v)], cs2) else None)))))"

definition json_loads :: "string \<Rightarrow> exn + pyval" where
  "json_loads s =
     (case jvalue (2 * length s + 2) s of
        Some (v, r) \<Rightarrow> if skip_ws r = [] then Ok v else Err (ValueError ''JSONDecodeError'')
      | None \<Rightarrow> Err (ValueError ''JSONDecodeError''))"


section \<open>Reading back what was printed\<close>

lemma hexv_hexd [simp]: "n < 16 \<Longrightarrow> hexv (hexd n) = Some n"
  by (auto simp: hexv_def hexd_def Let_def)

lemma of_char_lt [simp]: "(of_char (c :: char) :: nat) < 256"
  using of_char_mod_256 [of c, where 'a = nat] by (metis mod_less_divisor zero_less_numeral)

lemma char_of_hex: "char_of (16 * ((of_char (c :: char) :: nat) div 16) + of_char c mod 16) = c"
  by simp

lemma of_char_ctrl:
  "(of_char c :: nat) = 8 \<Longrightarrow> c = CHR 0x08" "(of_char c :: nat) = 9 \<Longrightarrow> c = CHR 0x09"
  "(of_char c :: nat) = 10 \<Longrightarrow> c = CHR 0x0A" "(of_char c :: nat) = 12 \<Longrightarrow> c = CHR 0x0C"
  "(of_char c :: nat) = 13 \<Longrightarrow> c = CHR 0x0D"
  using of_char_eq_iff [of c "CHR 0x08", where 'a = nat] of_char_eq_iff [of c "CHR 0x09", where 'a = nat]
    of_char_eq_iff [of c "CHR 0x0A", where 'a = nat] of_char_eq_iff [of c "CHR 0x0C", where 'a = nat]
    of_char_eq_iff [of c "CHR 0x0D", where 'a = nat]
  by simp_all

lemma jstring_escape: "jstring (json_escape c @ r) = map_option (\<lambda>(t, q). (c # t, q)) (jstring r)"
proof -
  let ?n = "of_char c :: nat"
  have lt: "?n div 16 < 16" by (simp add: less_mult_imp_div_less)
  have ch: "char_of (16 * (?n div 16) + ?n mod 16) = c" by simp
  have z: "hexv (CHR ''0'') = Some 0" by (simp add: hexv_def)
  consider "c = JQ" | "c = JB" | "c = CHR 0x0A" | "c = CHR 0x0D" | "c = CHR 0x09" | "c = CHR 0x0C" | "c = CHR 0x08"
    | "c \<noteq> JQ" "c \<noteq> JB" "32 \<le> ?n" "?n < 127"
    | "c \<noteq> JQ" "c \<noteq> JB" "?n \<notin> {8, 9, 10, 12, 13}" "\<not> (32 \<le> ?n \<and> ?n < 127)"
    using of_char_ctrl [of c] by blast
  then show ?thesis
  proof cases
    case 8
    then have "?n \<noteq> 10" "?n \<noteq> 13" "?n \<noteq> 9" "?n \<noteq> 12" "?n \<noteq> 8" by auto
    with 8 show ?thesis by (simp add: json_escape_def Let_def)
  next
    case 9
    then have e: "json_escape c = [JB, CHR ''u'', CHR ''0'', CHR ''0'', hexd (?n div 16), hexd (?n mod 16)]"
      by (auto simp: json_escape_def Let_def)
    show ?thesis using lt ch z by (simp add: e)
  qed (simp_all add: json_escape_def simple_escape_def)
qed

lemma jstring_json_str: "jstring (concat (map json_escape s) @ JQ # r) = Some (s, r)"
proof (induction s)
  case (Cons c s)
  have "jstring (concat (map json_escape (c # s)) @ JQ # r)
      = map_option (\<lambda>(t, q). (c # t, q)) (jstring (concat (map json_escape s) @ JQ # r))"
    using jstring_escape [of c "concat (map json_escape s) @ JQ # r"] by simp
  with Cons show ?case by simp
qed simp

lemma skip_ws_nonspace: "\<not> json_ws c \<Longrightarrow> skip_ws (c # s) = c # s"
  by (simp add: skip_ws_def)

text \<open>What may follow a value: nothing that would extend a number.\<close>

definition value_end :: "string \<Rightarrow> bool" where
  "value_end r \<longleftrightarrow> r = '''' \<or> hd r \<in> {CHR '','', CHR '']'', CHR ''}''} \<or> json_ws (hd r)"

lemma nat_str_digits: "c \<in> set (nat_str n) \<Longrightarrow> is_digit c"
proof (induction n rule: nat_str.induct)
  case (1 n)
  have d: "k < 10 \<Longrightarrow> is_digit (char_of (48 + k))" for k :: nat by (simp add: is_digit_def)
  show ?case
  proof (cases "n < 10")
    case True
    with 1 d show ?thesis by (subst (asm) nat_str.simps) (auto simp del: of_char_digit)
  next
    case False
    with "1.prems" have "c \<in> set (nat_str (n div 10)) \<or> c = char_of (48 + n mod 10)"
      by (subst (asm) nat_str.simps) auto
    with "1.IH" [OF False] d [of "n mod 10"] show ?thesis by auto
  qed
qed

lemma nat_str_hd0: "hd (nat_str n) = CHR ''0'' \<Longrightarrow> n = 0"
proof (induction n rule: nat_str.induct)
  case (1 n)
  show ?case
  proof (cases "n < 10")
    case True
    then have "char_of (48 + n) = CHR ''0''" using 1 by (subst (asm) (2) nat_str.simps) simp
    then have "(of_char (char_of (48 + n) :: char) :: nat) = of_char (CHR ''0'')" by simp
    with True show ?thesis by simp
  next
    case False
    then have "hd (nat_str (n div 10)) = CHR ''0''" using 1 by (subst (asm) (2) nat_str.simps) simp
    with "1.IH" [OF False] False show ?thesis by simp
  qed
qed

lemma value_end_facts:
  assumes "value_end r"
  shows "takeWhile is_digit r = []" "jfrac r = ('''', r)" "jexp r = ('''', r)"
  using assms
  by (cases r; auto simp: value_end_def is_digit_def jfrac_def jexp_def json_ws_def)+

lemma takeWhile_digits: "(\<And>c. c \<in> set ds \<Longrightarrow> is_digit c) \<Longrightarrow> takeWhile is_digit (ds @ r) = ds @ takeWhile is_digit r"
  and dropWhile_digits: "(\<And>c. c \<in> set ds \<Longrightarrow> is_digit c) \<Longrightarrow> dropWhile is_digit (ds @ r) = dropWhile is_digit r"
  by (induction ds) auto

lemma dropWhile_of_takeWhile: "takeWhile P r = [] \<Longrightarrow> dropWhile P r = r"
  by (cases r) (auto split: if_splits)

lemma jnat_nat_str:
  assumes "value_end r"
  shows "jnat (nat_str n @ r) = Some (nat_str n, r)"
proof -
  obtain c cs where s: "nat_str n = c # cs" by (cases "nat_str n") auto
  show ?thesis
  proof (cases "c = CHR ''0''")
    case True
    then have "n = 0" using nat_str_hd0 [of n] s by simp
    moreover have "char_of (48 :: nat) = CHR ''0''" by code_simp
    ultimately have "nat_str n = ''0''" by (simp add: nat_str.simps)
    then show ?thesis by (simp add: jnat_def)
  next
    case False
    have "takeWhile is_digit (nat_str n @ r) = nat_str n" "dropWhile is_digit (nat_str n @ r) = r"
      using value_end_facts(1) [OF assms] nat_str_digits [of _ n]
      by (simp_all add: takeWhile_digits dropWhile_digits dropWhile_of_takeWhile)
    then show ?thesis using False s by (simp add: jnat_def jdigits_def)
  qed
qed

lemma jnumber_int_str: "value_end r \<Longrightarrow> jnumber (int_str i @ r) = Some (PInt i, r)"
proof -
  assume v: "value_end r"
  note f = value_end_facts [OF v] jnat_nat_str [OF v, of "nat i"] jnat_nat_str [OF v, of "nat (- i)"]
  show ?thesis
  proof (cases "i < 0")
    case True
    then show ?thesis using f by (simp add: int_str_def jnumber_def)
  next
    case False
    obtain c cs where s: "nat_str (nat i) = c # cs" by (cases "nat_str (nat i)") auto
    then have "is_digit c" using nat_str_digits [of c "nat i"] by simp
    then have "c \<noteq> CHR ''-''" by (auto simp: is_digit_def)
    moreover have "digits_value (c # cs) = nat i" using s nat_str_value [of "nat i"] by simp
    ultimately show ?thesis using f False s by (simp add: int_str_def jnumber_def)
  qed
qed


text \<open>Values that print to what \<open>loads\<close> reads back: no floats, distinct keys.\<close>

fun json_plain :: "pyval \<Rightarrow> bool" where
  "json_plain (PFloat s) = False"
| "json_plain (PList vs) = (\<forall>v \<in> set vs. json_plain v)"
| "json_plain (PDict d) = (distinct (map fst d) \<and> (\<forall>e \<in> set d. json_plain (snd e)))"
| "json_plain v = True"

text \<open>Separators: a comma or colon followed by blanks.\<close>

definition sep_ok :: "char \<Rightarrow> string \<Rightarrow> bool" where
  "sep_ok c s \<longleftrightarrow> (\<exists>w. s = c # w \<and> (\<forall>x \<in> set w. json_ws x))"

lemma skip_ws_app: "\<forall>x \<in> set w. json_ws x \<Longrightarrow> skip_ws (w @ s) = skip_ws s"
  by (induction w) (auto simp: skip_ws_def)

lemma print_nonempty: "json_plain v \<Longrightarrow> json_print i k v \<noteq> ''''"
  by (cases v) (auto simp: int_str_def json_str_def)

lemma jvalue_skip: "jvalue n (skip_ws s) = jvalue n s"
  by (cases n) (auto simp: skip_ws_def)

lemma jvalue_ws: "\<forall>x \<in> set w. json_ws x \<Longrightarrow> jvalue n (w @ s) = jvalue n s"
  using jvalue_skip [of n "w @ s"] jvalue_skip [of n s] by (simp add: skip_ws_app)

lemma jmembers_ws: "\<forall>x \<in> set w. json_ws x \<Longrightarrow> jmembers n (w @ s) = jmembers n s"
  by (cases n) (auto simp: skip_ws_app)

lemma jelems_ws: "\<forall>x \<in> set w. json_ws x \<Longrightarrow> jelems n (w @ s) = jelems n s"
  by (cases n) (auto simp: jvalue_ws)

lemma int_str_hd: "int_str i \<noteq> '''' \<and> (hd (int_str i) = CHR ''-'' \<or> is_digit (hd (int_str i)))"
proof (cases "i < 0")
  case False
  then show ?thesis using nat_str_digits [of "hd (nat_str (nat i))" "nat i"] by (simp add: int_str_def)
qed (simp add: int_str_def)

lemma jvalue_int: "value_end r \<Longrightarrow> jvalue (Suc n) (int_str i @ r) = Some (PInt i, r)"
proof -
  assume v: "value_end r"
  obtain c cs where s: "int_str i = c # cs" "c = CHR ''-'' \<or> is_digit c"
    using int_str_hd [of i] by (cases "int_str i") auto
  then have "c \<noteq> JQ" "c \<noteq> CHR ''[''" "c \<noteq> CHR ''{''" "c \<noteq> CHR ''n''" "c \<noteq> CHR ''t''" "c \<noteq> CHR ''f''" "\<not> json_ws c"
    by (auto simp: is_digit_def json_ws_def)
  then show ?thesis using jnumber_int_str [OF v, of i] s by (simp add: skip_ws_nonspace startswith_def)
qed

definition reads :: "string \<Rightarrow> string \<Rightarrow> pyval \<Rightarrow> bool" where
  "reads i k v \<longleftrightarrow> (\<forall>n r. 2 * length (json_print i k v) \<le> n \<longrightarrow> value_end r \<longrightarrow>
     jvalue n (json_print i k v @ r) = Some (v, r))"

lemma reads_elems:
  assumes "sep_ok (CHR '','') i"
  shows "vs \<noteq> [] \<Longrightarrow> \<forall>v \<in> set vs. reads i k v \<and> json_plain v \<Longrightarrow>
    2 * length (join_with i (map (json_print i k) vs)) + 1 \<le> n \<Longrightarrow>
    jelems n (join_with i (map (json_print i k) vs) @ '']'' @ r) = Some (vs, r)"
proof (induction vs arbitrary: n)
  case (Cons v vs)
  then obtain m where n: "n = Suc m" by (cases n) auto
  obtain w where i: "i = CHR '','' # w" "\<forall>x \<in> set w. json_ws x" using assms by (auto simp: sep_ok_def)
  show ?case
  proof (cases "vs = []")
    case True
    have "jvalue m (json_print i k v @ '']'' @ r) = Some (v, '']'' @ r)"
      using Cons.prems n True by (auto simp: reads_def value_end_def)
    then show ?thesis using True n by (simp add: skip_ws_def json_ws_def)
  next
    case False
    let ?rest = "join_with i (map (json_print i k) vs) @ '']'' @ r"
    have len: "2 * length (json_print i k v) + 2 * length i + 2 * length (join_with i (map (json_print i k) vs)) + 1 \<le> n"
      using Cons.prems False by (simp add: join_with_Cons)
    have "value_end (i @ ?rest)" using i by (simp add: value_end_def)
    then have "jvalue m (json_print i k v @ i @ ?rest) = Some (v, i @ ?rest)"
      using Cons.prems n len i by (auto simp: reads_def)
    moreover have "skip_ws (i @ ?rest) = CHR '','' # w @ ?rest"
      using i by (simp add: skip_ws_nonspace json_ws_def)
    moreover have "jelems m (w @ ?rest) = Some (vs, r)"
      using Cons.IH [of m] Cons.prems n len False i by (simp add: jelems_ws)
    ultimately show ?thesis using n False by (simp add: join_with_Cons)
  qed
qed simp

definition member_text :: "string \<Rightarrow> string \<Rightarrow> string \<times> pyval \<Rightarrow> string" where
  "member_text i k e = json_str (fst e) @ k @ json_print i k (snd e)"

lemma reads_members:
  assumes "sep_ok (CHR '','') i" "sep_ok (CHR '':'') k"
  shows "d \<noteq> [] \<Longrightarrow> \<forall>e \<in> set d. reads i k (snd e) \<and> json_plain (snd e) \<Longrightarrow>
    2 * length (join_with i (map (member_text i k) d)) + 1 \<le> n \<Longrightarrow>
    jmembers n (join_with i (map (member_text i k) d) @ ''}'' @ r) = Some (d, r)"
proof (induction d arbitrary: n)
  case (Cons e d)
  obtain nm v where e: "e = (nm, v)" by (cases e)
  from Cons.prems obtain m where n: "n = Suc m" by (cases n) auto
  obtain w where i: "i = CHR '','' # w" "\<forall>x \<in> set w. json_ws x" using assms by (auto simp: sep_ok_def)
  obtain x where k: "k = CHR '':'' # x" "\<forall>c \<in> set x. json_ws c" using assms by (auto simp: sep_ok_def)
  have head: "jmembers n (member_text i k e @ t) =
      (case jvalue m (json_print i k v @ t) of None \<Rightarrow> None
       | Some (v', r1) \<Rightarrow> (case skip_ws r1 of [] \<Rightarrow> None
           | c2 # cs2 \<Rightarrow> if c2 = CHR '','' then map_option (\<lambda>(kvs, q). ((nm, v') # kvs, q)) (jmembers m cs2)
                         else if c2 = CHR ''}'' then Some ([(nm, v')], cs2) else None))" for t
  proof -
    have "skip_ws (member_text i k e @ t) = JQ # concat (map json_escape nm) @ JQ # k @ json_print i k v @ t"
      by (simp add: member_text_def e json_str_def skip_ws_nonspace json_ws_def)
    moreover have "jstring (concat (map json_escape nm) @ JQ # k @ json_print i k v @ t) = Some (nm, k @ json_print i k v @ t)"
      by (rule jstring_json_str)
    moreover have "skip_ws (k @ json_print i k v @ t) = CHR '':'' # x @ json_print i k v @ t"
      using k by (simp add: skip_ws_nonspace json_ws_def)
    ultimately show ?thesis using n k by (simp add: jvalue_ws)
  qed
  show ?case
  proof (cases "d = []")
    case True
    have "jvalue m (json_print i k v @ ''}'' @ r) = Some (v, ''}'' @ r)"
      using Cons.prems n True e by (auto simp: reads_def value_end_def member_text_def)
    then show ?thesis using True head [of "''}'' @ r"] e by (simp add: skip_ws_def json_ws_def)
  next
    case False
    let ?rest = "join_with i (map (member_text i k) d) @ ''}'' @ r"
    have len: "2 * length (member_text i k e) + 2 * length i + 2 * length (join_with i (map (member_text i k) d)) + 1 \<le> n"
      using Cons.prems False by (simp add: join_with_Cons)
    have "value_end (i @ ?rest)" using i by (simp add: value_end_def)
    then have "jvalue m (json_print i k v @ i @ ?rest) = Some (v, i @ ?rest)"
      using Cons.prems n len i e by (auto simp: reads_def member_text_def)
    moreover have "skip_ws (i @ ?rest) = CHR '','' # w @ ?rest"
      using i by (simp add: skip_ws_nonspace json_ws_def)
    moreover have "jmembers m (w @ ?rest) = Some (d, r)"
      using Cons.IH [of m] Cons.prems n len False i by (simp add: jmembers_ws)
    ultimately show ?thesis using False e head [of "i @ ?rest"] by (simp add: join_with_Cons)
  qed
qed simp

lemma print_hd:
  "json_plain v \<Longrightarrow> \<exists>c t. json_print i k v = c # t \<and> c \<noteq> CHR '']'' \<and> \<not> json_ws c"
proof (cases v)
  case (PInt n)
  then show ?thesis using int_str_hd [of n] by (cases "int_str n") (auto simp: is_digit_def json_ws_def)
qed (auto simp: json_str_def json_ws_def)

lemma not_startswith: "c \<noteq> d \<Longrightarrow> \<not> startswith (c # s) [d]"
  by (simp add: startswith_def)

lemma reads_none: "reads i k PNone"
proof -
  have "jvalue n (''null'' @ r) = Some (PNone, r)" if "8 \<le> n" for n r
    using that by (cases n) (simp_all add: skip_ws_nonspace json_ws_def startswith_def)
  then show ?thesis by (simp add: reads_def)
qed

lemma reads_bool: "reads i k (PBool x)"
proof -
  have "jvalue n (''true'' @ r) = Some (PBool True, r)" "jvalue n (''false'' @ r) = Some (PBool False, r)"
    if "8 \<le> n" for n r
    using that by (cases n; simp add: skip_ws_nonspace json_ws_def startswith_def)+
  then show ?thesis by (simp add: reads_def)
qed

lemma reads_int: "reads i k (PInt n)"
proof -
  have "2 \<le> 2 * length (int_str n)" using int_str_hd [of n] by (cases "int_str n") auto
  then show ?thesis unfolding reads_def by (auto simp: jvalue_int dest!: Suc_le_D intro: jvalue_int)
qed

lemma reads_str: "reads i k (PStr s)"
  unfolding reads_def
proof (intro allI impI)
  fix n r assume "2 * length (json_print i k (PStr s)) \<le> n"
  then obtain m where m: "n = Suc m" by (cases n) (auto simp: json_str_def)
  show "jvalue n (json_print i k (PStr s) @ r) = Some (PStr s, r)"
    using jstring_json_str [of s r] m by (simp add: json_str_def skip_ws_nonspace json_ws_def)
qed

lemma reads_all:
  assumes "sep_ok (CHR '','') i" "sep_ok (CHR '':'') k"
  shows "json_plain v \<Longrightarrow> reads i k v"
proof (induction v rule: json_plain.induct)
  case (2 vs)
  show ?case
    unfolding reads_def
  proof (intro allI impI)
    fix n r assume n: "2 * length (json_print i k (PList vs)) \<le> n" and "value_end r"
    then obtain m where m: "n = Suc m" by (cases n) auto
    show "jvalue n (json_print i k (PList vs) @ r) = Some (PList vs, r)"
    proof (cases "vs = []")
      case True
      then show ?thesis using m by (simp add: skip_ws_def json_ws_def startswith_def)
    next
      case False
      then obtain v ws where vs: "vs = v # ws" by (cases vs) auto
      obtain c t where c: "json_print i k v = c # t" "c \<noteq> CHR '']''" "\<not> json_ws c"
        using print_hd 2 vs by fastforce
      let ?j = "join_with i (map (json_print i k) vs)"
      obtain t' where j: "?j = c # t'" using vs c by (cases ws) (auto simp: join_with_def)
      have "jelems m (?j @ '']'' @ r) = Some (vs, r)"
        using 2 n m by (intro reads_elems [OF assms(1)]) (auto simp: False)
      then show ?thesis using m j c by (simp add: skip_ws_nonspace json_ws_def not_startswith)
    qed
  qed
next
  case (3 d)
  have "map (\<lambda>(n, v). json_str n @ k @ json_print i k v) d = map (member_text i k) d"
    by (auto simp: member_text_def)
  then have pr: "json_print i k (PDict d) = ''{'' @ join_with i (map (member_text i k) d) @ ''}''"
    by (simp only: json_print.simps)
  show ?case
    unfolding reads_def
  proof (intro allI impI)
    fix n r assume n: "2 * length (json_print i k (PDict d)) \<le> n" and "value_end r"
    then obtain m where m: "n = Suc m" by (cases n) auto
    show "jvalue n (json_print i k (PDict d) @ r) = Some (PDict d, r)"
    proof (cases "d = []")
      case True
      then show ?thesis using m by (simp add: skip_ws_def json_ws_def startswith_def)
    next
      case False
      let ?j = "join_with i (map (member_text i k) d)"
      obtain t' where j: "?j = JQ # t'"
        using False by (cases d; cases "tl d") (auto simp: join_with_def member_text_def json_str_def)
      have "jmembers m (?j @ ''}'' @ r) = Some (d, r)"
        using 3 n m unfolding pr by (intro reads_members [OF assms]) (auto simp: False)
      moreover have "dict_of d = d" using 3 by (simp add: dict_of_distinct)
      moreover have "jvalue n (''{'' @ ?j @ ''}'' @ r) = map_option (\<lambda>(kvs, q). (PDict (dict_of kvs), q)) (jmembers m (?j @ ''}'' @ r))"
        using m by (simp add: skip_ws_nonspace json_ws_def not_startswith j)
      ultimately show ?thesis unfolding pr by simp
    qed
  qed
qed (simp_all add: reads_none reads_bool reads_int reads_str)

theorem json_round_trip:
  assumes "json_plain v" "sep_ok (CHR '','') i" "sep_ok (CHR '':'') k"
  shows "json_loads (json_print i k v) = Ok v"
proof -
  have "\<forall>n r. 2 * length (json_print i k v) \<le> n \<longrightarrow> value_end r \<longrightarrow> jvalue n (json_print i k v @ r) = Some (v, r)"
    using reads_all [OF assms(2,3,1)] by (simp only: reads_def)
  from this [rule_format, of "2 * length (json_print i k v) + 2" "[]"]
  have "jvalue (2 * length (json_print i k v) + 2) (json_print i k v) = Some (v, [])"
    by (simp add: value_end_def del: jvalue.simps)
  then show ?thesis by (simp add: json_loads_def skip_ws_def)
qed

lemma json_dumps_round_trip [simp]:
  "json_plain v \<Longrightarrow> json_loads (json_dumps v) = Ok v"
  "json_plain v \<Longrightarrow> json_loads (json_dumps_compact v) = Ok v"
  unfolding json_dumps_def json_dumps_compact_def
  by (rule json_round_trip; simp add: sep_ok_def json_ws_def)+

section \<open>The printed text is ASCII\<close>

definition ascii_text :: "string \<Rightarrow> bool" where
  "ascii_text s \<longleftrightarrow> (\<forall>c \<in> set s. (of_char c :: nat) < 128)"

lemma ascii_text_simps [simp]:
  "ascii_text []" "ascii_text (c # s) \<longleftrightarrow> (of_char c :: nat) < 128 \<and> ascii_text s"
  "ascii_text (s @ t) \<longleftrightarrow> ascii_text s \<and> ascii_text t"
  "ascii_text (concat ss) \<longleftrightarrow> (\<forall>s \<in> set ss. ascii_text s)"
  by (auto simp: ascii_text_def)

lemma ascii_join: "ascii_text sep \<Longrightarrow> \<forall>w \<in> set ws. ascii_text w \<Longrightarrow> ascii_text (join_with sep ws)"
proof (induction ws)
  case (Cons w ws)
  then show ?case by (cases "ws = []") (simp_all add: join_with_Cons)
qed simp

lemma ascii_hexd: "n < 16 \<Longrightarrow> (of_char (hexd n) :: nat) < 128"
  by (simp add: hexd_def)

lemma ascii_json_escape: "ascii_text (json_escape c)"
  using of_char_lt [of c] by (simp add: json_escape_def Let_def ascii_hexd less_mult_imp_div_less)

lemma ascii_json_str: "ascii_text (json_str s)"
  by (simp add: json_str_def ascii_json_escape)

lemma ascii_nat_str: "ascii_text (nat_str n)"
  unfolding ascii_text_def
proof
  fix c assume "c \<in> set (nat_str n)"
  then have "is_digit c" by (rule nat_str_digits)
  then show "(of_char c :: nat) < 128" by (simp add: is_digit_def Let_def)
qed

lemma ascii_json_print: "ascii_text i \<Longrightarrow> ascii_text k \<Longrightarrow> json_plain v \<Longrightarrow> ascii_text (json_print i k v)"
proof (induction v rule: json_plain.induct)
  case (2 vs)
  then show ?case by (auto intro!: ascii_join)
next
  case (3 d)
  then show ?case by (auto intro!: ascii_join simp: ascii_json_str)
qed (simp_all add: ascii_json_str int_str_def ascii_nat_str)

lemma b_ascii: "ascii_text s \<Longrightarrow> b s = utf8_encode (map of_char s)"
  by (induction s) (simp_all add: utf8_enc1_def scalar_def of_nat_of_char)

end
