(* ===== verification/Secrets.thy ===== *)
theory Secrets
  imports FileSys Crypto Json
begin

text \<open>
  Secrets at rest: \<open>zmux/keystore.py\<close> (the per-installation master secret, the HMAC-SHA256
  keystream cipher with encrypt-then-MAC envelopes) and \<open>zmux/security.py\<close> (the auth token).
  The state is the file system and the position in the source of random bytes \<open>rnd\<close>.
\<close>

section \<open>State\<close>

record vault =
  v_fs :: fsys
  v_pos :: nat

definition token_bytes :: "(nat \<Rightarrow> byte) \<Rightarrow> nat \<Rightarrow> vault \<Rightarrow> bytes \<times> vault" where
  "token_bytes rnd n V = (map rnd [v_pos V ..< v_pos V + n], V\<lparr>v_pos := v_pos V + n\<rparr>)"

definition restrict_permissions :: "path \<Rightarrow> fsys \<Rightarrow> fsys" where
  "restrict_permissions p F = snd (try_os (chmod p 384) () F)"

text \<open>The files hold ASCII text; any exception on the way is swallowed.\<close>

definition store_secret :: "path \<Rightarrow> string \<Rightarrow> fsys \<Rightarrow> fsys" where
  "store_secret p s F =
     (case write_text p s F of (Ok _, F') \<Rightarrow> restrict_permissions p F' | (Err _, F') \<Rightarrow> F')"

section \<open>The master secret\<close>

definition read_secret :: "path \<Rightarrow> fsys \<Rightarrow> bytes option" where
  "read_secret p F =
     (if path_exists F p
      then (case fst (read_text p F) of
              Err _ \<Rightarrow> None
            | Ok raw \<Rightarrow> (case from_hex (str_strip raw) of
                  None \<Rightarrow> None | Some s \<Rightarrow> if length s = 32 then Some s else None))
      else None)"

definition load_or_create_master_secret :: "(nat \<Rightarrow> byte) \<Rightarrow> path \<Rightarrow> vault \<Rightarrow> bytes \<times> vault" where
  "load_or_create_master_secret rnd key_file V =
     (case read_secret key_file (v_fs V) of
        Some s \<Rightarrow> (s, V\<lparr>v_fs := restrict_permissions key_file (v_fs V)\<rparr>)
      | None \<Rightarrow>
          (case token_bytes rnd 32 V of (s, V') \<Rightarrow>
             (s, V'\<lparr>v_fs := store_secret key_file (to_hex s) (v_fs V')\<rparr>)))"

definition PBKDF2_ROUNDS :: nat where "PBKDF2_ROUNDS = 200000"

definition derive_keys :: "(nat \<Rightarrow> byte) \<Rightarrow> path \<Rightarrow> bytes \<Rightarrow> vault \<Rightarrow> (bytes \<times> bytes) \<times> vault" where
  "derive_keys rnd key_file nonce V =
     (case load_or_create_master_secret rnd key_file V of (s, V') \<Rightarrow>
        let material = pbkdf2_64 s nonce PBKDF2_ROUNDS
        in ((take 32 material, drop 32 material), V'))"

function keystream_loop :: "bytes \<Rightarrow> nat \<Rightarrow> bytes \<Rightarrow> nat \<Rightarrow> exn + bytes" where
  "keystream_loop key n out counter =
     (if length out < n
      then (case to_bytes_big counter 8 of
              Err e \<Rightarrow> Err e
            | Ok c \<Rightarrow> keystream_loop key n (out @ hmac_sha256 key c) (counter + 1))
      else Ok (take n out))"
  by pat_completeness auto
termination by (relation "measure (\<lambda>(key, n, out, counter). n - length out)") auto

declare keystream_loop.simps [simp del]

definition keystream :: "bytes \<Rightarrow> nat \<Rightarrow> exn + bytes" where
  "keystream key n = keystream_loop key n [] 0"

section \<open>Envelopes\<close>

definition NONCE_BYTES :: nat where "NONCE_BYTES = 16"
definition TAG_BYTES :: nat where "TAG_BYTES = 32"
definition FORMAT_VERSION :: int where "FORMAT_VERSION = 1"

definition encrypt_payload ::
    "(nat \<Rightarrow> byte) \<Rightarrow> path \<Rightarrow> (string \<times> pyval) list \<Rightarrow> vault \<Rightarrow> (exn + string) \<times> vault" where
  "encrypt_payload rnd key_file data V =
     (let plaintext = b (json_dumps_compact (PDict data))
      in case token_bytes rnd NONCE_BYTES V of (nonce, V1) \<Rightarrow>
         case derive_keys rnd key_file nonce V1 of ((enc_key, mac_key), V2) \<Rightarrow>
         case keystream enc_key (length plaintext) of
           Err e \<Rightarrow> (Err e, V2)
         | Ok ks \<Rightarrow>
             let ciphertext = xor_bytes plaintext ks;
                 tag = hmac_sha256 mac_key (nonce @ ciphertext)
             in (Ok (json_dumps (PDict [(''v'', PInt FORMAT_VERSION), (''nonce'', PStr (to_hex nonce)),
                   (''data'', PStr (to_hex ciphertext)), (''tag'', PStr (to_hex tag))])), V2))"

text \<open>\<open>value == 1\<close>: an integer, a boolean or the float 1.0.\<close>

definition eq_version :: "pyval option \<Rightarrow> bool" where
  "eq_version v = (case v of
       Some (PInt i) \<Rightarrow> i = FORMAT_VERSION
     | Some (PBool x) \<Rightarrow> x
     | Some (PFloat s) \<Rightarrow> s = ''1.0''
     | _ \<Rightarrow> False)"

definition hex_field :: "string \<Rightarrow> (string \<times> pyval) list \<Rightarrow> bytes option" where
  "hex_field k obj = (case map_of obj k of Some (PStr s) \<Rightarrow> from_hex s | _ \<Rightarrow> None)"

definition decode_text :: "bytes \<Rightarrow> string option" where
  "decode_text bs =
     (case utf8_strict bs of
        Some t \<Rightarrow> if \<forall>c \<in> set t. c < 256 then Some (map char_of t) else None
      | None \<Rightarrow> None)"

definition decrypt_payload ::
    "(nat \<Rightarrow> byte) \<Rightarrow> path \<Rightarrow> string \<Rightarrow> vault \<Rightarrow> (string \<times> pyval) list \<times> vault" where
  "decrypt_payload rnd key_file envelope V =
     (case json_loads envelope of
        Ok (PDict obj) \<Rightarrow>
          if \<not> eq_version (map_of obj ''v'') then ([], V)
          else (case (hex_field ''nonce'' obj, hex_field ''data'' obj, hex_field ''tag'' obj) of
             (Some nonce, Some ciphertext, Some tag) \<Rightarrow>
               if length nonce \<noteq> NONCE_BYTES \<or> length tag \<noteq> TAG_BYTES then ([], V)
               else (case derive_keys rnd key_file nonce V of ((enc_key, mac_key), V') \<Rightarrow>
                  if tag \<noteq> hmac_sha256 mac_key (nonce @ ciphertext) then ([], V')
                  else (case keystream enc_key (length ciphertext) of
                     Err e \<Rightarrow> ([], V')
                   | Ok ks \<Rightarrow> (case decode_text (xor_bytes ciphertext ks) of
                        None \<Rightarrow> ([], V')
                      | Some s \<Rightarrow> (case json_loads s of
                           Ok (PDict d) \<Rightarrow> (d, V')
                         | _ \<Rightarrow> ([], V')))))
           | _ \<Rightarrow> ([], V))
      | _ \<Rightarrow> ([], V))"

section \<open>The auth token\<close>

definition read_token :: "path \<Rightarrow> fsys \<Rightarrow> string option" where
  "read_token p F =
     (if path_exists F p
      then (case fst (read_text p F) of
              Err _ \<Rightarrow> None
            | Ok raw \<Rightarrow> if length (str_strip raw) \<ge> 16 then Some (str_strip raw) else None)
      else None)"

definition load_or_create_token :: "(nat \<Rightarrow> byte) \<Rightarrow> path \<Rightarrow> vault \<Rightarrow> string \<times> vault" where
  "load_or_create_token rnd token_file V =
     (case read_token token_file (v_fs V) of
        Some t \<Rightarrow> (t, V\<lparr>v_fs := restrict_permissions token_file (v_fs V)\<rparr>)
      | None \<Rightarrow>
          (case token_bytes rnd 16 V of (bs, V') \<Rightarrow>
             (to_hex bs, V'\<lparr>v_fs := store_secret token_file (to_hex bs) (v_fs V')\<rparr>)))"

text \<open>\<open>hmac.compare_digest\<close> on two strings raises \<open>TypeError\<close> unless both are ASCII.\<close>

definition verify_auth_token :: "string \<Rightarrow> string \<Rightarrow> exn + bool" where
  "verify_auth_token auth_token token =
     (if token = '''' then Ok False
      else if \<not> ascii_text token \<or> \<not> ascii_text auth_token then Err TypeError
      else Ok (token = auth_token))"

section \<open>The keystream\<close>

text \<open>Counter mode as a reference: block \<open>i\<close> is the MAC of the counter \<open>i\<close> as eight bytes.\<close>

definition keystream_block :: "bytes \<Rightarrow> nat \<Rightarrow> bytes" where
  "keystream_block key i = hmac_sha256 key (be_bytes 8 i)"

lemma length_keystream_blocks [simp]: "length (concat (map (keystream_block key) is)) = 32 * length is"
  by (induction "is") (simp_all add: keystream_block_def)

lemma keystream_loop_blocks:
  "out = concat (map (keystream_block key) [0..<c]) \<Longrightarrow> n \<le> 32 * 2 ^ 64 \<Longrightarrow> c \<le> k \<Longrightarrow> n \<le> 32 * k \<Longrightarrow>
   (\<And>i. i < k \<Longrightarrow> 32 * i < n) \<Longrightarrow>
   keystream_loop key n out c = Ok (take n (concat (map (keystream_block key) [0..<k])))"
proof (induction "k - c" arbitrary: out c)
  case 0
  then have "c = k" by simp
  with 0 show ?case by (subst keystream_loop.simps) simp
next
  case (Suc d)
  then have ck: "c < k" by simp
  then have cn: "32 * c < n" using Suc.prems(5) by simp
  then have "c < 2 ^ 64" using Suc.prems(2) by linarith
  then have "c < 256 ^ 8" by simp
  then have tb: "to_bytes_big c 8 = Ok (be_bytes 8 c)" by (simp add: to_bytes_big_def)
  have "keystream_loop key n (out @ keystream_block key c) (c + 1)
      = Ok (take n (concat (map (keystream_block key) [0..<k])))"
    using Suc ck by (intro Suc.hyps(1)) simp_all
  moreover have "length out < n" using cn Suc.prems(1) by simp
  ultimately show ?case by (subst keystream_loop.simps) (simp add: tb keystream_block_def)
qed

text \<open>
  the keystream of every length up to \<open>32 * 2 ^ 64\<close> bytes exists, has exactly that length,
  and is HMAC-SHA256 in counter mode: the first \<open>n\<close> bytes of the MACs of 0, 1, 2, \<open>...\<close>; the
  eight-byte counter never overflows on the way.
\<close>

theorem keystream_is_counter_mode:
  assumes "n \<le> 32 * 2 ^ 64"
  shows "keystream key n = Ok (take n (concat (map (keystream_block key) [0..<(n + 31) div 32])))
    \<and> length (take n (concat (map (keystream_block key) [0..<(n + 31) div 32]))) = n"
proof
  have "n \<le> 32 * ((n + 31) div 32)" by linarith
  moreover have "32 * i < n" if "i < (n + 31) div 32" for i using that by linarith
  ultimately show "keystream key n = Ok (take n (concat (map (keystream_block key) [0..<(n + 31) div 32])))"
    unfolding keystream_def by (intro keystream_loop_blocks) (use assms in simp_all)
  show "length (take n (concat (map (keystream_block key) [0..<(n + 31) div 32]))) = n"
    using \<open>n \<le> 32 * ((n + 31) div 32)\<close> by simp
qed

theorem keystream_is_counter_mode_witness:
  "keystream [1, 2] 33 = Ok (take 33 (concat (map (keystream_block [1, 2]) [0..<(33 + 31) div 32])))"
  using keystream_is_counter_mode [of 33 "[1, 2]"] by simp

lemma keystream_Ok: "n \<le> 32 * 2 ^ 64 \<Longrightarrow> \<exists>ks. keystream key n = Ok ks \<and> length ks = n"
  using keystream_loop_blocks [of "[]" key 0 n "(n + 31) div 32"] unfolding keystream_def by simp

section \<open>A secret that is on disk stays the secret\<close>

text \<open>The key file can be written: it exists as a file, or its directory does, and is not denied.\<close>

definition writable :: "path \<Rightarrow> fsys \<Rightarrow> bool" where
  "writable p F \<longleftrightarrow> fst (write_text p '''' F) = Ok ()"

lemma write_text_writable: "writable p F \<Longrightarrow> fst (write_text p s F) = Ok ()"
  by (auto simp: writable_def write_text_def write_content_def change_def
      split: sum.splits option.splits node.splits if_splits)

lemma write_text_unwritable: "\<not> writable p F \<Longrightarrow> \<exists>e. write_text p s F = (Err e, F)"
  by (auto simp: writable_def write_text_def write_content_def change_def
      split: sum.splits option.splits node.splits if_splits)

lemma read_text_lookup: "lookup F True p = Ok (l, Reg (Text s) m) \<Longrightarrow> read_text p F = (Ok s, F)"
  by (simp add: read_text_def)

lemma restrict_permissions_lookup:
  assumes "lookup F True p = Ok (l, Reg c m)"
  shows "\<exists>m'. lookup (restrict_permissions p F) True p = Ok (l, Reg c m')"
proof (cases "fs_denied F l")
  case True
  with assms show ?thesis
    by (simp add: restrict_permissions_def try_os_def try_io_def chmod_def change_def)
next
  case False
  let ?F = "put_node F l (Reg c 384)"
  have F': "restrict_permissions p F = ?F"
    using assms False by (simp add: restrict_permissions_def try_os_def try_io_def chmod_def change_def set_mode_def)
  have n: "node_at F l = Some (Reg c m)" "locate F True p = Ok l"
    using assms by (auto simp: lookup_def split: sum.splits option.splits)
  then have "grown F ?F" "l \<noteq> []" by (auto simp: grown_put)
  then show ?thesis using n F' locate_grown [of F ?F True p l] by (simp add: lookup_def)
qed

lemma read_text_file: "read_text p F = (Ok s, F') \<longleftrightarrow> F' = F \<and> (\<exists>l m. lookup F True p = Ok (l, Reg (Text s) m))"
  by (auto simp: read_text_def split: sum.splits node.splits content.splits prod.splits)

lemma read_text_same: "snd (read_text p F) = F"
  by (simp add: read_text_def split: sum.splits node.splits content.splits prod.splits)

lemma lookup_exists: "lookup F True p = Ok (l, n) \<Longrightarrow> path_exists F p"
  by (simp add: path_exists_def stat_def)

lemma read_secret_Some:
  "read_secret p F = Some s \<longleftrightarrow>
     (\<exists>l raw m. lookup F True p = Ok (l, Reg (Text raw) m) \<and> from_hex (str_strip raw) = Some s \<and> length s = 32)"
  (is "?L \<longleftrightarrow> ?R")
proof
  assume ?L
  then obtain raw where r: "fst (read_text p F) = Ok raw" "from_hex (str_strip raw) = Some s" "length s = 32"
    by (auto simp: read_secret_def split: if_splits sum.splits option.splits)
  then have "read_text p F = (Ok raw, F)" using read_text_same [of p F] by (metis prod.collapse)
  then show ?R using r by (auto simp: read_text_file)
next
  assume ?R
  then obtain l raw m where r: "lookup F True p = Ok (l, Reg (Text raw) m)"
    "from_hex (str_strip raw) = Some s" "length s = 32" by blast
  then show ?L by (simp add: read_secret_def lookup_exists [OF r(1)] read_text_lookup [OF r(1)])
qed

lemma read_secret_restrict: "read_secret p F = Some s \<Longrightarrow> read_secret p (restrict_permissions p F) = Some s"
  unfolding read_secret_Some using restrict_permissions_lookup by metis

lemma hex_digit_not_space: "n < 16 \<Longrightarrow> \<not> char_space (hex_digit n)"
  by (auto simp: hex_digit_def char_space_def py_space_def)

lemma to_hex_not_space: "c \<in> set (to_hex bs) \<Longrightarrow> \<not> char_space c"
  by (auto simp: to_hex_def hex_digit_not_space less_mult_imp_div_less)

lemma dropWhile_none: "(\<And>c. c \<in> set xs \<Longrightarrow> \<not> sp c) \<Longrightarrow> dropWhile sp xs = xs"
  by (cases xs) auto

lemma strip_by_none: "(\<And>c. c \<in> set xs \<Longrightarrow> \<not> sp c) \<Longrightarrow> strip_by sp xs = xs"
  using dropWhile_none [of xs sp] dropWhile_none [of "rev xs" sp] by (simp add: strip_by_def)

lemma str_strip_to_hex [simp]: "str_strip (to_hex bs) = to_hex bs"
  unfolding str_strip_def by (rule strip_by_none) (rule to_hex_not_space)

lemma store_secret_lookup:
  assumes "writable p F"
  shows "\<exists>l m. lookup (store_secret p s F) True p = Ok (l, Reg (Text s) m)"
proof -
  obtain F1 where w: "write_text p s F = (Ok (), F1)"
    using write_text_writable [OF assms, of s] by (cases "write_text p s F") auto
  then obtain l m where "lookup F1 True p = Ok (l, Reg (Text s) m)"
    unfolding write_text_def using write_content_Ok by blast
  then show ?thesis using restrict_permissions_lookup w by (fastforce simp: store_secret_def)
qed

text \<open>A vault whose next request yields the secret \<open>s\<close> without drawing anything.\<close>

definition holds_secret :: "path \<Rightarrow> fsys \<Rightarrow> bytes \<Rightarrow> bool" where
  "holds_secret p F s \<longleftrightarrow> read_secret p F = Some s"

lemma load_settled:
  "holds_secret p (v_fs V) s \<Longrightarrow>
     \<exists>V'. load_or_create_master_secret rnd p V = (s, V') \<and> holds_secret p (v_fs V') s \<and> v_pos V' = v_pos V"
  by (simp add: load_or_create_master_secret_def holds_secret_def read_secret_restrict)

lemma load_settles:
  assumes "read_secret p (v_fs V) \<noteq> None \<or> writable p (v_fs V)"
  shows "\<exists>s V'. load_or_create_master_secret rnd p V = (s, V') \<and> holds_secret p (v_fs V') s \<and> length s = 32"
proof (cases "read_secret p (v_fs V)")
  case (Some s)
  then have "length s = 32" by (auto simp: read_secret_Some)
  with Some load_settled [of p V s rnd] show ?thesis by (auto simp: holds_secret_def)
next
  case None
  let ?s = "map rnd [v_pos V ..< v_pos V + 32]"
  from None assms have "writable p (v_fs V)" by simp
  from store_secret_lookup [OF this, of "to_hex ?s"]
  have "holds_secret p (store_secret p (to_hex ?s) (v_fs V)) ?s"
    by (auto simp: holds_secret_def read_secret_Some)
  with None show ?thesis by (simp add: load_or_create_master_secret_def token_bytes_def)
qed

text \<open>
  the first request of the master secret fixes it: when a valid key file exists or one can be
  written, every later request returns the same 32 bytes, draws no randomness and leaves the key
  file valid, whatever the source of random bytes does in between.
\<close>

theorem master_secret_is_stable:
  assumes "read_secret p (v_fs V) \<noteq> None \<or> writable p (v_fs V)"
    and "load_or_create_master_secret rnd p V = (s, V1)"
    and "v_fs W = v_fs V1"
  shows "length s = 32 \<and> fst (load_or_create_master_secret rnd' p W) = s
    \<and> v_pos (snd (load_or_create_master_secret rnd' p W)) = v_pos W
    \<and> read_secret p (v_fs (snd (load_or_create_master_secret rnd' p W))) = Some s"
proof -
  from load_settles [OF assms(1), of rnd] assms(2) have s: "holds_secret p (v_fs V1) s" "length s = 32"
    by auto
  then obtain W' where "load_or_create_master_secret rnd' p W = (s, W')" "holds_secret p (v_fs W') s" "v_pos W' = v_pos W"
    using load_settled [of p W s rnd'] assms(3) by auto
  with s show ?thesis by (simp add: holds_secret_def)
qed

text \<open>
  with a key file that is neither valid nor writable every request draws a fresh secret and
  nothing on disk changes, so two requests of one run return two different slices of the random
  source (\<open>keystore.py\<close> speaks of one ephemeral secret per run).
\<close>

theorem unwritable_key_is_redrawn:
  assumes "read_secret p (v_fs V) = None" "\<not> writable p (v_fs V)"
  shows "load_or_create_master_secret rnd p V =
           (map rnd [v_pos V ..< v_pos V + 32], V\<lparr>v_pos := v_pos V + 32\<rparr>)
    \<and> fst (load_or_create_master_secret rnd p (snd (load_or_create_master_secret rnd p V)))
        = map rnd [v_pos V + 32 ..< v_pos V + 64]"
proof -
  have u: "store_secret p t (v_fs V) = v_fs V" for t
    using write_text_unwritable [OF assms(2), of t] by (auto simp: store_secret_def)
  have "64 + v_pos V = v_pos V + 64" by simp
  then show ?thesis using assms(1) u
    by (simp add: load_or_create_master_secret_def token_bytes_def add.commute)
qed

definition demo_key :: path where "demo_key = Path ''/'' [''.zmux_master_key'']"
definition demo_vault :: vault where
  "demo_vault = \<lparr>v_fs = \<lparr>fs_table = [], fs_denied = (\<lambda>_. False), fs_log = [], fs_serial = 0\<rparr>, v_pos = 0\<rparr>"
definition locked_vault :: vault where
  "locked_vault = \<lparr>v_fs = \<lparr>fs_table = [], fs_denied = (\<lambda>_. True), fs_log = [], fs_serial = 0\<rparr>, v_pos = 0\<rparr>"

lemmas vault_eval = writable_def write_text_def write_content_def locate_def node_at_def change_def
  link_limit_def demo_key_def demo_vault_def locked_vault_def

lemma demo_vault_writable: "writable demo_key (v_fs demo_vault)"
  by (simp add: vault_eval)

theorem master_secret_is_stable_witness:
  "fst (load_or_create_master_secret (\<lambda>_. 7) demo_key (snd (load_or_create_master_secret (\<lambda>_. 5) demo_key demo_vault)))
     = fst (load_or_create_master_secret (\<lambda>_. 5) demo_key demo_vault)"
  using master_secret_is_stable [of demo_key demo_vault "\<lambda>_. 5"
      "fst (load_or_create_master_secret (\<lambda>_. 5) demo_key demo_vault)"
      "snd (load_or_create_master_secret (\<lambda>_. 5) demo_key demo_vault)" _ "\<lambda>_. 7", OF _ _ refl]
  by (simp add: demo_vault_writable)

theorem unwritable_key_is_redrawn_witness:
  "fst (load_or_create_master_secret of_nat demo_key locked_vault) = map of_nat [0..<32]"
  using unwritable_key_is_redrawn [of demo_key locked_vault of_nat]
  by (simp add: vault_eval read_secret_def path_exists_def stat_def lookup_def)

section \<open>Envelopes\<close>

lemma decode_text_b:
  assumes "ascii_text s"
  shows "decode_text (b s) = Some s"
proof -
  have "utf8_strict (b s) = Some (map of_char s)"
    unfolding b_ascii [OF assms]
  proof (rule utf8_strict_encode)
    fix n assume "n \<in> set (map of_char s :: nat list)"
    then obtain c where "n = of_char c" by auto
    then show "scalar n" using of_char_lt [of c] unfolding scalar_def by linarith
  qed
  then show ?thesis by (simp add: decode_text_def comp_def)
qed

lemma ascii_json_dumps_compact: "json_plain v \<Longrightarrow> ascii_text (json_dumps_compact v)"
  by (simp add: json_dumps_compact_def ascii_json_print)

lemma derive_keys_settled:
  assumes "holds_secret p (v_fs V) s"
  shows "\<exists>V'. derive_keys rnd p nonce V =
      ((take 32 (pbkdf2_64 s nonce PBKDF2_ROUNDS), drop 32 (pbkdf2_64 s nonce PBKDF2_ROUNDS)), V')"
  using load_settled [OF assms, of rnd] by (auto simp: derive_keys_def Let_def)

lemma derive_keys_settles:
  assumes "read_secret p (v_fs V) \<noteq> None \<or> writable p (v_fs V)"
  shows "\<exists>s V'. derive_keys rnd p nonce V =
      ((take 32 (pbkdf2_64 s nonce PBKDF2_ROUNDS), drop 32 (pbkdf2_64 s nonce PBKDF2_ROUNDS)), V')
    \<and> holds_secret p (v_fs V') s"
  using load_settles [OF assms, of rnd] by (auto simp: derive_keys_def Let_def)

text \<open>The envelope under a nonce and the material derived for it.\<close>

definition seal :: "bytes \<Rightarrow> bytes \<Rightarrow> bytes \<Rightarrow> bytes \<Rightarrow> string" where
  "seal nonce material ks plaintext =
     (let ciphertext = xor_bytes plaintext ks
      in json_dumps (PDict [(''v'', PInt 1), (''nonce'', PStr (to_hex nonce)), (''data'', PStr (to_hex ciphertext)),
           (''tag'', PStr (to_hex (hmac_sha256 (drop 32 material) (nonce @ ciphertext))))]))"

lemma decrypt_sealed:
  assumes "holds_secret p (v_fs V) s" "length nonce = 16" "json_plain (PDict data)"
    and "keystream (take 32 (pbkdf2_64 s nonce PBKDF2_ROUNDS)) (length (json_dumps_compact (PDict data))) = Ok ks"
    and "length ks = length (json_dumps_compact (PDict data))"
  shows "fst (decrypt_payload rnd p
    (seal nonce (pbkdf2_64 s nonce PBKDF2_ROUNDS) ks (b (json_dumps_compact (PDict data)))) V) = data"
proof -
  let ?pt = "b (json_dumps_compact (PDict data))"
  obtain V' where k: "derive_keys rnd p nonce V =
      ((take 32 (pbkdf2_64 s nonce PBKDF2_ROUNDS), drop 32 (pbkdf2_64 s nonce PBKDF2_ROUNDS)), V')"
    using derive_keys_settled [OF assms(1)] by blast
  have x: "xor_bytes (xor_bytes ?pt ks) ks = ?pt" using assms(5) by (intro xor_bytes_twice) simp
  have d: "decode_text ?pt = Some (json_dumps_compact (PDict data))"
    by (rule decode_text_b, rule ascii_json_dumps_compact) (rule assms(3))
  have j: "json_loads (seal nonce (pbkdf2_64 s nonce PBKDF2_ROUNDS) ks ?pt) =
      Ok (PDict [(''v'', PInt 1), (''nonce'', PStr (to_hex nonce)), (''data'', PStr (to_hex (xor_bytes ?pt ks))),
           (''tag'', PStr (to_hex (hmac_sha256 (drop 32 (pbkdf2_64 s nonce PBKDF2_ROUNDS)) (nonce @ xor_bytes ?pt ks))))])"
    by (simp add: seal_def Let_def)
  have "json_loads (json_dumps_compact (PDict data)) = Ok (PDict data)"
    using assms(3) by (rule json_dumps_round_trip)
  then show ?thesis using assms(2,4,5) x d
    by (simp add: decrypt_payload_def j k eq_version_def FORMAT_VERSION_def hex_field_def
        NONCE_BYTES_def TAG_BYTES_def)
qed

lemma encrypt_then_decrypt:
  assumes "json_plain (PDict data)" "length (json_dumps_compact (PDict data)) \<le> 32 * 2 ^ 64"
    and "read_secret p (v_fs V) \<noteq> None \<or> writable p (v_fs V)"
  shows "\<exists>envelope V'. encrypt_payload rnd p data V = (Ok envelope, V')
    \<and> (\<forall>rnd' W. v_fs W = v_fs V' \<longrightarrow> fst (decrypt_payload rnd' p envelope W) = data)"
proof -
  let ?pt = "json_dumps_compact (PDict data)"
  let ?nonce = "map rnd [v_pos V ..< v_pos V + NONCE_BYTES]"
  let ?V1 = "V\<lparr>v_pos := v_pos V + NONCE_BYTES\<rparr>"
  obtain s V' where s: "derive_keys rnd p ?nonce ?V1 =
      ((take 32 (pbkdf2_64 s ?nonce PBKDF2_ROUNDS), drop 32 (pbkdf2_64 s ?nonce PBKDF2_ROUNDS)), V')"
    "holds_secret p (v_fs V') s"
    using derive_keys_settles [of p ?V1 rnd ?nonce] assms(3) by auto
  obtain ks where ks: "keystream (take 32 (pbkdf2_64 s ?nonce PBKDF2_ROUNDS)) (length ?pt) = Ok ks" "length ks = length ?pt"
    using keystream_Ok [OF assms(2)] by blast
  have e: "encrypt_payload rnd p data V = (Ok (seal ?nonce (pbkdf2_64 s ?nonce PBKDF2_ROUNDS) ks (b ?pt)), V')"
    using s(1) ks(1) by (simp add: encrypt_payload_def token_bytes_def Let_def seal_def FORMAT_VERSION_def)
  have "fst (decrypt_payload rnd' p (seal ?nonce (pbkdf2_64 s ?nonce PBKDF2_ROUNDS) ks (b ?pt)) W) = data"
    if "v_fs W = v_fs V'" for rnd' W
    using that s(2) assms(1) ks by (intro decrypt_sealed) (simp_all add: NONCE_BYTES_def)
  with e show ?thesis by blast
qed



text \<open>
  C7: nothing unauthenticated is ever returned: a non-empty result comes from an envelope of
  version 1 with a 16-byte nonce whose tag is the HMAC-SHA256, under this installation's key for
  that nonce, of the nonce and the ciphertext, and it is the JSON object the ciphertext holds.
\<close>

theorem decrypt_only_authentic:
  assumes "decrypt_payload rnd p envelope V = (d, V')" "d \<noteq> []"
  shows "\<exists>obj nonce ciphertext tag ks plaintext.
    json_loads envelope = Ok (PDict obj) \<and> eq_version (map_of obj ''v'')
    \<and> hex_field ''nonce'' obj = Some nonce \<and> hex_field ''data'' obj = Some ciphertext
    \<and> hex_field ''tag'' obj = Some tag \<and> length nonce = 16 \<and> length tag = 32
    \<and> tag = hmac_sha256
        (drop 32 (pbkdf2_64 (fst (load_or_create_master_secret rnd p V)) nonce PBKDF2_ROUNDS))
        (nonce @ ciphertext)
    \<and> keystream (take 32 (pbkdf2_64 (fst (load_or_create_master_secret rnd p V)) nonce PBKDF2_ROUNDS))
        (length ciphertext) = Ok ks
    \<and> decode_text (xor_bytes ciphertext ks) = Some plaintext \<and> json_loads plaintext = Ok (PDict d)"
proof -
  from assms obtain obj where o: "json_loads envelope = Ok (PDict obj)" "eq_version (map_of obj ''v'')"
    by (auto simp: decrypt_payload_def split: sum.splits pyval.splits if_splits)
  with assms obtain nonce ciphertext tag where h: "hex_field ''nonce'' obj = Some nonce"
    "hex_field ''data'' obj = Some ciphertext" "hex_field ''tag'' obj = Some tag"
    by (auto simp: decrypt_payload_def split: option.splits)
  with o assms have l: "length nonce = 16" "length tag = 32"
    by (auto simp: decrypt_payload_def NONCE_BYTES_def TAG_BYTES_def split: if_splits)
  obtain s V1 where s: "load_or_create_master_secret rnd p V = (s, V1)" by (cases "load_or_create_master_secret rnd p V")
  then have k: "derive_keys rnd p nonce V =
      ((take 32 (pbkdf2_64 s nonce PBKDF2_ROUNDS), drop 32 (pbkdf2_64 s nonce PBKDF2_ROUNDS)), V1)"
    by (simp add: derive_keys_def Let_def)
  have t: "tag = hmac_sha256 (drop 32 (pbkdf2_64 s nonce PBKDF2_ROUNDS)) (nonce @ ciphertext)"
    using o h l k assms by (simp add: decrypt_payload_def NONCE_BYTES_def TAG_BYTES_def split: if_splits)
  then have "\<exists>ks plaintext. keystream (take 32 (pbkdf2_64 s nonce PBKDF2_ROUNDS)) (length ciphertext) = Ok ks
    \<and> decode_text (xor_bytes ciphertext ks) = Some plaintext \<and> json_loads plaintext = Ok (PDict d)"
    using o h l k assms
    by (simp add: decrypt_payload_def NONCE_BYTES_def TAG_BYTES_def split: sum.splits option.splits pyval.splits)
  with o h l s t show ?thesis by auto
qed

theorem decrypt_only_authentic_witness:
  "\<exists>envelope V1 obj nonce ciphertext tag.
    decrypt_payload of_nat demo_key envelope V1 = ([(''tab'', PInt 3)], snd (decrypt_payload of_nat demo_key envelope V1))
    \<and> json_loads envelope = Ok (PDict obj) \<and> hex_field ''nonce'' obj = Some nonce
    \<and> hex_field ''data'' obj = Some ciphertext \<and> hex_field ''tag'' obj = Some tag \<and> length nonce = 16
    \<and> tag = hmac_sha256
        (drop 32 (pbkdf2_64 (fst (load_or_create_master_secret of_nat demo_key V1)) nonce PBKDF2_ROUNDS))
        (nonce @ ciphertext)"
proof -
  obtain envelope V1 where "encrypt_payload of_nat demo_key [(''tab'', PInt 3)] demo_vault = (Ok envelope, V1)"
    and e: "fst (decrypt_payload of_nat demo_key envelope V1) = [(''tab'', PInt 3)]"
    using encrypt_then_decrypt [of "[(''tab'', PInt 3)]" demo_key demo_vault of_nat]
      demo_vault_writable by (fastforce simp: json_dumps_compact_def json_str_def json_escape_def int_str_def nat_str.simps)
  then have d: "decrypt_payload of_nat demo_key envelope V1
      = ([(''tab'', PInt 3)], snd (decrypt_payload of_nat demo_key envelope V1))"
    by (metis prod.collapse)
  show ?thesis using decrypt_only_authentic [OF d] d by blast
qed

text \<open>An envelope that is no JSON object, or has another version, changes nothing and gives nothing.\<close>

lemma decrypt_rejects:
  "(\<And>obj. json_loads envelope = Ok (PDict obj) \<Longrightarrow> \<not> eq_version (map_of obj ''v'')) \<Longrightarrow>
     decrypt_payload rnd p envelope V = ([], V)"
  by (simp add: decrypt_payload_def split: sum.splits pyval.splits)

section \<open>The auth token\<close>

lemma read_token_Some:
  "read_token p F = Some t \<longleftrightarrow>
     (\<exists>l raw m. lookup F True p = Ok (l, Reg (Text raw) m) \<and> str_strip raw = t \<and> length t \<ge> 16)"
  (is "?L \<longleftrightarrow> ?R")
proof
  assume ?L
  then obtain raw where r: "fst (read_text p F) = Ok raw" "str_strip raw = t" "length t \<ge> 16"
    by (auto simp: read_token_def split: if_splits sum.splits)
  then have "read_text p F = (Ok raw, F)" using read_text_same [of p F] by (metis prod.collapse)
  then show ?R using r by (auto simp: read_text_file)
next
  assume ?R
  then obtain l raw m where r: "lookup F True p = Ok (l, Reg (Text raw) m)" "str_strip raw = t" "length t \<ge> 16" by blast
  then show ?L by (simp add: read_token_def lookup_exists [OF r(1)] read_text_lookup [OF r(1)])
qed

lemma ascii_hex_digit: "n < 16 \<Longrightarrow> (of_char (hex_digit n) :: nat) < 128"
  by (simp add: hex_digit_def)

lemma ascii_to_hex: "ascii_text (to_hex bs)"
  by (auto simp: to_hex_def ascii_text_def less_mult_imp_div_less intro!: ascii_hex_digit)

text \<open>
  the auth token persists: when the token file cannot be read as a token but can be written,
  the first start draws 16 random bytes and stores their 32 hexadecimal digits, every later start
  returns the same token without drawing, and \<open>verify_token\<close> accepts it and nothing else.
\<close>

theorem auth_token_persists:
  assumes "read_token p (v_fs V) = None" "writable p (v_fs V)"
    and "load_or_create_token rnd p V = (t, V1)"
  shows "t = to_hex (map rnd [v_pos V ..< v_pos V + 16])
    \<and> fst (load_or_create_token rnd' p V1) = t \<and> v_pos (snd (load_or_create_token rnd' p V1)) = v_pos V1
    \<and> (\<forall>x. verify_auth_token t x = Ok True \<longleftrightarrow> x = t)"
proof -
  have t: "t = to_hex (map rnd [v_pos V ..< v_pos V + 16])"
    and F: "v_fs V1 = store_secret p t (v_fs V)"
    using assms(1,3) by (auto simp: load_or_create_token_def token_bytes_def)
  have len: "length t = 32" using t by simp
  have s: "str_strip t = t" using t by simp
  from store_secret_lookup [OF assms(2), of t] F have "read_token p (v_fs V1) = Some t"
    unfolding read_token_Some using len s by auto
  moreover have "t \<noteq> ''''" using len by auto
  moreover have "ascii_text t" using t ascii_to_hex by simp
  ultimately show ?thesis using t
    by (auto simp: load_or_create_token_def verify_auth_token_def)
qed

theorem auth_token_persists_witness:
  "fst (load_or_create_token (\<lambda>_. 1) demo_key (snd (load_or_create_token of_nat demo_key demo_vault)))
     = to_hex (map of_nat [0..<16])"
  using auth_token_persists [of demo_key demo_vault of_nat _ _ "\<lambda>_. 1", OF _ _ prod.collapse [symmetric]]
    demo_vault_writable
  by (simp add: read_token_def path_exists_def stat_def lookup_def vault_eval)

text \<open>A token file with a non-ASCII character makes every verification raise.\<close>

lemma non_ascii_token_raises: "\<not> ascii_text t \<Longrightarrow> x \<noteq> '''' \<Longrightarrow> verify_auth_token t x = Err TypeError"
  by (simp add: verify_auth_token_def)

end
