(* ===== verification/Shlex.thy ===== *)
theory Shlex
  imports PathLib
begin

text \<open>
  Python's \<open>shlex\<close> as the components use it: the POSIX lexer behind \<open>shlex.split\<close> (no comment
  character, no punctuation) and behind \<open>shlex.shlex(line, posix=True, punctuation_chars="|<>")\<close>
  with \<open>whitespace_split\<close> (comments on), \<open>shlex.quote\<close> and \<open>shlex.join\<close>; the lexers undo
  \<open>join\<close>, whatever the arguments.
\<close>

section \<open>The lexer\<close>

datatype lex_state = Blank | Word | Punct | Quote char | Escape "char option"

definition shlex_space :: "char \<Rightarrow> bool" where
  "shlex_space c \<longleftrightarrow> c = CHR '' '' \<or> c = CHR 0x09 \<or> c = CHR 0x0D \<or> c = CHR 0x0A"

abbreviation (input) SQ :: char where "SQ \<equiv> CHR 0x27"
abbreviation (input) DQ :: char where "DQ \<equiv> CHR 0x22"
abbreviation (input) BSL :: char where "BSL \<equiv> CHR 0x5C"

definition skip_comment :: "string \<Rightarrow> string" where
  "skip_comment s = drop 1 (dropWhile (\<lambda>c. c \<noteq> CHR 0x0A) s)"

definition emit_tok :: "string \<Rightarrow> bool \<Rightarrow> exn + string list \<Rightarrow> exn + string list" where
  "emit_tok tok q r = (if tok \<noteq> '''' \<or> q then map_sum id (Cons tok) r else r)"

lemma length_skip_comment: "length (skip_comment s) \<le> length s"
  using length_dropWhile_le [of "\<lambda>c. c \<noteq> CHR 0x0A" s] by (simp add: skip_comment_def)

text \<open>\<open>shlex_lex punct comments state token quoted rest\<close>.\<close>

function shlex_lex :: "string \<Rightarrow> bool \<Rightarrow> lex_state \<Rightarrow> string \<Rightarrow> bool \<Rightarrow> string \<Rightarrow> exn + string list" where
  "shlex_lex P cm st tok q [] =
     (case st of Quote _ \<Rightarrow> Err (ValueError ''No closing quotation'')
      | Escape _ \<Rightarrow> Err (ValueError ''No escaped character'')
      | _ \<Rightarrow> emit_tok tok q (Ok []))"
| "shlex_lex P cm Blank tok q (c # cs) =
     (if shlex_space c then emit_tok tok q (shlex_lex P cm Blank '''' False cs)
      else if cm \<and> c = CHR ''#'' then shlex_lex P cm Blank tok q (skip_comment cs)
      else if c = BSL then shlex_lex P cm (Escape None) tok q cs
      else if c \<in> set P then shlex_lex P cm Punct [c] q cs
      else if c = SQ \<or> c = DQ then shlex_lex P cm (Quote c) tok q cs
      else shlex_lex P cm Word [c] q cs)"
| "shlex_lex P cm (Quote d) tok q (c # cs) =
     (if c = d then shlex_lex P cm Word tok True cs
      else if c = BSL \<and> d = DQ then shlex_lex P cm (Escape (Some d)) tok True cs
      else shlex_lex P cm (Quote d) (tok @ [c]) True cs)"
| "shlex_lex P cm (Escape d) tok q (c # cs) =
     (case d of None \<Rightarrow> shlex_lex P cm Word (tok @ [c]) q cs
      | Some e \<Rightarrow> shlex_lex P cm (Quote e) (tok @ (if c \<noteq> BSL \<and> c \<noteq> e then [BSL, c] else [c])) q cs)"
| "shlex_lex P cm Word tok q (c # cs) =
     (if shlex_space c then emit_tok tok q (shlex_lex P cm Blank '''' False cs)
      else if cm \<and> c = CHR ''#'' then emit_tok tok q (shlex_lex P cm Blank '''' False (skip_comment cs))
      else if c = SQ \<or> c = DQ then shlex_lex P cm (Quote c) tok q cs
      else if c = BSL then shlex_lex P cm (Escape None) tok q cs
      else if c \<notin> set P then shlex_lex P cm Word (tok @ [c]) q cs
      else emit_tok tok q (shlex_lex P cm Blank '''' False (c # cs)))"
| "shlex_lex P cm Punct tok q (c # cs) =
     (if shlex_space c then emit_tok tok q (shlex_lex P cm Blank '''' False cs)
      else if cm \<and> c = CHR ''#'' then emit_tok tok q (shlex_lex P cm Blank '''' False (skip_comment cs))
      else if c \<in> set P then shlex_lex P cm Punct (tok @ [c]) q cs
      else emit_tok tok q (shlex_lex P cm Blank '''' False (c # cs)))"
  by pat_completeness auto
termination
  by (relation "measures [\<lambda>(P, cm, st, tok, q, s). length s, \<lambda>(P, cm, st, tok, q, s). if st = Blank then 0 else 1]")
    (auto simp: less_Suc_eq_le length_skip_comment)

definition shlex_split :: "string \<Rightarrow> exn + string list" where
  "shlex_split s = shlex_lex '''' False Blank '''' False s"

definition shlex_pipeline :: "string \<Rightarrow> exn + string list" where
  "shlex_pipeline s = shlex_lex ''|<>'' True Blank '''' False s"

section \<open>Quoting\<close>

definition ascii_word :: "char \<Rightarrow> bool" where
  "ascii_word c = (let n = of_char c :: nat in
     (48 \<le> n \<and> n \<le> 57) \<or> (65 \<le> n \<and> n \<le> 90) \<or> (97 \<le> n \<and> n \<le> 122) \<or> n = 95)"

definition quote_safe :: "char \<Rightarrow> bool" where
  "quote_safe c \<longleftrightarrow> ascii_word c \<or> c \<in> set ''@%+=:,./-''"

definition shlex_quote :: "string \<Rightarrow> string" where
  "shlex_quote s =
     (if s = '''' then [SQ, SQ]
      else if \<forall>c \<in> set s. quote_safe c then s
      else SQ # concat (map (\<lambda>c. if c = SQ then [SQ, DQ, SQ, DQ, SQ] else [c]) s) @ [SQ])"

definition shlex_join :: "string list \<Rightarrow> string" where
  "shlex_join args = join_with '' '' (map shlex_quote args)"

section \<open>The lexers undo join\<close>

lemma quote_safe_facts:
  assumes "quote_safe c"
  shows "\<not> shlex_space c" "c \<noteq> SQ" "c \<noteq> DQ" "c \<noteq> BSL" "c \<noteq> CHR ''#''" "c \<notin> set ''|<>''"
  using assms by (auto simp: quote_safe_def ascii_word_def shlex_space_def Let_def)

definition lexer_ok :: "string \<Rightarrow> bool" where
  "lexer_ok P \<longleftrightarrow> set P \<subseteq> set ''|<>''"

lemma lex_safe_word:
  assumes "lexer_ok P"
  shows "\<forall>c \<in> set s. quote_safe c \<Longrightarrow> shlex_lex P cm Word tok q (s @ rest) = shlex_lex P cm Word (tok @ s) q rest"
proof (induction s arbitrary: tok)
  case (Cons c s)
  then have "quote_safe c" by simp
  note quote_safe_facts [OF this]
  moreover from this have "c \<notin> set P" using assms by (auto simp: lexer_ok_def)
  ultimately show ?case using Cons by simp
qed simp

lemma lex_quoted:
  "shlex_lex P cm (Quote SQ) tok q (concat (map (\<lambda>c. if c = SQ then [SQ, DQ, SQ, DQ, SQ] else [c]) s) @ SQ # rest)
     = shlex_lex P cm Word (tok @ s) True rest"
proof (induction s arbitrary: tok q)
  case (Cons c s)
  show ?case
    by (cases "c = SQ") (simp_all add: shlex_space_def Cons)
qed simp

lemma lex_quote_word:
  assumes "lexer_ok P"
  shows "\<exists>q. shlex_lex P cm Blank '''' False (shlex_quote s @ rest) = shlex_lex P cm Word s q rest \<and> (s = '''' \<longrightarrow> q)"
proof -
  consider "s = ''''" | "s \<noteq> ''''" "\<forall>c \<in> set s. quote_safe c" | "s \<noteq> ''''" "\<not> (\<forall>c \<in> set s. quote_safe c)"
    by blast
  then show ?thesis
  proof cases
    case 1
    have "SQ \<notin> set P" using assms by (auto simp: lexer_ok_def)
    with 1 show ?thesis by (auto simp: shlex_quote_def shlex_space_def)
  next
    case 2
    then obtain c t where s: "s = c # t" by (cases s) auto
    with 2 have "quote_safe c" by simp
    note quote_safe_facts [OF this]
    moreover from this have "c \<notin> set P" using assms by (auto simp: lexer_ok_def)
    moreover have "shlex_lex P cm Word [c] False (t @ rest) = shlex_lex P cm Word (c # t) False rest"
      using lex_safe_word [OF assms, of t cm "[c]" False rest] 2 s by simp
    ultimately show ?thesis using 2 s by (auto simp: shlex_quote_def)
  next
    case 3
    have "SQ \<notin> set P" using assms by (auto simp: lexer_ok_def)
    then have "shlex_lex P cm Blank '''' False (shlex_quote s @ rest) = shlex_lex P cm Word s True rest"
      using 3 lex_quoted [of P cm "[]" False s rest] by (auto simp: shlex_quote_def shlex_space_def)
    then show ?thesis by blast
  qed
qed

lemma lex_word_end: "s \<noteq> '''' \<or> q \<Longrightarrow> shlex_lex P cm Word s q [] = Ok [s]"
  by (auto simp: emit_tok_def)

lemma lex_word_space:
  "s \<noteq> '''' \<or> q \<Longrightarrow> shlex_lex P cm Word s q (CHR '' '' # rest) = map_sum id (Cons s) (shlex_lex P cm Blank '''' False rest)"
  by (auto simp: emit_tok_def shlex_space_def)

lemma lex_join: "lexer_ok P \<Longrightarrow> shlex_lex P cm Blank '''' False (shlex_join args) = Ok args"
proof (induction args)
  case Nil
  then show ?case by (simp add: shlex_join_def emit_tok_def)
next
  case (Cons a args)
  show ?case
  proof (cases "args = []")
    case True
    obtain q where q: "shlex_lex P cm Blank '''' False (shlex_quote a @ []) = shlex_lex P cm Word a q []" "a = '''' \<longrightarrow> q"
      using lex_quote_word [OF Cons.prems] by blast
    from q(2) have "shlex_lex P cm Word a q [] = Ok [a]" by (intro lex_word_end) auto
    with q(1) True show ?thesis by (simp add: shlex_join_def)
  next
    case False
    let ?r = "CHR '' '' # shlex_join args"
    obtain q where q: "shlex_lex P cm Blank '''' False (shlex_quote a @ ?r) = shlex_lex P cm Word a q ?r" "a = '''' \<longrightarrow> q"
      using lex_quote_word [OF Cons.prems] by blast
    from q(2) have "shlex_lex P cm Word a q ?r = map_sum id (Cons a) (shlex_lex P cm Blank '''' False (shlex_join args))"
      by (intro lex_word_space) auto
    with q(1) False Cons show ?thesis by (simp add: shlex_join_def join_with_Cons)
  qed
qed

lemma shlex_split_join [simp]: "shlex_split (shlex_join args) = Ok args"
  by (simp add: shlex_split_def lex_join lexer_ok_def)

lemma shlex_pipeline_join [simp]: "shlex_pipeline (shlex_join args) = Ok args"
  by (simp add: shlex_pipeline_def lex_join lexer_ok_def)

text \<open>The two lexers disagree on an unquoted hash: only the pipeline lexer drops the rest of the line.\<close>

lemma lexers_differ:
  "shlex_split ''grep a#b f'' = Ok [''grep'', ''a#b'', ''f'']"
  "shlex_pipeline ''grep a#b f'' = Ok [''grep'', ''a'']"
  by (simp_all add: shlex_split_def shlex_pipeline_def shlex_space_def emit_tok_def skip_comment_def)

end
