(* ===== verification/HostEnv.thy ===== *)
theory HostEnv
  imports FileSys Shlex
begin

text \<open>
  The host side of the runtime: \<open>zmux/command_registry.py\<close> (the command sets),
  \<open>zmux/paths.py\<close> (choice of the application directory, \<open>PATH\<close> maintenance under Android's W^X
  rule, generated command wrappers, the legacy start-up file) and \<open>zmux/env.py\<close> (the
  environment of child processes).  \<open>os.environ\<close> is a map from names to values; the directories
  the module constants hold are arguments.
\<close>

section \<open>Command registry\<close>

definition PRIMARY_COMMANDS :: "string list" where
  "PRIMARY_COMMANDS = [''help'', ''clear'', ''zmux-setup-storage'', ''linux-setup'']"

definition DIAGNOSTIC_COMMANDS :: "string list" where
  "DIAGNOSTIC_COMMANDS = [''zmux-info'', ''gates'', ''zmux-pty-probe'']"

definition LEGACY_COMPAT_COMMANDS :: "string list" where
  "LEGACY_COMPAT_COMMANDS = [''zpip'', ''pip'', ''linux'']"

definition LEGACY_ALIAS_COMMANDS :: "string list" where
  "LEGACY_ALIAS_COMMANDS = [''alpine'']"

definition WRAPPER_COMMANDS :: "string list" where
  "WRAPPER_COMMANDS = PRIMARY_COMMANDS @ DIAGNOSTIC_COMMANDS @ LEGACY_COMPAT_COMMANDS"

definition ACCEPTED_COMMANDS :: "string list" where
  "ACCEPTED_COMMANDS = WRAPPER_COMMANDS @ LEGACY_ALIAS_COMMANDS"

definition command_category :: "string \<Rightarrow> string" where
  "command_category c =
     (if c \<in> set PRIMARY_COMMANDS then ''primary''
      else if c \<in> set DIAGNOSTIC_COMMANDS then ''diagnostic''
      else if c \<in> set LEGACY_COMPAT_COMMANDS \<or> c \<in> set LEGACY_ALIAS_COMMANDS then ''legacy''
      else ''unknown'')"

lemmas registry_defs = PRIMARY_COMMANDS_def DIAGNOSTIC_COMMANDS_def LEGACY_COMPAT_COMMANDS_def
  LEGACY_ALIAS_COMMANDS_def WRAPPER_COMMANDS_def ACCEPTED_COMMANDS_def

lemma category_unknown_iff: "command_category c = ''unknown'' \<longleftrightarrow> c \<notin> set ACCEPTED_COMMANDS"
  by (auto simp: command_category_def registry_defs)

lemma registry_distinct: "distinct ACCEPTED_COMMANDS"
  by (simp add: registry_defs)

section \<open>Environment lookups\<close>

type_synonym environ = "string \<Rightarrow> string option"

definition env_get :: "environ \<Rightarrow> string \<Rightarrow> string \<Rightarrow> string" where
  "env_get env k d = (case env k of None \<Rightarrow> d | Some v \<Rightarrow> v)"

definition android_exec_blocked :: "environ \<Rightarrow> bool" where
  "android_exec_blocked env =
     list_ex (\<lambda>k. env k \<noteq> None)
       [''ANDROID_PRIVATE'', ''ANDROID_ARGUMENT'', ''ANDROID_APP_PATH'', ''ZMUX_NATIVE_LIBRARY_DIR'']"

section \<open>The application directory\<close>

definition is_writable :: "path \<Rightarrow> bool io" where
  "is_writable p =
     (let test_file = child p ''.zmux_write_test''
      in try_os
          (seq_io (mkdir_parents p)
          (seq_io (write_text test_file ''ok'')
          (seq_io (unlink_missing_ok test_file) (ret True)))) False)"

definition is_chaquopy_asset_dir :: "path \<Rightarrow> bool" where
  "is_chaquopy_asset_dir p =
     (let ps = map lower (path_parts p) in ''chaquopy'' \<in> set ps \<and> ''assetfinder'' \<in> set ps)"

fun first_writable :: "string list \<Rightarrow> path option io" where
  "first_writable [] = ret None"
| "first_writable (v # vs) =
     (if v = '''' then first_writable vs
      else bind_io (is_writable (to_path v)) (\<lambda>ok.
        if ok then ret (Some (to_path v)) else first_writable vs))"

definition env_candidates :: "environ \<Rightarrow> string list" where
  "env_candidates env =
     map (\<lambda>k. env_get env k '''') [''ANDROID_PRIVATE'', ''ANDROID_ARGUMENT'', ''ANDROID_APP_PATH'']"

definition fallback_candidates :: "environ \<Rightarrow> string list" where
  "fallback_candidates env =
     [env_get env ''HOME'' '''', env_get env ''TMPDIR'' '''', ''/data/local/tmp/zmux'', ''/cache/zmux'', ''/tmp/zmux'']"

definition resolve_app_dir :: "environ \<Rightarrow> path \<Rightarrow> path io" where
  "resolve_app_dir env default_root =
     bind_io (first_writable (env_candidates env)) (\<lambda>r. case r of Some p \<Rightarrow> ret p | None \<Rightarrow>
     bind_io (if is_chaquopy_asset_dir default_root then ret False else is_writable default_root) (\<lambda>ok.
       if ok then ret default_root
       else bind_io (first_writable (fallback_candidates env)) (\<lambda>r. case r of
              Some p \<Rightarrow> ret p
            | None \<Rightarrow> ret default_root)))"

fun legacy_loop :: "fsys \<Rightarrow> path \<Rightarrow> path list \<Rightarrow> path list \<Rightarrow> path list" where
  "legacy_loop F app acc [] = acc"
| "legacy_loop F app acc (c # cs) =
     (if c = app \<or> c \<in> set acc then legacy_loop F app acc cs
      else if \<not> is_chaquopy_asset_dir c then legacy_loop F app acc cs
      else if is_dir F c then legacy_loop F app (acc @ [c]) cs
      else legacy_loop F app acc cs)"

definition legacy_app_dir_candidates :: "fsys \<Rightarrow> path \<Rightarrow> path \<Rightarrow> path list" where
  "legacy_app_dir_candidates F app package_root =
     legacy_loop F app [] [package_root, child (child (child app ''chaquopy'') ''AssetFinder'') ''app'']"

section \<open>PATH\<close>

abbreviation (input) PSEP :: char where "PSEP \<equiv> CHR '':''"

definition SYSTEM_PATHS :: "string list" where
  "SYSTEM_PATHS = [''/system/bin'', ''/system/xbin'', ''/vendor/bin'', ''/sbin'', ''/bin'', ''/usr/bin'']"

definition bin_dir :: "path \<Rightarrow> path" where "bin_dir app = child app ''bin''"

definition in_sandbox :: "path \<Rightarrow> string \<Rightarrow> bool" where
  "in_sandbox app entry \<longleftrightarrow>
     entry = path_str (bin_dir app) \<or> startswith entry (path_str app @ ''/'')"

fun path_loop :: "bool \<Rightarrow> path \<Rightarrow> string set \<Rightarrow> string list \<Rightarrow> string list \<Rightarrow> string list" where
  "path_loop blocked app seen acc [] = acc"
| "path_loop blocked app seen acc (e # es) =
     (if blocked \<and> e \<noteq> '''' \<and> in_sandbox app e then path_loop blocked app seen acc es
      else if e \<noteq> '''' \<and> e \<notin> seen then path_loop blocked app (insert e seen) (acc @ [e]) es
      else path_loop blocked app seen acc es)"

definition inherited_entries :: "environ \<Rightarrow> string list" where
  "inherited_entries env =
     (let p = env_get env ''PATH'' '''' in if p = '''' then [] else split_on PSEP p)"

definition path_entries :: "environ \<Rightarrow> path \<Rightarrow> string list \<Rightarrow> string list" where
  "path_entries env app extra =
     (let blocked = android_exec_blocked env
      in path_loop blocked app {} []
           ((if blocked then [] else [path_str (bin_dir app)]) @ extra @ SYSTEM_PATHS @ inherited_entries env))"

definition build_path :: "environ \<Rightarrow> path \<Rightarrow> string list \<Rightarrow> string" where
  "build_path env app extra = join_with '':'' (path_entries env app extra)"

definition legacy_user_packages_pythonpath :: "path \<Rightarrow> string \<Rightarrow> string" where
  "legacy_user_packages_pythonpath app existing =
     join_with '':'' (path_str (child app ''user_packages'') # (if existing = '''' then [] else [existing]))"

definition build_env :: "environ \<Rightarrow> path \<Rightarrow> path option \<Rightarrow> environ" where
  "build_env env app cwd =
     (let home = child app ''home'';
          pwd = (case cwd of None \<Rightarrow> home | Some c \<Rightarrow> c)
      in env(''HOME'' \<mapsto> path_str home, ''PWD'' \<mapsto> path_str pwd, ''TERM'' \<mapsto> ''xterm-256color'',
             ''COLORTERM'' \<mapsto> ''truecolor'', ''LANG'' \<mapsto> ''C.UTF-8'', ''LC_ALL'' \<mapsto> ''C.UTF-8'',
             ''PATH'' \<mapsto> build_path env app [], ''TMPDIR'' \<mapsto> path_str (child (parent_path home) ''cache''),
             ''PYTHONPATH'' \<mapsto> legacy_user_packages_pythonpath app (env_get env ''PYTHONPATH'' ''''),
             ''ZMUX'' \<mapsto> ''1''))"

definition prepend_to_path :: "path \<Rightarrow> environ \<Rightarrow> environ" where
  "prepend_to_path d env =
     (let entry = path_str d; current = env_get env ''PATH'' '''';
          ps = (if current = '''' then [] else split_on PSEP current)
      in if entry \<in> set ps then env
         else env(''PATH'' \<mapsto> entry @ (if current = '''' then '''' else '':'' @ current)))"

definition scrub_exec_blocked_path :: "path \<Rightarrow> environ \<Rightarrow> environ" where
  "scrub_exec_blocked_path app env =
     (let current = env_get env ''PATH'' ''''
      in if current = '''' then env
         else let kept = filter (\<lambda>e. e \<noteq> '''' \<and> \<not> in_sandbox app e) (split_on PSEP current);
                  joined = join_with '':'' kept
              in if joined \<noteq> current then env(''PATH'' \<mapsto> joined) else env)"

section \<open>Command wrappers and start-up files\<close>

definition LF1 :: string where "LF1 = [CHR 0x0A]"

definition wrapper_text :: "string \<Rightarrow> string" where
  "wrapper_text app_dir =
     ''#!/system/bin/sh'' @ LF1 @
     ''# ZMUX CLI wrapper '' @ [CHR 0xE2, CHR 0x80, CHR 0x94] @ '' auto-generated by zmux.paths.ensure_cli_wrappers().'' @ LF1 @
     ''# Do not edit manually; this file is rewritten on every app start.'' @ LF1 @
     ''export PYTHONPATH='' @ app_dir @ [DQ] @ ''${PYTHONPATH:+:$PYTHONPATH}'' @ [DQ] @ LF1 @
     ''if command -v python >/dev/null 2>&1; then'' @ LF1 @
     ''    exec python -m zmux.cli '' @ [DQ] @ ''$0'' @ [DQ] @ '' '' @ [DQ] @ ''$@'' @ [DQ] @ LF1 @
     ''fi'' @ LF1 @
     ''if command -v python3 >/dev/null 2>&1; then'' @ LF1 @
     ''    exec python3 -m zmux.cli '' @ [DQ] @ ''$0'' @ [DQ] @ '' '' @ [DQ] @ ''$@'' @ [DQ] @ LF1 @
     ''fi'' @ LF1 @
     ''echo '' @ [DQ] @ ''zmux: Python runtime not found on PATH'' @ [DQ] @ '' >&2'' @ LF1 @
     ''exit 127'' @ LF1"

definition ensure_wrapper :: "path \<Rightarrow> string \<Rightarrow> string \<Rightarrow> unit io" where
  "ensure_wrapper app text nm =
     (let wrapper = child (bin_dir app) nm
      in bind_io
           (try_os (bind_io (ask (\<lambda>F. path_exists F wrapper)) (\<lambda>ex.
              if ex then bind_io (read_text wrapper) (\<lambda>s. ret (Some s)) else ret None)) None) (\<lambda>current.
         seq_io (if current \<noteq> Some text then write_text wrapper text else ret ())
                (chmod wrapper 493)))"

fun each_io :: "('a \<Rightarrow> unit io) \<Rightarrow> 'a list \<Rightarrow> unit io" where
  "each_io f [] = ret ()"
| "each_io f (x # xs) = seq_io (f x) (each_io f xs)"

definition ensure_cli_wrappers :: "path \<Rightarrow> path \<Rightarrow> environ \<Rightarrow> (path \<times> environ) io" where
  "ensure_cli_wrappers app package_root env =
     seq_io (mkdir_parents (bin_dir app))
    (seq_io (each_io (ensure_wrapper app (wrapper_text (shlex_quote (path_str package_root)))) WRAPPER_COMMANDS)
    (ret (bin_dir app,
          if android_exec_blocked env then scrub_exec_blocked_path app env
          else prepend_to_path (bin_dir app) env)))"

definition rc_lines :: "string \<Rightarrow> string list" where
  "rc_lines raw =
     filter (\<lambda>l. l \<noteq> '''' \<and> \<not> startswith l ''#'') (map str_strip (splitlines raw))"

definition read_rc_lines :: "path \<Rightarrow> string list io" where
  "read_rc_lines home =
     try_io (bind_io (read_text (child home ''.zmuxrc'')) (\<lambda>raw. ret (rc_lines raw)))
       (\<lambda>e. if is_oserror e \<or> e = ValueError ''invalid utf-8'' then ret [] else raise e)"

definition seed_examples :: "path \<Rightarrow> (string \<times> string) list \<Rightarrow> path option io" where
  "seed_examples home scripts =
     try_os (bind_io (ask (\<lambda>F. path_exists F (child home ''.examples_seeded''))) (\<lambda>ex.
       if ex then ret None
       else let target = child home ''examples''
            in seq_io (mkdir_parents target)
              (seq_io (each_io (\<lambda>(nm, text). write_text (child target nm) text) scripts)
              (seq_io (touch (child home ''.examples_seeded''))
              (ret (Some target)))))) None"

definition display_path :: "fsys \<Rightarrow> path \<Rightarrow> path \<Rightarrow> exn + string" where
  "display_path F cwd home =
     (case resolve_path F cwd of Err e \<Rightarrow> Err e
      | Ok c \<Rightarrow> (case resolve_path F home of Err e \<Rightarrow> Err e
          | Ok h \<Rightarrow> (case relative_to c h of
                None \<Rightarrow> Ok (path_str cwd)
              | Some rel \<Rightarrow> Ok (if path_str rel = ''.'' then ''~'' else ''~/'' @ path_str rel))))"

section \<open>PATH: what the loop computes\<close>

fun uniq :: "'a list \<Rightarrow> 'a list" where
  "uniq [] = []"
| "uniq (x # xs) = x # filter (\<lambda>y. y \<noteq> x) (uniq xs)"

lemma set_uniq [simp]: "set (uniq xs) = set xs"
  by (induction xs) auto

lemma distinct_uniq [simp]: "distinct (uniq xs)"
  by (induction xs) auto

lemma uniq_ne [simp]: "uniq xs = [] \<longleftrightarrow> xs = []"
  by (cases xs) auto

definition usable :: "bool \<Rightarrow> path \<Rightarrow> string \<Rightarrow> bool" where
  "usable blocked app e \<longleftrightarrow> e \<noteq> '''' \<and> \<not> (blocked \<and> in_sandbox app e)"

lemma usable_True: "usable True app = (\<lambda>e. e \<noteq> '''' \<and> \<not> in_sandbox app e)"
  by (auto simp: usable_def fun_eq_iff)

lemma path_loop_uniq:
  "path_loop blocked app seen acc es = acc @ filter (\<lambda>e. e \<notin> seen) (uniq (filter (usable blocked app) es))"
proof (induction blocked app seen acc es rule: path_loop.induct)
  case (2 blocked app seen acc e es)
  have f: "filter (\<lambda>x. x \<noteq> e) (filter (\<lambda>x. x \<notin> seen) ys) = filter (\<lambda>x. x \<notin> insert e seen) ys" for ys
    by (auto intro: filter_cong)
  show ?case
    using 2 by (auto simp: usable_def f filter_filter intro!: filter_cong)
qed simp

lemma path_entries_eq:
  "path_entries env app extra =
     uniq (filter (usable (android_exec_blocked env) app)
       ((if android_exec_blocked env then [] else [path_str (bin_dir app)]) @ extra @ SYSTEM_PATHS @ inherited_entries env))"
  by (simp add: path_entries_def path_loop_uniq Let_def)

lemma path_str_ne [simp]: "path_str p \<noteq> ''''"
  by (simp add: path_str_def Let_def)

lemma inherited_no_sep: "e \<in> set (inherited_entries env) \<Longrightarrow> PSEP \<notin> set e"
  using split_on_no_sep [of e PSEP] by (auto simp: inherited_entries_def Let_def split: if_splits)

lemma system_no_sep: "e \<in> set SYSTEM_PATHS \<Longrightarrow> PSEP \<notin> set e \<and> e \<noteq> ''''"
  by (auto simp: SYSTEM_PATHS_def)

text \<open>A list of separator-free, non-empty entries survives being written to PATH and read back.\<close>

lemma split_join_entries:
  "(\<And>e. e \<in> set es \<Longrightarrow> PSEP \<notin> set e) \<Longrightarrow> es \<noteq> [] \<Longrightarrow> split_on PSEP (join_with '':'' es) = es"
  by (rule split_on_join) auto

lemma join_entries_ne:
  "(\<And>e. e \<in> set es \<Longrightarrow> e \<noteq> '''') \<Longrightarrow> join_with '':'' es = '''' \<longleftrightarrow> es = []"
  by (cases es) (auto simp: join_with_def)

lemma path_entries_safe: "android_exec_blocked env \<Longrightarrow> e \<in> set (path_entries env app extra) \<Longrightarrow> \<not> in_sandbox app e"
  by (auto simp: path_entries_eq usable_def)

lemma not_in_sandbox_Nil [simp]: "\<not> in_sandbox app ''''"
  using path_str_ne [of "bin_dir app"] by (auto simp: in_sandbox_def startswith_def dest: sym)

lemma build_path_split:
  assumes "\<And>e. e \<in> set extra \<Longrightarrow> PSEP \<notin> set e" "PSEP \<notin> set (path_str (bin_dir app))"
  shows "split_on PSEP (build_path env app extra) =
    (if path_entries env app extra = [] then [''''] else path_entries env app extra)"
proof -
  have "PSEP \<notin> set e" if "e \<in> set (path_entries env app extra)" for e
    using that assms inherited_no_sep [of e env] system_no_sep [of e]
    by (auto simp: path_entries_eq split: if_splits)
  then show ?thesis by (simp add: build_path_def split_join_entries)
qed

text \<open>Scrubbing the process PATH: what is left, and that children see the same PATH either way.\<close>

definition scrubbed :: "path \<Rightarrow> environ \<Rightarrow> string list" where
  "scrubbed app env = filter (\<lambda>e. e \<noteq> '''' \<and> \<not> in_sandbox app e) (inherited_entries env)"

lemma filter_inherited_scrub:
  "filter (usable True app) (inherited_entries (scrub_exec_blocked_path app env)) = scrubbed app env"
proof (cases "env_get env ''PATH'' '''' = ''''")
  case True
  then show ?thesis by (simp add: scrub_exec_blocked_path_def inherited_entries_def scrubbed_def)
next
  case False
  let ?cur = "env_get env ''PATH'' ''''"
  let ?kept = "filter (\<lambda>e. e \<noteq> '''' \<and> \<not> in_sandbox app e) (split_on PSEP ?cur)"
  have k: "scrubbed app env = ?kept" using False by (simp add: scrubbed_def inherited_entries_def)
  have u: "filter (usable True app) (split_on PSEP ?cur) = ?kept" by (simp add: usable_True)
  have uk: "filter (usable True app) ?kept = ?kept" by (simp add: usable_True)
  have sep: "split_on PSEP (join_with '':'' ?kept) = ?kept" if "?kept \<noteq> []"
    using that by (intro split_join_entries) (auto dest: split_on_no_sep)
  have ne: "join_with '':'' ?kept = '''' \<longleftrightarrow> ?kept = []" by (intro join_entries_ne) auto
  show ?thesis
  proof (cases "join_with '':'' ?kept = ?cur")
    case True
    then have "scrub_exec_blocked_path app env = env" using False by (simp add: scrub_exec_blocked_path_def Let_def)
    with False u k show ?thesis by (simp add: inherited_entries_def)
  next
    case ch: False
    then have e: "env_get (scrub_exec_blocked_path app env) ''PATH'' '''' = join_with '':'' ?kept"
      using False by (simp add: scrub_exec_blocked_path_def Let_def env_get_def)
    show ?thesis
    proof (cases "?kept = []")
      case True
      then show ?thesis using e k by (simp add: inherited_entries_def)
    next
      case nk: False
      have "inherited_entries (scrub_exec_blocked_path app env) = ?kept"
        using e sep [OF nk] ne nk by (simp add: inherited_entries_def)
      then show ?thesis using uk k by simp
    qed
  qed
qed

lemma scrub_blocked [simp]: "android_exec_blocked (scrub_exec_blocked_path app env) = android_exec_blocked env"
  by (simp add: android_exec_blocked_def scrub_exec_blocked_path_def Let_def)

lemma build_path_after_scrub:
  assumes "android_exec_blocked env"
  shows "path_entries (scrub_exec_blocked_path app env) app extra = path_entries env app extra"
proof -
  have "filter (usable True app) (inherited_entries env) = scrubbed app env"
    by (simp add: scrubbed_def usable_True)
  then show ?thesis using assms filter_inherited_scrub [of app env] by (simp add: path_entries_eq)
qed

section \<open>Properties of the host environment\<close>

text \<open>
  Under Android's W^X rule no entry of the PATH handed to a child lies in the app sandbox,
  wherever it came from; off Android the command wrappers come first.  No entry is empty or
  repeated.
\<close>

theorem child_path_well_formed:
  assumes "\<And>e. e \<in> set extra \<Longrightarrow> PSEP \<notin> set e" "PSEP \<notin> set (path_str (bin_dir app))"
  shows "(if android_exec_blocked env then \<forall>e \<in> set (split_on PSEP (build_path env app extra)). \<not> in_sandbox app e
          else hd (split_on PSEP (build_path env app extra)) = path_str (bin_dir app)) \<and>
         distinct (split_on PSEP (build_path env app extra))"
proof -
  have sp: "split_on PSEP (build_path env app extra) =
      (if path_entries env app extra = [] then [''''] else path_entries env app extra)"
    using assms by (rule build_path_split)
  show ?thesis
  proof (cases "android_exec_blocked env")
    case True
    then show ?thesis by (auto simp: sp path_entries_safe path_entries_eq)
  next
    case False
    have "usable False app (path_str (bin_dir app))" by (simp add: usable_def)
    then have "path_entries env app extra \<noteq> [] \<and> hd (path_entries env app extra) = path_str (bin_dir app)"
      using False by (simp add: path_entries_eq)
    then show ?thesis using False by (simp add: sp) (simp add: path_entries_eq)
  qed
qed

definition demo_env :: environ where
  "demo_env = [''ANDROID_PRIVATE'' \<mapsto> ''/d'', ''PATH'' \<mapsto> ''/d/bin:/x::/bin'']"

lemma demo_blocked: "android_exec_blocked demo_env"
  by (simp add: android_exec_blocked_def demo_env_def)

lemma child_path_well_formed_witness:
  "filter (in_sandbox (Path ''/'' [''d''])) (split_on PSEP (build_path demo_env (Path ''/'' [''d'']) [])) = [] \<and>
   ''/x'' \<in> set (path_entries demo_env (Path ''/'' [''d'']) [])"
proof -
  have "PSEP \<notin> set (path_str (bin_dir (Path ''/'' [''d''])))"
    by (simp add: bin_dir_def path_str_def good_name_def join_with_def)
  then have "\<forall>e \<in> set (split_on PSEP (build_path demo_env (Path ''/'' [''d'']) [])). \<not> in_sandbox (Path ''/'' [''d'']) e"
    using child_path_well_formed [of "[]" "Path ''/'' [''d'']" demo_env] demo_blocked by simp
  moreover have "''/x'' \<in> set (path_entries demo_env (Path ''/'' [''d'']) [])"
    by (simp add: path_entries_eq demo_blocked)
      (simp add: demo_env_def inherited_entries_def env_get_def usable_def in_sandbox_def bin_dir_def path_str_def
        good_name_def join_with_def startswith_def)
  ultimately show ?thesis by (simp add: filter_empty_conv)
qed

lemma scrub_result:
  assumes "android_exec_blocked env" "env_get env ''PATH'' '''' \<noteq> ''''"
  shows "env_get (scrub_exec_blocked_path app env) ''PATH'' '''' = join_with '':'' (scrubbed app env)"
  using assms by (auto simp: scrub_exec_blocked_path_def scrubbed_def inherited_entries_def Let_def env_get_def)

lemma scrub_safe:
  assumes "android_exec_blocked env" "e \<in> set (inherited_entries (scrub_exec_blocked_path app env))"
  shows "\<not> in_sandbox app e"
proof (cases "env_get env ''PATH'' '''' = ''''")
  case True
  with assms show ?thesis by (simp add: scrub_exec_blocked_path_def inherited_entries_def)
next
  case False
  have "split_on PSEP (join_with '':'' (scrubbed app env)) = (if scrubbed app env = [] then [''''] else scrubbed app env)"
    using inherited_no_sep by (auto intro!: split_join_entries simp: scrubbed_def)
  with assms(2) scrub_result [OF assms(1) False, of app]
  have "e \<in> set (if scrubbed app env = [] then [''''] else scrubbed app env)"
    by (simp add: inherited_entries_def Let_def split: if_splits)
  then show ?thesis by (auto simp: scrubbed_def split: if_splits)
qed

text \<open>
  Scrubbing the process's own PATH removes every sandbox entry, is idempotent, and does not
  change the PATH that \<open>build_path\<close> hands to children.
\<close>

theorem scrub_preserves_child_path:
  assumes "android_exec_blocked env"
  shows "build_path (scrub_exec_blocked_path app env) app extra = build_path env app extra \<and>
         (\<forall>e \<in> set (inherited_entries (scrub_exec_blocked_path app env)). \<not> in_sandbox app e)"
  using build_path_after_scrub [OF assms] scrub_safe [OF assms] by (simp add: build_path_def)

lemma scrub_preserves_child_path_witness:
  "build_path (scrub_exec_blocked_path (Path ''/'' [''d'']) demo_env) (Path ''/'' [''d'']) [] =
     build_path demo_env (Path ''/'' [''d'']) [] \<and>
   env_get (scrub_exec_blocked_path (Path ''/'' [''d'']) demo_env) ''PATH'' '''' = ''/x:/bin''"
proof
  show "build_path (scrub_exec_blocked_path (Path ''/'' [''d'']) demo_env) (Path ''/'' [''d'']) [] =
     build_path demo_env (Path ''/'' [''d'']) []"
    using scrub_preserves_child_path [OF demo_blocked] by blast
  show "env_get (scrub_exec_blocked_path (Path ''/'' [''d'']) demo_env) ''PATH'' '''' = ''/x:/bin''"
    by (simp add: demo_env_def scrub_exec_blocked_path_def env_get_def in_sandbox_def bin_dir_def path_str_def
        good_name_def join_with_def startswith_def Let_def)
qed


lemma raises_is_writable [raises_intros]: "raises_only P (is_writable p)"
  by (auto simp: is_writable_def Let_def intro!: raises_intros)

lemma raises_first_writable [raises_intros]: "raises_only P (first_writable vs)"
  by (induction vs) (auto intro!: raises_intros)

lemma raises_resolve_app_dir: "raises_only P (resolve_app_dir env root)"
  by (auto simp: resolve_app_dir_def intro!: raises_intros split: option.split)

text \<open>
  The application directory: a usable \<open>ANDROID_PRIVATE\<close> always wins, and the call never raises.
\<close>

theorem host_contract_decides_app_dir:
  "(\<exists>p. fst (resolve_app_dir env root F) = Ok p) \<and>
   (\<forall>v. env ''ANDROID_PRIVATE'' = Some v \<and> v \<noteq> '''' \<and> fst (is_writable (to_path v) F) = Ok True \<longrightarrow>
        fst (resolve_app_dir env root F) = Ok (to_path v))"
proof
  have "raises_only (\<lambda>_. False) (resolve_app_dir env root)" by (rule raises_resolve_app_dir)
  then show "\<exists>p. fst (resolve_app_dir env root F) = Ok p"
    by (cases "fst (resolve_app_dir env root F)") (auto simp: raises_only_def)
  show "\<forall>v. env ''ANDROID_PRIVATE'' = Some v \<and> v \<noteq> '''' \<and> fst (is_writable (to_path v) F) = Ok True \<longrightarrow>
        fst (resolve_app_dir env root F) = Ok (to_path v)"
  proof (intro allI impI)
    fix v assume a: "env ''ANDROID_PRIVATE'' = Some v \<and> v \<noteq> '''' \<and> fst (is_writable (to_path v) F) = Ok True"
    then obtain F' where "is_writable (to_path v) F = (Ok True, F')" by (metis prod.collapse)
    with a show "fst (resolve_app_dir env root F) = Ok (to_path v)"
      by (simp add: resolve_app_dir_def env_candidates_def env_get_def bind_io_def)
  qed
qed

text \<open>The last resort is the source tree, even when that is Chaquopy's extraction area.\<close>

lemma first_writable_none:
  "\<forall>v \<in> set vs. v = '''' \<or> is_writable (to_path v) F = (Ok False, F) \<Longrightarrow> first_writable vs F = (Ok None, F)"
  by (induction vs) (auto simp: bind_io_def)

lemma chaquopy_last_resort:
  assumes "\<And>v. v \<in> set (env_candidates env @ fallback_candidates env) \<Longrightarrow>
             v = '''' \<or> is_writable (to_path v) F = (Ok False, F)"
    and "is_chaquopy_asset_dir root"
  shows "resolve_app_dir env root F = (Ok root, F)"
proof -
  have "first_writable (env_candidates env) F = (Ok None, F)"
    "first_writable (fallback_candidates env) F = (Ok None, F)"
    using assms(1) by (intro first_writable_none; simp)+
  then show ?thesis using assms(2) by (simp add: resolve_app_dir_def bind_io_def)
qed

section \<open>Command wrappers\<close>

lemma ask_Ok: "ask q F = (Ok x, F') \<longleftrightarrow> x = q F \<and> F' = F"
  by auto

lemma read_text_Ok:
  "read_text p F = (Ok s, F') \<longleftrightarrow> F' = F \<and> (\<exists>l m. lookup F True p = Ok (l, Reg (Text s) m))"
  by (auto simp: read_text_def split: sum.splits node.splits content.splits)

lemma chmod_reg_Ok:
  assumes "chmod p m F = (Ok x, F')" "lookup F True p = Ok (l, Reg c m0)"
  shows "F' = put_node F l (Reg c m) \<and> grown F F' \<and> lookup F' True p = Ok (l, Reg c m)"
proof -
  from assms(2) have l: "locate F True p = Ok l" "node_at F l = Some (Reg c m0)" "l \<noteq> []"
    by (auto simp: lookup_def split: sum.splits option.splits)
  from assms have F': "F' = put_node F l (Reg c m)"
    by (auto simp: chmod_def change_def set_mode_def split: if_splits)
  then have g: "grown F F'" using l by (simp add: grown_put)
  with locate_grown [OF g l(1,2)] F' l show ?thesis by (auto simp: lookup_def)
qed

text \<open>A file with this text and mode at the path.\<close>

definition installed :: "fsys \<Rightarrow> path \<Rightarrow> string \<Rightarrow> nat \<Rightarrow> bool" where
  "installed F p text m \<longleftrightarrow> (\<exists>l. lookup F True p = Ok (l, Reg (Text text) m))"

text \<open>Only files change, and only to this text and mode.\<close>

definition sets_only :: "string \<Rightarrow> fsys \<Rightarrow> fsys \<Rightarrow> bool" where
  "sets_only text F F' \<longleftrightarrow> grown F F' \<and>
     (\<forall>l m. node_at F l = Some (Reg (Text text) m) \<longrightarrow> (\<exists>m'. node_at F' l = Some (Reg (Text text) m') \<and> m' \<in> {m, 493}))"

lemma installed_stable: "sets_only text F F' \<Longrightarrow> installed F p text 493 \<Longrightarrow> installed F' p text 493"
proof -
  assume so: "sets_only text F F'" and i: "installed F p text 493"
  then obtain l where l: "lookup F True p = Ok (l, Reg (Text text) 493)" by (auto simp: installed_def)
  then have n: "node_at F l = Some (Reg (Text text) 493)"
    by (auto simp: lookup_def split: sum.splits option.splits)
  with so have "node_at F' l = Some (Reg (Text text) 493)" by (fastforce simp: sets_only_def)
  moreover from so l obtain n' where "lookup F' True p = Ok (l, n')"
    using lookup_grown [of F F' True p l] by (auto simp: sets_only_def)
  ultimately show ?thesis by (auto simp: installed_def lookup_def split: sum.splits option.splits)
qed

lemma ensure_wrapper_installs:
  assumes "ensure_wrapper app text nm F = (Ok x, F')"
  shows "installed F' (child (bin_dir app) nm) text 493 \<and> sets_only text F F'"
proof -
  let ?w = "child (bin_dir app) nm"
  let ?read = "try_os (bind_io (ask (\<lambda>F. path_exists F ?w)) (\<lambda>ex.
              if ex then bind_io (read_text ?w) (\<lambda>s. ret (Some s)) else ret None)) None"
  have rd: "snd (?read F) = F" for F
    by (auto simp: try_os_def try_io_def bind_io_def read_text_def split: sum.splits prod.splits node.splits content.splits)
  from assms obtain cur where r: "?read F = (Ok cur, F)"
    using rd [of F] by (cases "?read F") (auto simp: ensure_wrapper_def Let_def bind_io_def split: sum.splits)
  show ?thesis
  proof (cases "cur = Some text")
    case True
    have "read_text ?w F = (Ok text, F)"
      using r True by (auto simp: try_os_def try_io_def bind_io_def read_text_def
          split: sum.splits prod.splits node.splits content.splits if_splits)
    then obtain l m where l: "lookup F True ?w = Ok (l, Reg (Text text) m)" by (auto simp: read_text_Ok)
    moreover have c: "chmod ?w 493 F = (Ok x, F')"
      using assms r True by (simp add: ensure_wrapper_def Let_def bind_io_def seq_io_def)
    ultimately have "F' = put_node F l (Reg (Text text) 493)" "grown F F'"
      "lookup F' True ?w = Ok (l, Reg (Text text) 493)" using chmod_reg_Ok by blast+
    then show ?thesis by (auto simp: installed_def sets_only_def)
  next
    case False
    from assms r False obtain y F1 where w: "write_text ?w text F = (Ok y, F1)" "chmod ?w 493 F1 = (Ok x, F')"
      by (auto simp: ensure_wrapper_def Let_def bind_io_def seq_io_def split: sum.splits prod.splits)
    then obtain l m where l: "lookup F1 True ?w = Ok (l, Reg (Text text) m)" "F1 = put_node F l (Reg (Text text) m)" "grown F F1"
      using write_content_Ok by (fastforce simp: write_text_def)
    with chmod_reg_Ok [OF w(2) l(1)] have f: "F' = put_node F1 l (Reg (Text text) 493)" "grown F1 F'"
      "lookup F' True ?w = Ok (l, Reg (Text text) 493)" by blast+
    with l show ?thesis by (auto simp: installed_def sets_only_def intro: grown_trans)
  qed
qed

lemma ensure_wrappers_all:
  assumes "each_io (ensure_wrapper app text) nms F = (Ok x, F')"
  shows "sets_only text F F' \<and> (\<forall>nm \<in> set nms. installed F' (child (bin_dir app) nm) text 493)"
  using assms
proof (induction nms arbitrary: F)
  case Nil
  then show ?case by (auto simp: sets_only_def)
next
  case (Cons nm nms)
  then obtain y F1 where s: "ensure_wrapper app text nm F = (Ok y, F1)"
    "each_io (ensure_wrapper app text) nms F1 = (Ok x, F')"
    by (auto simp: seq_io_def bind_io_def split: sum.splits prod.splits)
  note e = ensure_wrapper_installs [OF s(1)] and ih = Cons.IH [OF s(2)]
  have "sets_only text F F'"
  proof -
    from e ih have "grown F F'" by (auto simp: sets_only_def intro: grown_trans)
    moreover have "\<exists>m'. node_at F' l = Some (Reg (Text text) m') \<and> m' \<in> {m, 493}"
      if "node_at F l = Some (Reg (Text text) m)" for l m
      using that e ih unfolding sets_only_def by (metis insert_iff empty_iff)
    ultimately show ?thesis by (simp add: sets_only_def)
  qed
  with e ih show ?case by (auto intro: installed_stable)
qed


lemma bind_Ok:
  "bind_io m f F = (Ok y, F') \<longleftrightarrow> (\<exists>x F1. m F = (Ok x, F1) \<and> f x F1 = (Ok y, F'))"
  by (auto simp: bind_io_def split: prod.splits sum.splits)

lemma seq_Ok: "seq_io m k F = (Ok y, F') \<longleftrightarrow> (\<exists>x F1. m F = (Ok x, F1) \<and> k F1 = (Ok y, F'))"
  by (simp add: seq_io_def bind_Ok)

text \<open>
  After a successful \<open>ensure_cli_wrappers\<close> every registered command has a wrapper with the
  generated text and mode 0755 in the command directory; off Android that directory is on PATH,
  on Android no PATH entry lies in the sandbox.
\<close>

theorem ensure_cli_wrappers_installs:
  assumes "ensure_cli_wrappers app root env F = (Ok (d, env'), F')"
  shows "d = bin_dir app \<and>
    (\<forall>nm \<in> set WRAPPER_COMMANDS.
       installed F' (child (bin_dir app) nm) (wrapper_text (shlex_quote (path_str root))) 493) \<and>
    (if android_exec_blocked env then \<forall>e \<in> set (inherited_entries env'). \<not> in_sandbox app e
     else PSEP \<notin> set (path_str (bin_dir app)) \<longrightarrow> path_str (bin_dir app) \<in> set (inherited_entries env'))"
proof -
  from assms obtain F1 x where e: "each_io (ensure_wrapper app (wrapper_text (shlex_quote (path_str root)))) WRAPPER_COMMANDS F1 = (Ok x, F')"
    and d: "d = bin_dir app"
    and env': "env' = (if android_exec_blocked env then scrub_exec_blocked_path app env else prepend_to_path (bin_dir app) env)"
    by (auto simp: ensure_cli_wrappers_def seq_Ok)
  have "path_str (bin_dir app) \<in> set (inherited_entries (prepend_to_path (bin_dir app) env))"
    if n: "PSEP \<notin> set (path_str (bin_dir app))"
  proof (cases "path_str (bin_dir app) \<in> set (inherited_entries env)")
    case True
    then show ?thesis by (auto simp: prepend_to_path_def inherited_entries_def Let_def split: if_splits)
  next
    case False
    then have "env_get (prepend_to_path (bin_dir app) env) ''PATH'' '''' =
        path_str (bin_dir app) @ (if env_get env ''PATH'' '''' = '''' then '''' else '':'' @ env_get env ''PATH'' '''')"
      by (auto simp: prepend_to_path_def inherited_entries_def Let_def env_get_def)
    then show ?thesis using n by (simp add: inherited_entries_def split_on_simple split_on_append)
  qed
  moreover have "\<forall>e \<in> set (inherited_entries (scrub_exec_blocked_path app env)). \<not> in_sandbox app e"
    if "android_exec_blocked env"
    using scrub_safe [OF that] by blast
  ultimately show ?thesis using ensure_wrappers_all [OF e] d env' by simp
qed


definition empty_fs :: fsys where
  "empty_fs = \<lparr>fs_table = [], fs_denied = \<lambda>_. False, fs_log = [], fs_serial = 0\<rparr>"

definition demo_app :: path where "demo_app = Path ''/'' [''d'']"

lemmas fs_eval = mkdir_parents.simps os_mkdir_def locate_def lookup_def link_limit_def change_def parent_path_def
  write_text_def write_content_def chmod_def set_mode_def path_exists_def stat_def read_text_def
  bind_io_def seq_io_def try_os_def try_io_def

lemma demo_mkdir:
  "mkdir_parents (bin_dir demo_app) empty_fs =
     (Ok (), put_node (put_node empty_fs [''d''] (Dir 493)) [''d'', ''bin''] (Dir 493))"
  by (simp add: fs_eval bin_dir_def demo_app_def good_name_def empty_fs_def node_at_def put_node_def)

definition wrapper_ready :: "fsys \<Rightarrow> bool" where
  "wrapper_ready F \<longleftrightarrow> node_at F [''d''] = Some (Dir 493) \<and> node_at F [''d'', ''bin''] = Some (Dir 493) \<and>
     (\<forall>l. \<not> fs_denied F l)"

lemma demo_wrapper:
  assumes "wrapper_ready F" "good_name nm" "nm \<noteq> ''..''" "node_at F [''d'', ''bin'', nm] = None"
  shows "ensure_wrapper demo_app text nm F =
    (Ok (), put_node (put_node F [''d'', ''bin'', nm] (Reg (Text text) 420)) [''d'', ''bin'', nm] (Reg (Text text) 493))"
proof -
  let ?p = "Path ''/'' [''d'', ''bin'', nm]" and ?l = "[''d'', ''bin'', nm]"
  have w: "child (bin_dir demo_app) nm = ?p"
    using assms by (simp add: bin_dir_def demo_app_def good_name_def)
  have loc: "locate G True ?p = Ok ?l"
    if "wrapper_ready G" "\<forall>t. node_at G ?l \<noteq> Some (Lnk t)" for G
    using that assms by (auto simp: locate_def wrapper_ready_def split: option.splits node.splits)
  have nd: "\<not> fs_denied F l" for l using assms by (simp add: wrapper_ready_def)
  let ?F1 = "put_node F ?l (Reg (Text text) 420)"
  have "locate F True ?p = Ok ?l" "locate ?F1 True ?p = Ok ?l"
    using assms by (intro loc; auto simp: wrapper_ready_def)+
  then have "path_exists F ?p = False" "write_text ?p text F = (Ok (), ?F1)"
    "chmod ?p 493 ?F1 = (Ok (), put_node ?F1 ?l (Reg (Text text) 493))"
    using assms nd by (simp_all add: path_exists_def stat_def lookup_def write_text_def write_content_def chmod_def
        change_def set_mode_def)
  then show ?thesis
    by (simp add: ensure_wrapper_def w Let_def bind_io_def seq_io_def try_os_def try_io_def)
qed

lemma demo_wrappers:
  "\<lbrakk>wrapper_ready F; \<forall>nm \<in> set nms. good_name nm \<and> nm \<noteq> ''..'' \<and> node_at F [''d'', ''bin'', nm] = None; distinct nms\<rbrakk>
    \<Longrightarrow> \<exists>F'. each_io (ensure_wrapper demo_app text) nms F = (Ok (), F')"
proof (induction nms arbitrary: F)
  case (Cons nm nms)
  let ?F1 = "put_node (put_node F [''d'', ''bin'', nm] (Reg (Text text) 420)) [''d'', ''bin'', nm] (Reg (Text text) 493)"
  have "ensure_wrapper demo_app text nm F = (Ok (), ?F1)" using Cons.prems by (intro demo_wrapper) auto
  moreover have "\<exists>F'. each_io (ensure_wrapper demo_app text) nms ?F1 = (Ok (), F')"
    using Cons.prems by (intro Cons.IH) (auto simp: wrapper_ready_def)
  ultimately show ?case by (auto simp: seq_Ok)
qed simp

lemma ensure_cli_wrappers_installs_witness:
  "\<exists>F'. snd (ensure_cli_wrappers demo_app demo_app Map.empty empty_fs) = F' \<and>
     installed F' (child (bin_dir demo_app) ''gates'') (wrapper_text (shlex_quote ''/d'')) 493"
proof -
  let ?F1 = "put_node (put_node empty_fs [''d''] (Dir 493)) [''d'', ''bin''] (Dir 493)"
  have "wrapper_ready ?F1" by (simp add: wrapper_ready_def empty_fs_def)
  moreover have "\<forall>nm \<in> set WRAPPER_COMMANDS. good_name nm \<and> nm \<noteq> ''..'' \<and> node_at ?F1 [''d'', ''bin'', nm] = None"
    by (simp add: registry_defs good_name_def empty_fs_def node_at_def put_node_def)
  moreover have "distinct WRAPPER_COMMANDS" by (simp add: registry_defs)
  ultimately obtain F' where
    "each_io (ensure_wrapper demo_app (wrapper_text (shlex_quote (path_str demo_app)))) WRAPPER_COMMANDS ?F1 = (Ok (), F')"
    using demo_wrappers by blast
  then have r: "ensure_cli_wrappers demo_app demo_app Map.empty empty_fs =
      (Ok (bin_dir demo_app, prepend_to_path (bin_dir demo_app) Map.empty), F')"
    by (simp add: ensure_cli_wrappers_def seq_io_def bind_io_def demo_mkdir android_exec_blocked_def)
  have "''gates'' \<in> set WRAPPER_COMMANDS" by (simp add: registry_defs)
  moreover have "path_str demo_app = ''/d''" by (simp add: demo_app_def path_str_def join_with_def)
  ultimately show ?thesis using ensure_cli_wrappers_installs [OF r] r by simp
qed

text \<open>
  The legacy start-up file never stops the terminal: reading it cannot raise or change a file,
  and every line handed on is a stripped, non-empty line of the file that is no comment.
\<close>

theorem rc_lines_well_formed:
  "\<exists>ls. read_rc_lines home F = (Ok ls, F) \<and>
     (\<forall>l \<in> set ls. l \<noteq> '''' \<and> hd l \<noteq> CHR ''#'' \<and> \<not> char_space (hd l))"
proof -
  have r: "read_rc_lines home F = (case read_text (child home ''.zmuxrc'') F of
      (Err e, F') \<Rightarrow> (Ok [], F') | (Ok raw, F') \<Rightarrow> (Ok (rc_lines raw), F'))"
    using raises_read_text [of "child home ''.zmuxrc''"]
    by (auto simp: read_rc_lines_def try_io_def bind_io_def raises_only_def split: prod.splits sum.splits)
      (metis fst_conv)+
  have "snd (read_text (child home ''.zmuxrc'') F) = F"
    by (auto simp: read_text_def split: sum.splits node.splits content.splits)
  then obtain res where res: "read_text (child home ''.zmuxrc'') F = (res, F)" by (metis prod.collapse)
  have "\<forall>l \<in> set (rc_lines raw). l \<noteq> '''' \<and> hd l \<noteq> CHR ''#'' \<and> \<not> char_space (hd l)" for raw
  proof
    fix l assume l: "l \<in> set (rc_lines raw)"
    then obtain k where k: "l = str_strip k" and k2: "l \<noteq> ''''" "\<not> startswith l ''#''" by (auto simp: rc_lines_def)
    then have "\<not> char_space (hd l)" using strip_by_hd [of char_space k] k k2 by (simp add: str_strip_def)
    moreover have "hd l \<noteq> CHR ''#''" using k2 by (cases l) (auto simp: startswith_def)
    ultimately show "l \<noteq> '''' \<and> hd l \<noteq> CHR ''#'' \<and> \<not> char_space (hd l)" using k2 by simp
  qed
  with r res show ?thesis by (cases res) auto
qed


definition rc_fs :: fsys where
  "rc_fs = empty_fs\<lparr>fs_table := [([''h''], Dir 493),
     ([''h'', ''.zmuxrc''], Reg (Text (''  alias x'' @ LF1 @ ''# note'' @ LF1)) 420)]\<rparr>"

lemma rc_lines_well_formed_witness:
  "\<exists>ls. read_rc_lines (Path ''/'' [''h'']) rc_fs = (Ok ls, rc_fs) \<and> ls = [''alias x'']"
proof -
  have "read_rc_lines (Path ''/'' [''h'']) rc_fs = (Ok [''alias x''], rc_fs)"
    by (simp add: read_rc_lines_def fs_eval rc_fs_def empty_fs_def good_name_def node_at_def rc_lines_def
        splitlines_def LF1_def line_break_def str_strip_def strip_by_def char_space_def py_space_def startswith_def)
  then show ?thesis using rc_lines_well_formed [of "Path ''/'' [''h'']" rc_fs] by simp
qed

lemma demo_writable: "fst (is_writable demo_app empty_fs) = Ok True"
  by (simp add: is_writable_def Let_def fs_eval unlink_missing_ok_def unlink_def demo_app_def good_name_def
      empty_fs_def node_at_def put_node_def)

lemma host_contract_decides_app_dir_witness:
  "fst (resolve_app_dir demo_env (Path ''/'' [''r'']) empty_fs) = Ok demo_app"
proof -
  have p: "to_path ''/d'' = demo_app"
    using to_path_str [of demo_app] by (simp add: demo_app_def path_str_def join_with_def wf_path_def good_name_def)
  have "demo_env ''ANDROID_PRIVATE'' = Some ''/d''" by (simp add: demo_env_def)
  moreover have "fst (is_writable (to_path ''/d'') empty_fs) = Ok True" using demo_writable p by simp
  ultimately show ?thesis
    using host_contract_decides_app_dir [of demo_env "Path ''/'' [''r'']" empty_fs] p by simp
qed

end
