(* ===== verification/Posix.thy ===== *)
theory Posix
  imports HostEnv
begin

text \<open>
  What the Linux environment, the package manager and the shell share beyond \<open>pathlib\<close>: lexical
  path normalisation, \<open>os.access\<close>, \<open>shutil.which\<close>, line texts and lenient reading.  Text beyond
  ASCII occurs in constants only, as its UTF-8 bytes.
\<close>

section \<open>Texts\<close>

abbreviation (input) SQ :: char where "SQ \<equiv> CHR 0x27"
abbreviation (input) BS :: char where "BS \<equiv> CHR 0x5C"
abbreviation (input) BQ :: char where "BQ \<equiv> CHR 0x60"

definition EMDASH :: string where "EMDASH = [CHR 0xE2, CHR 0x80, CHR 0x94]"
definition ELLIPSIS :: string where "ELLIPSIS = [CHR 0xE2, CHR 0x80, CHR 0xA6]"

definition unlines :: "string list \<Rightarrow> string" where
  "unlines ls = concat (map (\<lambda>l. l @ LF1) ls)"

definition upper_char :: "char \<Rightarrow> char" where
  "upper_char c = (let n = of_char c :: nat in if 97 \<le> n \<and> n \<le> 122 then char_of (n - 32) else c)"

definition capitalize :: "string \<Rightarrow> string" where
  "capitalize s = (case s of [] \<Rightarrow> [] | c # cs \<Rightarrow> upper_char c # lower cs)"

definition str_split :: "string \<Rightarrow> string list" where
  "str_split s = words_by char_space s"

definition contains :: "string \<Rightarrow> string \<Rightarrow> bool" where
  "contains s p = occurs p s"

definition lstrip_slash :: "string \<Rightarrow> string" where
  "lstrip_slash s = dropWhile (\<lambda>c. c = SEP) s"

text \<open>Undecodable bytes read with \<open>errors="replace"\<close> become U+FFFD.\<close>

definition lenient_text :: "content \<Rightarrow> string" where
  "lenient_text c = (case c of Text s \<Rightarrow> s | Binary bs \<Rightarrow> map char_of (map unat (utf8_encode (utf8_replace bs))))"

text \<open>Reading in text mode turns every line ending into a newline.\<close>

fun universal_newlines :: "string \<Rightarrow> string" where
  "universal_newlines [] = []"
| "universal_newlines (c # cs) =
     (if c = CHR 0x0D then CHR 0x0A # universal_newlines (if cs \<noteq> [] \<and> hd cs = CHR 0x0A then tl cs else cs)
      else c # universal_newlines cs)"

definition read_content :: "path \<Rightarrow> content io" where
  "read_content p F =
     (case lookup F True p of
        Err e \<Rightarrow> (Err e, F)
      | Ok (l, Reg c m) \<Rightarrow> (Ok c, F)
      | Ok (l, _) \<Rightarrow> (Err IsADirectoryError, F))"

definition read_text_replace :: "path \<Rightarrow> string io" where
  "read_text_replace p = bind_io (read_content p) (\<lambda>c. ret (lenient_text c))"

definition read_bytes :: "path \<Rightarrow> bytes io" where
  "read_bytes p = bind_io (read_content p) (\<lambda>c. ret (case c of Text s \<Rightarrow> b s | Binary bs \<Rightarrow> bs))"

text \<open>\<open>repr\<close> of a string: single quotes unless it holds one and no double quote.\<close>

definition hex2 :: "nat \<Rightarrow> string" where
  "hex2 n = (let h = \<lambda>d. if d < 10 then char_of (48 + d) else char_of (87 + d)
             in [h (n div 16), h (n mod 16)])"

definition repr_char :: "char \<Rightarrow> char \<Rightarrow> string" where
  "repr_char q c =
     (let n = of_char c :: nat in
      if c = q \<or> c = BS then [BS, c]
      else if n = 10 then [BS, CHR ''n''] else if n = 13 then [BS, CHR ''r'']
      else if n = 9 then [BS, CHR ''t'']
      else if n < 32 \<or> (127 \<le> n \<and> n < 161) \<or> n = 173 then [BS, CHR ''x''] @ hex2 n
      else [c])"

definition py_repr :: "string \<Rightarrow> string" where
  "py_repr s =
     (let q = (if SQ \<in> set s \<and> CHR 0x22 \<notin> set s then CHR 0x22 else SQ)
      in q # concat (map (repr_char q) s) @ [q])"

text \<open>\<open>str(error)\<close>; the wording of the operating system is abbreviated.\<close>

definition exn_text :: "exn \<Rightarrow> string" where
  "exn_text e = (case e of ValueError s \<Rightarrow> s | RuntimeError s \<Rightarrow> s | ElfError s \<Rightarrow> s | OSError s \<Rightarrow> s
     | IsADirectoryError \<Rightarrow> ''Is a directory'' | FileNotFoundError \<Rightarrow> ''No such file or directory''
     | PermissionError \<Rightarrow> ''Permission denied'' | ConnectionError \<Rightarrow> ''Connection error'' | _ \<Rightarrow> '''')"

definition exn_name :: "exn \<Rightarrow> string" where
  "exn_name e = (case e of ValueError _ \<Rightarrow> ''ValueError'' | RuntimeError _ \<Rightarrow> ''RuntimeError''
     | ElfError _ \<Rightarrow> ''ElfError'' | OSError _ \<Rightarrow> ''OSError'' | IsADirectoryError \<Rightarrow> ''IsADirectoryError''
     | FileNotFoundError \<Rightarrow> ''FileNotFoundError'' | PermissionError \<Rightarrow> ''PermissionError''
     | ConnectionError \<Rightarrow> ''ConnectionError'' | IndexError \<Rightarrow> ''IndexError'' | KeyError \<Rightarrow> ''KeyError'' | AttributeError \<Rightarrow> ''AttributeError''
     | TypeError \<Rightarrow> ''TypeError'' | StructError \<Rightarrow> ''error'' | OverflowError \<Rightarrow> ''OverflowError'')"

text \<open>Bytes as file contents: text when they decode.\<close>

definition content_of_bytes :: "bytes \<Rightarrow> content" where
  "content_of_bytes bs =
     (if utf8_strict bs \<noteq> None then Text (map (\<lambda>x. char_of (unat x)) bs) else Binary bs)"

text \<open>\<open>mkdir(parents=True)\<close> without \<open>exist_ok\<close>.\<close>

definition mkdir_fresh :: "path \<Rightarrow> unit io" where
  "mkdir_fresh p =
     try_io (os_mkdir p) (\<lambda>e.
       if e = FileNotFoundError \<and> p_names p \<noteq> []
       then seq_io (mkdir_parents (parent_path p)) (os_mkdir p) else raise e)"

text \<open>
  \<open>Path.rglob("*")\<close>, which descends into directories but not through links, and the same from
  the bottom up.
\<close>

definition inside_dirs :: "fsys \<Rightarrow> loc \<Rightarrow> loc \<Rightarrow> bool" where
  "inside_dirs F l k \<longleftrightarrow> strict_prefix l k \<and> ''..'' \<notin> set (drop (length l) k) \<and>
     list_all (\<lambda>i. case node_at F (take i k) of Some (Dir m) \<Rightarrow> True | _ \<Rightarrow> False) [length l..<length k]"

definition rglob :: "path \<Rightarrow> fsys \<Rightarrow> path list" where
  "rglob p F =
     (case lookup F True p of
        Ok (l, Dir m) \<Rightarrow>
          map (\<lambda>r. Path (p_root p) (p_names p @ r))
            (sort (map (\<lambda>e. drop (length l) (fst e)) (filter (\<lambda>e. inside_dirs F l (fst e)) (fs_table F))))
      | _ \<Rightarrow> [])"

definition descendants :: "path \<Rightarrow> fsys \<Rightarrow> path list" where
  "descendants p F = rev (rglob p F)"

section \<open>What the process calls\<close>

definition lift :: "(fsys \<Rightarrow> exn + 'a) \<Rightarrow> 'a io" where "lift q F = (q F, F)"

text \<open>A child process: its return code, output and error text, or the exception of \<open>subprocess.run\<close>.\<close>

type_synonym runner = "string list \<Rightarrow> environ \<Rightarrow> (int \<times> string \<times> string) io"

text \<open>The answer to the request: the announced length, the chunks read, and how reading ends.\<close>

record response =
  rp_announced :: "exn + int"
  rp_chunks :: "bytes list"
  rp_end :: "exn option"

section \<open>Paths as strings\<close>

fun norm_names :: "string list \<Rightarrow> string list \<Rightarrow> string list" where
  "norm_names acc [] = acc"
| "norm_names acc (w # ws) = norm_names (if w = ''..'' then butlast acc else acc @ [w]) ws"

text \<open>\<open>os.path.abspath\<close>: dots are removed lexically.\<close>

definition abspath :: "path \<Rightarrow> path \<Rightarrow> path" where
  "abspath cwd p = (let q = joinpath cwd p in Path (p_root q) (norm_names [] (p_names q)))"

definition os_join :: "string \<Rightarrow> string \<Rightarrow> string" where
  "os_join d s = (if startswith s ''/'' then s else if d = '''' \<or> endswith d ''/'' then d @ s else d @ ''/'' @ s)"

definition mode_of :: "node \<Rightarrow> nat" where
  "mode_of n = (case n of Reg c m \<Rightarrow> m | Dir m \<Rightarrow> m | Lnk t \<Rightarrow> 511)"

text \<open>\<open>os.access(p, X_OK)\<close> for the owner of the file.\<close>

definition access_x :: "fsys \<Rightarrow> path \<Rightarrow> bool" where
  "access_x F p = (case stat F p of Err _ \<Rightarrow> False | Ok n \<Rightarrow> mode_of n div 64 mod 2 = 1)"

section \<open>shutil.which\<close>

fun which_in :: "fsys \<Rightarrow> string \<Rightarrow> string list \<Rightarrow> string option" where
  "which_in F cmd [] = None"
| "which_in F cmd (d # ds) =
     (let nm = os_join d cmd
      in if path_exists F (to_path nm) \<and> access_x F (to_path nm) \<and> \<not> is_dir F (to_path nm) then Some nm
         else which_in F cmd ds)"

definition which :: "fsys \<Rightarrow> environ \<Rightarrow> string \<Rightarrow> string option" where
  "which F env cmd =
     (if SEP \<in> set cmd then
        (if path_exists F (to_path cmd) \<and> access_x F (to_path cmd) \<and> \<not> is_dir F (to_path cmd) then Some cmd else None)
      else let p = env_get env ''PATH'' ''/bin:/usr/bin''
           in if p = '''' then None else which_in F cmd (split_on PSEP p))"

text \<open>What \<open>which\<close> finds exists, is executable and is no directory.\<close>

lemma which_in_Some:
  "which_in F cmd ds = Some nm \<Longrightarrow>
     path_exists F (to_path nm) \<and> access_x F (to_path nm) \<and> \<not> is_dir F (to_path nm)"
  by (induction ds) (auto simp: Let_def split: if_splits)

lemma which_Some:
  "which F env cmd = Some nm \<Longrightarrow>
     path_exists F (to_path nm) \<and> access_x F (to_path nm) \<and> \<not> is_dir F (to_path nm)"
  by (auto simp: which_def Let_def split: if_splits dest: which_in_Some)

text \<open>Normalisation leaves no dots, and keeps paths that have none.\<close>

lemma norm_names_no_dots: "''..'' \<notin> set acc \<Longrightarrow> ''..'' \<notin> set (norm_names acc ws)"
proof (induction ws arbitrary: acc)
  case (Cons w ws)
  have "''..'' \<notin> set (butlast acc)" using Cons.prems by (auto dest: in_set_butlastD)
  with Cons show ?case by auto
qed simp

lemma norm_names_plain: "''..'' \<notin> set ws \<Longrightarrow> norm_names acc ws = acc @ ws"
  by (induction ws arbitrary: acc) auto

lemma abspath_no_dots: "''..'' \<notin> set (p_names (abspath cwd p))"
  by (simp add: abspath_def Let_def norm_names_no_dots)

section \<open>Results of sequences\<close>

lemma try_io_Ok: "try_io m h F = (Ok x, F') \<longleftrightarrow>
    m F = (Ok x, F') \<or> (\<exists>e F1. m F = (Err e, F1) \<and> h e F1 = (Ok x, F'))"
  by (auto simp: try_io_def split: prod.splits sum.splits)

definition holds_bytes :: "fsys \<Rightarrow> path \<Rightarrow> bytes \<Rightarrow> bool" where
  "holds_bytes F p bs \<longleftrightarrow> (\<exists>l m. lookup F True p = Ok (l, Reg (Binary bs) m))"

lemma write_holds: "write_content p (Binary bs) F = (Ok x, F') \<Longrightarrow> holds_bytes F' p bs"
  using write_content_Ok by (fastforce simp: holds_bytes_def)

text \<open>The log does not enter path resolution.\<close>

lemma walk_log [simp]: "walk (fs_log_update g F) n follow cur ws = walk F n follow cur ws"
proof (induction F n follow cur ws rule: walk.induct)
  case (2 F n follow cur w ws)
  show ?case
  proof (cases "w = ''..''")
    case False
    show ?thesis
    proof (cases "node_at F (cur @ [w])")
      case (Some nd)
      with False 2 show ?thesis by (cases nd; cases n) simp_all
    qed (use False in simp)
  qed (use 2 in simp)
qed simp

lemma lookup_log [simp]: "lookup (fs_log_update g F) follow p = lookup F follow p"
  by (simp add: lookup_def locate_def split: sum.split)

end
