(* ===== verification/LinuxGuest.thy ===== *)
theory LinuxGuest
  imports Posix
begin

text \<open>
  The Linux guest as the host sees it (\<open>zmux/linuxenv.py\<close>): the architecture choice, the
  detection of an installed Alpine root file system, the working directory inside the guest, the
  resolver configuration, the scripts written into the guest and the migration of an install
  stranded by an older build.
\<close>

section \<open>State\<close>

text \<open>
  The module's globals and the facts about the process it reads: the environment, the library
  directory set by the host, the device ABI, \<open>os.uname().machine\<close>, the directories, and what the
  Java bridge, pyjnius and \<open>/proc/self/maps\<close> answer (code outside the repository or the kernel).
\<close>

record linux =
  lx_env :: environ
  lx_native :: "string option"
  lx_abi :: string
  lx_machine :: string
  lx_cwd :: path
  lx_app :: path
  lx_home :: path
  lx_cache :: path
  lx_rootfs :: path
  lx_staging :: path
  lx_runtime_lib :: path
  lx_bridge :: "string option"
  lx_jnius :: "string option"
  lx_maps :: "string option"
  lx_mirror :: string

definition ALPINE_VERSION :: string where "ALPINE_VERSION = ''3.22.5''"
definition ALPINE_BRANCH :: string where "ALPINE_BRANCH = ''v3.22''"
definition ROOTFS_OS_MARKER :: string where "ROOTFS_OS_MARKER = ''.zmux-rootfs''"
definition SUPPORTED_ROOTFS :: "string list" where "SUPPORTED_ROOTFS = [''alpine'']"
definition GUEST_PATH :: string where
  "GUEST_PATH = ''/usr/local/sbin:/usr/local/bin:/usr/sbin:/usr/bin:/sbin:/bin''"
definition GUEST_HOME :: string where "GUEST_HOME = ''/root''"
definition HOME_BIND :: string where "HOME_BIND = ''/root''"

text \<open>The globals as importing the module sets them.\<close>

definition env_path :: "environ \<Rightarrow> string \<Rightarrow> path \<Rightarrow> path" where
  "env_path env k d = (case env k of None \<Rightarrow> d | Some v \<Rightarrow> to_path v)"

definition rstrip_slash :: "string \<Rightarrow> string" where
  "rstrip_slash s = rev (dropWhile (\<lambda>c. c = SEP) (rev s))"

definition load_linux ::
    "environ \<Rightarrow> string \<Rightarrow> path \<Rightarrow> path \<Rightarrow> string option \<Rightarrow> string option \<Rightarrow> string option \<Rightarrow> linux" where
  "load_linux env machine cwd app bridge jnius maps =
     \<lparr>lx_env = env, lx_native = (case env ''ZMUX_NATIVE_LIBRARY_DIR'' of Some v \<Rightarrow> if v = '''' then None else Some v | None \<Rightarrow> None),
      lx_abi = str_strip (env_get env ''ZMUX_DEVICE_ABI'' ''''), lx_machine = machine, lx_cwd = cwd, lx_app = app,
      lx_home = child app ''home'', lx_cache = child app ''cache'',
      lx_rootfs = env_path env ''ZMUX_ROOTFS_DIR'' (child (child app ''linux'') ''rootfs''),
      lx_staging = child (child app ''linux'') ''.staging'',
      lx_runtime_lib = env_path env ''ZMUX_RUNTIME_LIB_DIR'' (child app ''lib''),
      lx_bridge = bridge, lx_jnius = jnius, lx_maps = maps,
      lx_mirror = rstrip_slash (env_get env ''ZMUX_ALPINE_MIRROR'' ''https://dl-cdn.alpinelinux.org/alpine'')\<rparr>"

definition set_native_library_dir :: "string \<Rightarrow> linux \<Rightarrow> bool \<times> linux" where
  "set_native_library_dir p X =
     (if is_absolute (to_path p) then (True, X\<lparr>lx_native := Some (path_str (to_path p))\<rparr>) else (False, X))"

section \<open>Architecture\<close>

definition is_android :: "linux \<Rightarrow> bool" where
  "is_android X \<longleftrightarrow> lx_native X \<notin> {None, Some ''''} \<or>
     list_ex (\<lambda>k. lx_env X k \<noteq> None) [''ANDROID_PRIVATE'', ''ANDROID_ARGUMENT'', ''ANDROID_APP_PATH'']"

definition android_abi_to_alpine :: "string \<Rightarrow> string option" where
  "android_abi_to_alpine abi0 =
     (let abi = lower abi0 in
      if abi \<in> {''arm64-v8a'', ''aarch64''} then Some ''aarch64''
      else if abi \<in> {''armeabi-v7a'', ''armeabi'', ''armv7l'', ''armv7'', ''armv8l''} then Some ''armv7''
      else if abi \<in> {''x86_64'', ''amd64''} then Some ''x86_64''
      else if abi \<in> {''x86'', ''i686''} then Some ''x86''
      else None)"

definition machine_android :: "string \<Rightarrow> string" where
  "machine_android m =
     (if m \<in> {''aarch64'', ''arm64'', ''arm64-v8a'', ''armv8l''} then ''aarch64''
      else if m \<in> {''armv7l'', ''armeabi-v7a'', ''arm''} then ''armv7''
      else if m \<in> {''x86_64'', ''amd64''} then ''x86_64''
      else if m \<in> {''x86'', ''i686''} then ''x86'' else m)"

definition machine_desktop :: "string \<Rightarrow> string" where
  "machine_desktop m =
     (if m \<in> {''x86_64'', ''amd64''} then ''x86_64''
      else if m \<in> {''aarch64'', ''arm64'', ''armv8l''} then ''aarch64''
      else if m = ''armv7l'' then ''armv7'' else m)"

definition alpine_arch :: "linux \<Rightarrow> string" where
  "alpine_arch X =
     (if is_android X then
        (case (if lx_abi X = '''' then None else android_abi_to_alpine (lx_abi X)) of
           Some a \<Rightarrow> a | None \<Rightarrow> machine_android (lower (lx_machine X)))
      else machine_desktop (lower (lx_machine X)))"

definition normalise_os_name :: "string \<Rightarrow> exn + string" where
  "normalise_os_name os_name =
     (let v = lower (str_strip os_name)
      in if v \<in> set SUPPORTED_ROOTFS then Ok v
         else Err (ValueError (''unsupported Linux environment '' @ py_repr os_name
                 @ ''; only '' @ [SQ] @ ''alpine'' @ [SQ] @ '' is supported'')))"

section \<open>Guest files\<close>

text \<open>
  A guest path is resolved inside the root: absolute link targets start at the root again,
  relative ones at the link, and a normalised candidate outside the root is refused.
\<close>

definition link_candidate :: "path \<Rightarrow> path \<Rightarrow> path \<Rightarrow> string \<Rightarrow> path" where
  "link_candidate cwd root cand t =
     abspath cwd (if startswith t ''/'' then child root (lstrip_slash t) else child (parent_path cand) t)"

fun guest_loop :: "fsys \<Rightarrow> path \<Rightarrow> path \<Rightarrow> nat \<Rightarrow> path \<Rightarrow> bool" where
  "guest_loop F cwd root 0 cand = False"
| "guest_loop F cwd root (Suc n) cand =
     (case lstat F cand of
        Err e \<Rightarrow> False
      | Ok (Reg c m) \<Rightarrow> True
      | Ok (Dir m) \<Rightarrow> False
      | Ok (Lnk t) \<Rightarrow>
          (case relative_to (link_candidate cwd root cand t) root of
             None \<Rightarrow> False
           | Some _ \<Rightarrow> guest_loop F cwd root n (link_candidate cwd root cand t)))"

definition guest_regular_file :: "linux \<Rightarrow> fsys \<Rightarrow> path \<Rightarrow> string \<Rightarrow> bool" where
  "guest_regular_file X F root g =
     (let r = abspath (lx_cwd X) root in guest_loop F (lx_cwd X) r 16 (child r (lstrip_slash g)))"

definition read_marker :: "linux \<Rightarrow> string option io" where
  "read_marker X =
     try_os (bind_io (read_text (child (child (lx_rootfs X) ''etc'') ROOTFS_OS_MARKER)) (\<lambda>t.
       let m = lower (str_strip t) in ret (if m \<in> set SUPPORTED_ROOTFS then Some m else None))) None"

definition installed_os :: "linux \<Rightarrow> string io" where
  "installed_os X =
     bind_io (ask (\<lambda>F. guest_regular_file X F (lx_rootfs X) ''/bin/sh'')) (\<lambda>ok.
     if \<not> ok then ret ''''
     else bind_io (read_marker X) (\<lambda>r. case r of
            Some m \<Rightarrow> ret m
          | None \<Rightarrow> ask (\<lambda>F. if is_file F (child (child (lx_rootfs X) ''etc'') ''alpine-release'')
                           then ''alpine'' else '''')))"

definition read_stripped :: "path \<Rightarrow> string io" where
  "read_stripped p = try_os (bind_io (read_text p) (\<lambda>t. ret (str_strip t))) ''''"

definition installed_arch :: "linux \<Rightarrow> string io" where
  "installed_arch X =
     bind_io (installed_os X) (\<lambda>os. if os \<noteq> ''alpine'' then ret ''''
       else read_stripped (child (child (child (lx_rootfs X) ''etc'') ''apk'') ''arch''))"

definition is_installed :: "linux \<Rightarrow> bool io" where
  "is_installed X = bind_io (installed_os X) (\<lambda>os. ret (os \<noteq> ''''))"

definition installed_version :: "linux \<Rightarrow> string io" where
  "installed_version X =
     bind_io (installed_os X) (\<lambda>os. if os \<noteq> ''alpine'' then ret ''''
       else read_stripped (child (child (lx_rootfs X) ''etc'') ''alpine-release''))"

section \<open>Paths inside the guest\<close>

definition guest_cwd :: "linux \<Rightarrow> fsys \<Rightarrow> path \<Rightarrow> exn + string" where
  "guest_cwd X F host_cwd =
     (case resolve_path F host_cwd of Err e \<Rightarrow> Err e
      | Ok c \<Rightarrow> (case resolve_path F (lx_home X) of Err e \<Rightarrow> Err e
          | Ok h \<Rightarrow> (case relative_to c h of
                None \<Rightarrow> Ok ''/''
              | Some rel \<Rightarrow> Ok (if path_str rel = ''.'' then GUEST_HOME else GUEST_HOME @ ''/'' @ path_str rel))))"

fun bind_loop :: "fsys \<Rightarrow> path list \<Rightarrow> string list \<Rightarrow> path list" where
  "bind_loop F acc [] = acc"
| "bind_loop F acc (v # vs) =
     (if v \<noteq> '''' \<and> is_dir F (to_path v) \<and> to_path v \<notin> set acc then bind_loop F (acc @ [to_path v]) vs
      else bind_loop F acc vs)"

definition storage_bind_paths :: "linux \<Rightarrow> fsys \<Rightarrow> path list" where
  "storage_bind_paths X F =
     bind_loop F [] [env_get (lx_env X) ''ANDROID_APP_PATH'' '''', env_get (lx_env X) ''EXTERNAL_STORAGE'' '''',
       env_get (lx_env X) ''ANDROID_STORAGE'' '''', ''/sdcard'', ''/storage/emulated/0'']"

definition ensure_guest_mountpoint :: "linux \<Rightarrow> path \<Rightarrow> unit io" where
  "ensure_guest_mountpoint X p =
     (case relative_to (to_path (path_str p)) (to_path ''/'') of
        None \<Rightarrow> ret ()
      | Some rel \<Rightarrow> try_os (mkdir_parents (joinpath (lx_rootfs X) rel)) ())"

section \<open>Resolver\<close>

definition nameserver_line :: "string \<Rightarrow> string option" where
  "nameserver_line l =
     (case str_split l of
        k # v # _ \<Rightarrow>
          if lower k = ''nameserver'' then
            (let ip = fst (split_once ''%'' (strip_by (\<lambda>c. c = CHR ''%'') v)); low = lower ip
             in if low \<in> {''localhost'', ''::1''} \<or> startswith low ''127.'' \<or> CHR '':'' \<in> set low
                then None else Some ip)
          else None
      | _ \<Rightarrow> None)"

definition nameserver_ips :: "path \<Rightarrow> string list io" where
  "nameserver_ips p =
     try_os (bind_io (read_text_replace p) (\<lambda>t. ret (List.map_filter nameserver_line (splitlines t)))) []"

definition dedup :: "string list \<Rightarrow> string list" where
  "dedup xs = foldl (\<lambda>acc x. if x \<in> set acc then acc else acc @ [x]) [] xs"

definition resolv_conf_text :: "string list \<Rightarrow> string" where
  "resolv_conf_text servers =
     ''# Generated by ZMUX '' @ EMDASH @ '' do not rely on the Android host resolver.'' @ LF1
     @ concat (map (\<lambda>s. ''nameserver '' @ s @ LF1) servers) @ ''options timeout:2 attempts:2'' @ LF1"

definition try_write :: "path \<Rightarrow> string \<Rightarrow> unit io" where
  "try_write p s = try_os (write_text p s) ()"

definition ensure_guest_resolv_conf :: "path \<Rightarrow> unit io" where
  "ensure_guest_resolv_conf root =
     seq_io (mkdir_parents (child root ''etc''))
    (bind_io (nameserver_ips (to_path ''/etc/resolv.conf'')) (\<lambda>ips.
       try_write (child (child root ''etc'') ''resolv.conf'')
         (resolv_conf_text (dedup (ips @ [''8.8.8.8'', ''1.1.1.1''])))))"

section \<open>Scripts in the guest\<close>

definition guest_prompt_script :: string where
  "guest_prompt_script = unlines
    [''# Managed by ZMUX '' @ EMDASH @ '' simple prompt (no colour).'',
     ''# Default '' @ [SQ] @ ''Z$ '' @ [SQ] @ ''. The dir basename appears only after '' @ [BQ] @ ''cd'' @ [BQ] @ '';'',
     ''# cd back to $HOME or / to restore '' @ [SQ] @ ''Z$ '' @ [SQ] @ ''.'',
     ''cd() {'',
     ''  command cd '' @ [DQ] @ ''$@'' @ [DQ] @ '' || return 1'',
     ''  if [ '' @ [DQ] @ ''$PWD'' @ [DQ] @ '' = '' @ [DQ] @ ''$HOME'' @ [DQ] @ '' ] || [ '' @ [DQ] @ ''$PWD'' @ [DQ] @ '' = '' @ [DQ] @ ''/'' @ [DQ] @ '' ]; then'',
     ''    PS1='' @ [SQ] @ ''Z$ '' @ [SQ],
     ''  else'',
     ''    PS1='' @ [DQ] @ ''Z:${PWD##*/}'' @ [BS] @ ''$ '' @ [DQ],
     ''  fi'',
     ''}'',
     ''PS1='' @ [SQ] @ ''Z$ '' @ [SQ],
     ''export PS1'']"

definition guest_motd_script :: string where
  "guest_motd_script = unlines
    [''# Managed by ZMUX '' @ EMDASH @ '' first-interactive-shell banner.'',
     ''if [ '' @ [DQ] @ ''$SHLVL'' @ [DQ] @ '' = '' @ [DQ] @ ''1'' @ [DQ] @ '' ]; then'',
     ''  printf '' @ [SQ, BS] @ ''033[1;38;5;202m'' @ [SQ],
     ''  cat <<'' @ [SQ] @ ''BANNER'' @ [SQ],
     ''  ____  __  __ _   _ __  __'',
     '' |_  / |  '' @ [BS] @ ''/  | | | |'' @ [BS] @ '' '' @ [BS] @ ''/ /'',
     ''  / /  | |'' @ [BS] @ ''/| | |_| | >  < '',
     '' /___| |_|  |_|'' @ [BS] @ ''___/ /_/'' @ [BS] @ ''_'' @ [BS],
     ''BANNER'',
     ''  printf '' @ [SQ, BS] @ ''033[0m'' @ [BS] @ ''033[38;5;80m  Alpine %s'' @ [BS] @ ''033[0m'' @ [BS] @ ''n'' @ [SQ] @ '' '' @ [DQ] @ ''$(cat /etc/alpine-release 2>/dev/null)'' @ [DQ],
     ''  printf '' @ [SQ, BS] @ ''033[90m  type '' @ [BS] @ ''033[36mapk add <pkg>'' @ [BS] @ ''033[90m to install packages'' @ [BS] @ ''033[0m'' @ [BS] @ ''n'' @ [SQ],
     ''  printf '' @ [SQ, BS] @ ''033[90m  stuck command? run '' @ [BS] @ ''033[36mzmux-doctor'' @ [BS] @ ''033[90m'' @ [BS] @ ''033[0m'' @ [BS] @ ''n'' @ [SQ],
     ''  printf '' @ [SQ, BS] @ ''n'' @ [SQ],
     ''fi'']"

definition guest_doctor_script :: string where
  "guest_doctor_script = unlines
    [''#!/bin/sh'',
     ''# Managed by ZMUX '' @ EMDASH @ '' guest self-diagnostics for the '' @ [SQ] @ ''commands hang'',
     ''# silently'' @ [SQ] @ '' class. The LAST [doctor] RUN: line before a freeze plus'',
     ''# its DIAG line is the diagnosis '' @ EMDASH @ '' screenshot it and report.'',
     ''say() { printf '' @ [SQ, BS] @ ''033[36m[doctor]'' @ [BS] @ ''033[0m %s'' @ [BS] @ ''n'' @ [SQ] @ '' '' @ [DQ] @ ''$1'' @ [DQ] @ ''; }'',
     ''runi() { say '' @ [DQ] @ ''RUN: $1'' @ [DQ] @ ''; out=$(timeout 3 '' @ [DQ] @ ''$@'' @ [DQ] @ '' 2>&1); rc=$?; printf '' @ [SQ] @ ''%s'' @ [BS] @ ''n'' @ [SQ] @ '' '' @ [DQ] @ ''$out'' @ [DQ] @ '' | head -3 | sed '' @ [SQ] @ ''s/^/    /'' @ [SQ] @ ''; case '' @ [DQ] @ ''$out'' @ [DQ] @ '' in *'' @ [DQ] @ ''Function not implemented'' @ [DQ] @ ''*) say '' @ [DQ] @ ''DIAG: EXEC-DEPTH-ENOSYS (rc=$rc) '' @ EMDASH @ '' deeper fork/exec syscall path broken'' @ [DQ] @ '';; *) case '' @ [DQ] @ ''$rc'' @ [DQ] @ '' in 124) say '' @ [DQ] @ ''DIAG: HANG (rc=124) '' @ EMDASH @ '' froze inside this syscall path'' @ [DQ] @ '';; *) say '' @ [DQ] @ ''rc=$rc'' @ [DQ] @ '';; esac;; esac; }'',
     ''say '' @ [DQ] @ ''kernel   : $(uname -a 2>&1)'' @ [DQ],
     ''say '' @ [DQ] @ ''machine  : $(uname -m 2>&1)'' @ [DQ],
     ''say '' @ [DQ] @ ''alpine   : $(cat /etc/alpine-release 2>&1)'' @ [DQ],
     ''say '' @ [DQ] @ ''musl     : $(ls /lib/ld-musl-*.so.1 2>/dev/null | head -1)'' @ [DQ],
     ''say '' @ [DQ] @ ''resolv.conf:'' @ [DQ],
     ''sed '' @ [SQ] @ ''s/^/    /'' @ [SQ] @ '' /etc/resolv.conf 2>&1'',
     ''runi stat /etc/os-release'',
     ''runi dd if=/dev/urandom bs=8 count=1'',
     ''runi nslookup dl-cdn.alpinelinux.org'',
     ''runi sh -c true'',
     ''runi timeout 2 true'',
     ''runi apk --version'',
     ''say '' @ [DQ] @ ''hint: deep syscall breadcrumbs: ZMUX proot debug mode (touch ~/.zmux_proot_debug)'' @ [DQ]]"

definition guest_notices :: "(string \<times> string) list" where
  "guest_notices =
    [(''zpip'', unlines
       [''#!/bin/sh'',
        ''echo '' @ [SQ] @ ''zpip is retired in Alpine-first ZMUX.'' @ [SQ] @ '' >&2'',
        ''echo '' @ [SQ] @ ''Use: apk add py3-<package>'' @ [SQ] @ '' >&2'',
        ''echo '' @ [SQ] @ ''  or: python3 -m pip install <package> (prefer a venv)'' @ [SQ] @ '' >&2'',
        ''exit 127'']),
     (''gates'', unlines
       [''#!/bin/sh'',
        ''echo '' @ [SQ] @ ''gates is an app diagnostic and is not part of Alpine.'' @ [SQ] @ '' >&2'',
        ''exit 127'']),
     (''zmux-info'', unlines
       [''#!/bin/sh'',
        ''echo '' @ [SQ] @ ''zmux-info is available from ZMUX diagnostics.'' @ [SQ] @ '' >&2'',
        ''exit 127'']),
     (''zmux-pty-probe'', unlines
       [''#!/bin/sh'',
        ''echo '' @ [SQ] @ ''zmux-pty-probe is an app diagnostic and is not part of Alpine.'' @ [SQ] @ '' >&2'',
        ''exit 127'']),
     (''zmux-setup-storage'', unlines
       [''#!/bin/sh'',
        ''printf '' @ [SQ, BS] @ ''033]777;zmux-setup-storage'' @ [BS] @ ''007'' @ [SQ],
        ''exit 0''])]"

definition write_guest_prompt :: "path \<Rightarrow> unit io" where
  "write_guest_prompt root =
     (let d = child (child root ''etc'') ''profile.d''
      in seq_io (mkdir_parents d) (try_write (child d ''zmux-prompt.sh'') guest_prompt_script))"

definition write_guest_motd :: "path \<Rightarrow> unit io" where
  "write_guest_motd root =
     (let d = child (child root ''etc'') ''profile.d''
      in seq_io (mkdir_parents d) (try_write (child d ''zmux-motd.sh'') guest_motd_script))"

definition guest_bin :: "path \<Rightarrow> path" where
  "guest_bin root = child (child (child root ''usr'') ''local'') ''bin''"

definition write_guest_doctor :: "path \<Rightarrow> unit io" where
  "write_guest_doctor root =
     (let p = child (guest_bin root) ''zmux-doctor''
      in seq_io (mkdir_parents (guest_bin root))
           (try_os (seq_io (write_text p guest_doctor_script) (try_os (chmod p 493) ())) ()))"

text \<open>Stale wrappers are removed only when they carry the old marker.\<close>

definition remove_stale :: "path \<Rightarrow> string \<Rightarrow> unit io" where
  "remove_stale bin_d nm =
     (let c = child bin_d nm
      in try_os (bind_io (ask (\<lambda>F. is_file F c)) (\<lambda>ok. if \<not> ok then ret ()
           else bind_io (read_text c) (\<lambda>t. if contains t ''ZMUX host tool'' then unlink c else ret ()))) ())"

definition install_notice :: "path \<Rightarrow> string \<times> string \<Rightarrow> nat io" where
  "install_notice bin_d e =
     (case e of (cmd, text) \<Rightarrow>
        let w = child bin_d cmd
        in try_os
             (bind_io (bind_io (ask (\<lambda>F. path_exists F w)) (\<lambda>ex.
                 if ex then bind_io (read_text w) (\<lambda>t. ret (Some t)) else ret None)) (\<lambda>current.
              seq_io (if current \<noteq> Some text then write_text w text else ret ())
             (seq_io (chmod w 493) (ret 1)))) 0)"

fun sum_io :: "('a \<Rightarrow> nat io) \<Rightarrow> 'a list \<Rightarrow> nat io" where
  "sum_io f [] = ret 0"
| "sum_io f (x # xs) = bind_io (f x) (\<lambda>n. bind_io (sum_io f xs) (\<lambda>m. ret (n + m)))"

definition install_guest_wrappers :: "linux \<Rightarrow> nat io" where
  "install_guest_wrappers X =
     bind_io (is_installed X) (\<lambda>ok. if \<not> ok then ret 0
       else seq_io (mkdir_parents (guest_bin (lx_rootfs X)))
           (seq_io (each_io (remove_stale (guest_bin (lx_rootfs X))) [''linux-setup'', ''help''])
           (sum_io (install_notice (guest_bin (lx_rootfs X))) guest_notices)))"

end
