(* ===== verification/LinuxProot.thy ===== *)
theory LinuxProot
  imports LinuxGuest Json
begin

text \<open>
  Running the guest (\<open>zmux/linuxenv.py\<close>): where the \<open>proot\<close> binary is, the environment of its
  children with the self-healed talloc library and the cached seccomp probe, the bind flags and
  the argument vectors, and the migration of an install stranded in the asset tree.
\<close>

section \<open>The binary\<close>

text \<open>The first \<open>libpython\<close> mapping of \<open>/proc/self/maps\<close> that lies in a \<open>lib\<close> directory.\<close>

fun maps_lib_dir :: "string list \<Rightarrow> string option" where
  "maps_lib_dir [] = None"
| "maps_lib_dir (l # ls) =
     (if contains l ''libpython'' \<and> contains l ''/lib/''
      then Some (path_str (parent_path (to_path (last (str_split l)))))
      else maps_lib_dir ls)"

definition truthy_str :: "string option \<Rightarrow> bool" where
  "truthy_str s = (s \<noteq> None \<and> s \<noteq> Some '''')"

definition native_library_dir :: "linux \<Rightarrow> string option" where
  "native_library_dir X =
     (if truthy_str (lx_native X) then lx_native X
      else if \<not> is_android X then None
      else if truthy_str (lx_bridge X) then lx_bridge X
      else if truthy_str (lx_jnius X) then lx_jnius X
      else case lx_maps X of None \<Rightarrow> None | Some t \<Rightarrow> maps_lib_dir (split_on (CHR 0x0A) t))"

definition exec_file :: "fsys \<Rightarrow> string \<Rightarrow> bool" where
  "exec_file F p = (is_file F (to_path p) \<and> access_x F (to_path p))"

definition proot_binary :: "linux \<Rightarrow> fsys \<Rightarrow> string option" where
  "proot_binary X F =
     (if is_android X then
        (case native_library_dir X of
           Some d \<Rightarrow>
             if d \<noteq> '''' \<and> exec_file F (os_join d ''libproot.so'') then Some (os_join d ''libproot.so'') else None
         | None \<Rightarrow> None)
      else let e = env_get (lx_env X) ''ZMUX_PROOT_BIN'' ''''
           in if e \<noteq> '''' \<and> exec_file F e then Some e else which F (lx_env X) ''proot'')"

definition status :: "linux \<Rightarrow> string io" where
  "status X =
     bind_io (installed_os X) (\<lambda>os.
       if os = '''' then ret (''Linux environment: NOT INSTALLED (run '' @ [BQ] @ ''linux-setup'' @ [BQ] @ '')'')
       else bind_io (ask (proot_binary X)) (\<lambda>pr.
            bind_io (installed_version X) (\<lambda>v.
            ret (capitalize os @ '' '' @ v @ '' ('' @ alpine_arch X @ '') @ '' @ path_str (lx_rootfs X) @ LF1
                 @ ''proot: '' @ (if pr \<noteq> None then ''ok'' else ''missing libproot.so in nativeLibraryDir'')))))"

section \<open>The environment of the children\<close>

definition unless_file :: "path \<Rightarrow> path \<Rightarrow> unit io" where
  "unless_file src dst =
     bind_io (ask (\<lambda>F. is_file F src \<and> \<not> is_file F dst)) (\<lambda>c. if c then copy_file src dst else ret ())"

definition ensure_talloc_compat :: "linux \<Rightarrow> string \<Rightarrow> string option io" where
  "ensure_talloc_compat X lib_dir =
     (let source = child (to_path lib_dir) ''libtalloc.so'';
          source_v2 = child (to_path lib_dir) ''libtalloc.so.2'';
          wanted_v2 = child (lx_runtime_lib X) ''libtalloc.so.2'';
          wanted_plain = child (lx_runtime_lib X) ''libtalloc.so''
      in try_os
          (seq_io
            (bind_io (ask (\<lambda>F. (is_file F source \<or> is_file F source_v2)
                 \<and> (\<not> is_file F wanted_v2 \<or> \<not> is_file F wanted_plain))) (\<lambda>need.
               if need then
                 seq_io (mkdir_parents (lx_runtime_lib X))
                (seq_io (try_os (chmod (lx_runtime_lib X) 448) ())
                (seq_io (unless_file source wanted_v2) (unless_file source_v2 wanted_plain)))
               else ret ()))
            (bind_io (ask (\<lambda>F. is_file F wanted_v2 \<or> is_file F wanted_plain)) (\<lambda>have.
               ret (if have then Some (path_str (lx_runtime_lib X)) else None)))) None)"

definition real_dirname :: "linux \<Rightarrow> fsys \<Rightarrow> string \<Rightarrow> string" where
  "real_dirname X F p =
     (case resolve_path F (joinpath (lx_cwd X) (to_path p)) of
        Ok q \<Rightarrow> path_str (parent_path q)
      | Err _ \<Rightarrow> path_str (parent_path (joinpath (lx_cwd X) (to_path p))))"

type_synonym dict = "(string \<times> string) list"

definition base_proot_env :: "linux \<Rightarrow> dict io" where
  "base_proot_env X =
     (let extra = [(''PATH'', GUEST_PATH), (''HOME'', GUEST_HOME)]
      in if is_android X then
           (let lib_dir = (case native_library_dir X of None \<Rightarrow> '''' | Some d \<Rightarrow> d)
            in if lib_dir = '''' then ret extra
               else bind_io (ensure_talloc_compat X lib_dir) (\<lambda>compat.
                 ret (extra @
                   [(''LD_LIBRARY_PATH'', (if truthy_str compat then the compat @ '':'' @ lib_dir else lib_dir)),
                    (''PROOT_LOADER'', os_join lib_dir ''libproot-loader.so''),
                    (''PROOT_TMP_DIR'', path_str (lx_cache X))])))
         else bind_io (ask (\<lambda>F. map_option (real_dirname X F) (proot_binary X F))) (\<lambda>nb.
                ret (case nb of None \<Rightarrow> extra | Some d \<Rightarrow> extra @ [(''LD_LIBRARY_PATH'', d)])))"

definition env_update :: "environ \<Rightarrow> dict \<Rightarrow> environ" where
  "env_update env d = foldl (\<lambda>e (k, v). e(k \<mapsto> v)) env d"

section \<open>Argument vectors\<close>

fun bind_args :: "linux \<Rightarrow> path list \<Rightarrow> string list io" where
  "bind_args X [] = ret []"
| "bind_args X (p # ps) =
     seq_io (ensure_guest_mountpoint X p)
       (bind_io (bind_args X ps) (\<lambda>fs. ret (''-b'' # (path_str p @ '':'' @ path_str p) # fs)))"

definition bind_flags :: "linux \<Rightarrow> string list io" where
  "bind_flags X =
     bind_io (ask (storage_bind_paths X)) (\<lambda>ps.
     bind_io (bind_args X ps) (\<lambda>fs.
     seq_io (ensure_guest_resolv_conf (lx_rootfs X))
       (ret ([''-b'', ''/dev'', ''-b'', ''/proc'', ''-b'', ''/sys'', ''-b'', path_str (lx_home X) @ '':'' @ HOME_BIND] @ fs))))"

definition write_guest_scripts :: "linux \<Rightarrow> unit io" where
  "write_guest_scripts X =
     bind_io (is_installed X) (\<lambda>ok. if ok
       then seq_io (write_guest_prompt (lx_rootfs X))
           (seq_io (write_guest_motd (lx_rootfs X)) (write_guest_doctor (lx_rootfs X)))
       else ret ())"

definition build_proot_argv :: "linux \<Rightarrow> string list \<Rightarrow> path \<Rightarrow> string list \<Rightarrow> string list io" where
  "build_proot_argv X guest_argv host_cwd extra_binds =
     bind_io (ask (proot_binary X)) (\<lambda>pr. case pr of
        None \<Rightarrow> raise (RuntimeError ''proot is not available in this runtime (libproot.so missing)'')
      | Some proot \<Rightarrow>
          bind_io (bind_flags X) (\<lambda>flags.
          seq_io (write_guest_scripts X)
         (bind_io (lift (\<lambda>F. guest_cwd X F host_cwd)) (\<lambda>w.
          ret ([proot, ''-0'', ''-r'', path_str (lx_rootfs X)] @ flags
               @ concat (map (\<lambda>e. [''-b'', e]) extra_binds) @ [''-w'', w] @ guest_argv)))))"

definition build_command_line :: "linux \<Rightarrow> string list \<Rightarrow> path \<Rightarrow> string list \<Rightarrow> string io" where
  "build_command_line X guest_argv host_cwd extra_binds =
     bind_io (build_proot_argv X guest_argv host_cwd extra_binds) (\<lambda>a. ret (shlex_join a))"

definition insert_at :: "nat \<Rightarrow> 'a \<Rightarrow> 'a list \<Rightarrow> 'a list" where
  "insert_at i x xs = take i xs @ x # drop i xs"

definition build_interactive_argv :: "linux \<Rightarrow> path \<Rightarrow> string list io" where
  "build_interactive_argv X host_cwd =
     bind_io (build_proot_argv X [''/bin/sh'', ''-l''] host_cwd []) (\<lambda>a.
       ret (insert_at 3 ''--sysvipc'' (insert_at 2 ''--link2symlink'' (insert_at 1 ''--kill-on-exit'' a))))"

section \<open>The seccomp probe\<close>

definition seccomp_probe :: "runner \<Rightarrow> linux \<Rightarrow> bool io" where
  "seccomp_probe run X =
     try_io
       (bind_io (if is_android X then is_installed X else ret False) (\<lambda>ok.
          if \<not> ok then ret True
          else bind_io (build_proot_argv X [''/bin/true''] (lx_home X) []) (\<lambda>argv.
               bind_io (base_proot_env X) (\<lambda>extra.
               bind_io (run argv (env_update (lx_env X) extra)) (\<lambda>r. ret (fst r \<noteq> 0))))))
       (\<lambda>e. ret True)"

definition seccomp_probe_broken :: "runner \<Rightarrow> linux \<Rightarrow> bool option \<Rightarrow> (bool \<times> bool option) io" where
  "seccomp_probe_broken run X cache =
     (case cache of
        Some x \<Rightarrow> ret (x, cache)
      | None \<Rightarrow> bind_io (seccomp_probe run X) (\<lambda>x. ret (x, Some x)))"

definition proot_env :: "runner \<Rightarrow> linux \<Rightarrow> bool option \<Rightarrow> (dict \<times> bool option) io" where
  "proot_env run X cache =
     bind_io (base_proot_env X) (\<lambda>extra.
     bind_io (seccomp_probe_broken run X cache) (\<lambda>(broken, cache').
       ret (if broken then dict_put ''PROOT_NO_SECCOMP'' ''1'' extra else extra, cache')))"

definition ensure_user_home_layout :: "linux \<Rightarrow> unit io" where
  "ensure_user_home_layout X =
     seq_io (mkdir_parents (lx_home X)) (mkdir_parents (child (lx_home X) ''projects''))"

definition interactive_env :: "runner \<Rightarrow> linux \<Rightarrow> bool option \<Rightarrow> (dict \<times> bool option) io" where
  "interactive_env run X cache =
     seq_io (ensure_user_home_layout X)
    (seq_io (write_guest_scripts X)
    (bind_io (proot_env run X cache) (\<lambda>(env, cache').
      ret (foldl (\<lambda>d (k, v). dict_put k v d) env
             [(''TERM'', ''xterm-256color''), (''LANG'', ''C.UTF-8''), (''SHELL'', ''/bin/sh''),
              (''USER'', ''zmux''), (''LOGNAME'', ''zmux''), (''PS1'', ''Z$ '')], cache'))))"

section \<open>Migration\<close>

definition LEGACY_PRUNABLE_DIRS :: "string list" where
  "LEGACY_PRUNABLE_DIRS = [''linux'', ''bin'', ''cache'', ''logs'', ''staging'', ''installed'', ''user_packages'', ''home'']"

text \<open>The recursion is bounded by the interpreter's recursion limit.\<close>

fun merge_entries :: "(path \<Rightarrow> path \<Rightarrow> nat io) \<Rightarrow> path \<Rightarrow> path \<Rightarrow> string list \<Rightarrow> nat \<Rightarrow> nat io" where
  "merge_entries rec source destination [] moved = ret moved"
| "merge_entries rec source destination (nm # nms) moved =
     (let entry = child source nm; target = child destination nm
      in bind_io (ask (\<lambda>F. is_dir F entry \<and> \<not> is_symlink F entry \<and> is_dir F target)) (\<lambda>both.
         if both then bind_io (rec entry target) (\<lambda>n. merge_entries rec source destination nms (moved + n))
         else bind_io (ask (\<lambda>F. path_exists F target \<or> is_symlink F target)) (\<lambda>taken.
           if taken then merge_entries rec source destination nms moved
           else bind_io (try_os (seq_io (os_replace entry target) (ret True)) False) (\<lambda>ok.
                  merge_entries rec source destination nms (if ok then moved + 1 else moved)))))"

primrec merge_tree :: "nat \<Rightarrow> path \<Rightarrow> path \<Rightarrow> nat io" where
  "merge_tree 0 source destination = raise (RuntimeError ''maximum recursion depth exceeded'')"
| "merge_tree (Suc n) source destination =
     bind_io (try_os (bind_io (iterdir source) (\<lambda>es. ret (Some es))) None) (\<lambda>es. case es of
        None \<Rightarrow> ret 0
      | Some nms \<Rightarrow>
          seq_io (mkdir_parents destination)
         (bind_io (merge_entries (merge_tree n) source destination nms 0) (\<lambda>moved.
            seq_io (try_os (rmdir source) ()) (ret moved))))"

text \<open>Empty directories below a runtime directory are removed from the bottom up, then it.\<close>

definition prune_husk :: "path \<Rightarrow> unit io" where
  "prune_husk p =
     bind_io (ask (\<lambda>F. is_dir F p \<and> \<not> is_symlink F p)) (\<lambda>d. if d then try_os (rmdir p) () else ret ())"

definition prune_dir :: "path \<Rightarrow> unit io" where
  "prune_dir p =
     try_os (bind_io (ask (descendants p)) (\<lambda>hs. seq_io (each_io prune_husk hs) (rmdir p))) ()"

definition move_rootfs :: "linux \<Rightarrow> path \<Rightarrow> exn option io" where
  "move_rootfs X legacy_rootfs =
     try_io
       (seq_io (mkdir_parents (parent_path (lx_rootfs X)))
       (bind_io (ask (\<lambda>F. path_exists F (lx_rootfs X))) (\<lambda>ex.
        seq_io (if ex then rmtree_ignore (lx_rootfs X) else ret ())
       (seq_io (os_replace legacy_rootfs (lx_rootfs X)) (ret None)))))
       (\<lambda>e. if is_oserror e then ret (Some e) else raise e)"

definition migrate_one :: "nat \<Rightarrow> linux \<Rightarrow> path \<Rightarrow> string list io" where
  "migrate_one depth X legacy_app =
     (let legacy_rootfs = child (child legacy_app ''linux'') ''rootfs''; target = lx_rootfs X
      in bind_io (ask (\<lambda>F. legacy_rootfs = target \<or> \<not> is_dir F legacy_rootfs)) (\<lambda>skip.
         if skip then ret []
         else bind_io (ask (\<lambda>F. guest_regular_file X F legacy_rootfs ''/bin/sh'')) (\<lambda>usable.
              bind_io (is_installed X) (\<lambda>live.
              if live then
                ret (if usable then
                  [''An older Linux install is still stored at '' @ path_str legacy_rootfs
                   @ ''; it is no longer used and can be deleted to free space.''] else [])
              else if \<not> usable then ret []
              else bind_io (move_rootfs X legacy_rootfs) (\<lambda>r. case r of
                 Some e \<Rightarrow>
                   ret [''Found an older Linux install at '' @ path_str legacy_rootfs @ '' but could not move it to ''
                     @ path_str target @ '' ('' @ exn_text e @ ''). Run linux-setup to reinstall '' @ EMDASH
                     @ '' your home directory is kept.'']
               | None \<Rightarrow>
                   bind_io (merge_tree depth (child legacy_app ''home'') (lx_home X)) (\<lambda>moved.
                   seq_io (each_io (\<lambda>nm. prune_dir (child legacy_app nm)) LEGACY_PRUNABLE_DIRS)
                     (ret [''Recovered the previous Linux install from '' @ path_str legacy_rootfs @ '' into ''
                        @ path_str target
                        @ (if moved > 0 then '' ('' @ nat_str moved @ '' home item(s) migrated)'' else '''')
                        @ ''.''])))))))"

fun concat_io :: "('a \<Rightarrow> 'b list io) \<Rightarrow> 'a list \<Rightarrow> 'b list io" where
  "concat_io f [] = ret []"
| "concat_io f (x # xs) = bind_io (f x) (\<lambda>ys. bind_io (concat_io f xs) (\<lambda>zs. ret (ys @ zs)))"

definition migrate_legacy_install :: "nat \<Rightarrow> linux \<Rightarrow> path \<Rightarrow> string io" where
  "migrate_legacy_install depth X package_root =
     bind_io (ask (\<lambda>F. legacy_app_dir_candidates F (lx_app X) package_root)) (\<lambda>cs.
     bind_io (concat_io (migrate_one depth X) cs) (\<lambda>notes. ret (join_with LF1 notes)))"

end
