(* ===== verification/Sha512.thy ===== *)
theory Sha512
  imports Crypto
begin

text \<open>
  SHA-512 (FIPS 180-4), as \<open>hashlib.new("sha512")\<close> computes it over the downloaded root file
  system.
\<close>

type_synonym word64 = "64 word"

definition sha512_K :: "word64 list" where
  "sha512_K =
    [0x428A2F98D728AE22, 0x7137449123EF65CD, 0xB5C0FBCFEC4D3B2F, 0xE9B5DBA58189DBBC,
     0x3956C25BF348B538, 0x59F111F1B605D019, 0x923F82A4AF194F9B, 0xAB1C5ED5DA6D8118,
     0xD807AA98A3030242, 0x12835B0145706FBE, 0x243185BE4EE4B28C, 0x550C7DC3D5FFB4E2,
     0x72BE5D74F27B896F, 0x80DEB1FE3B1696B1, 0x9BDC06A725C71235, 0xC19BF174CF692694,
     0xE49B69C19EF14AD2, 0xEFBE4786384F25E3, 0x0FC19DC68B8CD5B5, 0x240CA1CC77AC9C65,
     0x2DE92C6F592B0275, 0x4A7484AA6EA6E483, 0x5CB0A9DCBD41FBD4, 0x76F988DA831153B5,
     0x983E5152EE66DFAB, 0xA831C66D2DB43210, 0xB00327C898FB213F, 0xBF597FC7BEEF0EE4,
     0xC6E00BF33DA88FC2, 0xD5A79147930AA725, 0x06CA6351E003826F, 0x142929670A0E6E70,
     0x27B70A8546D22FFC, 0x2E1B21385C26C926, 0x4D2C6DFC5AC42AED, 0x53380D139D95B3DF,
     0x650A73548BAF63DE, 0x766A0ABB3C77B2A8, 0x81C2C92E47EDAEE6, 0x92722C851482353B,
     0xA2BFE8A14CF10364, 0xA81A664BBC423001, 0xC24B8B70D0F89791, 0xC76C51A30654BE30,
     0xD192E819D6EF5218, 0xD69906245565A910, 0xF40E35855771202A, 0x106AA07032BBD1B8,
     0x19A4C116B8D2D0C8, 0x1E376C085141AB53, 0x2748774CDF8EEB99, 0x34B0BCB5E19B48A8,
     0x391C0CB3C5C95A63, 0x4ED8AA4AE3418ACB, 0x5B9CCA4F7763E373, 0x682E6FF3D6B2B8A3,
     0x748F82EE5DEFB2FC, 0x78A5636F43172F60, 0x84C87814A1F0AB72, 0x8CC702081A6439EC,
     0x90BEFFFA23631E28, 0xA4506CEBDE82BDE9, 0xBEF9A3F7B2C67915, 0xC67178F2E372532B,
     0xCA273ECEEA26619C, 0xD186B8C721C0C207, 0xEADA7DD6CDE0EB1E, 0xF57D4F7FEE6ED178,
     0x06F067AA72176FBA, 0x0A637DC5A2C898A6, 0x113F9804BEF90DAE, 0x1B710B35131C471B,
     0x28DB77F523047D84, 0x32CAAB7B40C72493, 0x3C9EBE0A15C9BEBC, 0x431D67C49C100D4C,
     0x4CC5D4BECB3E42B6, 0x597F299CFC657E2A, 0x5FCB6FAB3AD6FAEC, 0x6C44198C4A475817]"

definition sha512_H0 :: "word64 list" where
  "sha512_H0 =
    [0x6A09E667F3BCC908, 0xBB67AE8584CAA73B, 0x3C6EF372FE94F82B, 0xA54FF53A5F1D36F1,
     0x510E527FADE682D1, 0x9B05688C2B3E6C1F, 0x1F83D9ABFB41BD6B, 0x5BE0CD19137E2179]"

definition rotr64 :: "nat \<Rightarrow> word64 \<Rightarrow> word64" where
  "rotr64 n w = drop_bit n w OR push_bit (64 - n) w"

definition sha512_pad :: "bytes \<Rightarrow> bytes" where
  "sha512_pad m = m @ [0x80] @ replicate ((239 - length m mod 128) mod 128) 0 @ be_bytes 16 (8 * length m)"

fun extend_schedule64 :: "nat \<Rightarrow> word64 list \<Rightarrow> word64 list" where
  "extend_schedule64 0 w = w"
| "extend_schedule64 (Suc n) w =
     (let i = length w; a = w ! (i - 15); c = w ! (i - 2);
          s0 = rotr64 1 a XOR rotr64 8 a XOR drop_bit 7 a;
          s1 = rotr64 19 c XOR rotr64 61 c XOR drop_bit 6 c
      in extend_schedule64 n (w @ [w ! (i - 16) + s0 + w ! (i - 7) + s1]))"

definition sha512_round :: "word64 list \<Rightarrow> word64 \<times> word64 \<Rightarrow> word64 list" where
  "sha512_round s kw =
     (let a = s ! 0; b = s ! 1; c = s ! 2; d = s ! 3; e = s ! 4; f = s ! 5; g = s ! 6; h = s ! 7;
          S1 = rotr64 14 e XOR rotr64 18 e XOR rotr64 41 e;
          ch = (e AND f) XOR (NOT e AND g);
          t1 = h + S1 + ch + fst kw + snd kw;
          S0 = rotr64 28 a XOR rotr64 34 a XOR rotr64 39 a;
          maj = (a AND b) XOR (a AND c) XOR (b AND c)
      in [t1 + (S0 + maj), a, b, c, d + t1, e, f, g])"

definition sha512_block :: "word64 list \<Rightarrow> bytes \<Rightarrow> word64 list" where
  "sha512_block s blk =
     (let w = extend_schedule64 64 (map (\<lambda>c. of_nat (from_big c)) (chunks_of 8 blk))
      in map (\<lambda>(x, y). x + y) (zip s (foldl sha512_round s (zip sha512_K w))))"

definition sha512 :: "bytes \<Rightarrow> bytes" where
  "sha512 m =
     concat (map (\<lambda>w. be_bytes 8 (unat w)) (foldl sha512_block sha512_H0 (chunks_of 128 (sha512_pad m))))"

definition sha512_hexdigest :: "bytes \<Rightarrow> string" where
  "sha512_hexdigest m = to_hex (sha512 m)"

end
