(* ===== verification/ElfScan.thy ===== *)
theory ElfScan
  imports PyText "HOL-Library.Monad_Syntax"
begin

text \<open>
  The ELF reader of \<open>zmux/elfscan.py\<close>: \<open>elf_dynamic_needed\<close>, \<open>_elf_dynamic_string\<close> and
  \<open>elf_soname\<close> on the bytes of the file.  Every way a read can fail is a value: \<open>struct.error\<close>
  for a field past the end, \<open>OverflowError\<close> for an offset that is no C size, \<open>IndexError\<close> for
  \<open>data[4]\<close>, \<open>ValueError\<close> for \<open>bytes.index\<close>, \<open>ElfError\<close> where the code raises it.
  Tags are read as unsigned numbers; the code compares them only with small constants.
\<close>

section \<open>Reading fields\<close>

definition bind_exn :: "exn + 'a \<Rightarrow> ('a \<Rightarrow> exn + 'b) \<Rightarrow> exn + 'b" where
  "bind_exn r f = (case r of Err e \<Rightarrow> Err e | Ok x \<Rightarrow> f x)"

lemma bind_exn_simps [simp]: "bind_exn (Err e) f = Err e" "bind_exn (Ok x) f = f x"
  by (simp_all add: bind_exn_def)

lemma bind_exn_Ok: "bind_exn r f = Ok y \<longleftrightarrow> (\<exists>x. r = Ok x \<and> f x = Ok y)"
  by (cases r) simp_all

lemma bind_exn_Err: "bind_exn r f = Err e \<longleftrightarrow> r = Err e \<or> (\<exists>x. r = Ok x \<and> f x = Err e)"
  by (cases r) simp_all

text \<open>\<open>struct.unpack_from\<close> of consecutive unsigned fields of the given widths.\<close>

definition uint :: "bool \<Rightarrow> bytes \<Rightarrow> nat" where
  "uint le bs = from_big (if le then rev bs else bs)"

fun fields_of :: "bool \<Rightarrow> nat list \<Rightarrow> bytes \<Rightarrow> nat list" where
  "fields_of le [] bs = []"
| "fields_of le (n # ns) bs = uint le (take n bs) # fields_of le ns (drop n bs)"

definition unpack_from :: "bool \<Rightarrow> nat list \<Rightarrow> bytes \<Rightarrow> nat \<Rightarrow> exn + nat list" where
  "unpack_from le ws data off =
     (if off \<ge> 2 ^ 63 then Err OverflowError
      else if length data < off + sum_list ws then Err StructError
      else Ok (fields_of le ws (drop off data)))"

text \<open>\<open>data[start:end]\<close> up to the first zero byte, \<open>end = data.index(0, start, stop)\<close>.\<close>

definition string_at :: "bytes \<Rightarrow> nat \<Rightarrow> nat \<Rightarrow> exn + ustr" where
  "string_at data start stop =
     (let window = drop start (take stop data)
      in if 0 \<in> set window then Ok (utf8_replace (takeWhile (\<lambda>x. x \<noteq> 0) window))
         else Err (ValueError ''subsection not found''))"

section \<open>Sections\<close>

definition SHT_STRTAB :: nat where "SHT_STRTAB = 3"
definition SHT_DYNAMIC :: nat where "SHT_DYNAMIC = 6"
definition DT_NEEDED :: nat where "DT_NEEDED = 1"

record elf =
  e_class :: nat
  e_le :: bool
  e_data :: bytes
  e_shoff :: nat
  e_shentsize :: nat
  e_shnum :: nat
  e_shstrndx :: nat

definition ELF_MAGIC :: bytes where "ELF_MAGIC = [0x7F, 69, 76, 70]"

text \<open>The identification bytes and the section table's place in the header.\<close>

definition elf_ident :: "bytes \<Rightarrow> exn + nat \<times> bool" where
  "elf_ident data =
     (if take 4 data \<noteq> ELF_MAGIC then Err (ElfError ''not an ELF file'')
      else if length data < 6 then Err IndexError
      else Ok (unat (data ! 4), data ! 5 = 1))"

definition elf_table :: "nat \<Rightarrow> bool \<Rightarrow> bytes \<Rightarrow> exn + elf" where
  "elf_table cls le data =
     bind_exn (unpack_from le [if cls = 1 then 4 else 8] data (if cls = 1 then 0x20 else 0x28)) (\<lambda>offs.
     bind_exn (unpack_from le [2, 2, 2] data (if cls = 1 then 0x2E else 0x3A)) (\<lambda>hs.
       Ok \<lparr>e_class = cls, e_le = le, e_data = data, e_shoff = offs ! 0, e_shentsize = hs ! 0,
           e_shnum = hs ! 1, e_shstrndx = hs ! 2\<rparr>))"

definition section_header :: "elf \<Rightarrow> nat \<Rightarrow> exn + nat \<times> nat \<times> nat \<times> nat" where
  "section_header E index =
     (let offset = e_shoff E + index * e_shentsize E
      in if e_class E = 1 then
           bind_exn (unpack_from (e_le E) [4, 4, 4, 4, 4, 4] (e_data E) offset) (\<lambda>f.
             Ok (f ! 0, f ! 1, f ! 4, f ! 5))
         else
           bind_exn (unpack_from (e_le E) [4, 4] (e_data E) offset) (\<lambda>f.
           bind_exn (unpack_from (e_le E) [8, 8] (e_data E) (offset + 0x18)) (\<lambda>g.
             Ok (f ! 0, f ! 1, g ! 0, g ! 1))))"

definition section_name :: "elf \<Rightarrow> nat \<Rightarrow> nat \<Rightarrow> nat \<Rightarrow> exn + ustr" where
  "section_name E stroff strsize idx = string_at (e_data E) (stroff + idx) (stroff + strsize)"

text \<open>The scan for the first dynamic section and the last \<open>.dynstr\<close> string table.\<close>

definition scan_step :: "ustr \<Rightarrow> nat \<Rightarrow> nat \<Rightarrow> nat \<Rightarrow>
    (nat \<times> nat) option \<times> (nat \<times> nat) option \<Rightarrow> (nat \<times> nat) option \<times> (nat \<times> nat) option" where
  "scan_step name sec_type off sz = (\<lambda>(dynamic, dynstr).
     if sec_type = SHT_DYNAMIC \<and> dynamic = None then (Some (off, sz), dynstr)
     else if name = u ''.dynstr'' \<and> sec_type = SHT_STRTAB then (dynamic, Some (off, sz))
     else (dynamic, dynstr))"

function scan_sections :: "elf \<Rightarrow> nat \<Rightarrow> nat \<Rightarrow> nat \<Rightarrow> (nat \<times> nat) option \<times> (nat \<times> nat) option \<Rightarrow>
    exn + (nat \<times> nat) option \<times> (nat \<times> nat) option" where
  "scan_sections E stroff strsize index acc =
     (if index \<ge> e_shnum E then Ok acc
      else bind_exn (section_header E index) (\<lambda>(name_idx, sec_type, off, sz).
        if index = e_shstrndx E then scan_sections E stroff strsize (index + 1) acc
        else bind_exn (section_name E stroff strsize name_idx) (\<lambda>name.
          scan_sections E stroff strsize (index + 1) (scan_step name sec_type off sz acc))))"
  by pat_completeness auto
termination by (relation "measure (\<lambda>(E, stroff, strsize, index, acc). e_shnum E - index)") auto

declare scan_sections.simps [simp del]

section \<open>The dynamic section\<close>

definition entry_step :: "elf \<Rightarrow> nat" where
  "entry_step E = (if e_class E = 1 then 8 else 16)"

definition dyn_entry :: "elf \<Rightarrow> nat \<Rightarrow> exn + nat \<times> nat" where
  "dyn_entry E off =
     bind_exn (unpack_from (e_le E) (if e_class E = 1 then [4, 4] else [8, 8]) (e_data E) off) (\<lambda>f.
       Ok (f ! 0, f ! 1))"

function walk_needed :: "elf \<Rightarrow> nat \<times> nat \<Rightarrow> nat \<times> nat \<Rightarrow> nat \<Rightarrow> ustr list \<Rightarrow> exn + ustr list" where
  "walk_needed E (dynoff, dynsize) (stroff, strsize) entry needed =
     (if entry \<ge> dynsize then Ok needed
      else bind_exn (dyn_entry E (dynoff + entry)) (\<lambda>(d_tag, d_val).
        if d_tag = 0 then Ok needed
        else if d_tag \<noteq> DT_NEEDED then walk_needed E (dynoff, dynsize) (stroff, strsize) (entry + entry_step E) needed
        else if stroff + d_val \<ge> stroff + strsize then
          walk_needed E (dynoff, dynsize) (stroff, strsize) (entry + entry_step E) needed
        else bind_exn (string_at (e_data E) (stroff + d_val) (stroff + strsize)) (\<lambda>name.
          walk_needed E (dynoff, dynsize) (stroff, strsize) (entry + entry_step E) (needed @ [name]))))"
  by pat_completeness auto
termination
  by (relation "measure (\<lambda>(E, (dynoff, dynsize), str, entry, needed). dynsize - entry)") (auto simp: entry_step_def)

declare walk_needed.simps [simp del]

definition elf_dynamic_needed :: "bytes \<Rightarrow> exn + ustr list" where
  "elf_dynamic_needed data =
     bind_exn (elf_ident data) (\<lambda>(cls, le).
     if cls \<notin> {1, 2} then Err (ElfError ''unsupported ELF class'')
     else bind_exn (elf_table cls le data) (\<lambda>E.
       if e_shoff E = 0 \<or> e_shnum E = 0 \<or> e_shentsize E = 0 then Err (ElfError ''no section header table'')
       else bind_exn (section_header E (e_shstrndx E)) (\<lambda>(_, shstr_type, shstr_off, shstr_size).
         if shstr_type \<noteq> SHT_STRTAB then Err (ElfError ''bad section-header string table'')
         else bind_exn (scan_sections E shstr_off shstr_size 0 (None, None)) (\<lambda>found.
           case found of
             (Some dynamic, Some dynstr) \<Rightarrow> walk_needed E dynamic dynstr 0 []
           | _ \<Rightarrow> Err (ElfError ''no .dynamic/.dynstr sections (static ELF?)'')))))"

function walk_tag :: "elf \<Rightarrow> nat \<Rightarrow> nat \<times> nat \<Rightarrow> nat \<times> nat \<Rightarrow> nat \<Rightarrow> exn + ustr option" where
  "walk_tag E wanted (dynoff, dynsize) (stroff, strsize) entry =
     (if entry \<ge> dynsize then Ok None
      else bind_exn (dyn_entry E (dynoff + entry)) (\<lambda>(d_tag, d_val).
        if d_tag = 0 then Ok None
        else if d_tag \<noteq> wanted then walk_tag E wanted (dynoff, dynsize) (stroff, strsize) (entry + entry_step E)
        else bind_exn (string_at (e_data E) (stroff + d_val) (stroff + strsize)) (\<lambda>name. Ok (Some name))))"
  by pat_completeness auto
termination
  by (relation "measure (\<lambda>(E, wanted, (dynoff, dynsize), str, entry). dynsize - entry)") (auto simp: entry_step_def)

declare walk_tag.simps [simp del]

definition elf_dynamic_string :: "bytes \<Rightarrow> nat \<Rightarrow> exn + ustr option" where
  "elf_dynamic_string data wanted_tag =
     bind_exn (elf_ident data) (\<lambda>(cls, le).
     bind_exn (elf_table cls le data) (\<lambda>E.
     bind_exn (section_header E (e_shstrndx E)) (\<lambda>(_, _, shstr_off, shstr_size).
     bind_exn (scan_sections E shstr_off shstr_size 0 (None, None)) (\<lambda>found.
       case found of
         (Some dynamic, Some dynstr) \<Rightarrow> walk_tag E wanted_tag dynamic dynstr 0
       | _ \<Rightarrow> Ok None))))"

definition elf_soname :: "bytes \<Rightarrow> exn + ustr option" where
  "elf_soname data =
     (case elf_dynamic_string data 14 of
        Err (ElfError _) \<Rightarrow> Ok None
      | r \<Rightarrow> r)"

section \<open>What the two readers return\<close>

lemma string_at_Ok:
  "string_at data start stop = Ok s \<longleftrightarrow>
     (\<exists>w rest. drop start (take stop data) = w @ 0 # rest \<and> 0 \<notin> set w \<and> s = utf8_replace w)"
proof
  assume "string_at data start stop = Ok s"
  then have z: "0 \<in> set (drop start (take stop data))"
    and s: "s = utf8_replace (takeWhile (\<lambda>x. x \<noteq> 0) (drop start (take stop data)))"
    by (auto simp: string_at_def Let_def split: if_splits)
  from z obtain w rest where w: "drop start (take stop data) = w @ 0 # rest" "0 \<notin> set w"
    by (meson split_list_first)
  have "takeWhile (\<lambda>x. x \<noteq> 0) (w @ 0 # rest) = w"
    using w(2) by (induction w) auto
  with s w show "\<exists>w rest. drop start (take stop data) = w @ 0 # rest \<and> 0 \<notin> set w \<and> s = utf8_replace w"
    by auto
next
  assume "\<exists>w rest. drop start (take stop data) = w @ 0 # rest \<and> 0 \<notin> set w \<and> s = utf8_replace w"
  then obtain w rest where w: "drop start (take stop data) = w @ 0 # rest" "0 \<notin> set w" "s = utf8_replace w"
    by blast
  have "takeWhile (\<lambda>x. x \<noteq> 0) (w @ 0 # rest) = w"
    using w(2) by (induction w) auto
  with w show "string_at data start stop = Ok s" by (simp add: string_at_def Let_def)
qed

lemma string_at_past_end: "stop \<le> start \<Longrightarrow> string_at data start stop = Err (ValueError ''subsection not found'')"
  by (simp add: string_at_def Let_def)

text \<open>The dynamic entries the loops read: those before the first null tag or the section's end.\<close>

fun live_entries :: "(nat \<times> nat) list \<Rightarrow> (nat \<times> nat) list" where
  "live_entries es = takeWhile (\<lambda>(tag, val). tag \<noteq> 0) es"

definition table_at :: "elf \<Rightarrow> nat \<Rightarrow> nat \<Rightarrow> nat \<Rightarrow> (nat \<times> nat) list \<Rightarrow> bool" where
  "table_at E dynoff dynsize entry es \<longleftrightarrow>
     (\<forall>i < length es. entry + i * entry_step E < dynsize \<and>
        dyn_entry E (dynoff + (entry + i * entry_step E)) = Ok (es ! i)) \<and>
     dynsize \<le> entry + length es * entry_step E"

lemma table_at_Nil [simp]: "table_at E dynoff dynsize entry [] \<longleftrightarrow> dynsize \<le> entry"
  by (simp add: table_at_def)

lemma table_at_Cons [simp]:
  "table_at E dynoff dynsize entry (e # es) \<longleftrightarrow>
     entry < dynsize \<and> dyn_entry E (dynoff + entry) = Ok e \<and>
     table_at E dynoff dynsize (entry + entry_step E) es"
  by (auto simp: table_at_def nth_Cons less_Suc_eq_0_disj add.assoc gr0_conv_Suc split: nat.splits)

definition needed_offsets :: "nat \<Rightarrow> (nat \<times> nat) list \<Rightarrow> nat list" where
  "needed_offsets strsize es =
     map snd (filter (\<lambda>(tag, val). tag = DT_NEEDED \<and> val < strsize) (live_entries es))"

lemma walk_needed_table:
  assumes "table_at E dynoff dynsize entry es"
    and "\<And>v. v \<in> set (needed_offsets strsize es) \<Longrightarrow>
           string_at (e_data E) (stroff + v) (stroff + strsize) = Ok (name v)"
  shows "walk_needed E (dynoff, dynsize) (stroff, strsize) entry acc
           = Ok (acc @ map name (needed_offsets strsize es))"
  using assms
proof (induction es arbitrary: entry acc)
  case Nil
  then show ?case by (simp add: walk_needed.simps needed_offsets_def)
next
  case (Cons e es)
  obtain tag val where e: "e = (tag, val)" by (cases e)
  from Cons.prems(1) e have hd: "entry < dynsize" "dyn_entry E (dynoff + entry) = Ok (tag, val)"
    and tl: "table_at E dynoff dynsize (entry + entry_step E) es" by auto
  show ?case
  proof (cases "tag = DT_NEEDED \<and> val < strsize")
    case True
    then have "walk_needed E (dynoff, dynsize) (stroff, strsize) (entry + entry_step E) (acc @ [name val])
      = Ok ((acc @ [name val]) @ map name (needed_offsets strsize es))"
      using Cons.prems(2) e by (intro Cons.IH [OF tl]) (simp add: needed_offsets_def DT_NEEDED_def)
    moreover have "string_at (e_data E) (stroff + val) (stroff + strsize) = Ok (name val)"
      using True e by (intro Cons.prems(2)) (simp add: needed_offsets_def DT_NEEDED_def)
    ultimately show ?thesis
      using hd True e by (subst walk_needed.simps) (simp add: needed_offsets_def DT_NEEDED_def)
  next
    case False
    show ?thesis
    proof (cases "tag = 0")
      case True
      then show ?thesis using hd e by (subst walk_needed.simps) (simp add: needed_offsets_def)
    next
      case nz: False
      have "walk_needed E (dynoff, dynsize) (stroff, strsize) (entry + entry_step E) acc
        = Ok (acc @ map name (needed_offsets strsize es))"
        using Cons.prems(2) e nz False by (intro Cons.IH [OF tl]) (auto simp: needed_offsets_def)
      then show ?thesis
        using hd e nz False by (subst walk_needed.simps) (auto simp: needed_offsets_def)
    qed
  qed
qed

text \<open>The single-tag reader agrees with the list reader on \<open>DT_NEEDED\<close>.\<close>

definition single_of :: "ustr list \<Rightarrow> exn + ustr option \<Rightarrow> bool" where
  "single_of ns r \<longleftrightarrow>
     r = Ok (case ns of [] \<Rightarrow> None | n # _ \<Rightarrow> Some n) \<or> r = Err (ValueError ''subsection not found'')"

lemma walk_agree:
  "walk_needed E dyn strt entry acc = Ok r \<Longrightarrow>
     \<exists>ns. r = acc @ ns \<and> single_of ns (walk_tag E DT_NEEDED dyn strt entry)"
proof (induction E dyn strt entry acc rule: walk_needed.induct)
  case (1 E dynoff dynsize stroff strsize entry acc)
  show ?case
  proof (cases "entry < dynsize")
    case False
    with "1.prems" show ?thesis
      by (simp add: walk_needed.simps [of E dynoff dynsize] walk_tag.simps [of E _ dynoff dynsize] single_of_def)
  next
    case True
    with "1.prems" obtain tag val where de: "dyn_entry E (dynoff + entry) = Ok (tag, val)"
      by (subst (asm) walk_needed.simps) (auto simp: bind_exn_Ok)
    let ?rest = "walk_needed E (dynoff, dynsize) (stroff, strsize) (entry + entry_step E)"
    let ?str = "string_at (e_data E) (stroff + val) (stroff + strsize)"
    consider "tag = 0" | "tag \<noteq> 0" "tag \<noteq> DT_NEEDED" | "tag = DT_NEEDED" "strsize \<le> val"
      | "tag = DT_NEEDED" "val < strsize" by linarith
    then show ?thesis
    proof cases
      case 1
      with "1.prems" True de show ?thesis
        by (simp add: walk_needed.simps [of E dynoff dynsize] walk_tag.simps [of E _ dynoff dynsize] single_of_def)
    next
      case 2
      with "1.prems" True de have "?rest acc = Ok r" by (subst (asm) walk_needed.simps) simp
      with "1.IH"(1) [of tag] 2 True de show ?thesis
        by (simp add: walk_tag.simps [of E _ dynoff dynsize stroff strsize entry])
    next
      case 3
      with "1.prems" True de have "?rest acc = Ok r"
        by (subst (asm) walk_needed.simps) (simp add: DT_NEEDED_def)
      with "1.IH"(2) [of tag val] 3 True de show ?thesis
        by (fastforce simp: walk_tag.simps [of E _ dynoff dynsize stroff strsize entry]
            string_at_past_end DT_NEEDED_def single_of_def)
    next
      case 4
      with "1.prems" True de obtain n where n: "?str = Ok n" "?rest (acc @ [n]) = Ok r"
        by (subst (asm) walk_needed.simps) (auto simp: bind_exn_Ok DT_NEEDED_def)
      from "1.IH"(3) [of tag val n] 4 True de n obtain ns where "r = (acc @ [n]) @ ns"
        by (auto simp: DT_NEEDED_def)
      with 4 True de n show ?thesis
        by (simp add: walk_tag.simps [of E _ dynoff dynsize stroff strsize entry] single_of_def DT_NEEDED_def)
    qed
  qed
qed

lemma both_found_Ok:
  "(case found of (Some d, Some s) \<Rightarrow> w d s | _ \<Rightarrow> Err e) = Ok r \<longleftrightarrow>
     (\<exists>d s. found = (Some d, Some s) \<and> w d s = Ok r)"
  by (cases found) (auto split: option.splits)

lemma needed_single:
  assumes "elf_dynamic_needed data = Ok ns"
  shows "single_of ns (elf_dynamic_string data DT_NEEDED)"
proof -
  from assms obtain cls le E nm ty so sz dyn strt where
    pre: "elf_ident data = Ok (cls, le)" "elf_table cls le data = Ok E"
      "section_header E (e_shstrndx E) = Ok (nm, ty, so, sz)"
      "scan_sections E so sz 0 (None, None) = Ok (Some dyn, Some strt)"
    and w: "walk_needed E dyn strt 0 [] = Ok ns"
    unfolding elf_dynamic_needed_def bind_exn_Ok
    by (fastforce simp: bind_exn_Ok both_found_Ok split: if_splits)
  from walk_agree [OF w] pre show ?thesis by (simp add: elf_dynamic_string_def)
qed

lemma needed_table:
  assumes "elf_ident data = Ok (cls, le)" "cls = 1 \<or> cls = 2" "elf_table cls le data = Ok E"
    and "e_shoff E \<noteq> 0" "e_shnum E \<noteq> 0" "e_shentsize E \<noteq> 0"
    and "section_header E (e_shstrndx E) = Ok (nm, SHT_STRTAB, so, sz)"
    and "scan_sections E so sz 0 (None, None) = Ok (Some (dynoff, dynsize), Some (stroff, strsize))"
    and "table_at E dynoff dynsize 0 es"
    and "\<And>v. v \<in> set (needed_offsets strsize es) \<Longrightarrow>
           string_at (e_data E) (stroff + v) (stroff + strsize) = Ok (name v)"
  shows "elf_dynamic_needed data = Ok (map name (needed_offsets strsize es))"
  using assms(1-8) walk_needed_table [OF assms(9,10), where acc = "[]"]
  by (auto simp: elf_dynamic_needed_def)

text \<open>A minimal 32-bit little-endian library: three sections, one needed library, no SONAME.\<close>

definition tiny_elf :: bytes where
  "tiny_elf = ELF_MAGIC @ [1, 1] @ [0, 0, 0, 0, 0, 0, 0, 0, 0, 0, 0, 0, 0, 0, 0, 0, 0, 0, 0, 0, 0, 0, 0, 0, 0, 0] @ [52, 0, 0, 0] @ [0, 0, 0, 0, 0, 0, 0, 0, 0, 0] @ [24, 0, 3, 0, 0, 0] @
     [0, 0, 0, 0, 3, 0, 0, 0, 0, 0, 0, 0, 0, 0, 0, 0, 124, 0, 0, 0, 9, 0, 0, 0] @
     [0, 0, 0, 0, 6, 0, 0, 0, 0, 0, 0, 0, 0, 0, 0, 0, 133, 0, 0, 0, 16, 0, 0, 0] @
     [1, 0, 0, 0, 3, 0, 0, 0, 0, 0, 0, 0, 0, 0, 0, 0, 149, 0, 0, 0, 6, 0, 0, 0] @
     (0 # b ''.dynstr'' @ [0]) @ [1, 0, 0, 0, 1, 0, 0, 0, 0, 0, 0, 0, 0, 0, 0, 0] @ (0 # b ''a.so'' @ [0])"

lemma tiny_elf_ident: "elf_ident tiny_elf = Ok (1, True)"
  by (simp add: elf_ident_def ELF_MAGIC_def tiny_elf_def)

lemma tiny_elf_unpack:
  "unpack_from True [4] tiny_elf 0x20 = Ok [52]"
  "unpack_from True [2, 2, 2] tiny_elf 0x2E = Ok [24, 3, 0]"
  "unpack_from True [4, 4, 4, 4, 4, 4] tiny_elf 52 = Ok [0, 3, 0, 0, 124, 9]"
  "unpack_from True [4, 4, 4, 4, 4, 4] tiny_elf 76 = Ok [0, 6, 0, 0, 133, 16]"
  "unpack_from True [4, 4, 4, 4, 4, 4] tiny_elf 100 = Ok [1, 3, 0, 0, 149, 6]"
  "unpack_from True [4, 4] tiny_elf 133 = Ok [1, 1]"
  "unpack_from True [4, 4] tiny_elf 141 = Ok [0, 0]"
  by (simp_all add: unpack_from_def tiny_elf_def ELF_MAGIC_def uint_def from_big_def)

lemma tiny_elf_strings:
  "string_at tiny_elf 124 133 = Ok []" "string_at tiny_elf 125 133 = Ok (u ''.dynstr'')"
  "string_at tiny_elf 150 155 = Ok (u ''a.so'')"
  by (simp_all add: string_at_def Let_def tiny_elf_def ELF_MAGIC_def utf8_replace_def utf8_step_def)

definition tiny_table :: elf where
  "tiny_table = \<lparr>e_class = 1, e_le = True, e_data = tiny_elf, e_shoff = 52, e_shentsize = 24,
     e_shnum = 3, e_shstrndx = 0\<rparr>"

lemma tiny_elf_table: "elf_table 1 True tiny_elf = Ok tiny_table"
  using tiny_elf_unpack by (simp add: elf_table_def tiny_table_def)

lemma tiny_headers:
  "section_header tiny_table 0 = Ok (0, 3, 124, 9)"
  "section_header tiny_table (Suc 0) = Ok (0, 6, 133, 16)"
  "section_header tiny_table 2 = Ok (1, 3, 149, 6)"
  using tiny_elf_unpack by (simp_all add: section_header_def tiny_table_def)

lemma tiny_scan: "scan_sections tiny_table 124 9 0 (None, None) = Ok (Some (133, 16), Some (149, 6))"
proof -
  have e: "e_shnum tiny_table = 3" "e_shstrndx tiny_table = 0" "e_data tiny_table = tiny_elf"
    by (simp_all add: tiny_table_def)
  have n: "section_name tiny_table 124 9 0 = Ok []" "section_name tiny_table 124 9 1 = Ok (u ''.dynstr'')"
    using tiny_elf_strings by (simp_all add: section_name_def e)
  have "scan_sections tiny_table 124 9 3 acc = Ok acc" for acc
    by (subst scan_sections.simps) (simp add: e)
  then have "scan_sections tiny_table 124 9 2 (Some (133, 16), None) = Ok (Some (133, 16), Some (149, 6))"
    using n by (subst scan_sections.simps) (simp add: e tiny_headers scan_step_def SHT_DYNAMIC_def SHT_STRTAB_def)
  then have "scan_sections tiny_table 124 9 1 (None, None) = Ok (Some (133, 16), Some (149, 6))"
    using n by (subst scan_sections.simps)
      (simp add: e tiny_headers scan_step_def SHT_DYNAMIC_def SHT_STRTAB_def numeral_2_eq_2)
  then show ?thesis by (subst scan_sections.simps) (simp add: e tiny_headers)
qed

lemma tiny_entries: "table_at tiny_table 133 16 0 [(1, 1), (0, 0)]"
  using tiny_elf_unpack by (simp add: entry_step_def dyn_entry_def tiny_table_def)

lemma tiny_offsets: "needed_offsets 6 [(1, 1), (0, 0)] = [1]"
  by (simp add: needed_offsets_def DT_NEEDED_def)

text \<open>
  \<open>elf_dynamic_needed\<close> reads exactly the dynamic table: for a file whose header, sections and
  dynamic table decode, it returns, in table order, the string of every \<open>DT_NEEDED\<close> entry
  before the first null tag whose offset lies inside \<open>.dynstr\<close>, and nothing else.
\<close>

theorem needed_reads_dynamic_table:
  assumes "elf_ident data = Ok (cls, le)" "cls = 1 \<or> cls = 2" "elf_table cls le data = Ok E"
    and "e_shoff E \<noteq> 0" "e_shnum E \<noteq> 0" "e_shentsize E \<noteq> 0"
    and "section_header E (e_shstrndx E) = Ok (nm, SHT_STRTAB, so, sz)"
    and "scan_sections E so sz 0 (None, None) = Ok (Some (dynoff, dynsize), Some (stroff, strsize))"
    and "table_at E dynoff dynsize 0 es"
    and "\<And>v. v \<in> set (needed_offsets strsize es) \<Longrightarrow>
           string_at (e_data E) (stroff + v) (stroff + strsize) = Ok (name v)"
  shows "elf_dynamic_needed data = Ok (map name (needed_offsets strsize es))"
  using assms by (rule needed_table)

lemma needed_reads_dynamic_table_witness: "elf_dynamic_needed tiny_elf = Ok [u ''a.so'']"
proof -
  have "elf_dynamic_needed tiny_elf = Ok (map (\<lambda>_. u ''a.so'') (needed_offsets 6 [(1, 1), (0, 0)]))"
    by (rule needed_reads_dynamic_table [OF tiny_elf_ident _ tiny_elf_table _ _ _ _ _ tiny_entries,
        where nm = 0 and so = 124 and sz = 9 and stroff = 149])
      (use tiny_headers tiny_scan tiny_elf_strings tiny_offsets in
        \<open>simp_all add: tiny_table_def SHT_STRTAB_def\<close>)
  then show ?thesis by (simp only: tiny_offsets list.map)
qed

text \<open>
  The two readers of the dynamic section agree: when \<open>elf_dynamic_needed\<close> succeeds,
  \<open>_elf_dynamic_string\<close> asked for the same tag returns the first of its names (none when the
  list is empty), or fails on an entry pointing outside \<open>.dynstr\<close>, which the list reader skips.
\<close>

theorem needed_matches_single_tag:
  assumes "elf_dynamic_needed data = Ok ns"
  shows "elf_dynamic_string data DT_NEEDED = Ok (case ns of [] \<Rightarrow> None | n # _ \<Rightarrow> Some n) \<or>
         elf_dynamic_string data DT_NEEDED = Err (ValueError ''subsection not found'')"
  using needed_single [OF assms] by (simp add: single_of_def)

lemma tiny_elf_needed: "elf_dynamic_needed tiny_elf = Ok [u ''a.so'']"
proof -
  have "elf_dynamic_needed tiny_elf = Ok (map (\<lambda>_. u ''a.so'') (needed_offsets 6 [(1, 1), (0, 0)]))"
    by (rule needed_table [OF tiny_elf_ident _ tiny_elf_table _ _ _ _ _ tiny_entries,
        where nm = 0 and so = 124 and sz = 9 and stroff = 149])
      (use tiny_headers tiny_scan tiny_elf_strings tiny_offsets in
        \<open>simp_all add: tiny_table_def SHT_STRTAB_def\<close>)
  then show ?thesis by (simp only: tiny_offsets list.map)
qed

lemma needed_matches_single_tag_witness:
  "elf_dynamic_string tiny_elf DT_NEEDED \<in>
     {Ok (Some (u ''a.so'')), Err (ValueError ''subsection not found'')}"
  using needed_matches_single_tag [OF tiny_elf_needed] by simp

text \<open>
  A file cut off after the magic number is not reported as \<open>ElfError\<close>: both entry points raise
  \<open>IndexError\<close>, which \<open>elf_soname\<close> does not catch; cut off before the section-table fields they
  raise \<open>struct.error\<close>.
\<close>

lemma truncated_elf_escapes:
  assumes "take 4 data = ELF_MAGIC"
  shows "length data < 6 \<Longrightarrow> elf_dynamic_needed data = Err IndexError \<and> elf_soname data = Err IndexError"
    and "6 \<le> length data \<Longrightarrow> length data < 36 \<Longrightarrow> data ! 4 = 1 \<Longrightarrow>
           elf_dynamic_needed data = Err StructError \<and> elf_soname data = Err StructError"
  using assms
  by (simp_all add: elf_dynamic_needed_def elf_soname_def elf_dynamic_string_def elf_ident_def
      elf_table_def unpack_from_def)

end
