(* ===== verification/LinuxInstall.thy ===== *)
theory LinuxInstall
  imports LinuxProot Sha512 ElfScan
begin

text \<open>
  Installing the guest (\<open>zmux/linuxenv.py\<close>): the pinned source, the download with its size limit
  and SHA-512 check, the checked extraction, the first configuration, the atomic swap, removal and
  the device gates.  The network's answer and the members of a gzip tar archive are parameters.
\<close>

section \<open>The pinned source\<close>

definition ALPINE_SHA512 :: "string \<Rightarrow> string option" where
  "ALPINE_SHA512 =
    [''aarch64'' \<mapsto> ''40ee819e0bab9b92c44a1edd176a3ae1b5020078a50f158d66011ba7be3325653526dadb4bcb896f7c6544c7cbbfd6904f0287f93ae447b3754e59d7e5679b2e'',
     ''armv7'' \<mapsto> ''7c27652b0d5c9cd028cc3c6bae05bee48d2be564ac41b4afc8cad221c167b33af8e46cda822ad0555eff01127dfe4f384f8267709466f6a748131a12664188e2'',
     ''x86_64'' \<mapsto> ''daf0cedbcbe47f1108bea745a0722e42f0ec0f0c08dd1e8b255234a48f2e5d45d0c96b437bcf60be2ee7ced261870a736e4831bc55924f73b23756283ecfb29b'']"

record rootfs_spec =
  rs_os :: string
  rs_label :: string
  rs_url :: string
  rs_checksum :: string
  rs_extension :: string

definition rootfs_spec :: "linux \<Rightarrow> string \<Rightarrow> exn + rootfs_spec" where
  "rootfs_spec X os_name =
     (case normalise_os_name os_name of
        Err e \<Rightarrow> Err e
      | Ok _ \<Rightarrow>
          let arch = alpine_arch X
          in (case ALPINE_SHA512 arch of
                None \<Rightarrow> Err (RuntimeError (''No pinned Alpine rootfs for architecture '' @ py_repr arch))
              | Some d \<Rightarrow> Ok \<lparr>rs_os = ''alpine'', rs_label = ''Alpine '' @ ALPINE_VERSION,
                  rs_url = lx_mirror X @ ''/'' @ ALPINE_BRANCH @ ''/releases/'' @ arch
                     @ ''/alpine-minirootfs-'' @ ALPINE_VERSION @ ''-'' @ arch @ ''.tar.gz'',
                  rs_checksum = d, rs_extension = ''tar.gz''\<rparr>))"

definition download_url :: "linux \<Rightarrow> string \<Rightarrow> exn + (string \<times> string)" where
  "download_url X os_name =
     (case rootfs_spec X os_name of Err e \<Rightarrow> Err e | Ok s \<Rightarrow> Ok (rs_url s, rs_checksum s))"

section \<open>Progress\<close>

text \<open>
  A progress callback: none, a Python callable, or a Java object with some methods; \<open>working\<close>
  says whether calling it returns or raises.
\<close>

datatype sink = NoSink | Callable (working: bool) | JavaObject (methods: "string list") (working: bool)

definition crlf_text :: "string \<Rightarrow> string" where
  "crlf_text s = concat (map (\<lambda>c. if c = CHR 0x0A then [CHR 0x0D, CHR 0x0A] else [c]) s)"

definition emit_progress :: "sink \<Rightarrow> string \<Rightarrow> unit io" where
  "emit_progress k text =
     (case k of
        NoSink \<Rightarrow> ret ()
      | Callable w \<Rightarrow> if w then emit (crlf_text text) else ret ()
      | JavaObject ms w \<Rightarrow>
          if list_ex (\<lambda>m. m \<in> set ms) [''invoke'', ''accept'', ''onProgress''] \<and> w
          then emit (crlf_text text) else ret ())"

section \<open>Download\<close>

definition MAX_ROOTFS_BYTES :: nat where "MAX_ROOTFS_BYTES = 256 * 1024 * 1024"

definition too_large :: exn where "too_large = RuntimeError ''rootfs tarball exceeds safety limit''"

fun download_loop :: "sink \<Rightarrow> (nat \<Rightarrow> string option) \<Rightarrow> path \<Rightarrow> bytes list \<Rightarrow> exn option \<Rightarrow> bytes \<Rightarrow> bytes io" where
  "download_loop k pace tarball [] fin acc = (case fin of None \<Rightarrow> ret acc | Some e \<Rightarrow> raise e)"
| "download_loop k pace tarball (c # cs) fin acc =
     (if c = [] then ret acc
      else if length acc + length c > MAX_ROOTFS_BYTES then raise too_large
      else seq_io (write_content tarball (Binary (acc @ c)))
          (seq_io (case pace (length acc + length c) of None \<Rightarrow> ret () | Some line \<Rightarrow> emit_progress k line)
             (download_loop k pace tarball cs fin (acc @ c))))"

definition download :: "sink \<Rightarrow> (nat \<Rightarrow> string option) \<Rightarrow> (string \<Rightarrow> exn + response) \<Rightarrow> string \<Rightarrow> path \<Rightarrow> bytes io" where
  "download k pace fetch url tarball =
     try_io
       (case fetch url of
          Err e \<Rightarrow> raise e
        | Ok r \<Rightarrow> (case rp_announced r of
              Err e \<Rightarrow> raise e
            | Ok n \<Rightarrow>
                if n > int MAX_ROOTFS_BYTES then raise too_large
                else seq_io (write_content tarball (Binary []))
                       (download_loop k pace tarball (rp_chunks r) (rp_end r) [])))
       (\<lambda>e. seq_io (unlink_missing_ok tarball) (raise (RuntimeError (''download failed: '' @ exn_text e))))"

section \<open>Checked extraction\<close>

datatype mtype = TFile | TDir | TSym | THard | TChr | TBlk | TFifo

record member =
  m_name :: string
  m_type :: mtype
  m_mode :: nat
  m_link :: string
  m_data :: bytes

definition member_parts :: "member \<Rightarrow> string list" where
  "member_parts m = filter (\<lambda>w. w \<noteq> '''' \<and> w \<noteq> ''.'') (path_parts (to_path (m_name m)))"

fun safe_members :: "nat \<Rightarrow> member list \<Rightarrow> exn + member list" where
  "safe_members tot [] = Ok []"
| "safe_members tot (m # ms) =
     (let parts = member_parts m in
      if m_type m = TDir \<and> parts \<in> {[], [''..'']} then safe_members tot ms
      else if startswith (m_name m) ''/'' \<or> parts = [] \<or> ''..'' \<in> set parts
        then Err (RuntimeError (''unsafe archive member: '' @ py_repr (m_name m)))
      else if (length parts > 1 \<and> hd parts = ''dev'') \<or> m_type m \<in> {TChr, TBlk, TFifo}
        then safe_members tot ms
      else if m_type m = TFile \<and> tot + length (m_data m) > MAX_ROOTFS_BYTES
        then Err (RuntimeError ''uncompressed rootfs exceeds safety limit'')
      else (case safe_members (if m_type m = TFile then tot + length (m_data m) else tot) ms of
              Err e \<Rightarrow> Err e | Ok ks \<Rightarrow> Ok (m # ks)))"

text \<open>\<open>TarFile.extractall\<close> with every name trusted: directories get their mode at the end.\<close>

definition extract_member :: "path \<Rightarrow> member \<Rightarrow> unit io" where
  "extract_member target m =
     (let p = child target (m_name m)
      in seq_io (mkdir_parents (parent_path p))
          (case m_type m of
             TDir \<Rightarrow> try_io (os_mkdir p) (\<lambda>e. if e = OSError ''File exists'' then ret () else raise e)
           | TFile \<Rightarrow> seq_io (write_content p (content_of_bytes (m_data m))) (chmod p (m_mode m))
           | TSym \<Rightarrow> seq_io (unlink_missing_ok p) (symlink_to p (m_link m))
           | THard \<Rightarrow> copy_file (child target (m_link m)) p
           | _ \<Rightarrow> ret ()))"

definition extractall :: "path \<Rightarrow> member list \<Rightarrow> unit io" where
  "extractall target ms =
     seq_io (each_io (extract_member target) ms)
       (each_io (\<lambda>m. chmod (child target (m_name m)) (m_mode m)) (filter (\<lambda>m. m_type m = TDir) ms))"

type_synonym untar = "bytes \<Rightarrow> exn + member list"

definition safe_extract :: "untar \<Rightarrow> path \<Rightarrow> path \<Rightarrow> unit io" where
  "safe_extract untar tarball target =
     bind_io (read_bytes tarball) (\<lambda>bs. case untar bs of
        Err e \<Rightarrow> raise e
      | Ok ms \<Rightarrow> (case safe_members 0 ms of Err e \<Rightarrow> raise e | Ok ks \<Rightarrow> extractall target ks))"

section \<open>First configuration\<close>

definition bootstrap :: "linux \<Rightarrow> path \<Rightarrow> string \<Rightarrow> unit io" where
  "bootstrap X root os_name =
     bind_io (lift (\<lambda>F. normalise_os_name os_name)) (\<lambda>_.
     bind_io (ask (\<lambda>F. guest_regular_file X F root ''/bin/sh'')) (\<lambda>ok.
       if \<not> ok then raise (RuntimeError ''rootfs is missing a usable guest /bin/sh after extraction'')
       else let etc = child root ''etc''; apk = child etc ''apk''; release = child etc ''alpine-release''
            in seq_io (mkdir_parents etc)
              (seq_io (each_io (\<lambda>nm. mkdir_parents (child root nm)) [''dev'', ''proc'', ''sys''])
              (seq_io (mkdir_parents apk)
              (seq_io (write_text (child apk ''repositories'')
                 (lx_mirror X @ ''/'' @ ALPINE_BRANCH @ ''/main'' @ LF1
                  @ lx_mirror X @ ''/'' @ ALPINE_BRANCH @ ''/community'' @ LF1))
              (bind_io (ask (\<lambda>F. is_file F release)) (\<lambda>have.
               seq_io (if have then ret () else write_text release (ALPINE_VERSION @ LF1))
              (seq_io (ensure_guest_resolv_conf root)
              (seq_io (write_guest_prompt root)
              (seq_io (write_guest_motd root)
              (seq_io (write_guest_doctor root)
                 (write_text (child etc ROOTFS_OS_MARKER) (''alpine'' @ LF1)))))))))))))"

section \<open>Install and uninstall\<close>

record install_result =
  ir_already :: bool
  ir_os :: string
  ir_version :: string
  ir_path :: string

definition swap_in :: "linux \<Rightarrow> untar \<Rightarrow> sink \<Rightarrow> string \<Rightarrow> path \<Rightarrow> unit io" where
  "swap_in X untar k selected tarball =
     seq_io (emit_progress k (''Extracting rootfs into app-private storage'' @ ELLIPSIS @ LF1))
    (seq_io (safe_extract untar tarball (lx_staging X))
    (seq_io (emit_progress k (''Configuring Linux filesystem'' @ ELLIPSIS @ LF1))
    (seq_io (bootstrap X (lx_staging X) selected)
    (bind_io (ask (\<lambda>F. path_exists F (lx_rootfs X))) (\<lambda>ex.
     seq_io (if ex then rmtree_ignore (lx_rootfs X) else ret ())
       (os_replace (lx_staging X) (lx_rootfs X)))))))"

definition stage_and_swap :: "linux \<Rightarrow> untar \<Rightarrow> sink \<Rightarrow> string \<Rightarrow> path \<Rightarrow> unit io" where
  "stage_and_swap X untar k selected tarball =
     seq_io (mkdir_parents (parent_path (lx_rootfs X)))
    (bind_io (ask (\<lambda>F. path_exists F (lx_staging X))) (\<lambda>ex.
     seq_io (if ex then rmtree_ignore (lx_staging X) else ret ())
    (seq_io (mkdir_fresh (lx_staging X))
       (finally_io
         (try_io (swap_in X untar k selected tarball)
            (\<lambda>e. raise (RuntimeError (capitalize selected
               @ '' rootfs install failed during extraction/configuration: '' @ exn_text e))))
         (seq_io (unlink_missing_ok tarball) (rmtree_ignore (lx_staging X)))))))"

definition fetch_verified :: "linux \<Rightarrow> sink \<Rightarrow> (nat \<Rightarrow> string option) \<Rightarrow> (string \<Rightarrow> exn + response) \<Rightarrow> rootfs_spec \<Rightarrow> path \<Rightarrow> unit io" where
  "fetch_verified X k pace fetch spec tarball =
     bind_io (download k pace fetch (rs_url spec) tarball) (\<lambda>data.
     let actual = sha512_hexdigest data
     in if lower actual \<noteq> lower (rs_checksum spec)
        then seq_io (unlink_missing_ok tarball)
          (raise (RuntimeError (''SHA512 mismatch for '' @ rs_os spec @ '' rootfs:'' @ LF1 @ ''  expected ''
             @ rs_checksum spec @ LF1 @ ''  actual   '' @ actual)))
        else emit_progress k (''  SHA512 checksum verified '' @ [CHR 0xE2, CHR 0x9C, CHR 0x93] @ LF1))"

text \<open>What is installed now: the finished result, or the guest to be replaced.\<close>

definition check_current :: "linux \<Rightarrow> sink \<Rightarrow> string \<Rightarrow> (install_result + string) io" where
  "check_current X k selected =
     bind_io (installed_os X) (\<lambda>current.
       if current \<noteq> selected then ret (Inr current)
       else bind_io (installed_arch X) (\<lambda>have_arch.
         if have_arch \<noteq> '''' \<and> have_arch \<noteq> alpine_arch X then
           seq_io (emit_progress k (''Installed rootfs is '' @ have_arch @ '' but this device is '' @ alpine_arch X
              @ ''; replacing it with the correct rootfs'' @ ELLIPSIS @ LF1))
             (seq_io (rmtree_ignore (lx_rootfs X)) (ret (Inr '''')))
         else bind_io (installed_version X) (\<lambda>v.
           ret (Inl \<lparr>ir_already = True, ir_os = current, ir_version = v, ir_path = path_str (lx_rootfs X)\<rparr>))))"

definition fresh_install ::
    "linux \<Rightarrow> untar \<Rightarrow> (nat \<Rightarrow> string option) \<Rightarrow> (string \<Rightarrow> exn + response) \<Rightarrow> sink \<Rightarrow> rootfs_spec \<Rightarrow> string
     \<Rightarrow> install_result io" where
  "fresh_install X untar pace fetch k spec current =
     (let tarball = child (lx_cache X) (rs_os spec @ ''-rootfs-'' @ alpine_arch X @ ''.'' @ rs_extension spec)
      in seq_io (if current \<noteq> '''' then emit_progress k (''Replacing installed '' @ capitalize current
                 @ '' environment safely'' @ ELLIPSIS @ LF1) else ret ())
        (seq_io (mkdir_parents (lx_cache X))
        (seq_io (emit_progress k (''Downloading '' @ rs_label spec @ '' rootfs ('' @ alpine_arch X @ '')'' @ ELLIPSIS @ LF1))
        (seq_io (fetch_verified X k pace fetch spec tarball)
        (seq_io (stage_and_swap X untar k (rs_os spec) tarball)
        (bind_io (installed_version X) (\<lambda>v.
          ret \<lparr>ir_already = False, ir_os = rs_os spec, ir_version = v, ir_path = path_str (lx_rootfs X)\<rparr>)))))))"

definition install ::
    "nat \<Rightarrow> linux \<Rightarrow> path \<Rightarrow> untar \<Rightarrow> (nat \<Rightarrow> string option) \<Rightarrow> (string \<Rightarrow> exn + response) \<Rightarrow> sink \<Rightarrow> string
     \<Rightarrow> install_result io" where
  "install depth X package_root untar pace fetch k os_name =
     bind_io (lift (\<lambda>F. rootfs_spec X os_name)) (\<lambda>spec.
     bind_io (migrate_legacy_install depth X package_root) (\<lambda>migration_note.
     seq_io (if migration_note \<noteq> '''' then emit_progress k (migration_note @ LF1) else ret ())
    (bind_io (check_current X k (rs_os spec)) (\<lambda>st. case st of
       Inl finished \<Rightarrow> ret finished
     | Inr current \<Rightarrow> fresh_install X untar pace fetch k spec current))))"

definition uninstall :: "linux \<Rightarrow> string io" where
  "uninstall X =
     bind_io (ask (\<lambda>F. path_exists F (lx_rootfs X))) (\<lambda>ex.
     seq_io (if ex then rmtree_ignore (lx_rootfs X) else ret ()) (ret (path_str (lx_rootfs X))))"

end
