(* ===== verification/LinuxGates.thy ===== *)
theory LinuxGates
  imports LinuxInstall
begin

text \<open>
  The strict on-device probe \<open>run_gates\<close> of \<open>zmux/linuxenv.py\<close>: five gates in a fixed order, each
  of which records a result and reports a line whatever happens inside it.  Child processes, the
  opening of \<open>/dev/ptmx\<close> and the build marker are parameters.
\<close>

section \<open>Reporting\<close>

type_synonym gates = "(string \<times> bool \<times> string) list"

definition report_line :: "string \<Rightarrow> unit io" where
  "report_line text = emit (if endswith text LF1 then text else text @ LF1)"

definition gate :: "gates \<Rightarrow> string \<Rightarrow> bool \<Rightarrow> string \<Rightarrow> gates io" where
  "gate results nm ok detail =
     seq_io (report_line (''['' @ (if ok then ''PASS'' else ''FAIL'') @ ''] '' @ nm @ '': '' @ detail))
       (ret (dict_put nm (ok, detail) results))"

definition str_list :: "string list \<Rightarrow> string" where
  "str_list xs = ''['' @ join_with '', '' (map py_repr xs) @ '']''"

section \<open>The proot binary\<close>

definition needed_hint :: "string list \<Rightarrow> string" where
  "needed_hint needed =
     (case find (\<lambda>n. startswith n ''libtalloc'') needed of
        None \<Rightarrow> '' '' @ EMDASH @ '' NOTE: no libtalloc dependency found in '' @ str_list needed
      | Some n \<Rightarrow>
          if n = ''libtalloc.so.2''
          then '' '' @ EMDASH @ '' STALE BINARY: this libproot.so still needs '' @ py_repr n
            @ ''. Reinstall the build whose '' @ [BQ] @ ''zmux-info'' @ [BQ] @ '' shows a Build: SHA''
          else '''')"

definition stale_hint :: "string \<Rightarrow> string io" where
  "stale_hint proot =
     try_io
       (bind_io (read_bytes (to_path proot)) (\<lambda>bs. case elf_dynamic_needed bs of
          Err e \<Rightarrow> raise e
        | Ok needed \<Rightarrow> ret (needed_hint (map (map char_of) needed))))
       (\<lambda>e. ret ('' '' @ EMDASH @ '' UNREADABLE ELF: libproot.so does not parse ('' @ exn_name e
          @ ''). This is a corrupted build '' @ EMDASH @ '' reinstall the latest APK''))"

definition or_str :: "string \<Rightarrow> string \<Rightarrow> string" where
  "or_str s t = (if s = '''' then t else s)"

text \<open>A child run with the environment of \<open>proot\<close>; the probe's cache survives its failure.\<close>

definition run_env ::
    "runner \<Rightarrow> linux \<Rightarrow> string list \<Rightarrow> bool option \<Rightarrow> ((exn + int \<times> string \<times> string) \<times> bool option) io" where
  "run_env run X argv cache =
     try_io
       (bind_io (proot_env run X cache) (\<lambda>(extra, cache').
          try_io (bind_io (run argv (env_update (lx_env X) extra)) (\<lambda>r. ret (Ok r, cache')))
            (\<lambda>e. ret (Err e, cache'))))
       (\<lambda>e. ret (Err e, cache))"

definition proot_exec_gate :: "runner \<Rightarrow> linux \<Rightarrow> string \<Rightarrow> gates \<Rightarrow> bool option \<Rightarrow> (gates \<times> bool option) io" where
  "proot_exec_gate run X proot results cache =
     bind_io (stale_hint proot) (\<lambda>hint.
     bind_io (run_env run X [proot, ''--version''] cache) (\<lambda>(r, cache').
     bind_io (case r of
          Err e \<Rightarrow> gate results ''proot-exec'' False (''exec '' @ proot @ '' failed: '' @ exn_text e @ hint)
        | Ok (rc, out, err) \<Rightarrow>
            let detail = splitlines (str_strip (or_str out err));
                first = (case detail of [] \<Rightarrow> ''(no output)'' | l # _ \<Rightarrow> l)
            in gate results ''proot-exec'' (rc = 0)
                 (''exec '' @ proot @ '' OK '' @ EMDASH @ '' '' @ first @ hint)) (\<lambda>rs. ret (rs, cache'))))"

section \<open>Gates inside the guest\<close>

text \<open>A command line run by the shell, as \<open>subprocess.run(line, shell=True)\<close> runs it.\<close>

definition run_guest ::
    "runner \<Rightarrow> linux \<Rightarrow> string list \<Rightarrow> bool option \<Rightarrow> ((exn + int \<times> string \<times> string) \<times> bool option) io" where
  "run_guest run X argv cache =
     try_io (bind_io (build_command_line X argv (lx_home X) []) (\<lambda>line. run_env run X [''/bin/sh'', ''-c'', line] cache))
       (\<lambda>e. ret (Err e, cache))"

definition linux_boot_gate :: "runner \<Rightarrow> linux \<Rightarrow> gates \<Rightarrow> bool option \<Rightarrow> (gates \<times> bool option) io" where
  "linux_boot_gate run X results cache =
     bind_io (run_guest run X [''/bin/sh'', ''-c'', ''echo zmux-linux-ok; cat /etc/alpine-release''] cache) (\<lambda>(r, cache').
     bind_io
       (try_io
         (case r of
            Err e \<Rightarrow> raise e
          | Ok (rc, out, err) \<Rightarrow>
              bind_io (installed_version X) (\<lambda>v.
                ret (rc = 0 \<and> contains out ''zmux-linux-ok'',
                  ''Alpine '' @ v @ '' boots in proot (exit='' @ int_str rc @ '', out='' @ py_repr (str_strip out) @ '')'')))
         (\<lambda>e. ret (False, ''boot failed: '' @ exn_text e))) (\<lambda>(ok, detail).
     bind_io (gate results ''linux-boot'' ok detail) (\<lambda>rs. ret (rs, cache'))))"

definition last2 :: "'a list \<Rightarrow> 'a list" where
  "last2 xs = drop (length xs - 2) xs"

definition git_clone_gate :: "runner \<Rightarrow> linux \<Rightarrow> gates \<Rightarrow> bool option \<Rightarrow> (gates \<times> bool option) io" where
  "git_clone_gate run X results cache =
     (let target = child (lx_home X) ''.zmux-gates-clone''
      in seq_io (rmtree_ignore target)
        (bind_io
          (try_io (bind_io (lift (\<lambda>F. guest_cwd X F target)) (\<lambda>gt.
              run_guest run X [''/usr/bin/git'', ''clone'', ''--depth'', ''1'',
                 ''https://github.com/muzape28-blip/ZABAWHEELS'', gt] cache))
            (\<lambda>e. ret (Err e, cache))) (\<lambda>(r, cache').
         bind_io (ask (\<lambda>F. if is_dir F target then length (descendants target F) else 0)) (\<lambda>files.
         bind_io (case r of
             Err e \<Rightarrow> gate results ''git-clone'' False (''clone failed: '' @ exn_text e)
           | Ok (rc, out, err) \<Rightarrow>
               let tail = last2 (splitlines (str_strip err)); ok = (rc = 0 \<and> files > 0)
               in gate results ''git-clone'' ok
                    (''git clone over HTTPS: exit='' @ int_str rc @ '', files='' @ nat_str files
                     @ (if \<not> ok \<and> tail \<noteq> [] then '' '' @ EMDASH @ '' '' @ join_with '' / '' tail else ''''))) (\<lambda>rs.
         seq_io (rmtree_ignore target) (ret (rs, cache')))))))"

definition apk_gate :: "runner \<Rightarrow> linux \<Rightarrow> gates \<Rightarrow> bool option \<Rightarrow> (gates \<times> bool option) io" where
  "apk_gate run X results cache =
     bind_io (run_guest run X [''/sbin/apk'', ''--version''] cache) (\<lambda>(r, cache').
     bind_io (case r of
         Err e \<Rightarrow> gate results ''apk'' False (''apk check failed: '' @ exn_text e)
       | Ok (rc, out, err) \<Rightarrow> gate results ''apk'' (rc = 0) (str_strip (or_str out err))) (\<lambda>rs. ret (rs, cache')))"

section \<open>All gates\<close>

definition with_cache :: "bool option \<Rightarrow> gates io \<Rightarrow> (gates \<times> bool option) io" where
  "with_cache cache m = bind_io m (\<lambda>rs. ret (rs, cache))"

definition gate_ptmx :: "exn option \<Rightarrow> gates io" where
  "gate_ptmx ptmx =
     (case ptmx of
        None \<Rightarrow> gate [] ''ptmx'' True (''/dev/ptmx openable '' @ EMDASH @ '' PTY possible'')
      | Some e \<Rightarrow> gate [] ''ptmx'' False (''/dev/ptmx denied: '' @ exn_text e))"

definition gate_proot :: "runner \<Rightarrow> linux \<Rightarrow> string option \<Rightarrow> gates \<Rightarrow> bool option \<Rightarrow> (gates \<times> bool option) io" where
  "gate_proot run X pr rs cache =
     (case pr of
        Some proot \<Rightarrow> proot_exec_gate run X proot rs cache
      | None \<Rightarrow> with_cache cache (gate rs ''proot-exec'' False ''libproot.so not found/executable''))"

definition gate_boot :: "runner \<Rightarrow> linux \<Rightarrow> bool \<Rightarrow> gates \<Rightarrow> bool option \<Rightarrow> (gates \<times> bool option) io" where
  "gate_boot run X ready rs cache =
     (if ready then linux_boot_gate run X rs cache
      else with_cache cache (gate rs ''linux-boot'' False (''rootfs not installed or proot missing (run ''
              @ [BQ] @ ''linux-setup'' @ [BQ] @ '' first)'')))"

definition gate_clone :: "runner \<Rightarrow> linux \<Rightarrow> bool \<Rightarrow> gates \<Rightarrow> bool option \<Rightarrow> (gates \<times> bool option) io" where
  "gate_clone run X ready rs cache =
     (if ready then git_clone_gate run X rs cache
      else with_cache cache (gate rs ''git-clone'' False ''skipped: proot/rootfs unavailable''))"

definition gate_packages :: "runner \<Rightarrow> linux \<Rightarrow> bool \<Rightarrow> gates \<Rightarrow> bool option \<Rightarrow> (gates \<times> bool option) io" where
  "gate_packages run X ready rs cache =
     (if ready then apk_gate run X rs cache
      else with_cache cache (gate rs ''package-manager'' False ''skipped: proot/rootfs unavailable''))"

definition report_total :: "gates \<Rightarrow> gates io" where
  "report_total rs =
     seq_io (report_line '''')
    (seq_io (report_line (''[INFO] gates passed: '' @ nat_str (length (filter (\<lambda>(nm, ok, d). ok) rs)) @ ''/''
         @ nat_str (length rs)))
       (ret rs))"

definition run_gates :: "runner \<Rightarrow> linux \<Rightarrow> exn option \<Rightarrow> string option \<Rightarrow> bool option \<Rightarrow> gates io" where
  "run_gates run X ptmx marker cache =
     seq_io (if truthy_str marker then report_line (''[INFO] zmux build: '' @ the marker) else ret ())
    (bind_io (gate_ptmx ptmx) (\<lambda>r1.
     bind_io (ask (proot_binary X)) (\<lambda>pr.
     bind_io (gate_proot run X pr r1 cache) (\<lambda>(r2, c2).
     bind_io (installed_os X) (\<lambda>guest.
     bind_io (gate_boot run X (pr \<noteq> None \<and> guest \<noteq> '''') r2 c2) (\<lambda>(r3, c3).
     bind_io (if pr = None then ret False else is_installed X) (\<lambda>here.
     bind_io (gate_clone run X here r3 c3) (\<lambda>(r4, c4).
     bind_io (gate_packages run X (pr \<noteq> None \<and> guest \<noteq> '''') r4 c4) (\<lambda>(r5, c5). report_total r5)))))))))"

end
