(* ===== verification/LinuxProps.thy ===== *)
theory LinuxProps
  imports LinuxGates
begin

text \<open>
  What the Linux environment promises: guest files are found inside the guest, archives are
  extracted inside the target, only the pinned root file system is installed, the guest gets a
  usable resolver, the probe of the kernel runs once, and the gates always report.
\<close>

section \<open>Guest files stay inside the guest\<close>

lemma relative_to_append: "relative_to p q = Some r \<Longrightarrow> \<exists>ws. p = Path (p_root q) (p_names q @ ws)"
  by (cases p) (auto simp: relative_to_def prefix_def split: if_splits)

lemma guest_loop_inside:
  "guest_loop F cwd root n cand \<Longrightarrow> cand = Path (p_root root) (p_names root @ ws) \<Longrightarrow> ''..'' \<notin> set (p_names cand) \<Longrightarrow>
     \<exists>vs c m. ''..'' \<notin> set vs \<and> lstat F (Path (p_root root) (p_names root @ vs)) = Ok (Reg c m)"
proof (induction n arbitrary: cand ws)
  case (Suc n)
  show ?case
  proof (cases "lstat F cand")
    case (Inr nd)
    show ?thesis
    proof (cases nd)
      case (Reg c m)
      with Suc.prems Inr show ?thesis by (intro exI [of _ ws]) auto
    next
      case (Lnk t)
      let ?q = "link_candidate cwd root cand t"
      from Suc.prems(1) Inr Lnk have "relative_to ?q root \<noteq> None" "guest_loop F cwd root n ?q"
        by (auto split: option.splits)
      moreover then obtain vs where "?q = Path (p_root root) (p_names root @ vs)"
        using relative_to_append by (metis not_None_eq)
      moreover have "''..'' \<notin> set (p_names ?q)" by (simp add: link_candidate_def abspath_no_dots)
      ultimately show ?thesis using Suc.IH by blast
    qed (use Suc.prems Inr in auto)
  qed (use Suc.prems in auto)
qed simp

lemma child_rel: "p_root (to_path s) = '''' \<Longrightarrow> child p s = Path (p_root p) (p_names p @ p_names (to_path s))"
  by (simp add: child_def joinpath_def is_absolute_def)

lemma bin_sh_path: "to_path ''bin/sh'' = Path '''' [''bin'', ''sh'']"
  by (simp add: to_path_def path_root_def startswith_def)

text \<open>
  C13: when the guest shell is found, there is a regular file at a place lexically inside the root,
  with no \<open>..\<close> on the way: however the links of the archive point, the check never accepts a file
  of the Android host for it.
\<close>

theorem guest_shell_inside_root:
  assumes "guest_regular_file X F root ''/bin/sh''"
  shows "\<exists>vs c m. ''..'' \<notin> set vs \<and>
    lstat F (Path (p_root (abspath (lx_cwd X) root)) (p_names (abspath (lx_cwd X) root) @ vs)) = Ok (Reg c m)"
proof -
  let ?r = "abspath (lx_cwd X) root"
  have c: "child ?r ''bin/sh'' = Path (p_root ?r) (p_names ?r @ [''bin'', ''sh''])"
    by (simp add: child_rel bin_sh_path)
  have "lstrip_slash ''/bin/sh'' = ''bin/sh''" by (simp add: lstrip_slash_def)
  then have "guest_loop F (lx_cwd X) ?r 16 (child ?r ''bin/sh'')"
    using assms by (simp only: guest_regular_file_def Let_def)
  then show ?thesis by (rule guest_loop_inside [OF _ c]) (simp add: c abspath_no_dots)
qed

definition demo_linux :: linux where
  "demo_linux = \<lparr>lx_env = (\<lambda>_. None), lx_native = Some ''/n'', lx_abi = ''arm64-v8a'', lx_machine = ''armv8l'',
     lx_cwd = Path ''/'' [], lx_app = Path ''/'' [''d''], lx_home = Path ''/'' [''d'', ''home''],
     lx_cache = Path ''/'' [''d'', ''cache''], lx_rootfs = Path ''/'' [''d'', ''linux'', ''rootfs''],
     lx_staging = Path ''/'' [''d'', ''linux'', ''.staging''], lx_runtime_lib = Path ''/'' [''d'', ''lib''],
     lx_bridge = None, lx_jnius = None, lx_maps = None, lx_mirror = ''https://m''\<rparr>"

text \<open>Alpine's shell is an absolute link to busybox, which the host does not have.\<close>

definition busybox_fs :: fsys where
  "busybox_fs = \<lparr>fs_table = [([''r''], Dir 493), ([''r'', ''bin''], Dir 493),
     ([''r'', ''bin'', ''busybox''], Reg (Binary [1]) 493), ([''r'', ''bin'', ''sh''], Lnk ''/bin/busybox'')],
     fs_denied = (\<lambda>_. False), fs_log = [], fs_serial = 0\<rparr>"

lemmas walk_eval = lstat_def stat_def lookup_def locate_def node_at_def link_limit_def link_base_def

lemma busybox_found: "guest_regular_file demo_linux busybox_fs (Path ''/'' [''r'']) ''/bin/sh''"
  by (simp add: guest_regular_file_def Let_def demo_linux_def busybox_fs_def abspath_def joinpath_def
      is_absolute_def child_def lstrip_slash_def to_path_def path_root_def startswith_def walk_eval
      link_candidate_def relative_to_def numeral_eq_Suc)

lemma busybox_not_on_host: "\<not> is_file busybox_fs (Path ''/'' [''r'', ''bin'', ''sh''])"
  by (simp add: is_file_def busybox_fs_def walk_eval to_path_def path_root_def startswith_def numeral_eq_Suc)

theorem guest_shell_inside_root_witness:
  "\<exists>vs c m. ''..'' \<notin> set vs \<and> lstat busybox_fs (Path ''/'' (''r'' # vs)) = Ok (Reg c m)"
  using guest_shell_inside_root [OF busybox_found] by (simp add: abspath_def joinpath_def is_absolute_def)

section \<open>Extraction stays inside the target\<close>

lemma safe_members_facts:
  "safe_members tot ms = Ok ks \<Longrightarrow> tot \<le> MAX_ROOTFS_BYTES \<Longrightarrow>
     (\<forall>k \<in> set ks. ''..'' \<notin> set (member_parts k) \<and> member_parts k \<noteq> [] \<and> p_root (to_path (m_name k)) = ''''
        \<and> m_type k \<notin> {TChr, TBlk, TFifo} \<and> (hd (member_parts k) = ''dev'' \<longrightarrow> length (member_parts k) = 1))
     \<and> subseq ks ms
     \<and> tot + sum_list (map (\<lambda>k. length (m_data k)) (filter (\<lambda>k. m_type k = TFile) ks)) \<le> MAX_ROOTFS_BYTES"
proof (induction ms arbitrary: tot ks)
  case (Cons m ms)
  let ?ps = "member_parts m"
  let ?t = "if m_type m = TFile then tot + length (m_data m) else tot"
  show ?case
  proof (cases "(m_type m = TDir \<and> ?ps \<in> {[], [''..'']}) \<or>
      (\<not> (startswith (m_name m) ''/'' \<or> ?ps = [] \<or> ''..'' \<in> set ?ps) \<and>
       ((length ?ps > 1 \<and> hd ?ps = ''dev'') \<or> m_type m \<in> {TChr, TBlk, TFifo}))")
    case True
    with Cons.prems(1) have "safe_members tot ms = Ok ks"
      by (cases "m_type m = TDir \<and> ?ps \<in> {[], [''..'']}") (simp_all add: Let_def split: if_splits)
    with Cons.IH Cons.prems(2) show ?thesis by (blast intro: subseq_Cons')
  next
    case False
    with Cons.prems(1) have ok: "\<not> startswith (m_name m) ''/''" "?ps \<noteq> []" "''..'' \<notin> set ?ps"
      "m_type m \<notin> {TChr, TBlk, TFifo}" "\<not> (length ?ps > 1 \<and> hd ?ps = ''dev'')"
      "\<not> (m_type m = TFile \<and> tot + length (m_data m) > MAX_ROOTFS_BYTES)"
      by (simp_all add: Let_def split: if_splits)
    with Cons.prems(1) obtain ks' where ks: "safe_members ?t ms = Ok ks'" "ks = m # ks'"
      by (simp add: Let_def split: sum.splits if_splits)
    have t: "?t \<le> MAX_ROOTFS_BYTES" using ok(6) Cons.prems(2) by (auto simp: not_less)
    have "length ?ps = 1" if "hd ?ps = ''dev''" using that ok(2,5) by (cases ?ps) auto
    moreover have "p_root (to_path (m_name m)) = ''''" using ok(1) by (simp add: to_path_def path_root_def)
    ultimately show ?thesis using Cons.IH [OF ks(1) t] ks(2) ok by auto
  qed
qed simp

text \<open>
  C12: what \<open>_safe_extract\<close> hands to the archiver lies inside the target: relative names without
  \<open>..\<close>, nothing below \<open>dev\<close>, no device node or pipe, at most 256 MiB of file data in total, in the
  order of the archive.
\<close>

theorem safe_extract_members:
  assumes "safe_members 0 ms = Ok ks"
  shows "(\<forall>k \<in> set ks. (\<exists>ws. child target (m_name k) = Path (p_root target) (p_names target @ ws)
            \<and> ws \<noteq> [] \<and> ''..'' \<notin> set ws \<and> (hd ws = ''dev'' \<longrightarrow> ws = [''dev'']))
            \<and> m_type k \<notin> {TChr, TBlk, TFifo})
    \<and> subseq ks ms
    \<and> sum_list (map (\<lambda>k. length (m_data k)) (filter (\<lambda>k. m_type k = TFile) ks)) \<le> 256 * 1024 * 1024"
proof -
  have parts: "member_parts k = p_names (to_path (m_name k))" if "p_root (to_path (m_name k)) = ''''" for k
    using that by (auto simp: member_parts_def path_parts_def to_path_def)
  from safe_members_facts [OF assms] show ?thesis
    by (auto simp: child_rel parts MAX_ROOTFS_BYTES_def length_Suc_conv)
qed

definition demo_members :: "member list" where
  "demo_members =
    [\<lparr>m_name = ''./'', m_type = TDir, m_mode = 493, m_link = '''', m_data = []\<rparr>,
     \<lparr>m_name = ''bin/busybox'', m_type = TFile, m_mode = 493, m_link = '''', m_data = [1]\<rparr>,
     \<lparr>m_name = ''dev/null'', m_type = TChr, m_mode = 438, m_link = '''', m_data = []\<rparr>,
     \<lparr>m_name = ''bin/sh'', m_type = TSym, m_mode = 511, m_link = ''/bin/busybox'', m_data = []\<rparr>]"

lemma demo_members_safe: "safe_members 0 demo_members = Ok [demo_members ! 1, demo_members ! 3]"
  by (simp add: demo_members_def Let_def member_parts_def path_parts_def to_path_def path_root_def startswith_def
      MAX_ROOTFS_BYTES_def)

theorem safe_extract_members_witness: "subseq [demo_members ! 1, demo_members ! 3] demo_members"
  using safe_extract_members [OF demo_members_safe] by simp

section \<open>Only the pinned root file system is installed\<close>

lemma lookup_emit_progress: "emit_progress k t F = (r, F') \<Longrightarrow> lookup F' follow p = lookup F follow p"
  by (auto simp: emit_progress_def emit_def split: sink.splits if_splits)

lemma download_loop_Ok:
  "download_loop k pace p cs fin acc F = (Ok d, F') \<Longrightarrow> holds_bytes F p acc \<Longrightarrow> length acc \<le> MAX_ROOTFS_BYTES \<Longrightarrow>
     d = acc @ concat (takeWhile (\<lambda>c. c \<noteq> []) cs) \<and> length d \<le> MAX_ROOTFS_BYTES \<and> holds_bytes F' p d"
proof (induction cs arbitrary: acc F)
  case Nil
  then show ?case by (auto split: option.splits)
next
  case (Cons c cs)
  show ?case
  proof (cases "c = []")
    case True
    with Cons.prems show ?thesis by auto
  next
    case False
    with Cons.prems have len: "length (acc @ c) \<le> MAX_ROOTFS_BYTES" by (auto split: if_splits)
    with Cons.prems(1) False obtain x F1 y F2 where
      w: "write_content p (Binary (acc @ c)) F = (Ok x, F1)"
      and t: "(case pace (length acc + length c) of None \<Rightarrow> ret () | Some line \<Rightarrow> emit_progress k line) F1 = (Ok y, F2)"
      and r: "download_loop k pace p cs fin (acc @ c) F2 = (Ok d, F')"
      by (auto simp: seq_Ok)
    have "holds_bytes F2 p (acc @ c)"
      using write_holds [OF w] t by (auto simp: holds_bytes_def lookup_emit_progress split: option.splits)
    from Cons.IH [OF r this len] have "d = (acc @ c) @ concat (takeWhile (\<lambda>c. c \<noteq> []) cs)"
      "length d \<le> MAX_ROOTFS_BYTES" "holds_bytes F' p d" by blast+
    with False show ?thesis by simp
  qed
qed

lemma download_Ok:
  assumes "download k pace fetch url p F = (Ok d, F')"
  shows "\<exists>r. fetch url = Ok r \<and> d = concat (takeWhile (\<lambda>c. c \<noteq> []) (rp_chunks r))
    \<and> length d \<le> MAX_ROOTFS_BYTES \<and> holds_bytes F' p d"
proof -
  from assms obtain r n x F1 where r: "fetch url = Ok r" "rp_announced r = Ok n"
    "write_content p (Binary []) F = (Ok x, F1)" "download_loop k pace p (rp_chunks r) (rp_end r) [] F1 = (Ok d, F')"
    by (auto simp: download_def try_io_Ok seq_Ok split: sum.splits if_splits)
  from download_loop_Ok [OF r(4) write_holds [OF r(3)]] r(1) show ?thesis by auto
qed

lemma fetch_verified_Ok:
  assumes "fetch_verified X k pace fetch spec p F = (Ok x, F')"
  shows "\<exists>r d. fetch (rs_url spec) = Ok r \<and> d = concat (takeWhile (\<lambda>c. c \<noteq> []) (rp_chunks r))
    \<and> length d \<le> MAX_ROOTFS_BYTES \<and> lower (sha512_hexdigest d) = lower (rs_checksum spec) \<and> holds_bytes F' p d"
proof -
  from assms obtain d F1 where d: "download k pace fetch (rs_url spec) p F = (Ok d, F1)"
    "lower (sha512_hexdigest d) = lower (rs_checksum spec)"
    "emit_progress k (''  SHA512 checksum verified '' @ [CHR 0xE2, CHR 0x9C, CHR 0x93] @ LF1) F1 = (Ok x, F')"
    by (auto simp: fetch_verified_def bind_Ok seq_Ok Let_def split: if_splits)
  from download_Ok [OF d(1)] d(2) lookup_emit_progress [OF d(3)] show ?thesis
    by (auto simp: holds_bytes_def)
qed

text \<open>
  C11: a download that is accepted is the pinned one: the bytes come from the pinned URL, are at most
  256 MiB, have the pinned SHA-512 digest, and the tarball on disk holds exactly these bytes, all
  chunks up to the first empty one, in order.
\<close>

theorem accepted_download_is_pinned:
  assumes "fetch_verified X k pace fetch spec p F = (Ok x, F')"
  shows "\<exists>r d. fetch (rs_url spec) = Ok r \<and> d = concat (takeWhile (\<lambda>c. c \<noteq> []) (rp_chunks r))
    \<and> length d \<le> 256 * 1024 * 1024 \<and> lower (sha512_hexdigest d) = lower (rs_checksum spec) \<and> holds_bytes F' p d"
  using fetch_verified_Ok [OF assms] by (simp add: MAX_ROOTFS_BYTES_def)

definition demo_spec :: rootfs_spec where
  "demo_spec = \<lparr>rs_os = ''alpine'', rs_label = ''Alpine'', rs_url = ''u'',
     rs_checksum = sha512_hexdigest [1, 2, 3], rs_extension = ''tar.gz''\<rparr>"

definition demo_fetch :: "string \<Rightarrow> exn + response" where
  "demo_fetch = (\<lambda>url. Ok \<lparr>rp_announced = Ok 3, rp_chunks = [[1, 2], [3]], rp_end = None\<rparr>)"

theorem accepted_download_is_pinned_witness:
  "holds_bytes (snd (fetch_verified demo_linux NoSink (\<lambda>_. None) demo_fetch demo_spec (Path ''/'' [''t'']) empty_fs))
     (Path ''/'' [''t'']) [1, 2, 3]"
proof -
  have "fst (fetch_verified demo_linux NoSink (\<lambda>_. None) demo_fetch demo_spec (Path ''/'' [''t'']) empty_fs) = Ok ()"
    by (simp add: fetch_verified_def download_def demo_fetch_def demo_spec_def bind_io_def seq_io_def try_io_def
        write_content_def locate_def link_limit_def node_at_def empty_fs_def change_def put_node_def
        emit_progress_def MAX_ROOTFS_BYTES_def)
  then obtain F' where e: "fetch_verified demo_linux NoSink (\<lambda>_. None) demo_fetch demo_spec (Path ''/'' [''t'']) empty_fs
      = (Ok (), F')" by (metis prod.collapse)
  from accepted_download_is_pinned [OF e] e show ?thesis by (simp add: demo_fetch_def)
qed

text \<open>
  A fresh install that reports success unpacked and swapped in a tarball that held the pinned bytes.
\<close>

lemma installed_rootfs_is_verified:
  assumes "install depth X pkg untar pace fetch k os F = (Ok r, F')" "\<not> ir_already r"
  shows "\<exists>spec resp d F1 F2.
    rootfs_spec X os = Ok spec \<and> ALPINE_SHA512 (alpine_arch X) = Some (rs_checksum spec)
    \<and> fetch (rs_url spec) = Ok resp \<and> d = concat (takeWhile (\<lambda>c. c \<noteq> []) (rp_chunks resp))
    \<and> length d \<le> MAX_ROOTFS_BYTES \<and> lower (sha512_hexdigest d) = lower (rs_checksum spec)
    \<and> holds_bytes F1 (child (lx_cache X) (''alpine-rootfs-'' @ alpine_arch X @ ''.tar.gz'')) d
    \<and> stage_and_swap X untar k ''alpine''
        (child (lx_cache X) (''alpine-rootfs-'' @ alpine_arch X @ ''.tar.gz'')) F1 = (Ok (), F2)"
proof -
  from assms(1) obtain spec where spec: "rootfs_spec X os = Ok spec"
    by (auto simp: install_def bind_Ok lift_def)
  then have s: "rs_os spec = ''alpine''" "rs_extension spec = ''tar.gz''"
    "ALPINE_SHA512 (alpine_arch X) = Some (rs_checksum spec)"
    by (auto simp: rootfs_spec_def Let_def split: sum.splits option.splits)
  from assms(1) spec obtain F0 st F1 where st: "check_current X k ''alpine'' F0 = (Ok st, F1)"
    and rest: "(case st of Inl finished \<Rightarrow> ret finished | Inr current \<Rightarrow> fresh_install X untar pace fetch k spec current) F1
      = (Ok r, F')"
    by (auto simp: install_def bind_Ok seq_Ok lift_def s(1))
  show ?thesis
  proof (cases st)
    case (Inl f)
    with st have "ir_already f" by (auto simp: check_current_def bind_Ok seq_Ok split: if_splits)
    with rest Inl assms(2) show ?thesis by simp
  next
    case (Inr current)
    let ?t = "child (lx_cache X) (''alpine-rootfs-'' @ alpine_arch X @ ''.tar.gz'')"
    from Inr rest s obtain F2 x F3 F4 where
      f: "fetch_verified X k pace fetch spec ?t F2 = (Ok x, F3)" and g: "stage_and_swap X untar k ''alpine'' ?t F3 = (Ok (), F4)"
      by (auto simp: fresh_install_def Let_def seq_Ok)
    from fetch_verified_Ok [OF f] obtain resp d where
      d: "fetch (rs_url spec) = Ok resp" "d = concat (takeWhile (\<lambda>c. c \<noteq> []) (rp_chunks resp))"
        "length d \<le> MAX_ROOTFS_BYTES" "lower (sha512_hexdigest d) = lower (rs_checksum spec)" "holds_bytes F3 ?t d"
      by blast
    show ?thesis
      by (intro exI [of _ spec] exI [of _ resp] exI [of _ d] exI [of _ F3] exI [of _ F4] conjI)
        (rule spec s(3) d g)+
  qed
qed

section \<open>The resolver\<close>

definition reachable_server :: "string \<Rightarrow> bool" where
  "reachable_server s \<longleftrightarrow> CHR '':'' \<notin> set s \<and> lower s \<noteq> ''localhost'' \<and> \<not> startswith s ''127.''"

lemma lower_char_id: "lower_char c = c \<longleftrightarrow> \<not> (65 \<le> (of_char c :: nat) \<and> (of_char c :: nat) \<le> 90)"
proof -
  have "(of_char c :: nat) < 256" by (rule of_char_lt)
  moreover have "char_of ((of_char c :: nat) + 32) = c \<longleftrightarrow> (of_char c + 32 :: nat) mod 256 = of_char c"
    by (metis char_of_char of_char_of)
  ultimately show ?thesis by (auto simp: lower_char_def Let_def)
qed

lemma lower_char_fix: "d \<in> {CHR '':'', CHR ''1'', CHR ''2'', CHR ''7'', CHR ''.''} \<Longrightarrow> lower_char c = d \<longleftrightarrow> c = d"
proof -
  assume d: "d \<in> {CHR '':'', CHR ''1'', CHR ''2'', CHR ''7'', CHR ''.''}"
  have ld: "lower_char d = d" using d by (auto simp: lower_char_def)
  show ?thesis
  proof
    assume l: "lower_char c = d"
    show "c = d"
    proof (rule ccontr)
      assume "c \<noteq> d"
      with l have "\<not> lower_char c = c" by simp
      then have "65 \<le> (of_char c :: nat) \<and> (of_char c :: nat) \<le> 90" by (simp add: lower_char_id)
      then have "(of_char (lower_char c) :: nat) = of_char c + 32" "97 \<le> (of_char c + 32 :: nat)"
        by (auto simp: lower_char_def Let_def)
      then have "97 \<le> (of_char d :: nat)" using l by simp
      with d show False by auto
    qed
  qed (use ld in simp)
qed

lemma lower_127: "startswith s ''127.'' \<Longrightarrow> startswith (lower s) ''127.''"
  by (auto simp: startswith_def prefix_def lower_def lower_char_def)

lemma nameserver_line_reachable: "nameserver_line l = Some s \<Longrightarrow> reachable_server s"
proof -
  assume "nameserver_line l = Some s"
  then obtain k v r where l: "str_split l = k # v # r"
    by (cases "str_split l"; cases "tl (str_split l)") (simp_all add: nameserver_line_def)
  define ip where "ip = fst (split_once ''%'' (strip_by (\<lambda>c. c = CHR ''%'') v))"
  have "(if lower k = ''nameserver'' then
      (if lower ip \<in> {''localhost'', ''::1''} \<or> startswith (lower ip) ''127.'' \<or> CHR '':'' \<in> set (lower ip) then None
       else Some ip) else None) = Some s"
    using \<open>nameserver_line l = Some s\<close> l by (simp only: nameserver_line_def Let_def list.case ip_def)
  then have "\<not> startswith (lower s) ''127.''" "CHR '':'' \<notin> set (lower s)" "lower s \<noteq> ''localhost''"
    by (simp_all split: if_split_asm)
  moreover have "CHR '':'' \<in> set (lower s) \<longleftrightarrow> CHR '':'' \<in> set s"
  proof -
    have f: "lower_char c = CHR '':'' \<longleftrightarrow> c = CHR '':''" for c by (rule lower_char_fix) simp
    show ?thesis unfolding lower_def set_map using f by (metis imageE imageI)
  qed
  ultimately show ?thesis using lower_127 by (auto simp: reachable_server_def)
qed

lemma set_dedup [simp]: "set (dedup xs) = set xs" and distinct_dedup [simp]: "distinct (dedup xs)"
proof -
  have "set (foldl (\<lambda>acc x. if x \<in> set acc then acc else acc @ [x]) acc xs) = set acc \<union> set xs \<and>
    (distinct acc \<longrightarrow> distinct (foldl (\<lambda>acc x. if x \<in> set acc then acc else acc @ [x]) acc xs))" for acc
    by (induction xs arbitrary: acc) auto
  from this [of "[]"] show "set (dedup xs) = set xs" "distinct (dedup xs)" by (simp_all add: dedup_def)
qed

lemma nameserver_ips_reachable: "nameserver_ips p F = (Ok ips, F') \<Longrightarrow> s \<in> set ips \<Longrightarrow> reachable_server s"
proof -
  assume n: "nameserver_ips p F = (Ok ips, F')" and s: "s \<in> set ips"
  from n have "ips = [] \<or> (\<exists>ls. ips = List.map_filter nameserver_line ls)"
    by (auto simp: nameserver_ips_def try_os_def try_io_Ok bind_Ok split: if_splits)
  with s show ?thesis by (auto simp: List.map_filter_def nameserver_line_reachable)
qed

text \<open>
  whatever the Android host's \<open>resolv.conf\<close> says, the guest's lists the two public resolvers,
  lists no server twice, and lists no loopback, \<open>localhost\<close> or IPv6 server.
\<close>

theorem guest_resolver_usable:
  assumes "ensure_guest_resolv_conf root F = (Ok x, F')"
  shows "\<exists>servers F1. try_write (child (child root ''etc'') ''resolv.conf'') (resolv_conf_text servers) F1 = (Ok x, F')
    \<and> {''8.8.8.8'', ''1.1.1.1''} \<subseteq> set servers \<and> distinct servers \<and> (\<forall>s \<in> set servers. reachable_server s)"
proof -
  from assms obtain ips F0 F1 where ips: "nameserver_ips (to_path ''/etc/resolv.conf'') F0 = (Ok ips, F1)"
    and w: "try_write (child (child root ''etc'') ''resolv.conf'') (resolv_conf_text (dedup (ips @ [''8.8.8.8'', ''1.1.1.1'']))) F1 = (Ok x, F')"
    by (auto simp: ensure_guest_resolv_conf_def seq_Ok bind_Ok)
  have "reachable_server ''8.8.8.8''" "reachable_server ''1.1.1.1''"
    by (auto simp: reachable_server_def startswith_def lower_def lower_char_def)
  with nameserver_ips_reachable [OF ips]
  have "\<forall>s \<in> set (dedup (ips @ [''8.8.8.8'', ''1.1.1.1''])). reachable_server s" by auto
  with w show ?thesis by (intro exI [of _ "dedup (ips @ [''8.8.8.8'', ''1.1.1.1''])"] exI [of _ F1]) simp
qed

lemma demo_resolv: "fst (ensure_guest_resolv_conf (Path ''/'' []) empty_fs) = Ok ()"
  by (simp add: ensure_guest_resolv_conf_def seq_io_def bind_io_def mkdir_parents.simps os_mkdir_def locate_def
      lookup_def node_at_def empty_fs_def link_limit_def child_rel to_path_def path_root_def startswith_def
      change_def put_node_def nameserver_ips_def try_os_def try_io_def read_text_replace_def read_content_def
      try_write_def write_text_def write_content_def)

theorem guest_resolver_usable_witness:
  "\<exists>servers. {''8.8.8.8'', ''1.1.1.1''} \<subseteq> set servers \<and> distinct servers"
proof -
  obtain F' where e: "ensure_guest_resolv_conf (Path ''/'' []) empty_fs = (Ok (), F')"
    using demo_resolv by (metis prod.collapse)
  from guest_resolver_usable [OF e] show ?thesis by blast
qed

section \<open>The seccomp probe\<close>

text \<open>
  the kernel is probed at most once: the probe never raises, and after it has answered, every
  later request returns the same answer without starting a process or touching anything.
\<close>

theorem seccomp_probe_once:
  "\<exists>x F'. seccomp_probe_broken run X cache F = (Ok (x, Some x), F')
    \<and> (\<forall>run' F2. seccomp_probe_broken run' X (Some x) F2 = (Ok (x, Some x), F2))"
proof (cases cache)
  case None
  obtain r F1 where p: "seccomp_probe run X F = (r, F1)" by fastforce
  have "\<exists>x. r = Ok x"
    using p by (auto simp: seccomp_probe_def try_io_def split: prod.splits sum.splits)
  then show ?thesis using None p by (auto simp: seccomp_probe_broken_def bind_io_def)
qed (simp add: seccomp_probe_broken_def)

section \<open>The gates\<close>

lemma raises_try_io [raises_intros]: "(\<And>e. raises_only P (h e)) \<Longrightarrow> raises_only P (try_io m h)"
  unfolding raises_only_def try_io_def by (auto split: prod.splits sum.splits)

lemma raises_gate [raises_intros]: "raises_only P (gate rs nm ok d)"
  unfolding gate_def report_line_def by (intro raises_intros)

abbreviation (input) undecodable :: "exn \<Rightarrow> bool" where
  "undecodable e \<equiv> e = ValueError ''invalid utf-8''"

lemma raises_read_text_or: "raises_only (\<lambda>e. is_oserror e \<or> undecodable e) (read_text p)"
  by (rule raises_read_text)

lemma raises_read_marker: "raises_only undecodable (read_marker X)"
  unfolding read_marker_def
proof (rule raises_try_os)
  show "raises_only (\<lambda>e. is_oserror e \<or> undecodable e)
      (bind_io (read_text (child (child (lx_rootfs X) ''etc'') ROOTFS_OS_MARKER)) (\<lambda>t.
       let m = lower (str_strip t) in ret (if m \<in> set SUPPORTED_ROOTFS then Some m else None)))"
    by (rule raises_bind [OF raises_read_text]) (simp add: Let_def raises_ret)
qed simp

lemma raises_installed_os: "raises_only undecodable (installed_os X)"
  unfolding installed_os_def
  by (intro raises_bind raises_ask) (auto intro!: raises_bind raises_read_marker raises_ret raises_ask split: option.splits)

lemma raises_is_installed: "raises_only undecodable (is_installed X)"
  unfolding is_installed_def by (intro raises_bind raises_installed_os raises_ret)

lemma gate_Ok: "gate rs nm ok d F = (Ok rs', F') \<Longrightarrow> rs' = dict_put nm (ok, d) rs"
  by (auto simp: gate_def seq_Ok)

lemma gate_keys: "gate rs nm ok d F = (Ok rs', F') \<Longrightarrow> nm \<notin> set (map fst rs) \<Longrightarrow> map fst rs' = map fst rs @ [nm]"
  by (drule gate_Ok) (simp add: keys_dict_put)

text \<open>Each gate adds one entry, whatever happened inside it, and raises nothing.\<close>

definition gate_entry :: "string \<Rightarrow> gates \<Rightarrow> (gates \<times> 'c) io \<Rightarrow> bool" where
  "gate_entry nm rs m \<longleftrightarrow> (\<forall>F. \<exists>e c F'. m F = (Ok (dict_put nm e rs, c), F'))"

lemma gate_total: "\<exists>F'. gate rs nm ok d F = (Ok (dict_put nm (ok, d) rs), F')"
  by (simp add: gate_def report_line_def seq_io_def bind_io_def emit_def)

lemma gate_entryI: "(\<And>F. \<exists>e c F'. m F = (Ok (dict_put nm e rs, c), F')) \<Longrightarrow> gate_entry nm rs m"
  by (simp add: gate_entry_def)

lemma gate_entry_cleanup:
  assumes "\<And>F. \<exists>x F'. k F = (Ok x, F')"
  shows "gate_entry nm rs (bind_io (gate rs nm ok d) (\<lambda>r. seq_io k (ret (r, c))))"
proof (rule gate_entryI)
  fix F
  obtain F1 where g: "gate rs nm ok d F = (Ok (dict_put nm (ok, d) rs), F1)" using gate_total by blast
  obtain x F2 where "k F1 = (Ok x, F2)" using assms by blast
  with g show "\<exists>e c' F'. bind_io (gate rs nm ok d) (\<lambda>r. seq_io k (ret (r, c))) F
      = (Ok (dict_put nm e rs, c'), F')"
    by (auto simp: bind_io_def seq_io_def)
qed

lemma gate_entry_gate: "gate_entry nm rs (bind_io (gate rs nm ok d) (\<lambda>r. ret (r, c)))"
proof (rule gate_entryI)
  fix F
  obtain F1 where g: "gate rs nm ok d F = (Ok (dict_put nm (ok, d) rs), F1)" using gate_total by blast
  then show "\<exists>e c' F'. bind_io (gate rs nm ok d) (\<lambda>r. ret (r, c)) F = (Ok (dict_put nm e rs, c'), F')"
    by (auto simp: bind_io_def)
qed

lemma gate_entry_bind:
  assumes "\<And>F. \<exists>x F'. m F = (Ok x, F')" "\<And>x. gate_entry nm rs (f x)"
  shows "gate_entry nm rs (bind_io m f)"
proof (rule gate_entryI)
  fix F
  obtain x F1 where m: "m F = (Ok x, F1)" using assms(1) by blast
  obtain e c F' where "f x F1 = (Ok (dict_put nm e rs, c), F')"
    using assms(2) [of x] unfolding gate_entry_def by blast
  with m show "\<exists>e c F'. bind_io m f F = (Ok (dict_put nm e rs, c), F')"
    by (cases e) (auto simp: bind_io_def)
qed

lemma caught_total: "(\<And>e F. \<exists>x F'. h e F = (Ok x, F')) \<Longrightarrow> \<exists>x F'. try_io m h F = (Ok x, F')"
  unfolding try_io_def by (auto split: prod.split sum.split)

lemma run_env_total: "\<exists>x F'. run_env run X argv cache F = (Ok x, F')"
  unfolding run_env_def by (rule caught_total) simp

lemma run_guest_total: "\<exists>x F'. run_guest run X argv cache F = (Ok x, F')"
  unfolding run_guest_def by (rule caught_total) simp

lemma stale_hint_total: "\<exists>x F'. stale_hint proot F = (Ok x, F')"
  unfolding stale_hint_def by (rule caught_total) simp

lemma ask_total: "\<exists>x F'. ask q F = (Ok x, F')"
  by simp

lemma rmtree_total: "\<exists>x F'. rmtree_ignore p F = (Ok x, F')"
  by (simp add: rmtree_ignore_def split: sum.split node.split prod.split)

lemma gate_entry_cases:
  assumes "\<And>e. r = Err e \<Longrightarrow> gate_entry nm rs (bind_io (f e) k)" "\<And>x. r = Ok x \<Longrightarrow> gate_entry nm rs (bind_io (g x) k)"
  shows "gate_entry nm rs (bind_io (case r of Err e \<Rightarrow> f e | Ok x \<Rightarrow> g x) k)"
  using assms by (cases r) simp_all

lemma proot_exec_entry: "gate_entry ''proot-exec'' rs (proot_exec_gate run X proot rs cache)"
  unfolding proot_exec_gate_def Let_def case_prod_beta
  by (rule gate_entry_bind [OF stale_hint_total], rule gate_entry_bind [OF run_env_total],
      rule gate_entry_cases) (rule gate_entry_gate)+

lemma linux_boot_entry: "gate_entry ''linux-boot'' rs (linux_boot_gate run X rs cache)"
  unfolding linux_boot_gate_def case_prod_beta
  by (rule gate_entry_bind [OF run_guest_total], rule gate_entry_bind, rule caught_total) (auto intro: gate_entry_gate)

lemma apk_entry: "gate_entry ''apk'' rs (apk_gate run X rs cache)"
  unfolding apk_gate_def case_prod_beta
  by (rule gate_entry_bind [OF run_guest_total], rule gate_entry_cases) (rule gate_entry_gate)+

lemma gate_entry_seq: "(\<And>F. \<exists>x F'. m F = (Ok x, F')) \<Longrightarrow> gate_entry nm rs k \<Longrightarrow> gate_entry nm rs (seq_io m k)"
  unfolding seq_io_def by (rule gate_entry_bind)

lemma git_clone_entry: "gate_entry ''git-clone'' rs (git_clone_gate run X rs cache)"
  unfolding git_clone_gate_def Let_def case_prod_beta
  by (rule gate_entry_seq [OF rmtree_total], rule gate_entry_bind [OF caught_total], simp,
      rule gate_entry_bind [OF ask_total], rule gate_entry_cases) (rule gate_entry_cleanup, rule rmtree_total)+

lemma with_cache_entry: "gate_entry nm rs (with_cache c (gate rs nm ok d))"
  unfolding with_cache_def by (rule gate_entry_gate)

lemma gate_entryD:
  "gate_entry nm rs m \<Longrightarrow> m F = (Ok q, F') \<Longrightarrow> nm \<notin> set (map fst rs) \<Longrightarrow> map fst (fst q) = map fst rs @ [nm]"
proof -
  assume g: "gate_entry nm rs m" and m: "m F = (Ok q, F')" and n: "nm \<notin> set (map fst rs)"
  from g obtain e c0 F0 where "m F = (Ok (dict_put nm e rs, c0), F0)" unfolding gate_entry_def by blast
  with m have "fst q = dict_put nm e rs" by auto
  with n show ?thesis by (simp only: keys_dict_put if_False)
qed

lemma gate_proot_entry: "gate_entry ''proot-exec'' rs (gate_proot run X pr rs c)"
  by (cases pr) (simp_all add: gate_proot_def proot_exec_entry with_cache_entry)

lemma gate_boot_entry: "gate_entry ''linux-boot'' rs (gate_boot run X ready rs c)"
  by (simp add: gate_boot_def linux_boot_entry with_cache_entry)

lemma gate_clone_entry: "gate_entry ''git-clone'' rs (gate_clone run X ready rs c)"
  by (simp add: gate_clone_def git_clone_entry with_cache_entry)

lemma gate_packages_entry: "gate_entry (if ready then ''apk'' else ''package-manager'') rs (gate_packages run X ready rs c)"
  by (simp add: gate_packages_def apk_entry with_cache_entry)

lemma raises_entry: "gate_entry nm rs m \<Longrightarrow> raises_only P m"
  unfolding gate_entry_def raises_only_def by (metis fst_conv sum.distinct(1))

lemmas raises_gates = raises_entry [OF gate_proot_entry] raises_entry [OF gate_boot_entry]
  raises_entry [OF gate_clone_entry] raises_entry [OF gate_packages_entry]

lemma raises_report_line [raises_intros]: "raises_only P (report_line s)"
  by (simp add: report_line_def raises_emit)

lemma raises_run_gates: "raises_only undecodable (run_gates run X ptmx marker cache)"
proof -
  have m: "raises_only undecodable (if truthy_str marker then report_line (''[INFO] zmux build: '' @ the marker) else ret ())"
    by (simp only: split: if_split) (simp add: raises_report_line raises_ret)
  have p: "raises_only undecodable (gate_ptmx ptmx)"
    by (cases ptmx) (simp_all only: gate_ptmx_def option.case raises_gate)
  have t: "raises_only undecodable (report_total rs)" for rs
    unfolding report_total_def by (intro raises_seq raises_report_line raises_ret)
  have i: "raises_only undecodable (if pr = None then ret False else is_installed X)" for pr :: "string option"
    by (cases pr) (simp_all only: if_True if_False raises_ret raises_is_installed option.distinct simp_thms)
  show ?thesis unfolding run_gates_def case_prod_beta
    by (intro raises_seq [OF m] raises_bind raises_ask raises_installed_os p t i raises_gates)
qed

lemma run_gates_names:
  assumes "run_gates run X ptmx marker cache F = (Ok rs, F')"
  shows "map fst rs = [''ptmx'', ''proot-exec'', ''linux-boot'', ''git-clone'', ''apk'']
    \<or> map fst rs = [''ptmx'', ''proot-exec'', ''linux-boot'', ''git-clone'', ''package-manager'']"
proof -
  from assms obtain r1 F1 F1' pr F1b q2 F2 ready1 F3 q3 F4 here F5 q4 F6 ready2 q5 F7
    where 1: "gate_ptmx ptmx F1 = (Ok r1, F1')" and 2: "gate_proot run X pr r1 cache F1b = (Ok q2, F2)"
      and 3: "gate_boot run X ready1 (fst q2) (snd q2) F3 = (Ok q3, F4)"
      and 4: "gate_clone run X here (fst q3) (snd q3) F5 = (Ok q4, F6)"
      and 5: "gate_packages run X ready2 (fst q4) (snd q4) F6 = (Ok q5, F7)"
      and 6: "report_total (fst q5) F7 = (Ok rs, F')"
    unfolding run_gates_def case_prod_beta bind_Ok seq_Ok by (elim exE conjE) (rule that)
  have k1: "map fst r1 = [''ptmx'']"
    using 1 by (cases ptmx) (auto simp: gate_ptmx_def dest!: gate_Ok)
  have k2: "map fst (fst q2) = [''ptmx'', ''proot-exec'']" using gate_entryD [OF gate_proot_entry 2] k1 by simp
  have k3: "map fst (fst q3) = [''ptmx'', ''proot-exec'', ''linux-boot'']"
    using gate_entryD [OF gate_boot_entry 3] k2 by simp
  have k4: "map fst (fst q4) = [''ptmx'', ''proot-exec'', ''linux-boot'', ''git-clone'']"
    using gate_entryD [OF gate_clone_entry 4] k3 by simp
  from 6 have "rs = fst q5" by (auto simp: report_total_def seq_Ok)
  with gate_entryD [OF gate_packages_entry 5] k4 show ?thesis by (cases ready2) simp_all
qed


section \<open>Bind mount points\<close>

definition guest_fs :: fsys where
  "guest_fs = \<lparr>fs_table = [([''d''], Dir 493), ([''d'', ''linux''], Dir 493), ([''d'', ''linux'', ''rootfs''], Dir 493),
       ([''d'', ''home''], Dir 493)],
     fs_denied = (\<lambda>_. False), fs_log = [], fs_serial = 0\<rparr>"

text \<open>
  A storage path with dots leaves the root file system: the mount point of \<open>/s/../../../x\<close> is
  created as \<open>/d/x\<close>, beside the directory \<open>linux\<close> that holds the guest at \<open>/d/linux/rootfs\<close>.
\<close>

lemma mountpoint_leaves_rootfs:
  "node_at (snd (ensure_guest_mountpoint demo_linux (to_path ''/s/../../../x'') guest_fs)) [''d'', ''x''] = Some (Dir 493)"
  by (simp add: ensure_guest_mountpoint_def demo_linux_def guest_fs_def to_path_def path_root_def startswith_def
      path_str_def join_with_def relative_to_def joinpath_def is_absolute_def mkdir_parents.simps os_mkdir_def
      locate_def link_limit_def node_at_def change_def put_node_def parent_path_def try_os_def try_io_def
      is_dir_def stat_def lookup_def)

section \<open>Working directories\<close>

text \<open>Host directories below the home are below \<open>/root\<close> in the guest, all others are its root.\<close>

definition real_dir :: "fsys \<Rightarrow> string list \<Rightarrow> bool" where
  "real_dir F l \<longleftrightarrow> plain F l \<and> (\<forall>t. node_at F l \<noteq> Some (Lnk t))"

lemma real_dir_Nil: "real_dir F []"
  by (simp add: real_dir_def)

lemma real_dir_snoc:
  "real_dir F l \<Longrightarrow> node_at F l = Some (Dir m) \<Longrightarrow> w \<noteq> ''..'' \<Longrightarrow> (\<And>t. node_at F (l @ [w]) \<noteq> Some (Lnk t)) \<Longrightarrow>
     real_dir F (l @ [w])"
  by (auto simp: real_dir_def plain_def strict_prefix_def prefix_snoc)

lemma resolve_real: "real_dir F (p_names p) \<Longrightarrow> resolve_path F p = Ok (Path ''/'' (p_names p))"
  using realpath_plain [of F "[]" "p_names p"] by (simp add: resolve_path_def real_dir_def)

theorem guest_cwd_maps_home:
  assumes "real_dir F (p_names home)" "real_dir F (p_names cwd)" "lx_home X = home" "wf_path cwd"
  shows "guest_cwd X F cwd = Ok (if prefix (p_names home) (p_names cwd)
           then path_str (Path ''/'' (''root'' # drop (length (p_names home)) (p_names cwd))) else ''/'')"
proof -
  have r: "resolve_path F cwd = Ok (Path ''/'' (p_names cwd))" "resolve_path F home = Ok (Path ''/'' (p_names home))"
    using assms by (simp_all add: resolve_real)
  let ?ws = "drop (length (p_names home)) (p_names cwd)"
  have g: "good_name w" if "w \<in> set ?ws" for w using that assms(4) by (auto simp: wf_path_def dest: in_set_dropD)
  have "path_str (Path '''' ?ws) = ''.'' \<longleftrightarrow> ?ws = []"
  proof (cases ?ws)
    case (Cons w ws)
    with g [of w] have "good_name w" by simp
    then show ?thesis using Cons
      by (cases w; cases "tl w") (auto simp: path_str_def Let_def join_with_def good_name_def)
  qed (simp add: path_str_def Let_def)
  moreover have "path_str (Path ''/'' (''root'' # ?ws)) = (if ?ws = [] then ''/root'' else ''/root/'' @ path_str (Path '''' ?ws))"
  proof (cases ?ws)
    case (Cons w ws)
    with g [of w] show ?thesis by (auto simp: path_str_def Let_def join_with_def good_name_def)
  qed (simp add: path_str_def Let_def)
  ultimately show ?thesis using r assms(3)
    by (simp add: guest_cwd_def relative_to_def GUEST_HOME_def)
qed

lemma demo_home_real: "real_dir guest_fs [''d'', ''home'']" "real_dir guest_fs [''d'', ''home'', ''p'']"
proof -
  have d: "real_dir guest_fs ([] @ [''d''])"
    by (rule real_dir_snoc [OF real_dir_Nil]) (simp_all add: guest_fs_def node_at_def)
  then have h: "real_dir guest_fs ([''d''] @ [''home''])"
    by (intro real_dir_snoc) (simp_all add: guest_fs_def node_at_def)
  then show "real_dir guest_fs [''d'', ''home'']" by simp
  have "real_dir guest_fs ([''d'', ''home''] @ [''p''])"
    using h by (intro real_dir_snoc) (simp_all add: guest_fs_def node_at_def)
  then show "real_dir guest_fs [''d'', ''home'', ''p'']" by simp
qed

theorem guest_cwd_maps_home_witness:
  "guest_cwd demo_linux guest_fs (Path ''/'' [''d'', ''home'', ''p'']) = Ok ''/root/p''"
  using guest_cwd_maps_home [of guest_fs "Path ''/'' [''d'', ''home'']" "Path ''/'' [''d'', ''home'', ''p'']" demo_linux]
    demo_home_real
  by (simp add: demo_linux_def wf_path_def good_name_def path_str_def join_with_def)

end
