(* ===== verification/PyValues.thy ===== *)
theory PyValues
  imports Complex_Main Posix Crypto Json
begin

text \<open>
  Python values at run time, as the package manager handles the JSON it reads: attribute and
  item access with the exceptions of values of the wrong type, conversion to text and numbers,
  pure computations that may raise, and \<open>json.dump\<close> with \<open>indent=2, sort_keys=True\<close>, whose text
  \<open>json.loads\<close> reads back.
\<close>

section \<open>Computations that may raise\<close>

definition bind_r :: "exn + 'a \<Rightarrow> ('a \<Rightarrow> exn + 'b) \<Rightarrow> exn + 'b" where
  "bind_r r f = (case r of Err e \<Rightarrow> Err e | Ok x \<Rightarrow> f x)"

definition map_r :: "('a \<Rightarrow> 'b) \<Rightarrow> exn + 'a \<Rightarrow> exn + 'b" where
  "map_r f r = bind_r r (\<lambda>x. Ok (f x))"

fun all_r :: "('a \<Rightarrow> exn + 'b) \<Rightarrow> 'a list \<Rightarrow> exn + 'b list" where
  "all_r f [] = Ok []"
| "all_r f (x # xs) = bind_r (f x) (\<lambda>y. map_r (Cons y) (all_r f xs))"

lemma bind_r_simps [simp]: "bind_r (Err e) f = Err e" "bind_r (Ok x) f = f x"
  "map_r g (Err e) = Err e" "map_r g (Ok x) = Ok (g x)"
  by (simp_all add: bind_r_def map_r_def)

lemma bind_r_Ok: "bind_r r f = Ok y \<longleftrightarrow> (\<exists>x. r = Ok x \<and> f x = Ok y)"
  by (cases r) simp_all

lemma map_r_Ok: "map_r g r = Ok y \<longleftrightarrow> (\<exists>x. r = Ok x \<and> y = g x)"
  by (cases r) auto

lemma all_r_Ok: "all_r f xs = Ok ys \<longleftrightarrow> list_all2 (\<lambda>x y. f x = Ok y) xs ys"
  by (induction xs arbitrary: ys) (auto simp: bind_r_Ok map_r_Ok list_all2_Cons1)

section \<open>Access\<close>

text \<open>\<open>v.get(k, d)\<close> and \<open>v[k]\<close> on a dictionary; \<open>x or y\<close>; iteration.\<close>

definition py_get :: "string \<Rightarrow> pyval \<Rightarrow> pyval \<Rightarrow> exn + pyval" where
  "py_get k d v = (case v of PDict kvs \<Rightarrow> Ok (case map_of kvs k of None \<Rightarrow> d | Some x \<Rightarrow> x) | _ \<Rightarrow> Err AttributeError)"

definition py_item :: "string \<Rightarrow> pyval \<Rightarrow> exn + pyval" where
  "py_item k v = (case v of PDict kvs \<Rightarrow> (case map_of kvs k of None \<Rightarrow> Err KeyError | Some x \<Rightarrow> Ok x) | _ \<Rightarrow> Err TypeError)"

definition py_or :: "pyval \<Rightarrow> pyval \<Rightarrow> pyval" where
  "py_or x y = (if truthy x then x else y)"

definition is_dict :: "pyval \<Rightarrow> bool" where
  "is_dict v = (case v of PDict _ \<Rightarrow> True | _ \<Rightarrow> False)"

definition py_iter :: "pyval \<Rightarrow> exn + pyval list" where
  "py_iter v = (case v of PList xs \<Rightarrow> Ok xs | PDict d \<Rightarrow> Ok (map (\<lambda>e. PStr (fst e)) d)
     | PStr s \<Rightarrow> Ok (map (\<lambda>c. PStr [c]) s) | _ \<Rightarrow> Err TypeError)"

definition as_str :: "pyval \<Rightarrow> exn + string" where
  "as_str v = (case v of PStr s \<Rightarrow> Ok s | _ \<Rightarrow> Err TypeError)"

text \<open>The dictionary's entries, in order, once it is known to be one.\<close>

definition dict_items :: "pyval \<Rightarrow> (string \<times> pyval) list" where
  "dict_items v = (case v of PDict d \<Rightarrow> d | _ \<Rightarrow> [])"

lemma py_get_dict [simp]: "py_get k d (PDict kvs) = Ok (case map_of kvs k of None \<Rightarrow> d | Some x \<Rightarrow> x)"
  and is_dict_simps [simp]: "is_dict (PDict kvs)" "\<not> is_dict PNone" "\<not> is_dict (PList vs)" "\<not> is_dict (PStr s)"
    "\<not> is_dict (PInt n)" "\<not> is_dict (PBool t)" "\<not> is_dict (PFloat f)"
  by (simp_all add: py_get_def is_dict_def)

lemma is_dict_iff: "is_dict v \<longleftrightarrow> (\<exists>d. v = PDict d)"
  by (cases v) (simp_all add: is_dict_def)

lemma as_str_Ok: "as_str v = Ok s \<longleftrightarrow> v = PStr s"
  by (cases v) (simp_all add: as_str_def)

section \<open>Text and numbers\<close>

text \<open>\<open>repr\<close> and \<open>str\<close>; a float shows the text it was read from.\<close>

fun repr_val :: "pyval \<Rightarrow> string" where
  "repr_val PNone = ''None''"
| "repr_val (PBool t) = (if t then ''True'' else ''False'')"
| "repr_val (PInt n) = int_str n"
| "repr_val (PFloat s) = s"
| "repr_val (PStr s) = py_repr s"
| "repr_val (PList vs) = ''['' @ join_with '', '' (map repr_val vs) @ '']''"
| "repr_val (PDict d) = ''{'' @ join_with '', '' (map (\<lambda>(k, v). py_repr k @ '': '' @ repr_val v) d) @ ''}''"

definition py_str :: "pyval \<Rightarrow> string" where
  "py_str v = (case v of PStr s \<Rightarrow> s | _ \<Rightarrow> repr_val v)"

text \<open>The value of a decimal numeral, with fraction and exponent.\<close>

definition signed_part :: "string \<Rightarrow> int \<times> string" where
  "signed_part s = (if startswith s ''-'' then (-1, tl s) else if startswith s ''+'' then (1, tl s) else (1, s))"

definition num_val :: "string \<Rightarrow> rat" where
  "num_val s =
     (case signed_part s of (sg, t) \<Rightarrow>
        let ip = takeWhile is_digit t; r = dropWhile is_digit t;
            fp = (if startswith r ''.'' then takeWhile is_digit (tl r) else '''');
            r' = (if startswith r ''.'' then dropWhile is_digit (tl r) else r);
            (esg, et) = (if r' = '''' then (1, '''') else signed_part (tl r'));
            m = of_nat (digits_value (ip @ fp)) / 10 ^ length fp :: rat;
            e = digits_value (takeWhile is_digit et)
        in of_int sg * (if esg = 1 then m * 10 ^ e else m / 10 ^ e))"

definition is_int_text :: "string \<Rightarrow> bool" where
  "is_int_text s = (case signed_part s of (sg, t) \<Rightarrow> t \<noteq> '''' \<and> list_all is_digit t)"

definition is_num_text :: "string \<Rightarrow> bool" where
  "is_num_text s =
     (case signed_part s of (sg, t) \<Rightarrow>
        let ip = takeWhile is_digit t; r = dropWhile is_digit t;
            fp = (if startswith r ''.'' then takeWhile is_digit (tl r) else '''');
            r' = (if startswith r ''.'' then dropWhile is_digit (tl r) else r)
        in ip @ fp \<noteq> '''' \<and> (r' = '''' \<or> (lower [hd r'] = ''e'' \<and> is_int_text (tl r'))))"

text \<open>\<open>int(v)\<close>: a float is cut towards zero, a text must be a numeral.\<close>

definition py_int :: "pyval \<Rightarrow> exn + int" where
  "py_int v = (case v of
      PInt n \<Rightarrow> Ok n | PBool t \<Rightarrow> Ok (if t then 1 else 0)
    | PFloat s \<Rightarrow> Ok (let q = num_val s in if q \<ge> 0 then floor q else - floor (- q))
    | PStr s \<Rightarrow> (case signed_part (str_strip s) of (sg, t) \<Rightarrow>
        if is_int_text (str_strip s) then Ok (sg * int (digits_value t))
        else Err (ValueError (''invalid literal for int() with base 10: '' @ py_repr s)))
    | _ \<Rightarrow> Err TypeError)"

definition py_float :: "pyval \<Rightarrow> exn + rat" where
  "py_float v = (case v of
      PInt n \<Rightarrow> Ok (of_int n) | PBool t \<Rightarrow> Ok (if t then 1 else 0)
    | PFloat s \<Rightarrow> Ok (num_val s)
    | PStr s \<Rightarrow> (if is_num_text (str_strip s) then Ok (num_val (str_strip s))
        else Err (ValueError (''could not convert string to float: '' @ py_repr s)))
    | _ \<Rightarrow> Err TypeError)"

section \<open>Indented printing\<close>

fun sort_keys :: "pyval \<Rightarrow> pyval" where
  "sort_keys (PList vs) = PList (map sort_keys vs)"
| "sort_keys (PDict d) = PDict (sort_key fst (map (\<lambda>(k, v). (k, sort_keys v)) d))"
| "sort_keys v = v"

definition newline :: "nat \<Rightarrow> string" where
  "newline n = CHR 0x0A # replicate n (CHR '' '')"

fun json_indent :: "nat \<Rightarrow> pyval \<Rightarrow> string" where
  "json_indent n (PList vs) =
     (if vs = [] then ''[]''
      else ''['' @ newline (n + 2) @ join_with ('','' @ newline (n + 2)) (map (json_indent (n + 2)) vs) @ newline n @ '']'')"
| "json_indent n (PDict d) =
     (if d = [] then ''{}''
      else ''{'' @ newline (n + 2)
         @ join_with ('','' @ newline (n + 2)) (map (\<lambda>(k, v). json_str k @ '': '' @ json_indent (n + 2) v) d)
         @ newline n @ ''}'')"
| "json_indent n v = json_print '','' '':'' v"

definition json_dump_sorted :: "pyval \<Rightarrow> string" where
  "json_dump_sorted v = json_indent 0 (sort_keys v)"

section \<open>Reading the indented text back\<close>

text \<open>\<open>reads_as t v\<close>: the text \<open>t\<close>, followed by anything that ends a value, is read as \<open>v\<close>.\<close>

definition reads_as :: "string \<Rightarrow> pyval \<Rightarrow> bool" where
  "reads_as t v \<longleftrightarrow> (\<forall>n r. 2 * length t \<le> n \<longrightarrow> value_end r \<longrightarrow> jvalue n (t @ r) = Some (v, r))"

lemma reads_asD: "reads_as t v \<Longrightarrow> 2 * length t \<le> n \<Longrightarrow> value_end r \<Longrightarrow> jvalue n (t @ r) = Some (v, r)"
  by (simp add: reads_as_def)

lemma newline_ws [simp]: "x \<in> set (newline n) \<Longrightarrow> json_ws x"
  by (auto simp: newline_def json_ws_def)

lemma sep_newline: "sep_ok (CHR '','') ('','' @ newline n)"
  by (simp add: sep_ok_def)

lemma value_end_ws: "\<forall>x \<in> set c. json_ws x \<Longrightarrow> value_end r \<Longrightarrow> value_end (c @ r)"
  by (cases c) (simp_all add: value_end_def)

lemma skip_ws_newline: "skip_ws (newline n @ r) = skip_ws r"
  by (rule skip_ws_app) simp

lemma elems_newline: "jelems m (newline n @ r) = jelems m r"
  and members_newline: "jmembers m (newline n @ r) = jmembers m r"
  by (rule jelems_ws jmembers_ws; simp)+

lemma join_length_Cons:
  "ts \<noteq> [] \<Longrightarrow> length (join_with i (t # ts)) = length t + length i + length (join_with i ts)"
  by (simp add: join_with_Cons)

lemma elems_texts:
  assumes "sep_ok (CHR '','') i" and c: "\<forall>x \<in> set c. json_ws x"
  shows "ts \<noteq> [] \<Longrightarrow> list_all2 reads_as ts vs \<Longrightarrow> 2 * length (join_with i ts) + 1 \<le> n \<Longrightarrow>
    jelems n (join_with i ts @ c @ '']'' @ r) = Some (vs, r)"
proof (induction ts arbitrary: n vs)
  case (Cons t ts)
  then obtain m where n: "n = Suc m" by (cases n) auto
  from Cons.prems obtain v ws where vs: "vs = v # ws" "reads_as t v" "list_all2 reads_as ts ws"
    by (auto simp: list_all2_Cons1)
  obtain w where i: "i = CHR '','' # w" "\<forall>x \<in> set w. json_ws x" using assms by (auto simp: sep_ok_def)
  show ?case
  proof (cases "ts = []")
    case True
    have "value_end (c @ '']'' @ r)" by (rule value_end_ws [OF c]) (simp add: value_end_def)
    then have "jvalue m (t @ c @ '']'' @ r) = Some (v, c @ '']'' @ r)"
      using Cons.prems n True by (intro reads_asD [OF vs(2)]) simp_all
    moreover have "skip_ws (c @ '']'' @ r) = '']'' @ r"
      using c by (simp add: skip_ws_app skip_ws_nonspace json_ws_def)
    ultimately show ?thesis using True n vs by simp
  next
    case False
    let ?rest = "join_with i ts @ c @ '']'' @ r"
    have len: "2 * length t + 2 * length i + 2 * length (join_with i ts) + 1 \<le> n"
      using Cons.prems False by (simp add: join_with_Cons)
    have "value_end (i @ ?rest)" using i by (simp add: value_end_def)
    then have "jvalue m (t @ i @ ?rest) = Some (v, i @ ?rest)"
      using n len i by (intro reads_asD [OF vs(2)]) simp_all
    moreover have "skip_ws (i @ ?rest) = CHR '','' # w @ ?rest"
      using i by (simp add: skip_ws_nonspace json_ws_def)
    moreover have "jelems m (w @ ?rest) = Some (ws, r)"
      using Cons.IH [of ws m] vs n len False i by (simp add: jelems_ws)
    ultimately show ?thesis using n False vs by (simp add: join_with_Cons)
  qed
qed simp

definition entry_text :: "string \<times> string \<Rightarrow> string" where
  "entry_text e = json_str (fst e) @ '': '' @ snd e"

lemma members_texts:
  assumes "sep_ok (CHR '','') i" and c: "\<forall>x \<in> set c. json_ws x"
  shows "es \<noteq> [] \<Longrightarrow> list_all2 (\<lambda>e d. fst e = fst d \<and> reads_as (snd e) (snd d)) es ds \<Longrightarrow>
    2 * length (join_with i (map entry_text es)) + 1 \<le> n \<Longrightarrow>
    jmembers n (join_with i (map entry_text es) @ c @ ''}'' @ r) = Some (ds, r)"
proof (induction es arbitrary: n ds)
  case (Cons e es)
  then obtain m where n: "n = Suc m" by (cases n) auto
  obtain nm t where e: "e = (nm, t)" by (cases e)
  from Cons.prems e obtain v ws where ds: "ds = (nm, v) # ws" "reads_as t v"
      "list_all2 (\<lambda>e d. fst e = fst d \<and> reads_as (snd e) (snd d)) es ws"
    by (auto simp: list_all2_Cons1)
  obtain w where i: "i = CHR '','' # w" "\<forall>x \<in> set w. json_ws x" using assms by (auto simp: sep_ok_def)
  have head: "jmembers n (entry_text e @ q) =
      (case jvalue m (t @ q) of None \<Rightarrow> None
       | Some (v', r1) \<Rightarrow> (case skip_ws r1 of [] \<Rightarrow> None
           | c2 # cs2 \<Rightarrow> if c2 = CHR '','' then map_option (\<lambda>(kvs, q). ((nm, v') # kvs, q)) (jmembers m cs2)
                         else if c2 = CHR ''}'' then Some ([(nm, v')], cs2) else None))" for q
  proof -
    have "skip_ws (entry_text e @ q) = JQ # concat (map json_escape nm) @ JQ # '': '' @ t @ q"
      by (simp add: entry_text_def e json_str_def skip_ws_nonspace json_ws_def)
    moreover have "jstring (concat (map json_escape nm) @ JQ # '': '' @ t @ q) = Some (nm, '': '' @ t @ q)"
      by (rule jstring_json_str)
    moreover have "skip_ws ('': '' @ t @ q) = '': '' @ t @ q" by (simp add: skip_ws_nonspace json_ws_def)
    moreover have "jvalue m ('' '' @ t @ q) = jvalue m (t @ q)" by (rule jvalue_ws) (simp add: json_ws_def)
    ultimately show ?thesis using n by simp
  qed
  show ?case
  proof (cases "es = []")
    case True
    have "value_end (c @ ''}'' @ r)" by (rule value_end_ws [OF c]) (simp add: value_end_def)
    then have "jvalue m (t @ c @ ''}'' @ r) = Some (v, c @ ''}'' @ r)"
      using Cons.prems n True e by (intro reads_asD [OF ds(2)]) (simp_all add: entry_text_def)
    moreover have "skip_ws (c @ ''}'' @ r) = ''}'' @ r"
      using c by (simp add: skip_ws_app skip_ws_nonspace json_ws_def)
    ultimately show ?thesis using True head [of "c @ ''}'' @ r"] ds by simp
  next
    case False
    let ?rest = "join_with i (map entry_text es) @ c @ ''}'' @ r"
    have len: "2 * length (entry_text e) + 2 * length i + 2 * length (join_with i (map entry_text es)) + 1 \<le> n"
      using Cons.prems False by (simp add: join_with_Cons)
    have "value_end (i @ ?rest)" using i by (simp add: value_end_def)
    then have "jvalue m (t @ i @ ?rest) = Some (v, i @ ?rest)"
      using n len i e by (intro reads_asD [OF ds(2)]) (simp_all add: entry_text_def)
    moreover have "skip_ws (i @ ?rest) = CHR '','' # w @ ?rest"
      using i by (simp add: skip_ws_nonspace json_ws_def)
    moreover have "jmembers m (w @ ?rest) = Some (ws, r)"
      using Cons.IH [of ws m] ds n len False i by (simp add: jmembers_ws)
    ultimately show ?thesis using False head [of "i @ ?rest"] ds by (simp add: join_with_Cons)
  qed
qed simp

text \<open>The printed text of a value starts with no blank and no closing bracket.\<close>

lemma indent_hd:
  "json_plain v \<Longrightarrow> \<exists>c t. json_indent n v = c # t \<and> c \<noteq> CHR '']'' \<and> \<not> json_ws c"
proof (cases v)
  case (PInt k)
  assume "json_plain v"
  with PInt print_hd [of v "'',''" "'':''"] show ?thesis by simp
qed (auto simp: json_str_def json_ws_def)

lemma list_texts:
  assumes "vs \<noteq> []" "list_all2 reads_as ts vs" "\<exists>c t. hd ts = c # t \<and> c \<noteq> CHR '']'' \<and> \<not> json_ws c"
  shows "reads_as (''['' @ newline k @ join_with ('','' @ newline k) ts @ newline n @ '']'') (PList vs)"
  unfolding reads_as_def
proof (intro allI impI)
  let ?j = "join_with ('','' @ newline k) ts"
  fix m r assume m: "2 * length (''['' @ newline k @ ?j @ newline n @ '']'') \<le> m" and "value_end r"
  obtain p where p: "m = Suc p" using m by (cases m) auto
  from assms have ts: "ts \<noteq> []" by auto
  obtain c t where c: "hd ts = c # t" "c \<noteq> CHR '']''" "\<not> json_ws c" using assms(3) by blast
  obtain t' where j: "?j = c # t'" using ts c by (cases ts; cases "tl ts") (auto simp: join_with_def)
  have "jelems p (?j @ newline n @ '']'' @ r) = Some (vs, r)"
    using m p by (intro elems_texts sep_newline ts assms(2)) auto
  then show "jvalue m ((''['' @ newline k @ ?j @ newline n @ '']'') @ r) = Some (PList vs, r)"
    using p j c by (simp add: skip_ws_nonspace json_ws_def not_startswith skip_ws_newline elems_newline)
qed

lemma dict_texts:
  assumes "ds \<noteq> []" "list_all2 (\<lambda>e d. fst e = fst d \<and> reads_as (snd e) (snd d)) es ds" "distinct (map fst ds)"
  shows "reads_as (''{'' @ newline k @ join_with ('','' @ newline k) (map entry_text es) @ newline n @ ''}'') (PDict ds)"
  unfolding reads_as_def
proof (intro allI impI)
  let ?j = "join_with ('','' @ newline k) (map entry_text es)"
  fix m r assume m: "2 * length (''{'' @ newline k @ ?j @ newline n @ ''}'') \<le> m" and "value_end r"
  obtain p where p: "m = Suc p" using m by (cases m) auto
  from assms have es: "es \<noteq> []" by auto
  obtain t' where j: "?j = JQ # t'"
    using es by (cases es; cases "tl es") (auto simp: join_with_def entry_text_def json_str_def)
  have "jmembers p (?j @ newline n @ ''}'' @ r) = Some (ds, r)"
    using m p by (intro members_texts sep_newline es assms(2)) auto
  moreover have "dict_of ds = ds" by (rule dict_of_distinct [OF assms(3)])
  ultimately show "jvalue m ((''{'' @ newline k @ ?j @ newline n @ ''}'') @ r) = Some (PDict ds, r)"
    using p j by (simp add: skip_ws_nonspace json_ws_def not_startswith skip_ws_newline members_newline)
qed

lemma reads_plain: "reads i k v \<Longrightarrow> reads_as (json_print i k v) v"
  by (simp add: reads_def reads_as_def)

lemma reads_printed: "json_plain v \<Longrightarrow> reads_as (json_print '','' '':'' v) v"
  by (rule reads_plain [OF reads_all]) (simp_all add: sep_ok_def)

lemma indent_reads: "json_plain v \<Longrightarrow> reads_as (json_indent n v) v"
proof (induction v arbitrary: n rule: json_plain.induct)
  case (2 vs)
  have "list_all2 reads_as (map (json_indent (n + 2)) vs) vs"
    using 2 by (simp add: list_all2_conv_all_nth)
  moreover have "vs \<noteq> [] \<Longrightarrow> \<exists>c t. hd (map (json_indent (n + 2)) vs) = c # t \<and> c \<noteq> CHR '']'' \<and> \<not> json_ws c"
    using 2 indent_hd [of "hd vs"] by (simp add: hd_map)
  ultimately show ?case
    using list_texts reads_plain [OF reads_all [of "'',''" "'':''" "PList []"]] by (auto simp: sep_ok_def)
next
  case (3 d)
  let ?es = "map (\<lambda>e. (fst e, json_indent (n + 2) (snd e))) d"
  have t: "map (\<lambda>(k, v). json_str k @ '': '' @ json_indent (n + 2) v) d = map entry_text ?es"
    by (auto simp: entry_text_def)
  have e: "reads_as (json_indent n (PDict [])) (PDict [])"
    using reads_plain [OF reads_all [of "'',''" "'':''" "PDict []"]] by (simp add: sep_ok_def)
  have "list_all2 (\<lambda>e d. fst e = fst d \<and> reads_as (snd e) (snd d)) ?es d"
    using 3 by (simp add: list_all2_conv_all_nth)
  then have "d \<noteq> [] \<Longrightarrow> reads_as (''{'' @ newline (n + 2) @ join_with ('','' @ newline (n + 2)) (map entry_text ?es) @ newline n @ ''}'') (PDict d)"
    using 3 by (intro dict_texts) simp_all
  then show ?case using e by (cases "d = []") (simp_all only: json_indent.simps t if_False simp_thms)
qed (simp_all only: json_indent.simps reads_printed)

lemma plain_sort_keys: "json_plain v \<Longrightarrow> json_plain (sort_keys v)"
proof (induction v rule: json_plain.induct)
  case (3 d)
  let ?d = "map (\<lambda>(k, v). (k, sort_keys v)) d"
  have "map fst ?d = map fst d" by auto
  then have "distinct (map fst ?d)" using 3 by (simp only: json_plain.simps)
  then have "distinct ?d \<and> inj_on fst (set ?d)" by (simp only: distinct_map)
  then have "distinct (map fst (sort_key fst ?d))" by (simp only: distinct_map distinct_sort set_sort)
  then show ?case using 3 by auto
qed auto

text \<open>What \<open>json.dump(v, indent=2, sort_keys=True)\<close> wrote is read back as \<open>v\<close> with sorted keys.\<close>

theorem json_dump_sorted_round_trip:
  assumes "json_plain v"
  shows "json_loads (json_dump_sorted v) = Ok (sort_keys v)"
proof -
  let ?t = "json_indent 0 (sort_keys v)"
  have "reads_as ?t (sort_keys v)" by (intro indent_reads plain_sort_keys assms)
  from reads_asD [OF this, of "2 * length ?t + 2" "[]"]
  have "jvalue (2 * length ?t + 2) ?t = Some (sort_keys v, [])"
    by (simp add: value_end_def del: jvalue.simps)
  then show ?thesis by (simp add: json_loads_def json_dump_sorted_def skip_ws_def)
qed

end
