(* ===== verification/ZpipCore.thy ===== *)
theory ZpipCore
  imports PyValues
begin

text \<open>
  The package manager \<open>zmux/zpip.py\<close>, its building blocks: package names, the installed
  database, the network requests, the download with its limit and SHA-256 check, the checked
  extraction of a wheel, manifests from the curated index and from PyPI, the catalogue cache and
  the modules a wheel provides.  The answers of the network, the members of a zip archive and
  the parser of requirements are parameters; the directories are those of \<open>zmux/paths.py\<close>.
\<close>

section \<open>Configuration and names\<close>

record zpip =
  zp_installed :: path
  zp_downloads :: path
  zp_staging :: path
  zp_user :: path
  zp_cache :: path
  zp_index :: string
  zp_runtime :: string
  zp_abi :: string
  zp_env :: environ
  zp_fetch :: "string \<Rightarrow> exn + response"

definition alnum :: "char \<Rightarrow> bool" where
  "alnum c = (let n = of_char c :: nat in
     (48 \<le> n \<and> n \<le> 57) \<or> (65 \<le> n \<and> n \<le> 90) \<or> (97 \<le> n \<and> n \<le> 122))"

definition name_sep :: "char \<Rightarrow> bool" where
  "name_sep c \<longleftrightarrow> c \<in> {CHR ''-'', CHR ''_'', CHR ''.''}"

definition valid_name :: "string \<Rightarrow> bool" where
  "valid_name s = (case s of [] \<Rightarrow> False
     | c # cs \<Rightarrow> alnum c \<and> list_all (\<lambda>d. alnum d \<or> name_sep d) cs \<and> length cs \<le> 127)"

text \<open>\<open>re.sub("[-_.]+", "-", s)\<close>: the flag says whether a run is being skipped.\<close>

fun collapse :: "bool \<Rightarrow> string \<Rightarrow> string" where
  "collapse q [] = []"
| "collapse q (c # s) =
     (if name_sep c then (if q then collapse True s else CHR ''-'' # collapse True s) else c # collapse False s)"

definition canonicalize :: "string \<Rightarrow> exn + string" where
  "canonicalize nm =
     (if valid_name (str_strip nm) then Ok (collapse False (lower (str_strip nm)))
      else Err (ValueError ''Invalid package name''))"

definition PYPI_TOOL_COLLISIONS :: "string \<rightharpoonup> string" where
  "PYPI_TOOL_COLLISIONS =
     [''nano'' \<mapsto> ''PyPI'' @ [SQ] @ ''s '' @ [SQ] @ ''nano'' @ [SQ] @ '' is a Django mini-app library, NOT the GNU nano editor. ''
        @ ''GNU nano also needs a real TTY, which ZMUX does not provide '' @ EMDASH @ '' use the ''
        @ ''Python runtime to edit files (python / open(...).write(...)).'']"

definition tool_collision_warning :: "string \<Rightarrow> exn + string option" where
  "tool_collision_warning package = map_r PYPI_TOOL_COLLISIONS (canonicalize package)"

section \<open>The installed database\<close>

type_synonym db = "(string \<times> pyval) list"

definition DB_FILE :: "zpip \<Rightarrow> path" where
  "DB_FILE Z = child (zp_installed Z) ''packages.json''"

definition DB_TEMP :: "zpip \<Rightarrow> path" where
  "DB_TEMP Z = child (zp_installed Z) ''packages.tmp''"

definition load_db :: "zpip \<Rightarrow> db io" where
  "load_db Z =
     try_io (bind_io (read_text (DB_FILE Z)) (\<lambda>s. lift (\<lambda>F. map_r dict_items (json_loads s))))
       (\<lambda>e. if is_oserror e \<or> is_valueerror e then ret [] else raise e)"

definition save_db :: "zpip \<Rightarrow> db \<Rightarrow> unit io" where
  "save_db Z data =
     seq_io (mkdir_parents (zp_installed Z))
    (seq_io (write_text (DB_TEMP Z) (json_dump_sorted (PDict data)))
       (os_replace (DB_TEMP Z) (DB_FILE Z)))"

section \<open>Network\<close>

definition offline :: "zpip \<Rightarrow> bool" where
  "offline Z = (lower (str_strip (env_get (zp_env Z) ''ZMUX_OFFLINE'' '''')) \<in> {''1'', ''true'', ''yes'', ''on''})"

definition MAX_METADATA :: nat where "MAX_METADATA = 5 * 1024 * 1024"

text \<open>\<open>response.read(n)\<close>, and \<open>json.loads\<close> on bytes.\<close>

definition read_upto :: "nat \<Rightarrow> response \<Rightarrow> exn + bytes" where
  "read_upto n r =
     (let d = concat (takeWhile (\<lambda>c. c \<noteq> []) (rp_chunks r))
      in if length d \<ge> n \<or> [] \<in> set (rp_chunks r) then Ok (take n d)
         else case rp_end r of None \<Rightarrow> Ok d | Some e \<Rightarrow> Err e)"

definition json_loads_bytes :: "bytes \<Rightarrow> exn + pyval" where
  "json_loads_bytes bs = (case content_of_bytes bs of Text s \<Rightarrow> json_loads s | Binary _ \<Rightarrow> Err (ValueError ''invalid utf-8''))"

definition request_json :: "zpip \<Rightarrow> string \<Rightarrow> exn + pyval" where
  "request_json Z url =
     (if \<not> startswith url ''https://'' then Err (ValueError ''Only HTTPS package metadata is accepted'')
      else bind_r (zp_fetch Z url) (\<lambda>r.
           bind_r (rp_announced r) (\<lambda>n.
             if n > int MAX_METADATA then Err (ValueError ''Package metadata is too large'')
             else bind_r (read_upto (MAX_METADATA + 1) r) (\<lambda>bs.
                  bind_r (json_loads_bytes bs) (\<lambda>v.
                    if is_dict v then Ok v else Err (ValueError ''Package metadata must be a JSON object''))))))"

section \<open>Download\<close>

definition MAX_WHEEL_BYTES :: nat where "MAX_WHEEL_BYTES = 100 * 1024 * 1024"

definition valid_sha256 :: "string \<Rightarrow> bool" where
  "valid_sha256 s \<longleftrightarrow> length s = 64 \<and> list_all (\<lambda>c. is_digit c \<or> c \<in> set ''abcdef'') s"

text \<open>
  What the progress sink shows: a line for a count of bytes when one is due, and the last line;
  \<open>None\<close> when no sink is set.
\<close>

type_synonym progress = "((nat \<Rightarrow> string option) \<times> (nat \<Rightarrow> string)) option"

definition wheel_too_large :: exn where
  "wheel_too_large = ValueError ''Wheel exceeds the 100 MiB safety limit''"

definition show_due :: "progress \<Rightarrow> nat \<Rightarrow> unit io" where
  "show_due k n = (case k of None \<Rightarrow> ret () | Some (due, _) \<Rightarrow> (case due n of None \<Rightarrow> ret () | Some l \<Rightarrow> emit l))"

definition show_last :: "progress \<Rightarrow> nat \<Rightarrow> unit io" where
  "show_last k n = (case k of None \<Rightarrow> ret () | Some (_, fin) \<Rightarrow> emit (fin n @ LF1))"

fun wheel_loop :: "progress \<Rightarrow> path \<Rightarrow> bytes list \<Rightarrow> exn option \<Rightarrow> bytes \<Rightarrow> bytes io" where
  "wheel_loop k dest [] fin acc = (case fin of None \<Rightarrow> ret acc | Some e \<Rightarrow> raise e)"
| "wheel_loop k dest (c # cs) fin acc =
     (if c = [] then ret acc
      else if length acc + length c > MAX_WHEEL_BYTES then raise wheel_too_large
      else seq_io (write_content dest (Binary (acc @ c)))
          (seq_io (show_due k (length acc + length c)) (wheel_loop k dest cs fin (acc @ c))))"

definition fetch_wheel :: "zpip \<Rightarrow> progress \<Rightarrow> string \<Rightarrow> path \<Rightarrow> bytes io" where
  "fetch_wheel Z k url dest =
     (case zp_fetch Z url of
        Err e \<Rightarrow> raise e
      | Ok r \<Rightarrow> (case rp_announced r of
            Err e \<Rightarrow> raise e
          | Ok n \<Rightarrow> if n > int MAX_WHEEL_BYTES then raise wheel_too_large
                    else seq_io (write_content dest (Binary []))
                           (wheel_loop k dest (rp_chunks r) (rp_end r) [])))"

definition download_wheel :: "zpip \<Rightarrow> progress \<Rightarrow> string \<Rightarrow> string \<Rightarrow> path \<Rightarrow> (nat \<times> string) io" where
  "download_wheel Z k url expected_hash dest =
     (if \<not> startswith url ''https://'' then raise (ValueError ''Only HTTPS wheel downloads are accepted'')
      else if \<not> valid_sha256 expected_hash then raise (ValueError ''A valid SHA-256 is required'')
      else bind_io (fetch_wheel Z k url dest) (\<lambda>data.
           seq_io (show_last k (length data))
             (let actual = to_hex (sha256 data)
              in if actual \<noteq> expected_hash
                 then seq_io (unlink_missing_ok dest)
                   (raise (ValueError (''SHA-256 mismatch: expected '' @ expected_hash @ '', got '' @ actual)))
                 else ret (length data, actual))))"

section \<open>Checked extraction\<close>

text \<open>
  A member of the archive: its name, the size its header declares, and what opening and reading
  it gives: the bytes, and how reading ends.
\<close>

record zmember =
  zm_name :: string
  zm_size :: nat
  zm_source :: "exn + bytes \<times> exn option"

type_synonym unzip = "bytes \<Rightarrow> exn + zmember list"

fun wheel_members :: "string list \<Rightarrow> nat \<Rightarrow> zmember list \<Rightarrow> exn + zmember list" where
  "wheel_members seen tot [] = Ok []"
| "wheel_members seen tot (m # ms) =
     (let p = to_path (zm_name m); parts = path_parts p in
      if is_absolute p \<or> ''..'' \<in> set parts \<or> '''' \<in> set parts
        then Err (ValueError (''Unsafe archive path: '' @ zm_name m))
      else if zm_name m \<in> set seen then Err (ValueError (''Duplicate archive member: '' @ zm_name m))
      else if endswith (zm_name m) ''/'' then wheel_members seen tot ms
      else if zm_size m > MAX_WHEEL_BYTES \<or> tot + zm_size m > MAX_WHEEL_BYTES * 3
        then Err (ValueError ''Uncompressed wheel content exceeds safety limit'')
      else map_r (Cons m) (wheel_members (zm_name m # seen) (tot + zm_size m) ms))"

definition checked_members :: "zmember list \<Rightarrow> exn + zmember list" where
  "checked_members infolist =
     bind_r (wheel_members [] 0 infolist) (\<lambda>ms.
       if \<not> list_ex (\<lambda>m. endswith (zm_name m) ''.dist-info/WHEEL'') ms then Err (ValueError ''Wheel metadata is missing'')
       else if \<not> list_ex (\<lambda>m. endswith (zm_name m) ''.dist-info/RECORD'') ms then Err (ValueError ''Wheel RECORD is missing'')
       else Ok ms)"

definition resolve_io :: "path \<Rightarrow> path io" where
  "resolve_io p = lift (\<lambda>F. resolve_path F p)"

definition under :: "path \<Rightarrow> path \<Rightarrow> bool" where
  "under base p \<longleftrightarrow> p_root p = p_root base \<and> strict_prefix (p_names base) (p_names p)"

definition extract_one :: "path \<Rightarrow> path \<Rightarrow> zmember \<Rightarrow> unit io" where
  "extract_one staging base m =
     bind_io (resolve_io (child staging (zm_name m))) (\<lambda>dest.
       if dest \<noteq> base \<and> \<not> under base dest then raise (ValueError ''Wheel attempted to escape staging'')
       else seq_io (mkdir_parents (parent_path dest))
         (case zm_source m of
            Err e \<Rightarrow> raise e
          | Ok (data, fin) \<Rightarrow>
              seq_io (write_content dest (content_of_bytes data))
                (case fin of None \<Rightarrow> ret () | Some e \<Rightarrow> raise e)))"

definition extract_wheel :: "unzip \<Rightarrow> path \<Rightarrow> path \<Rightarrow> string list io" where
  "extract_wheel unzip wheel staging =
     bind_io (read_bytes wheel) (\<lambda>bs.
     bind_io (lift (\<lambda>F. bind_r (unzip bs) checked_members)) (\<lambda>ms.
     bind_io (resolve_io staging) (\<lambda>base.
       seq_io (each_io (extract_one staging base) ms) (ret (map zm_name ms)))))"

section \<open>Manifests\<close>

text \<open>\<open>urllib.parse.quote\<close>.\<close>

definition url_quote :: "string \<Rightarrow> string" where
  "url_quote s = concat (map (\<lambda>c. if alnum c \<or> c \<in> set ''_.-~/'' then [c]
     else CHR ''%'' # map upper_char (hex2 (of_char c))) s)"

definition index_url :: "zpip \<Rightarrow> string" where
  "index_url Z = zp_index Z @ ''/runtimes/'' @ zp_runtime Z @ ''/'' @ zp_abi Z @ ''.json''"

definition manifest_from_curated :: "zpip \<Rightarrow> string \<Rightarrow> string \<Rightarrow> exn + pyval option" where
  "manifest_from_curated Z nm channel =
     (case request_json Z (index_url Z) of
        Err e \<Rightarrow> Ok None
      | Ok index \<Rightarrow>
          bind_r (py_get ''packages'' PNone index) (\<lambda>pkgs.
          bind_r (py_get nm PNone (py_or pkgs (PDict []))) (\<lambda>package.
            if \<not> is_dict package then Ok None
            else bind_r (py_get ''channel'' PNone package) (\<lambda>c.
              if c \<noteq> PStr channel then Ok None
              else bind_r (py_get ''runtime_id'' PNone package) (\<lambda>r.
                   bind_r (py_get ''abi'' PNone package) (\<lambda>a.
                     if r \<noteq> PStr (zp_runtime Z) \<or> a \<noteq> PStr (zp_abi Z)
                     then Err (ValueError ''Curated wheel does not match this runtime and ABI'')
                     else Ok (Some package)))))))"

text \<open>The first file of the release that is a universal wheel.\<close>

fun select_universal :: "pyval list \<Rightarrow> exn + pyval option" where
  "select_universal [] = Ok None"
| "select_universal (item # items) =
     bind_r (py_get ''filename'' (PStr '''') item) (\<lambda>f.
       if endswith (py_str f) ''-py3-none-any.whl'' then Ok (Some item) else select_universal items)"

definition pypi_endpoint :: "string \<Rightarrow> string option \<Rightarrow> string" where
  "pypi_endpoint nm version =
     ''https://pypi.org/pypi/'' @ url_quote nm
       @ (case version of None \<Rightarrow> '''' | Some v \<Rightarrow> if v = '''' then '''' else ''/'' @ url_quote v)"

definition pypi_manifest :: "string \<Rightarrow> string option \<Rightarrow> pyval \<Rightarrow> pyval \<Rightarrow> exn + pyval" where
  "pypi_manifest nm version info selected =
     bind_r (py_get ''digests'' PNone selected) (\<lambda>ds.
     bind_r (py_get ''sha256'' (PStr '''') (py_or ds (PDict []))) (\<lambda>digest.
     bind_r (py_get ''version'' (PStr (case version of None \<Rightarrow> '''' | Some v \<Rightarrow> v)) info) (\<lambda>ver.
     bind_r (py_item ''filename'' selected) (\<lambda>filename.
     bind_r (py_item ''url'' selected) (\<lambda>url.
     bind_r (bind_r (py_get ''size'' (PInt 0) selected) py_int) (\<lambda>n.
     bind_r (bind_r (py_get ''requires_dist'' PNone info) (\<lambda>rd. py_iter (py_or rd (PList [])))) (\<lambda>reqs.
     bind_r (py_get ''license'' (PStr '''') info) (\<lambda>lic.
       Ok (PDict [(''name'', PStr nm), (''version'', PStr (py_str ver)),
         (''runtime_id'', PStr ''py3-none-any''), (''abi'', PStr ''any''), (''channel'', PStr ''pypi''),
         (''artifact'', PDict [(''filename'', filename), (''url'', url), (''size'', PInt n), (''sha256'', digest)]),
         (''dependencies'', PList reqs),
         (''native'', PDict [(''has_extensions'', PBool False), (''needed_libraries'', PList [])]),
         (''source'', PDict [(''url'', PStr (pypi_endpoint nm version)), (''sha256'', PStr ''''), (''license'', lic)])])))))))))"

definition manifest_from_pypi :: "zpip \<Rightarrow> string \<Rightarrow> string option \<Rightarrow> exn + pyval" where
  "manifest_from_pypi Z nm version =
     bind_r (request_json Z (pypi_endpoint nm version @ ''/json'')) (\<lambda>metadata.
     bind_r (bind_r (py_get ''urls'' (PList []) metadata) py_iter) (\<lambda>items.
     bind_r (select_universal items) (\<lambda>sel. case sel of
        None \<Rightarrow> Err (ValueError (nm @ '' has no universal Python wheel; a runtime-locked ZABAWHEELS build is required''))
      | Some selected \<Rightarrow>
          bind_r (py_get ''info'' PNone metadata) (\<lambda>info.
            pypi_manifest nm version (py_or info (PDict [])) selected))))"

definition resolve_manifest :: "zpip \<Rightarrow> string \<Rightarrow> string option \<Rightarrow> string \<Rightarrow> exn + pyval" where
  "resolve_manifest Z nm version channel =
     bind_r (canonicalize nm) (\<lambda>normalized.
     bind_r (manifest_from_curated Z normalized channel) (\<lambda>curated. case curated of
        Some m \<Rightarrow> if truthy m then Ok m else manifest_from_pypi Z normalized version
      | None \<Rightarrow> manifest_from_pypi Z normalized version))"

section \<open>The catalogue cache\<close>

definition CATALOG_TTL_SECONDS :: rat where "CATALOG_TTL_SECONDS = 3600"

text \<open>\<open>re.sub("[^A-Za-z0-9_.-]+", "_", s)\<close>.\<close>

fun squash_unsafe :: "bool \<Rightarrow> string \<Rightarrow> string" where
  "squash_unsafe q [] = []"
| "squash_unsafe q (c # s) =
     (if alnum c \<or> name_sep c then c # squash_unsafe False s
      else if q then squash_unsafe True s else CHR ''_'' # squash_unsafe True s)"

definition catalog_cache_path :: "zpip \<Rightarrow> path" where
  "catalog_cache_path Z =
     child (child (zp_cache Z) ''catalogs'') (squash_unsafe False (zp_runtime Z @ ''-'' @ zp_abi Z) @ ''.json'')"

text \<open>The clock is read as the text of \<open>time.time()\<close>.\<close>

definition store_catalog :: "zpip \<Rightarrow> string \<Rightarrow> pyval \<Rightarrow> unit io" where
  "store_catalog Z clock pkgs =
     try_os (seq_io (mkdir_parents (parent_path (catalog_cache_path Z)))
       (write_text (catalog_cache_path Z)
          (json_dumps (PDict [(''fetched_at'', PFloat clock), (''packages'', pkgs)])))) ()"

definition live_catalog :: "zpip \<Rightarrow> exn + pyval" where
  "live_catalog Z =
     bind_r (request_json Z (index_url Z)) (\<lambda>payload.
     bind_r (py_get ''packages'' PNone payload) (\<lambda>pkgs.
       if is_dict pkgs then Ok pkgs else Err (ValueError ''curated catalog has no packages object'')))"

definition cached_catalog :: "zpip \<Rightarrow> string \<Rightarrow> (db \<times> string) io" where
  "cached_catalog Z clock =
     try_io
       (bind_io (read_text (catalog_cache_path Z)) (\<lambda>s.
          lift (\<lambda>F.
            bind_r (json_loads s) (\<lambda>cached.
            bind_r (py_get ''packages'' PNone cached) (\<lambda>pkgs.
              if \<not> is_dict pkgs then Ok ([], ''unavailable'')
              else bind_r (py_get ''fetched_at'' (PInt 0) cached) (\<lambda>stamp.
                   bind_r (py_float (py_or stamp (PInt 0))) (\<lambda>t.
                     Ok (dict_items pkgs,
                         if num_val clock - t \<le> CATALOG_TTL_SECONDS then ''cache'' else ''stale''))))))))
       (\<lambda>e. if is_oserror e \<or> is_valueerror e then ret ([], ''unavailable'') else raise e)"

definition fetch_curated_catalog :: "zpip \<Rightarrow> string \<Rightarrow> (db \<times> string) io" where
  "fetch_curated_catalog Z clock =
     (if offline Z then cached_catalog Z clock
      else case live_catalog Z of
        Err e \<Rightarrow> cached_catalog Z clock
      | Ok pkgs \<Rightarrow> seq_io (store_catalog Z clock pkgs) (ret (dict_items pkgs, ''live'')))"

definition probe_pypi :: "zpip \<Rightarrow> string \<Rightarrow> exn + (string \<times> string \<times> string) option" where
  "probe_pypi Z nm =
     (case request_json Z (''https://pypi.org/pypi/'' @ url_quote nm @ ''/json'') of
        Err e \<Rightarrow> Ok None
      | Ok metadata \<Rightarrow>
          bind_r (py_get ''info'' PNone metadata) (\<lambda>i. let info = py_or i (PDict []) in
          bind_r (py_get ''name'' PNone info) (\<lambda>n.
          bind_r (py_get ''version'' PNone info) (\<lambda>v.
          bind_r (py_get ''summary'' PNone info) (\<lambda>s.
            Ok (Some (py_str (py_or n (PStr nm)), py_str (py_or v (PStr '''')), py_str (py_or s (PStr '''')))))))))"

section \<open>Modules a wheel provides\<close>

definition IMPORT_ALIASES :: "string \<rightharpoonup> string" where
  "IMPORT_ALIASES = [''beautifulsoup4'' \<mapsto> ''bs4'', ''pillow'' \<mapsto> ''PIL'', ''python-dotenv'' \<mapsto> ''dotenv'',
     ''pyyaml'' \<mapsto> ''yaml'', ''pyjwt'' \<mapsto> ''jwt'']"

definition import_name :: "string \<Rightarrow> string" where
  "import_name nm = (case IMPORT_ALIASES nm of Some m \<Rightarrow> m
     | None \<Rightarrow> map (\<lambda>c. if c = CHR ''-'' then CHR ''_'' else c) nm)"

definition is_identifier :: "string \<Rightarrow> bool" where
  "is_identifier s = (case s of [] \<Rightarrow> False
     | c # cs \<Rightarrow> (alnum c \<and> \<not> is_digit c \<or> c = CHR ''_'') \<and> list_all (\<lambda>d. alnum d \<or> d = CHR ''_'') cs)"

datatype module_kind = Package string | Module string | Other

definition module_of :: "string \<Rightarrow> module_kind" where
  "module_of raw =
     (case path_parts (to_path raw) of
        [] \<Rightarrow> Other
      | top1 # rest \<Rightarrow>
          if endswith top1 ''.dist-info'' \<or> endswith top1 ''.data'' \<or> startswith top1 ''.'' then Other
          else (case rest of
              second # _ \<Rightarrow> if second = ''__init__.py'' \<and> is_identifier top1 then Package top1 else Other
            | [] \<Rightarrow> let stem = take (length top1 - 3) top1
                    in if endswith top1 ''.py'' \<and> is_identifier stem \<and> stem \<noteq> ''__init__'' then Module stem else Other))"

definition module_candidates :: "string list \<Rightarrow> string list" where
  "module_candidates paths =
     (let pkgs = remdups (List.map_filter (\<lambda>p. case module_of p of Package n \<Rightarrow> Some n | _ \<Rightarrow> None) paths);
          mods = remdups (List.map_filter (\<lambda>p. case module_of p of Module n \<Rightarrow> Some n | _ \<Rightarrow> None) paths)
      in sort pkgs @ sort (filter (\<lambda>m. m \<notin> set pkgs) mods))"

text \<open>The first candidate with the property is moved to the front.\<close>

definition to_front :: "(string \<Rightarrow> bool) \<Rightarrow> string list \<Rightarrow> string list option" where
  "to_front P cs = (case find P cs of None \<Rightarrow> None | Some c \<Rightarrow> Some (c # filter (\<lambda>d. d \<noteq> c) cs))"

definition modules_from_paths :: "string list \<Rightarrow> string \<Rightarrow> string list" where
  "modules_from_paths paths package =
     (let cands = module_candidates paths;
          normalised = lower (map (\<lambda>c. if c = CHR ''-'' \<or> c = CHR ''.'' then CHR ''_'' else c) package)
      in case to_front (\<lambda>c. lower c = normalised) cands of
           Some ds \<Rightarrow> ds
         | None \<Rightarrow>
            (case to_front (\<lambda>c. startswith normalised (lower c) \<or> startswith (lower c) normalised) cands of
               Some ds \<Rightarrow> ds | None \<Rightarrow> cands))"

definition declared_modules :: "string \<Rightarrow> string list" where
  "declared_modules text = filter is_identifier (map str_strip (splitlines text))"

fun scan_infos :: "path \<Rightarrow> string \<Rightarrow> string list \<Rightarrow> string list option io" where
  "scan_infos staging package [] = ret None"
| "scan_infos staging package (nm # nms) =
     (let top_level = child (child staging nm) ''top_level.txt''
      in bind_io (ask (\<lambda>F. is_file F top_level)) (\<lambda>ok.
           if \<not> endswith nm ''.dist-info'' \<or> \<not> ok then scan_infos staging package nms
           else bind_io (read_text_replace top_level) (\<lambda>text.
             let declared = declared_modules text;
                 ordered = modules_from_paths (map (\<lambda>n. n @ ''/__init__.py'') declared) package
             in if declared = [] then scan_infos staging package nms
                else ret (Some (if ordered \<noteq> [] then ordered else declared)))))"

definition relative_files :: "path \<Rightarrow> fsys \<Rightarrow> string list" where
  "relative_files staging F =
     map (\<lambda>p. join_with ''/'' (drop (length (p_names staging)) (p_names p)))
       (filter (is_file F) (rglob staging F))"

definition discover_modules :: "path \<Rightarrow> string \<Rightarrow> string list io" where
  "discover_modules staging package =
     bind_io (try_os (bind_io (iterdir staging) (scan_infos staging package)) None) (\<lambda>found. case found of
        Some ms \<Rightarrow> ret ms
      | None \<Rightarrow> ask (\<lambda>F. let ms = modules_from_paths (relative_files staging F) package
                         in if ms \<noteq> [] then ms else [import_name package]))"

section \<open>Requirements\<close>

text \<open>
  What \<open>packaging.requirements.Requirement\<close> gives: the name, the marker (reading the attribute
  may fail; \<open>None\<close> is no marker, else its value here), the specifiers as operator and version
  (\<open>None\<close> when the attribute is \<open>None\<close>), the text of the specifier, and whether a version is in
  it (\<open>None\<close> for \<open>InvalidVersion\<close>).  A parser returns \<open>None\<close> for \<open>InvalidRequirement\<close>.
\<close>

record requirement =
  rq_name :: string
  rq_marker :: "exn + bool option"
  rq_specs :: "(string \<times> string) list option"
  rq_text :: string
  rq_contains :: "string \<Rightarrow> bool option"

type_synonym req_parser = "string \<Rightarrow> requirement option"

text \<open>The fallback classes used when \<open>packaging\<close> is missing.\<close>

definition shim_requirement :: req_parser where
  "shim_requirement s = Some
     \<lparr>rq_name = takeWhile (\<lambda>c. c \<notin> set ''><=!~'' \<and> \<not> char_space c) s, rq_marker = Err AttributeError,
      rq_specs = None, rq_text = ''None'', rq_contains = (\<lambda>v. None)\<rparr>"

fun select_requirements :: "req_parser \<Rightarrow> pyval list \<Rightarrow> exn + requirement list" where
  "select_requirements parse [] = Ok []"
| "select_requirements parse (dep # deps) =
     bind_r (as_str dep) (\<lambda>s. case parse s of
        None \<Rightarrow> select_requirements parse deps
      | Some r \<Rightarrow> bind_r (rq_marker r) (\<lambda>mk.
          if mk = Some False then select_requirements parse deps
          else map_r (Cons r) (select_requirements parse deps)))"

definition manifest_requirements :: "req_parser \<Rightarrow> pyval \<Rightarrow> exn + requirement list" where
  "manifest_requirements parse manifest =
     bind_r (py_get ''dependencies'' PNone manifest) (\<lambda>ds.
     bind_r (py_iter (py_or ds (PList []))) (select_requirements parse))"

definition satisfies :: "pyval \<Rightarrow> requirement \<Rightarrow> bool" where
  "satisfies record req =
     (case record of
        PDict d \<Rightarrow> rq_specs req = None \<or> rq_specs req = Some []
          \<or> rq_contains req (py_str (case map_of d ''version'' of None \<Rightarrow> PStr '''' | Some v \<Rightarrow> v)) = Some True
      | _ \<Rightarrow> False)"

text \<open>A single \<open>==\<close> pin without wildcard fixes the version.\<close>

definition exact_pin :: "requirement \<Rightarrow> string option" where
  "exact_pin req = (case rq_specs req of
      Some [(op, v)] \<Rightarrow> if op = ''=='' \<and> CHR ''*'' \<notin> set v then Some v else None
    | _ \<Rightarrow> None)"

end
