(* ===== verification/ZpipInstall.thy ===== *)
theory ZpipInstall
  imports ZpipCore
begin

text \<open>
  The install transaction of \<open>zmux/zpip.py\<close> and its inverse \<open>uninstall\<close>.  The locals that the
  \<open>except\<close> branch reads (files committed, dependencies installed) are the state of a small monad
  over the file system; the recursion on dependencies carries the interpreter's recursion limit.
  Child processes, imports, random identifiers and the order in which a set is walked are
  parameters.
\<close>

section \<open>What the process calls on\<close>

record world =
  wd_run :: runner
  wd_import :: "string list \<Rightarrow> string \<Rightarrow> unit io"
  wd_executable :: string
  wd_sys_path :: "string list"
  wd_unzip :: unzip
  wd_parse :: req_parser
  wd_order :: "pyval list \<Rightarrow> pyval list"
  wd_uuid :: "nat \<Rightarrow> string"
  wd_progress :: "string \<Rightarrow> progress"
  wd_fingerprint :: pyval
  wd_free :: int
  wd_clock :: string

definition fresh_id :: "world \<Rightarrow> string io" where
  "fresh_id W F = (Ok (wd_uuid W (fs_serial F)), F\<lparr>fs_serial := Suc (fs_serial F)\<rparr>)"

section \<open>The smoke test\<close>

definition on_android :: "environ \<Rightarrow> bool" where
  "on_android env = list_ex (\<lambda>k. env k \<noteq> None) [''ANDROID_PRIVATE'', ''ANDROID_ARGUMENT'', ''ANDROID_APP_PATH'']"

definition import_command :: "world \<Rightarrow> pyval \<Rightarrow> string list" where
  "import_command W modul =
     [wd_executable W, ''-c'', ''import importlib; importlib.import_module('' @ repr_val modul @ '')'']"

definition smoke_test_in_process :: "zpip \<Rightarrow> world \<Rightarrow> path \<Rightarrow> string \<Rightarrow> unit io" where
  "smoke_test_in_process Z W staging modul =
     (let p0 = wd_sys_path W; s = path_str staging; d = path_str (zp_user Z);
          p1 = (if s \<in> set p0 then p0 else s # p0);
          p2 = (if d \<in> set p1 then p1 else take 1 p1 @ d # drop 1 p1)
      in wd_import W p2 modul)"

definition smoke_env :: "zpip \<Rightarrow> path \<Rightarrow> environ" where
  "smoke_env Z staging =
     (zp_env Z)(''PYTHONPATH'' \<mapsto>
        rev (dropWhile (\<lambda>c. c = PSEP)
          (rev (join_with [PSEP] [path_str staging, path_str (zp_user Z), env_get (zp_env Z) ''PYTHONPATH'' '''']))))"

definition smoke_test :: "zpip \<Rightarrow> world \<Rightarrow> path \<Rightarrow> string \<Rightarrow> unit io" where
  "smoke_test Z W staging modul =
     (if on_android (zp_env Z) then smoke_test_in_process Z W staging modul
      else try_io
        (bind_io (wd_run W (import_command W (PStr modul)) (smoke_env Z staging)) (\<lambda>(code, out, err).
           if code \<noteq> 0 then raise (ValueError (''Smoke import failed: '' @ str_strip (if err \<noteq> '''' then err else out)))
           else ret ()))
        (\<lambda>e. if is_oserror e then smoke_test_in_process Z W staging modul else raise e))"

section \<open>Uninstall\<close>

definition remove_file :: "zpip \<Rightarrow> pyval \<Rightarrow> nat \<Rightarrow> nat io" where
  "remove_file Z relative removed =
     bind_io (lift (\<lambda>F. as_str relative)) (\<lambda>rel.
     bind_io (resolve_io (child (zp_user Z) rel)) (\<lambda>target.
     bind_io (resolve_io (zp_user Z)) (\<lambda>base.
     bind_io (ask (\<lambda>F. under base target \<and> is_file F target)) (\<lambda>ok.
       if ok then seq_io (unlink target) (ret (Suc removed)) else ret removed))))"

fun remove_files :: "zpip \<Rightarrow> pyval list \<Rightarrow> nat \<Rightarrow> nat io" where
  "remove_files Z [] removed = ret removed"
| "remove_files Z (v # vs) removed = bind_io (remove_file Z v removed) (remove_files Z vs)"

text \<open>\<open>sorted(paths, key=len of parts, reverse=True)\<close>: deepest first, otherwise as given.\<close>

definition deepest_first :: "path list \<Rightarrow> path list" where
  "deepest_first ps = rev (sort_key (\<lambda>p. length (path_parts p)) (rev ps))"

definition prune_empty :: "path \<Rightarrow> unit io" where
  "prune_empty p = bind_io (ask (\<lambda>F. is_dir F p)) (\<lambda>d. if d then try_os (rmdir p) () else ret ())"

definition failed :: "(string \<times> pyval) list \<Rightarrow> pyval" where
  "failed rest = PDict ((''ok'', PBool False) # rest)"

definition uninstall :: "zpip \<Rightarrow> string \<Rightarrow> pyval io" where
  "uninstall Z nm =
     bind_io (lift (\<lambda>F. canonicalize nm)) (\<lambda>package.
     bind_io (load_db Z) (\<lambda>db. case map_of db package of
        Some (PDict record) \<Rightarrow>
          bind_io (lift (\<lambda>F. bind_r (py_get ''files'' (PList []) (PDict record)) py_iter)) (\<lambda>files.
          bind_io (remove_files Z files 0) (\<lambda>removed.
          bind_io (ask (\<lambda>F. deepest_first (rglob (zp_user Z) F))) (\<lambda>ps.
          seq_io (each_io prune_empty ps)
         (seq_io (save_db Z (dict_del package db))
            (ret (PDict [(''ok'', PBool True), (''package'', PStr package), (''removed'', PInt (int removed))]))))))
      | _ \<Rightarrow> ret (failed [(''error'', PStr (package @ '' is not managed by zpip''))])))"

section \<open>The transaction monad\<close>

record txn =
  tx_committed :: "string list"
  tx_deps :: "string list"

type_synonym 'a tx = "txn \<Rightarrow> fsys \<Rightarrow> ((exn + 'a) \<times> txn) \<times> fsys"

definition lift_tx :: "'a io \<Rightarrow> 'a tx" where
  "lift_tx m t F = (case m F of (r, F') \<Rightarrow> ((r, t), F'))"

definition bind_tx :: "'a tx \<Rightarrow> ('a \<Rightarrow> 'b tx) \<Rightarrow> 'b tx" where
  "bind_tx m f t F =
     (case m t F of
        ((Err e, t'), F') \<Rightarrow> ((Err e, t'), F')
      | ((Ok x, t'), F') \<Rightarrow> f x t' F')"

definition committed :: "string \<Rightarrow> unit tx" where
  "committed relative t F = ((Ok (), t\<lparr>tx_committed := tx_committed t @ [relative]\<rparr>), F)"

definition dependency_added :: "string \<Rightarrow> unit tx" where
  "dependency_added d t F = ((Ok (), t\<lparr>tx_deps := tx_deps t @ [d]\<rparr>), F)"

definition get_deps :: "string list tx" where
  "get_deps t F = ((Ok (tx_deps t), t), F)"

abbreviation raise_tx :: "exn \<Rightarrow> 'a tx" where "raise_tx e \<equiv> lift_tx (raise e)"
abbreviation ret_tx :: "'a \<Rightarrow> 'a tx" where "ret_tx x \<equiv> lift_tx (ret x)"
abbreviation pure_tx :: "exn + 'a \<Rightarrow> 'a tx" where "pure_tx r \<equiv> lift_tx (lift (\<lambda>F. r))"

section \<open>Dependencies\<close>

definition db_get :: "db \<Rightarrow> string \<Rightarrow> pyval" where
  "db_get d k = (case map_of d k of None \<Rightarrow> PNone | Some v \<Rightarrow> v)"

text \<open>What is installed already and does not fit: the conflict.\<close>

definition conflict :: "string \<Rightarrow> pyval \<Rightarrow> requirement \<Rightarrow> exn" where
  "conflict dependency existing req =
     (case py_get ''version'' PNone existing of
        Err e \<Rightarrow> e
      | Ok v \<Rightarrow> ValueError (''Dependency conflict: installed '' @ dependency @ '' '' @ py_str v
           @ '' does not satisfy '' @ rq_text req @ ''; upgrade it explicitly''))"

definition check_result :: "string \<Rightarrow> pyval \<Rightarrow> exn + unit" where
  "check_result dependency result =
     bind_r (py_get ''ok'' PNone result) (\<lambda>ok.
       if truthy ok then Ok ()
       else bind_r (py_get ''error'' (PStr ''unknown error'') result) (\<lambda>err.
         Err (ValueError (''Dependency '' @ dependency @ '' failed: '' @ py_str err))))"

definition check_installed :: "string \<Rightarrow> requirement \<Rightarrow> pyval \<Rightarrow> exn + unit" where
  "check_installed dependency req inst =
     (if satisfies inst req then Ok ()
      else bind_r (if truthy inst then py_get ''version'' PNone inst else Ok (PStr '''')) (\<lambda>v.
        Err (ValueError (''Resolved '' @ dependency @ '' '' @ py_str v @ '' does not satisfy '' @ rq_text req))))"

type_synonym installer = "string \<Rightarrow> string option \<Rightarrow> string list \<Rightarrow> pyval io"

fun install_deps :: "zpip \<Rightarrow> installer \<Rightarrow> string list \<Rightarrow> db \<Rightarrow> requirement list \<Rightarrow> unit tx" where
  "install_deps Z again chain before [] = ret_tx ()"
| "install_deps Z again chain before (req # reqs) =
     bind_tx (pure_tx (canonicalize (rq_name req))) (\<lambda>dependency.
       let existing = db_get before dependency
       in if satisfies existing req then install_deps Z again chain before reqs
          else if truthy existing then raise_tx (conflict dependency existing req)
          else bind_tx (lift_tx (again dependency (exact_pin req) chain)) (\<lambda>result.
               bind_tx (pure_tx (check_result dependency result)) (\<lambda>_.
               bind_tx (dependency_added dependency) (\<lambda>_.
               bind_tx (lift_tx (load_db Z)) (\<lambda>db.
               bind_tx (pure_tx (check_installed dependency req (db_get db dependency))) (\<lambda>_.
                 install_deps Z again chain before reqs))))))"

section \<open>Commit\<close>

text \<open>Dictionary and set keys must be hashable: lists and dictionaries are not.\<close>

definition hashable :: "pyval \<Rightarrow> bool" where
  "hashable v = (case v of PList _ \<Rightarrow> False | PDict _ \<Rightarrow> False | _ \<Rightarrow> True)"

definition hash_all :: "pyval list \<Rightarrow> exn + pyval list" where
  "hash_all vs = (if list_all hashable vs then Ok vs else Err TypeError)"

definition record_files :: "pyval \<Rightarrow> exn + pyval list" where
  "record_files record = bind_r (py_get ''files'' (PList []) record) py_iter"

fun owner_pairs :: "string \<Rightarrow> db \<Rightarrow> exn + (pyval \<times> string) list" where
  "owner_pairs package [] = Ok []"
| "owner_pairs package ((owner, record) # rest) =
     (if owner \<noteq> package \<and> is_dict record
      then bind_r (bind_r (record_files record) hash_all) (\<lambda>fs.
             map_r (\<lambda>ps. map (\<lambda>f. (f, owner)) fs @ ps) (owner_pairs package rest))
      else owner_pairs package rest)"

text \<open>A later owner of the same file wins, as in a dictionary comprehension.\<close>

definition check_owners :: "string \<Rightarrow> db \<Rightarrow> string list \<Rightarrow> exn + unit" where
  "check_owners package db files =
     bind_r (owner_pairs package db) (\<lambda>ps.
       case sort (filter (\<lambda>f. PStr f \<in> fst ` set ps) (remdups files)) of
         [] \<Rightarrow> Ok ()
       | first # _ \<Rightarrow> Err (ValueError (''File ownership conflict: '' @ first @ '' belongs to ''
             @ the (map_of (rev ps) (PStr first)))))"

definition commit_one :: "zpip \<Rightarrow> path \<Rightarrow> path \<Rightarrow> string \<Rightarrow> unit io" where
  "commit_one Z staging backup relative =
     (let source = child staging relative; target = child (zp_user Z) relative; saved = child backup relative
      in bind_io (ask (\<lambda>F. path_exists F target \<and> is_file F target)) (\<lambda>old.
         seq_io (if old then seq_io (mkdir_parents (parent_path saved)) (copy_file target saved) else ret ())
        (seq_io (mkdir_parents (parent_path target))
        (seq_io (os_replace source target)
           (if endswith relative ''.so'' then try_os (chmod target 292) () else ret ())))))"

fun commit_files :: "zpip \<Rightarrow> path \<Rightarrow> path \<Rightarrow> string list \<Rightarrow> unit tx" where
  "commit_files Z staging backup [] = ret_tx ()"
| "commit_files Z staging backup (f # fs) =
     bind_tx (lift_tx (commit_one Z staging backup f)) (\<lambda>_.
     bind_tx (committed f) (\<lambda>_. commit_files Z staging backup fs))"

definition remove_obsolete :: "zpip \<Rightarrow> pyval \<Rightarrow> unit io" where
  "remove_obsolete Z obsolete =
     bind_io (lift (\<lambda>F. as_str obsolete)) (\<lambda>rel.
     bind_io (ask (\<lambda>F. is_file F (child (zp_user Z) rel))) (\<lambda>ok.
       if ok then unlink (child (zp_user Z) rel) else ret ()))"

definition obsolete_files :: "world \<Rightarrow> pyval list \<Rightarrow> string list \<Rightarrow> exn + pyval list" where
  "obsolete_files W previous files =
     map_r (\<lambda>vs. wd_order W (filter (\<lambda>v. v \<notin> PStr ` set files) (remdups vs))) (hash_all previous)"

definition db_record :: "pyval \<Rightarrow> string \<Rightarrow> string list \<Rightarrow> string \<Rightarrow> nat \<Rightarrow> string \<Rightarrow> string list \<Rightarrow> bool \<Rightarrow> exn + pyval" where
  "db_record manifest channel files digest n transaction modules explicit =
     bind_r (py_get ''version'' (PStr '''') manifest) (\<lambda>v.
     bind_r (py_get ''runtime_id'' (PStr '''') manifest) (\<lambda>r.
     bind_r (py_get ''abi'' (PStr '''') manifest) (\<lambda>a.
     bind_r (py_get ''channel'' (PStr channel) manifest) (\<lambda>c.
       Ok (PDict [(''version'', v), (''runtime_id'', r), (''abi'', a), (''channel'', c),
         (''files'', PList (map PStr (sort files))), (''sha256'', PStr digest), (''size'', PInt (int n)),
         (''transaction'', PStr transaction), (''modules'', PList (map PStr modules)),
         (''explicit'', PBool explicit)])))))"

definition commit_wheel ::
    "zpip \<Rightarrow> world \<Rightarrow> string \<Rightarrow> string \<Rightarrow> string list \<Rightarrow> pyval \<Rightarrow> string \<Rightarrow> path \<Rightarrow> path \<Rightarrow> string list \<Rightarrow> string list
     \<Rightarrow> nat \<times> string \<Rightarrow> unit tx" where
  "commit_wheel Z W package channel stack manifest transaction staging backup files modules got =
     bind_tx (lift_tx (load_db Z)) (\<lambda>db.
       let old = (case map_of db package of Some (PDict d) \<Rightarrow> PDict d | _ \<Rightarrow> PDict [])
       in bind_tx (pure_tx (record_files old)) (\<lambda>previous.
          bind_tx (pure_tx (check_owners package db files)) (\<lambda>_.
          bind_tx (lift_tx (mkdir_fresh backup)) (\<lambda>_.
          bind_tx (commit_files Z staging backup files) (\<lambda>_.
          bind_tx (pure_tx (obsolete_files W previous files)) (\<lambda>obsolete.
          bind_tx (lift_tx (each_io (remove_obsolete Z) obsolete)) (\<lambda>_.
          bind_tx (pure_tx (bind_r (py_get ''explicit'' PNone old) (\<lambda>ex.
              db_record manifest channel files (snd got) (fst got) transaction modules (truthy ex \<or> stack = [])))) (\<lambda>rec.
            lift_tx (save_db Z (dict_put package rec db))))))))))"

section \<open>Install\<close>

definition install_result :: "string \<Rightarrow> pyval \<Rightarrow> string list \<Rightarrow> string \<Rightarrow> string list \<Rightarrow> exn + pyval" where
  "install_result package manifest files digest deps =
     bind_r (py_get ''version'' PNone manifest) (\<lambda>v.
     bind_r (tool_collision_warning package) (\<lambda>warning.
       Ok (PDict ([(''ok'', PBool True), (''package'', PStr package), (''version'', v),
          (''files'', PInt (int (length files))), (''sha256'', PStr digest),
          (''dependencies_installed'', PList (map PStr deps))]
          @ (case warning of None \<Rightarrow> [] | Some w \<Rightarrow> [(''warning'', PStr w)])))))"

definition rstrip_dash :: "string \<Rightarrow> string" where
  "rstrip_dash s = rev (dropWhile (\<lambda>c. c = CHR ''-'') (rev s))"

definition fetch_artifact :: "zpip \<Rightarrow> world \<Rightarrow> string \<Rightarrow> pyval \<Rightarrow> path \<Rightarrow> (nat \<times> string) io" where
  "fetch_artifact Z W package manifest wheel =
     bind_io (lift (\<lambda>F. py_get ''artifact'' PNone manifest)) (\<lambda>a. let artifact = py_or a (PDict []) in
     seq_io (mkdir_parents (parent_path wheel))
    (bind_io (lift (\<lambda>F. py_get ''version'' (PStr '''') manifest)) (\<lambda>v.
     bind_io (lift (\<lambda>F. py_get ''url'' (PStr '''') artifact)) (\<lambda>url.
     bind_io (lift (\<lambda>F. py_get ''sha256'' (PStr '''') artifact)) (\<lambda>sha.
       download_wheel Z (wd_progress W (rstrip_dash (package @ ''-'' @ py_str v))) (py_str url) (py_str sha) wheel)))))"

definition install_body ::
    "zpip \<Rightarrow> world \<Rightarrow> installer \<Rightarrow> string \<Rightarrow> string option \<Rightarrow> string \<Rightarrow> string list \<Rightarrow> string \<Rightarrow> path \<Rightarrow> path \<Rightarrow> path \<Rightarrow> pyval tx" where
  "install_body Z W again package version channel stack transaction staging backup wheel =
     bind_tx (pure_tx (resolve_manifest Z package version channel)) (\<lambda>manifest.
     bind_tx (lift_tx (load_db Z)) (\<lambda>before.
     bind_tx (pure_tx (manifest_requirements (wd_parse W) manifest)) (\<lambda>reqs.
     bind_tx (install_deps Z again (stack @ [package]) before reqs) (\<lambda>_.
     bind_tx (lift_tx (fetch_artifact Z W package manifest wheel)) (\<lambda>got.
     bind_tx (lift_tx (mkdir_fresh staging)) (\<lambda>_.
     bind_tx (lift_tx (extract_wheel (wd_unzip W) wheel staging)) (\<lambda>files.
     bind_tx (lift_tx (discover_modules staging package)) (\<lambda>modules.
     bind_tx (lift_tx (smoke_test Z W staging (hd modules))) (\<lambda>_.
     bind_tx (commit_wheel Z W package channel stack manifest transaction staging backup files modules got) (\<lambda>_.
     bind_tx get_deps (\<lambda>deps.
       pure_tx (install_result package manifest files (snd got) deps))))))))))))"

definition restore_one :: "zpip \<Rightarrow> path \<Rightarrow> string \<Rightarrow> unit io" where
  "restore_one Z backup relative =
     (let target = child (zp_user Z) relative; saved = child backup relative
      in bind_io (ask (\<lambda>F. path_exists F saved)) (\<lambda>s.
         if s then seq_io (mkdir_parents (parent_path target)) (os_replace saved target)
         else bind_io (ask (\<lambda>F. path_exists F target)) (\<lambda>t. if t then unlink target else ret ())))"

definition rollback :: "zpip \<Rightarrow> path \<Rightarrow> txn \<Rightarrow> unit io" where
  "rollback Z backup t =
     seq_io (each_io (restore_one Z backup) (rev (tx_committed t)))
       (each_io (\<lambda>d. seq_io (uninstall Z d) (ret ())) (rev (tx_deps t)))"

definition failure :: "string \<Rightarrow> string \<Rightarrow> bool \<Rightarrow> pyval" where
  "failure package err rolled =
     failed [(''package'', PStr package), (''error'', PStr err), (''rolled_back'', PBool rolled)]"

definition cleanup :: "path \<Rightarrow> path \<Rightarrow> path \<Rightarrow> unit io" where
  "cleanup staging backup wheel =
     seq_io (unlink_missing_ok wheel) (seq_io (rmtree_ignore staging) (rmtree_ignore backup))"

definition install_txn ::
    "zpip \<Rightarrow> world \<Rightarrow> installer \<Rightarrow> string \<Rightarrow> string option \<Rightarrow> string \<Rightarrow> string list \<Rightarrow> pyval io" where
  "install_txn Z W again package version channel stack =
     bind_io (fresh_id W) (\<lambda>transaction.
       let staging = child (zp_staging Z) transaction;
           backup = child (zp_staging Z) (transaction @ ''.backup'');
           wheel = child (zp_downloads Z) (transaction @ ''.whl'')
       in finally_io
           (\<lambda>F. case install_body Z W again package version channel stack transaction staging backup wheel
                     \<lparr>tx_committed = [], tx_deps = []\<rparr> F of
                  ((Ok result, t), F') \<Rightarrow> (Ok result, F')
                | ((Err e, t), F') \<Rightarrow> seq_io (rollback Z backup t) (ret (failure package (exn_text e) True)) F')
           (cleanup staging backup wheel))"

primrec install :: "nat \<Rightarrow> zpip \<Rightarrow> world \<Rightarrow> string \<Rightarrow> string \<Rightarrow> string option \<Rightarrow> string list \<Rightarrow> pyval io" where
  "install 0 Z W channel nm version stack = raise (RuntimeError ''maximum recursion depth exceeded'')"
| "install (Suc n) Z W channel nm version stack =
     (case canonicalize nm of
        Err e \<Rightarrow> ret (failure '''' (exn_text e) False)
      | Ok package \<Rightarrow>
          if package \<in> set stack
          then ret (failure package (''Dependency cycle: '' @ join_with '' -> '' (stack @ [package])) True)
          else install_txn Z W (install n Z W channel) package version channel stack)"

end
