(* ===== verification/ZpipFront.thy ===== *)
theory ZpipFront
  imports ZpipInstall
begin

text \<open>
  The commands of \<open>zmux/zpip.py\<close> beside installing: verify, list, doctor, info, search over the
  curated catalogue, the installed database and PyPI, the text shown for a result, and the
  dispatcher that parses a command line and marks every result as legacy.
\<close>

section \<open>Verify\<close>

definition first_item :: "pyval \<Rightarrow> exn + pyval" where
  "first_item v = (case v of PList (x # xs) \<Rightarrow> Ok x | PList [] \<Rightarrow> Err IndexError
     | PStr (c # cs) \<Rightarrow> Ok (PStr [c]) | PStr [] \<Rightarrow> Err IndexError | PDict d \<Rightarrow> Err KeyError | _ \<Rightarrow> Err TypeError)"

definition module_text :: "pyval \<Rightarrow> exn + string" where
  "module_text v = (case v of PStr s \<Rightarrow> Ok s | _ \<Rightarrow> Err AttributeError)"

definition import_user :: "zpip \<Rightarrow> world \<Rightarrow> pyval \<Rightarrow> (bool \<times> string) io" where
  "import_user Z W m =
     (let p = wd_sys_path W; d = path_str (zp_user Z)
      in bind_io (lift (\<lambda>F. module_text m)) (\<lambda>nm.
         seq_io (wd_import W (if d \<in> set p then p else d # p) nm) (ret (True, ''''))))"

definition verify_env :: "zpip \<Rightarrow> environ" where
  "verify_env Z = (zp_env Z)(''PYTHONPATH'' \<mapsto> path_str (zp_user Z) @ [PSEP] @ env_get (zp_env Z) ''PYTHONPATH'' '''')"

definition import_check :: "zpip \<Rightarrow> world \<Rightarrow> pyval \<Rightarrow> (bool \<times> string) io" where
  "import_check Z W m =
     try_io
       (if on_android (zp_env Z) then import_user Z W m
        else bind_io (wd_run W (import_command W m) (verify_env Z)) (\<lambda>(code, out, err).
          ret (code = 0, if code = 0 then '''' else str_strip (if err \<noteq> '''' then err else out))))
       (\<lambda>e. if is_oserror e
            then try_io (import_user Z W m) (\<lambda>e'. ret (False, exn_text e'))
            else ret (False, exn_text e))"

fun missing_files :: "zpip \<Rightarrow> fsys \<Rightarrow> pyval list \<Rightarrow> exn + pyval list" where
  "missing_files Z F [] = Ok []"
| "missing_files Z F (v # vs) =
     bind_r (as_str v) (\<lambda>rel.
       map_r (\<lambda>ms. if is_file F (child (zp_user Z) rel) then ms else v # ms) (missing_files Z F vs))"

definition verify :: "zpip \<Rightarrow> world \<Rightarrow> string \<Rightarrow> pyval io" where
  "verify Z W nm =
     bind_io (lift (\<lambda>F. canonicalize nm)) (\<lambda>package.
     bind_io (load_db Z) (\<lambda>db. case map_of db package of
        Some (PDict rec) \<Rightarrow>
          bind_io (lift (\<lambda>F. bind_r (record_files (PDict rec)) (missing_files Z F))) (\<lambda>missing.
          bind_io (lift (\<lambda>F. bind_r (py_get ''modules'' PNone (PDict rec)) (\<lambda>ms.
              if truthy ms then first_item ms else Ok (PStr (import_name package))))) (\<lambda>m.
          bind_io (import_check Z W m) (\<lambda>(import_ok, err).
            ret (PDict [(''ok'', PBool (missing = [] \<and> import_ok)), (''package'', PStr package),
              (''missing'', PList missing), (''import_ok'', PBool import_ok), (''error'', PStr err)]))))
      | _ \<Rightarrow> ret (failed [(''error'', PStr (package @ '' is not managed by zpip''))])))"

definition list_installed :: "zpip \<Rightarrow> pyval io" where
  "list_installed Z = bind_io (load_db Z) (\<lambda>db. ret (PDict [(''ok'', PBool True), (''packages'', PDict db)]))"

fun verify_all :: "zpip \<Rightarrow> world \<Rightarrow> string list \<Rightarrow> db io" where
  "verify_all Z W [] = ret []"
| "verify_all Z W (nm # nms) =
     bind_io (verify Z W nm) (\<lambda>r. bind_io (verify_all Z W nms) (\<lambda>rs. ret ((nm, r) # rs)))"

definition doctor :: "zpip \<Rightarrow> world \<Rightarrow> pyval io" where
  "doctor Z W =
     bind_io (load_db Z) (\<lambda>db.
     bind_io (verify_all Z W (map fst db)) (\<lambda>checks.
     bind_io (lift (\<lambda>F. all_r (\<lambda>c. py_get ''ok'' PNone (snd c)) checks)) (\<lambda>oks.
       ret (PDict [(''ok'', PBool (list_all truthy oks)), (''runtime'', wd_fingerprint W),
         (''free_bytes'', PInt (wd_free W)), (''index'', PStr (zp_index Z)), (''packages'', PDict checks)]))))"

definition info :: "zpip \<Rightarrow> string \<Rightarrow> pyval io" where
  "info Z nm =
     bind_io (lift (\<lambda>F. canonicalize nm)) (\<lambda>package.
     bind_io (load_db Z) (\<lambda>db. let inst = db_get db package in
       ret (case resolve_manifest Z package None ''stable'' of
          Ok available \<Rightarrow> PDict [(''ok'', PBool True), (''name'', PStr package), (''installed'', inst), (''available'', available)]
        | Err e \<Rightarrow> PDict [(''ok'', PBool (truthy inst)), (''name'', PStr package), (''installed'', inst), (''error'', PStr (exn_text e))])))"

section \<open>Search\<close>

definition token_char :: "char \<Rightarrow> bool" where
  "token_char c \<longleftrightarrow> alnum c \<or> name_sep c \<or> c = CHR ''+''"

text \<open>\<open>re.findall\<close> of the query tokens, on text in lower case.\<close>

fun query_tokens :: "string \<Rightarrow> string \<Rightarrow> string list" where
  "query_tokens acc [] = (if acc = '''' then [] else [rev acc])"
| "query_tokens acc (c # s) =
     (if acc = '''' then query_tokens (if alnum c then [c] else '''') s
      else if token_char c then query_tokens (c # acc) s
      else rev acc # query_tokens '''' s)"

definition norm_name :: "string \<Rightarrow> string" where
  "norm_name s = collapse False (lower s)"

definition rank :: "string list \<Rightarrow> string \<Rightarrow> string \<Rightarrow> nat option" where
  "rank tokens nm summary =
     (let n = norm_name nm; s = lower summary
      in if \<not> list_all (\<lambda>t. contains n (norm_name t) \<or> contains s t) tokens then None
         else if map norm_name tokens = [n] then Some 0
         else if list_all (\<lambda>t. contains n (norm_name t)) tokens then Some 1 else Some 2)"

datatype source = Curated | PyPI | Installed

definition priority :: "source \<Rightarrow> nat" where
  "priority s = (case s of Curated \<Rightarrow> 0 | PyPI \<Rightarrow> 1 | Installed \<Rightarrow> 2)"

definition source_text :: "source \<Rightarrow> string" where
  "source_text s = (case s of Curated \<Rightarrow> ''curated'' | PyPI \<Rightarrow> ''pypi'' | Installed \<Rightarrow> ''installed'')"

record hit =
  h_rank :: nat
  h_priority :: nat
  h_name :: string
  h_version :: string
  h_summary :: string
  h_source :: source
  h_installed :: bool

type_synonym hits = "(string \<times> hit) list"

text \<open>The better rank wins; on a tie the richer source.\<close>

definition better :: "hit \<Rightarrow> hit \<Rightarrow> bool" where
  "better h h' \<longleftrightarrow> h_rank h < h_rank h' \<or> (h_rank h = h_rank h' \<and> h_priority h < h_priority h')"

definition consider_hit :: "string list \<Rightarrow> db \<Rightarrow> source \<Rightarrow> pyval \<times> pyval \<times> pyval \<Rightarrow> hits \<Rightarrow> hits" where
  "consider_hit tokens inst src x hs =
     (case x of (nm, version, summary) \<Rightarrow>
        (case rank tokens (py_str nm) (py_str (py_or summary (PStr ''''))) of
           None \<Rightarrow> hs
         | Some r \<Rightarrow>
             let key = norm_name (py_str nm);
                 h = \<lparr>h_rank = r, h_priority = priority src, h_name = py_str nm,
                      h_version = py_str (py_or version (PStr '''')), h_summary = py_str (py_or summary (PStr '''')),
                      h_source = src, h_installed = (key \<in> fst ` set inst)\<rparr>
             in (case map_of hs key of
                   None \<Rightarrow> dict_put key h hs
                 | Some h' \<Rightarrow> if better h h' then dict_put key h hs else hs)))"

definition field :: "string \<Rightarrow> pyval \<Rightarrow> (string \<times> pyval) list \<Rightarrow> pyval" where
  "field k d kvs = (case map_of kvs k of None \<Rightarrow> d | Some v \<Rightarrow> v)"

fun curated_rows :: "db \<Rightarrow> (pyval \<times> pyval \<times> pyval) list" where
  "curated_rows [] = []"
| "curated_rows ((k, PDict m) # d) =
     (field ''name'' (PStr k) m, field ''version'' (PStr '''') m, field ''summary'' (PStr '''') m) # curated_rows d"
| "curated_rows (_ # d) = curated_rows d"

definition installed_row :: "string \<times> pyval \<Rightarrow> pyval \<times> pyval \<times> pyval" where
  "installed_row e =
     (PStr (fst e), (case snd e of PDict rec \<Rightarrow> field ''version'' (PStr '''') rec | _ \<Rightarrow> PStr ''''), PStr '''')"

definition local_hits :: "string list \<Rightarrow> db \<Rightarrow> db \<Rightarrow> hits" where
  "local_hits tokens catalog inst =
     fold (consider_hit tokens inst Installed) (map installed_row inst)
       (fold (consider_hit tokens inst Curated) (curated_rows catalog) [])"

definition probe_wanted :: "zpip \<Rightarrow> string list \<Rightarrow> db \<Rightarrow> bool" where
  "probe_wanted Z tokens catalog \<longleftrightarrow>
     length tokens = 1 \<and> valid_name (hd tokens) \<and> \<not> offline Z
       \<and> norm_name (hd tokens) \<notin> (norm_name \<circ> fst) ` set catalog"

definition with_probe :: "zpip \<Rightarrow> string list \<Rightarrow> db \<Rightarrow> db \<Rightarrow> hits \<Rightarrow> exn + hits \<times> string" where
  "with_probe Z tokens catalog inst hs =
     (if probe_wanted Z tokens catalog
      then bind_r (probe_pypi Z (hd tokens)) (\<lambda>p. case p of
             Some (n, v, s) \<Rightarrow> Ok (consider_hit tokens inst PyPI (PStr n, PStr v, PStr s) hs, ''live'')
           | None \<Rightarrow> Ok (hs, ''unavailable''))
      else Ok (hs, ''skipped''))"

definition hit_val :: "hit \<Rightarrow> pyval" where
  "hit_val h = PDict [(''name'', PStr (h_name h)), (''version'', PStr (h_version h)), (''summary'', PStr (h_summary h)),
     (''source'', PStr (source_text (h_source h))), (''installed'', PBool (h_installed h))]"

text \<open>Sorted by rank, then by name.\<close>

definition ranked :: "hits \<Rightarrow> hit list" where
  "ranked hs = sort_key h_rank (sort_key h_name (map snd hs))"

definition search :: "zpip \<Rightarrow> world \<Rightarrow> string \<Rightarrow> pyval io" where
  "search Z W raw =
     (let tokens = query_tokens '''' (lower raw)
      in if tokens = [] then ret (failed [(''query'', PStr raw), (''error'', PStr ''empty search query'')])
         else bind_io (load_db Z) (\<lambda>inst.
              bind_io (fetch_curated_catalog Z (wd_clock W)) (\<lambda>(catalog, curated_status).
              bind_io (lift (\<lambda>F. with_probe Z tokens catalog inst (local_hits tokens catalog inst))) (\<lambda>(hs, pypi_status).
                ret (PDict [(''ok'', PBool True), (''query'', PStr raw), (''results'', PList (map hit_val (ranked hs))),
                  (''sources'', PDict [(''curated'', PStr curated_status), (''pypi'', PStr pypi_status)])])))))"

section \<open>Text for the terminal\<close>

text \<open>\<open>f"{n:,}"\<close>.\<close>

fun group3 :: "string \<Rightarrow> string" where
  "group3 (a # d # c # e # ds) = a # d # c # CHR '','' # group3 (e # ds)"
| "group3 ds = ds"

definition thousands :: "pyval \<Rightarrow> exn + string" where
  "thousands v = (case v of
      PInt n \<Rightarrow> Ok ((if n < 0 then ''-'' else '''') @ rev (group3 (rev (nat_str (nat (abs n))))))
    | PBool t \<Rightarrow> Ok (if t then ''1'' else ''0'')
    | PStr s \<Rightarrow> Err (ValueError (''Cannot specify '' @ [SQ] @ '','' @ [SQ] @ '' with '' @ [SQ] @ ''s'' @ [SQ] @ ''.''))
    | _ \<Rightarrow> Err TypeError)"

definition get_text :: "string \<Rightarrow> string \<Rightarrow> pyval \<Rightarrow> exn + string" where
  "get_text k d v = map_r py_str (py_get k (PStr d) v)"

definition join_texts :: "pyval \<Rightarrow> exn + string" where
  "join_texts v = map_r (join_with '', '') (bind_r (py_iter v) (all_r as_str))"

definition items_of :: "pyval \<Rightarrow> exn + db" where
  "items_of v = (case v of PDict d \<Rightarrow> Ok d | _ \<Rightarrow> Err AttributeError)"

definition show_verify :: "string list \<Rightarrow> pyval \<Rightarrow> exn + string \<times> int" where
  "show_verify parts result =
     bind_r (get_text ''package'' (if length parts > 2 then parts ! 2 else '''') result) (\<lambda>pkg.
     bind_r (py_get ''ok'' PNone result) (\<lambda>ok.
       if truthy ok then Ok (pkg @ '' is installed and verified'', 0)
       else bind_r (py_get ''missing'' (PList []) result) (\<lambda>missing.
         if truthy missing
         then map_r (\<lambda>ms. (pkg @ '' verification failed: missing files: '' @ ms, 1)) (join_texts missing)
         else map_r (\<lambda>e. (pkg @ '' verification failed: '' @ e, 1)) (get_text ''error'' ''unknown error'' result))))"

definition check_line :: "string \<times> pyval \<Rightarrow> exn + string" where
  "check_line e = map_r (\<lambda>ok. ''  '' @ fst e @ '': '' @ (if truthy ok then ''OK'' else ''FAILED'')) (py_get ''ok'' PNone (snd e))"

definition sub_text :: "string \<Rightarrow> string \<Rightarrow> pyval \<Rightarrow> exn + string" where
  "sub_text k f v = bind_r (py_get k (PDict []) v) (get_text f ''unknown'')"

definition doctor_lines :: "pyval \<Rightarrow> exn + string list" where
  "doctor_lines result =
     bind_r (py_get ''runtime'' (PDict []) result) (\<lambda>rt.
     bind_r (py_get ''free_bytes'' (PInt 0) result) (\<lambda>free.
     bind_r (py_get ''packages'' (PDict []) result) (\<lambda>pkgs.
     bind_r (get_text ''index'' ''unknown'' result) (\<lambda>idx.
     bind_r (get_text ''runtime_id'' ''unknown'' rt) (\<lambda>rid.
     bind_r (sub_text ''python'' ''version'' rt) (\<lambda>py.
     bind_r (bind_r (py_get ''android'' (PDict []) rt) (get_text ''abi'' ''unknown'')) (\<lambda>abi.
     bind_r (sub_text ''paths'' ''user_packages'' rt) (\<lambda>dir.
     bind_r (thousands free) (\<lambda>n.
     bind_r (if truthy pkgs then map_r (\<lambda>ls. '''' # ''Installed packages:'' # ls) (bind_r (items_of pkgs) (all_r check_line))
             else Ok []) (\<lambda>tail.
       Ok ([''ZMUX Package Manager'', ''Runtime: '' @ rid, ''Python: '' @ py, ''ABI: '' @ abi, ''User packages: '' @ dir,
            ''Free storage: '' @ n @ '' bytes'', ''Index: '' @ idx] @ tail)))))))))))"

definition show_install :: "pyval \<Rightarrow> exn + string" where
  "show_install result =
     bind_r (get_text ''package'' '''' result) (\<lambda>pkg.
     bind_r (py_get ''version'' (PStr '''') result) (\<lambda>ver.
     bind_r (py_get ''dependencies_installed'' (PList []) result) (\<lambda>deps.
     bind_r (if truthy deps then map_r (\<lambda>t. LF1 @ ''Also installed: '' @ t) (join_texts deps) else Ok '''') (\<lambda>also.
     bind_r (py_get ''warning'' PNone result) (\<lambda>warning.
       Ok (''Successfully installed '' @ pkg @ (if truthy ver then ''-'' @ py_str ver else '''') @ also
           @ (if truthy warning then LF1 @ LF1 @ ''WARNING: '' @ py_str warning else '''')))))))"

definition list_line :: "string \<times> pyval \<Rightarrow> exn + string" where
  "list_line e =
     bind_r (get_text ''version'' '''' (snd e)) (\<lambda>version.
     bind_r (py_get ''explicit'' (PBool True) (snd e)) (\<lambda>ex.
       Ok (fst e @ '' '' @ version @ (if truthy ex then '''' else ''  (dependency)''))))"

definition show_list :: "pyval \<Rightarrow> exn + string" where
  "show_list result =
     bind_r (py_get ''packages'' (PDict []) result) (\<lambda>pkgs.
       if truthy pkgs then map_r (join_with LF1) (bind_r (items_of pkgs) (all_r list_line))
       else Ok ''No packages installed'')"

definition search_line :: "pyval \<Rightarrow> exn + string" where
  "search_line entry =
     bind_r (py_get ''source'' (PStr ''?'') entry) (\<lambda>src.
     bind_r (py_get ''installed'' PNone entry) (\<lambda>inst.
     bind_r (if truthy inst \<and> src \<noteq> PStr ''installed'' then map_r (\<lambda>t. t @ '',installed'') (as_str src) else Ok (py_str src)) (\<lambda>tag.
     bind_r (py_get ''version'' PNone entry) (\<lambda>v.
     bind_r (py_get ''summary'' PNone entry) (\<lambda>s.
     bind_r (get_text ''name'' ''?'' entry) (\<lambda>nm.
       Ok (nm @ (if truthy v then '' '' @ py_str v else '''') @ '' ['' @ tag @ '']''
           @ (if truthy s then '' - '' @ py_str s else ''''))))))))"

definition source_notes :: "pyval \<Rightarrow> exn + string list" where
  "source_notes sources =
     bind_r (py_get ''curated'' PNone sources) (\<lambda>c.
     bind_r (py_get ''pypi'' PNone sources) (\<lambda>p.
       Ok ((if c = PStr ''stale'' then [''(curated index: stale cache; connect to refresh)'']
            else if c = PStr ''unavailable'' then [''(curated index unavailable; no cached copy)''] else [])
           @ (if p = PStr ''unavailable'' then [''(pypi.org unreachable; exact-match probe skipped)''] else []))))"

definition show_search :: "pyval \<Rightarrow> exn + string" where
  "show_search result =
     bind_r (py_get ''results'' (PList []) result) (\<lambda>results.
     bind_r (bind_r (py_iter results) (all_r search_line)) (\<lambda>ls.
     bind_r (py_get ''sources'' (PDict []) result) (\<lambda>sources.
     bind_r (source_notes sources) (\<lambda>notes.
       Ok (join_with LF1 (ls @ (if truthy results then [] else [''No packages found'']) @ notes))))))"

definition show_info :: "pyval \<Rightarrow> exn + string" where
  "show_info result =
     bind_r (get_text ''name'' '''' result) (\<lambda>pkg.
     bind_r (py_get ''installed'' PNone result) (\<lambda>inst.
     bind_r (py_get ''available'' PNone result) (\<lambda>avail.
     bind_r (if truthy inst then map_r (\<lambda>v. [''Installed: '' @ v]) (get_text ''version'' ''unknown'' inst) else Ok []) (\<lambda>l1.
     bind_r (if truthy avail then map_r (\<lambda>v. [''Available: '' @ v]) (get_text ''version'' ''unknown'' avail) else Ok []) (\<lambda>l2.
       Ok (join_with LF1 ((''Package: '' @ pkg) # l1 @ l2)))))))"

definition show_ok :: "string \<Rightarrow> pyval \<Rightarrow> exn + string" where
  "show_ok action result =
     (if action = ''install'' then show_install result
      else if action = ''list'' then show_list result
      else if action = ''search'' then show_search result
      else if action = ''info'' then show_info result
      else if action = ''uninstall'' then map_r (\<lambda>p. ''Successfully uninstalled '' @ p) (get_text ''package'' '''' result)
      else Ok ''Command executed successfully'')"

definition format_output :: "string \<Rightarrow> (string \<times> pyval) list \<Rightarrow> exn + string \<times> int" where
  "format_output command kvs =
     (let parts = str_split (str_strip command);
          action = (if length parts > 1 then parts ! 1 else '''');
          result = PDict kvs; ok = truthy (field ''ok'' PNone kvs)
      in if action = ''verify'' then show_verify parts result
         else if action = ''doctor'' \<and> ''runtime'' \<in> fst ` set kvs
           then map_r (\<lambda>ls. (join_with LF1 ls, if ok then 0 else 1)) (doctor_lines result)
         else if \<not> ok then map_r (\<lambda>e. (''Error: '' @ e, 1)) (get_text ''error'' ''unknown error'' result)
         else map_r (\<lambda>t. (t, 0)) (show_ok action result))"

section \<open>Dispatch\<close>

definition LEGACY_STATUS :: string where "LEGACY_STATUS = ''compatibility-only''"
definition LEGACY_NOTICE :: string where
  "LEGACY_NOTICE = ''zpip is retained for compatibility only. ZMUX user package workflow is ''
     @ ''Alpine apk plus Python venv/pip.''"

definition set_default :: "string \<Rightarrow> pyval \<Rightarrow> (string \<times> pyval) list \<Rightarrow> (string \<times> pyval) list" where
  "set_default k v d = (if k \<in> fst ` set d then d else dict_put k v d)"

definition mark_legacy_result :: "pyval \<Rightarrow> pyval" where
  "mark_legacy_result v =
     PDict (set_default ''manager'' (PStr ''zpip'')
       (set_default ''legacy_notice'' (PStr LEGACY_NOTICE)
       (set_default ''legacy_status'' (PStr LEGACY_STATUS)
       (set_default ''legacy'' (PBool True) (dict_items v)))))"

definition error_result :: "string \<Rightarrow> pyval" where
  "error_result err = failed [(''error'', PStr err)]"

definition run_action :: "nat \<Rightarrow> zpip \<Rightarrow> world \<Rightarrow> string \<Rightarrow> string list \<Rightarrow> pyval io" where
  "run_action depth Z W action values =
     (if action = ''list'' \<and> values = [] then list_installed Z
      else if action = ''doctor'' \<and> values = [] then doctor Z W
      else if action = ''search'' \<and> values \<noteq> [] then search Z W (join_with '' '' values)
      else if action = ''info'' \<and> length values = 1 then info Z (hd values)
      else if action = ''verify'' \<and> length values = 1 then verify Z W (hd values)
      else if action = ''uninstall'' \<and> length values = 1 then uninstall Z (hd values)
      else if action = ''install'' \<and> length values \<in> {1, 2}
        then install depth Z W ''stable'' (hd values) (if length values = 2 then Some (values ! 1) else None) []
      else ret (error_result (''invalid arguments for zpip '' @ action)))"

definition dispatch :: "nat \<Rightarrow> zpip \<Rightarrow> world \<Rightarrow> string \<Rightarrow> pyval io" where
  "dispatch depth Z W command =
     (case shlex_split command of
        Err e \<Rightarrow> ret (mark_legacy_result (error_result (exn_text e)))
      | Ok args0 \<Rightarrow>
          let args = (if args0 \<noteq> [] \<and> hd args0 = ''zpip'' then tl args0 else args0)
          in if args = []
             then ret (mark_legacy_result (error_result ''usage: zpip search|info|install|list|verify|uninstall|doctor''))
             else try_io
               (bind_io (run_action depth Z W (hd args) (tl args)) (\<lambda>v. ret (mark_legacy_result v)))
               (\<lambda>e. if is_oserror e \<or> is_valueerror e then ret (mark_legacy_result (error_result (exn_text e)))
                    else raise e))"

end
