(* ===== verification/Confine.thy ===== *)
theory Confine
  imports Posix
begin

text \<open>
  What an operation can change: \<open>touches S F F'\<close> when every location outside \<open>S\<close> holds what it
  held and no new link has appeared.  On a path without links on the way, each primitive changes
  its own location only.
\<close>

definition touches :: "(loc \<Rightarrow> bool) \<Rightarrow> fsys \<Rightarrow> fsys \<Rightarrow> bool" where
  "touches S F F' \<longleftrightarrow> (\<forall>l. \<not> S l \<longrightarrow> node_at F' l = node_at F l) \<and>
     (\<forall>l t. node_at F' l = Some (Lnk t) \<longrightarrow> node_at F l = Some (Lnk t))"

lemma touches_refl [simp]: "touches S F F"
  by (simp add: touches_def)

lemma touches_trans: "touches S F G \<Longrightarrow> touches S G H \<Longrightarrow> touches S F H"
  unfolding touches_def by (elim conjE) (intro conjI allI impI, metis, metis)

lemma touches_mono: "touches S F G \<Longrightarrow> (\<And>l. S l \<Longrightarrow> S' l) \<Longrightarrow> touches S' F G"
  by (auto simp: touches_def)

lemma touches_node: "touches S F F' \<Longrightarrow> \<not> S l \<Longrightarrow> node_at F' l = node_at F l"
  unfolding touches_def by blast

lemma touches_reflp [simp]: "reflp (touches S)"
  by (rule reflpI) simp

lemma touches_transp [simp]: "transp (touches S)"
  unfolding transp_def by (blast intro: touches_trans)

lemma touches_put:
  "S l \<Longrightarrow> \<not> is_lnk n \<Longrightarrow> touches S F (put_node F l n)"
  by (auto simp: touches_def)

lemma touches_drop: "(\<And>k. prefix l k \<Longrightarrow> node_at F k \<noteq> None \<Longrightarrow> S k) \<Longrightarrow> touches S F (drop_tree F l)"
  unfolding touches_def by (auto split: if_splits) (metis option.exhaust)

lemma link_free_touches: "touches S F F' \<Longrightarrow> link_free F l \<Longrightarrow> link_free F' l"
  unfolding link_free_def touches_def by blast

lemma link_free_prefix: "link_free F l \<Longrightarrow> prefix k l \<Longrightarrow> link_free F k"
  unfolding link_free_def by (meson prefix_order.trans set_mono_prefix subsetD)

lemma resolve_link_free: "resolve_path F p = Ok q \<Longrightarrow> link_free F (p_names q) \<and> p_root q = ''/''"
  by (auto simp: resolve_path_def split: sum.splits dest: realpath_link_free [OF link_free_Nil])

section \<open>Walks without links\<close>

text \<open>No link on the way; the last component may be one.\<close>

definition way_free :: "fsys \<Rightarrow> loc \<Rightarrow> bool" where
  "way_free F l \<longleftrightarrow> ''..'' \<notin> set l \<and> (\<forall>k t. strict_prefix k l \<longrightarrow> node_at F k \<noteq> Some (Lnk t))"

lemma way_free_touches: "touches S F F' \<Longrightarrow> way_free F l \<Longrightarrow> way_free F' l"
  unfolding way_free_def touches_def by blast

lemma link_free_way: "link_free F l \<Longrightarrow> way_free F l"
  by (auto simp: link_free_def way_free_def strict_prefix_def)

lemma way_free_link_free: "way_free F l \<Longrightarrow> (\<And>t. node_at F l \<noteq> Some (Lnk t)) \<Longrightarrow> link_free F l"
  by (auto simp: link_free_def way_free_def) (metis strict_prefix_def)

lemma walk_way:
  "way_free F (cur @ ws) \<Longrightarrow> (ws \<noteq> [] \<Longrightarrow> \<not> follow \<or> (\<forall>t. node_at F (cur @ ws) \<noteq> Some (Lnk t))) \<Longrightarrow>
     walk F n follow cur ws = Ok l \<Longrightarrow> l = cur @ ws"
proof (induction ws arbitrary: cur)
  case (Cons w ws)
  have w: "w \<noteq> ''..''" using Cons.prems(1) by (auto simp: way_free_def)
  show ?case
  proof (cases "ws = []")
    case True
    with Cons.prems w show ?thesis by (auto split: option.splits node.splits if_splits)
  next
    case False
    then have "strict_prefix (cur @ [w]) (cur @ w # ws)" by (simp add: strict_prefix_def)
    then have nl: "node_at F (cur @ [w]) \<noteq> Some (Lnk t)" for t using Cons.prems(1) by (simp add: way_free_def)
    with Cons.prems w False have "walk F n follow (cur @ [w]) ws = Ok l"
      by (auto split: option.splits node.splits)
    with Cons.IH [of "cur @ [w]"] Cons.prems False show ?thesis by simp
  qed
qed simp

lemma locate_way: "way_free F (p_names p) \<Longrightarrow> locate F False p = Ok l \<Longrightarrow> l = p_names p"
  unfolding locate_def using walk_way [of F "[]" "p_names p" False] by simp

lemma locate_free: "link_free F (p_names p) \<Longrightarrow> locate F follow p = Ok l \<Longrightarrow> l = p_names p"
  unfolding locate_def using walk_way [of F "[]" "p_names p" follow] link_free_way [of F "p_names p"]
  by (auto simp: link_free_def)

section \<open>The primitives\<close>

lemma change_touches: "change l g F = (r, F') \<Longrightarrow> touches S F (g F) \<Longrightarrow> touches S F F'"
  by (auto simp: change_def split: if_splits)

lemma write_content_touches:
  assumes "link_free F (p_names p)" "write_content p c F = (r, F')" "S (p_names p)"
  shows "touches S F F'"
proof (cases "locate F True p")
  case (Inr l)
  with assms(1) have "l = p_names p" by (rule locate_free)
  with Inr assms(2,3) show ?thesis
    by (auto simp: write_content_def split: option.splits node.splits
        elim!: change_touches intro!: touches_put)
qed (use assms in \<open>simp add: write_content_def\<close>)

lemma os_mkdir_touches:
  assumes "way_free F (p_names p)" "os_mkdir p F = (r, F')" "S (p_names p)"
  shows "touches S F F'"
proof (cases "locate F False p")
  case (Inr l)
  with assms(1) have "l = p_names p" by (rule locate_way)
  with Inr assms(2,3) show ?thesis
    by (auto simp: os_mkdir_def split: if_splits elim!: change_touches intro!: touches_put)
qed (use assms in \<open>simp add: os_mkdir_def\<close>)

lemma unlink_touches:
  assumes "way_free F (p_names p)" "unlink p F = (r, F')" "\<And>l. prefix (p_names p) l \<Longrightarrow> S l"
  shows "touches S F F'"
proof (cases "locate F False p")
  case (Inr l)
  with assms(1) have "l = p_names p" by (rule locate_way)
  with Inr assms(2,3) show ?thesis
    by (auto simp: unlink_def lookup_def split: option.splits node.splits
        elim!: change_touches intro!: touches_drop)
qed (use assms in \<open>simp add: unlink_def lookup_def\<close>)

lemma rmdir_touches:
  assumes "way_free F (p_names p)" "rmdir p F = (r, F')" "\<And>l. prefix (p_names p) l \<Longrightarrow> S l"
  shows "touches S F F'"
proof (cases "locate F False p")
  case (Inr l)
  with assms(1) have "l = p_names p" by (rule locate_way)
  with Inr assms(2,3) show ?thesis
    by (auto simp: rmdir_def lookup_def split: option.splits node.splits if_splits
        elim!: change_touches intro!: touches_drop)
qed (use assms in \<open>simp add: rmdir_def lookup_def\<close>)

lemma mkdir_parents_touches:
  "link_free F (p_names p) \<Longrightarrow> mkdir_parents p F = (r, F') \<Longrightarrow> (\<And>l. prefix l (p_names p) \<Longrightarrow> S l) \<Longrightarrow> touches S F F'"
proof (induction p F arbitrary: r F' rule: mkdir_parents.induct)
  case (1 p F)
  obtain r1 F1 where m: "os_mkdir p F = (r1, F1)" by fastforce
  have way: "way_free F (p_names p)" using "1.prems"(1) by (rule link_free_way)
  have t1: "touches S F F1" by (rule os_mkdir_touches [OF way m]) (rule "1.prems"(3), simp)
  show ?case
  proof (cases "r1 = Err FileNotFoundError \<and> p_names p \<noteq> []")
    case False
    with m "1.prems"(2) t1 show ?thesis
      by (subst (asm) mkdir_parents.simps) (auto split: sum.splits exn.splits if_splits)
  next
    case True
    obtain r2 F2 where m2: "mkdir_parents (parent_path p) F1 = (r2, F2)" by fastforce
    have lf1: "link_free F1 (p_names p)" using "1.prems"(1) t1 by (rule link_free_touches [rotated])
    have pp: "p_names (parent_path p) = butlast (p_names p)" by (simp add: parent_path_def)
    have t2: "touches S F1 F2"
    proof (rule "1.IH" [OF m [symmetric] _ _ _ _ m2])
      show "r1 = Err FileNotFoundError" "FileNotFoundError = FileNotFoundError" "p_names p \<noteq> []" using True by simp_all
      show "link_free F1 (p_names (parent_path p))" using lf1 by (simp add: pp link_free_butlast)
      show "S l" if "prefix l (p_names (parent_path p))" for l
        by (rule "1.prems"(3)) (use that pp prefix_order.trans [OF _ prefixeq_butlast] in auto)
    qed
    show ?thesis
    proof (cases r2)
      case (Inl e)
      have "mkdir_parents p F = (Err e, F2)" using m m2 Inl True by (simp add: mkdir_parents.simps [of p])
      with "1.prems"(2) touches_trans [OF t1 t2] show ?thesis by simp
    next
      case (Inr x)
      obtain r3 F3 where m3: "os_mkdir p F2 = (r3, F3)" by fastforce
      have "way_free F2 (p_names p)" by (rule link_free_way [OF link_free_touches [OF t2 lf1]])
      then have "touches S F2 F3" by (rule os_mkdir_touches [OF _ m3]) (rule "1.prems"(3), simp)
      moreover have "F' = F3"
        using "1.prems"(2) m m2 m3 Inr True
        by (simp add: mkdir_parents.simps [of p] split: sum.split_asm if_split_asm)
      ultimately show ?thesis using touches_trans [OF touches_trans [OF t1 t2]] by simp
    qed
  qed
qed

lemma try_os_touches:
  "try_os m x F = (r, F') \<Longrightarrow> (\<And>q G. m F = (q, G) \<Longrightarrow> touches S F G) \<Longrightarrow> touches S F F'"
  by (auto simp: try_os_def try_io_def split: prod.splits sum.splits if_splits)

lemma each_io_touches:
  assumes step: "\<And>x G q H. x \<in> set xs \<Longrightarrow> I G \<Longrightarrow> f x G = (q, H) \<Longrightarrow> touches S G H"
    and inv: "\<And>G H. I G \<Longrightarrow> touches S G H \<Longrightarrow> I H"
  shows "I F \<Longrightarrow> each_io f xs F = (r, F') \<Longrightarrow> touches S F F'"
  using step
proof (induction xs arbitrary: F)
  case (Cons x xs)
  obtain q G where x: "f x F = (q, G)" by fastforce
  have t: "touches S F G" using Cons.prems x by auto
  show ?case
  proof (cases q)
    case (Inl e)
    with Cons.prems x t show ?thesis by (simp add: seq_io_def bind_io_def)
  next
    case (Inr v)
    with Cons.prems x have "each_io f xs G = (r, F')" by (simp add: seq_io_def bind_io_def)
    then have "touches S G F'" using Cons.IH [of G] Cons.prems inv t by auto
    then show ?thesis using t touches_trans by blast
  qed
qed simp

lemma bind_io_touches:
  "bind_io m f F = (r, F') \<Longrightarrow> (\<And>q G. m F = (q, G) \<Longrightarrow> touches S F G) \<Longrightarrow>
     (\<And>x G. m F = (Ok x, G) \<Longrightarrow> f x G = (r, F') \<Longrightarrow> touches S G F') \<Longrightarrow> touches S F F'"
  unfolding bind_io_def by (cases "m F"; cases "fst (m F)") (auto intro: touches_trans)

lemma seq_io_touches:
  "seq_io m k F = (r, F') \<Longrightarrow> (\<And>q G. m F = (q, G) \<Longrightarrow> touches S F G) \<Longrightarrow>
     (\<And>x G. m F = (Ok x, G) \<Longrightarrow> k G = (r, F') \<Longrightarrow> touches S G F') \<Longrightarrow> touches S F F'"
  unfolding seq_io_def by (rule bind_io_touches)

lemma chmod_touches:
  assumes "link_free F (p_names p)" "chmod p m F = (r, F')" "S (p_names p)"
  shows "touches S F F'"
proof (cases "locate F True p")
  case (Inr l)
  with assms(1) have l: "l = p_names p" by (rule locate_free)
  have "touches S F (put_node F l (set_mode m n))" if "node_at F l = Some n" for n
    using that assms(1,3) l by (intro touches_put) (cases n; auto simp: set_mode_def link_free_def)+
  with Inr l assms(2) show ?thesis
    by (auto simp: chmod_def lookup_def split: option.splits elim!: change_touches)
qed (use assms in \<open>simp add: chmod_def lookup_def\<close>)

lemma copy_file_touches:
  assumes "link_free F (p_names q)" "copy_file p q F = (r, F')" "S (p_names q)"
  shows "touches S F F'"
proof (cases "lookup F True p")
  case (Inr ln)
  obtain l n where ln: "ln = (l, n)" by (cases ln)
  show ?thesis
  proof (cases n)
    case (Reg c m)
    obtain v G where w: "write_content q c F = (v, G)" by fastforce
    have t: "touches S F G" by (rule write_content_touches [where S = S, OF assms(1) w assms(3)])
    have "touches S G H" if "chmod q m G = (x, H)" for x H
      by (rule chmod_touches [where S = S, OF link_free_touches [OF t assms(1)] that assms(3)])
    with t w Inr ln Reg assms(2) show ?thesis
      by (cases v) (auto simp: copy_file_def intro: touches_trans)
  qed (use Inr ln assms in \<open>simp_all add: copy_file_def\<close>)
qed (use assms in \<open>simp add: copy_file_def\<close>)

lemma rmtree_touches:
  assumes "way_free F (p_names p)" "rmtree_ignore p F = (r, F')" "\<And>l. prefix (p_names p) l \<Longrightarrow> S l"
  shows "touches S F F'"
proof (cases "locate F False p")
  case (Inr l)
  with assms(1) have l: "l = p_names p" by (rule locate_way)
  let ?G = "F\<lparr>fs_table := filter (\<lambda>e. \<not> prefix l (fst e) \<or> stuck F l (fst e)) (fs_table F)\<rparr>"
  have "node_at ?G k = (if k \<noteq> [] \<and> prefix l k \<and> \<not> stuck F l k then None else node_at F k)" for k
    using map_of_filter_fst [of "\<lambda>k. \<not> prefix l k \<or> stuck F l k" k "fs_table F"]
      map_of_filter_fst_None [of "\<lambda>k. \<not> prefix l k \<or> stuck F l k" k "fs_table F"]
    by (simp add: node_at_def)
  then have "touches S F ?G" using assms(3) l by (auto simp: touches_def split: if_splits)
  then show ?thesis using assms(2) Inr
    by (auto simp: rmtree_ignore_def lookup_def split: option.splits node.splits)
qed (use assms in \<open>simp add: rmtree_ignore_def lookup_def\<close>)

text \<open>Where there is no link at all, a rename makes none.\<close>

definition no_links :: "fsys \<Rightarrow> bool" where
  "no_links F \<longleftrightarrow> (\<forall>l t. node_at F l \<noteq> Some (Lnk t))"

lemma no_links_free: "no_links F \<Longrightarrow> ''..'' \<notin> set l \<Longrightarrow> link_free F l"
  by (simp add: no_links_def link_free_def)

lemma no_links_touches: "no_links F \<Longrightarrow> touches S F F' \<Longrightarrow> no_links F'"
  unfolding no_links_def touches_def by blast

lemma os_replace_touches:
  assumes "no_links F" "''..'' \<notin> set (p_names p)" "''..'' \<notin> set (p_names q)" "os_replace p q F = (r, F')"
    and S: "\<And>l. prefix (p_names p) l \<or> prefix (p_names q) l \<Longrightarrow> S l"
  shows "touches S F F'"
proof -
  let ?s = "p_names p" and ?d = "p_names q"
  have same: "F' = F \<or> (\<not> prefix ?s ?d \<and> \<not> prefix ?d ?s \<and> F' = move_tree F ?s ?d)"
  proof (cases "locate F False p")
    case (Inr s)
    then have s: "s = ?s" by (rule locate_free [OF no_links_free [OF assms(1,2)]])
    show ?thesis
    proof (cases "locate F False q")
      case d: (Inr d)
      then have "d = ?d" by (rule locate_free [OF no_links_free [OF assms(1,3)]])
      with Inr s d assms(4) show ?thesis
        by (auto simp: os_replace_def lookup_def split: option.splits node.splits if_splits)
    qed (use Inr assms(4) in \<open>auto simp: os_replace_def lookup_def split: option.splits\<close>)
  qed (use assms(4) in \<open>simp add: os_replace_def lookup_def\<close>)
  moreover have "touches S F (move_tree F ?s ?d)" if n: "\<not> prefix ?s ?d" "\<not> prefix ?d ?s"
  proof -
    have "node_at (move_tree F ?s ?d) l \<in> {None, node_at F (?s @ drop (length ?d) l), node_at F l}" for l
      using node_at_move [OF n, of l F] by blast
    then have "node_at (move_tree F ?s ?d) l \<noteq> Some (Lnk t)" for l t
      using assms(1) by (metis empty_iff insert_iff no_links_def option.distinct(1))
    moreover have "node_at (move_tree F ?s ?d) l = node_at F l" if "\<not> S l" for l
      using that S node_at_move(3) [OF n] by blast
    ultimately show ?thesis by (auto simp: touches_def)
  qed
  ultimately show ?thesis by auto
qed

section \<open>Making directories\<close>

text \<open>Making directories only adds entries.\<close>

definition adds :: "fsys \<Rightarrow> fsys \<Rightarrow> bool" where
  "adds F G \<longleftrightarrow> fs_denied G = fs_denied F \<and> (\<forall>l n. node_at F l = Some n \<longrightarrow> node_at G l = Some n)"

lemma adds_grown: "adds F G \<Longrightarrow> grown F G"
  by (auto simp: adds_def grown_def)

lemma adds_trans: "adds F G \<Longrightarrow> adds G H \<Longrightarrow> adds F H"
  by (simp add: adds_def)

lemma os_mkdir_adds: "os_mkdir p F = (r, G) \<Longrightarrow> adds F G"
  by (auto simp: os_mkdir_def change_def adds_def split: sum.splits if_splits)

lemma mkdir_parents_adds: "mkdir_parents p F = (r, G) \<Longrightarrow> adds F G"
proof (induction p F arbitrary: r G rule: mkdir_parents.induct)
  case (1 p F)
  obtain r1 F1 where m: "os_mkdir p F = (r1, F1)" by fastforce
  note g1 = os_mkdir_adds [OF m]
  show ?case
  proof (cases "r1 = Err FileNotFoundError \<and> p_names p \<noteq> []")
    case False
    with m "1.prems" g1 show ?thesis by (subst (asm) mkdir_parents.simps) (auto split: sum.splits exn.splits if_splits)
  next
    case True
    obtain r2 F2 where m2: "mkdir_parents (parent_path p) F1 = (r2, F2)" by fastforce
    have g2: "adds F1 F2" by (rule "1.IH" [OF m [symmetric] _ _ _ m2]) (use True in simp_all)
    obtain r3 F3 where m3: "os_mkdir p F2 = (r3, F3)" by fastforce
    have "G = F2 \<or> G = F3"
      using "1.prems" m m2 m3 True by (auto simp: mkdir_parents.simps [of p] split: sum.splits if_splits)
    with g1 g2 os_mkdir_adds [OF m3] show ?thesis by (auto intro: adds_trans)
  qed
qed

lemma lookup_node: "lookup F follow p = Ok (l, n) \<Longrightarrow> node_at F l = Some n"
  by (auto simp: lookup_def split: sum.splits option.splits)

lemma lookup_kept:
  assumes "grown F G" "lookup F True p = Ok (l, n)" "node_at G l = node_at F l"
  shows "lookup G True p = Ok (l, n)"
  using lookup_grown [OF assms(1,2)] assms(3) lookup_node [OF assms(2)] lookup_node [of G True p l] by auto

text \<open>A mode does not enter path resolution.\<close>

definition same_shape :: "fsys \<Rightarrow> fsys \<Rightarrow> bool" where
  "same_shape F G \<longleftrightarrow> (\<forall>l. map_option (set_mode 0) (node_at F l) = map_option (set_mode 0) (node_at G l))"

lemma same_shape_cases:
  assumes "same_shape F G"
  obtains "node_at F l = None" "node_at G l = None"
  | c m m' where "node_at F l = Some (Reg c m)" "node_at G l = Some (Reg c m')"
  | m m' where "node_at F l = Some (Dir m)" "node_at G l = Some (Dir m')"
  | t where "node_at F l = Some (Lnk t)" "node_at G l = Some (Lnk t)"
proof -
  from assms have e: "map_option (set_mode 0) (node_at F l) = map_option (set_mode 0) (node_at G l)"
    unfolding same_shape_def by blast
  show thesis
  proof (cases "node_at F l")
    case None
    with e that(1) show ?thesis by simp
  next
    case (Some n)
    with e obtain n' where "node_at G l = Some n'" "set_mode 0 n = set_mode 0 n'" by (cases "node_at G l") auto
    with Some that show ?thesis by (cases n; cases n') (auto simp: set_mode_def)
  qed
qed

lemma walk_same_shape: "same_shape F G \<Longrightarrow> walk F n follow cur ws = walk G n follow cur ws"
proof (induction F n follow cur ws rule: walk.induct)
  case (2 F n follow cur w ws)
  show ?case
  proof (cases "w = ''..''")
    case True
    with 2 show ?thesis by simp
  next
    case False
    from "2.prems" show ?thesis
      by (cases rule: same_shape_cases [of F G "cur @ [w]"]) (use 2 False in \<open>auto split: nat.split\<close>)
  qed
qed simp

lemma chmod_same_shape: "chmod p m F = (r, G) \<Longrightarrow> same_shape F G"
proof -
  assume a: "chmod p m F = (r, G)"
  have s: "set_mode 0 (set_mode m n) = set_mode 0 n" for n by (cases n) (simp_all add: set_mode_def)
  show ?thesis
  proof (cases "lookup F True p")
    case (Inr ln)
    obtain l n where ln: "ln = (l, n)" by (cases ln)
    with Inr have nl: "node_at F l = Some n" by (auto simp: lookup_def split: sum.splits option.splits)
    from a Inr ln have "G = F \<or> G = put_node F l (set_mode m n)" by (auto simp: chmod_def change_def split: if_splits)
    then show ?thesis using nl s by (auto simp: same_shape_def)
  qed (use a in \<open>simp add: chmod_def same_shape_def\<close>)
qed

text \<open>What a successful \<open>mkdir\<close> leaves is a directory.\<close>

lemma walk_follow: "walk F n False cur ws = Ok l \<Longrightarrow> (\<And>t. node_at F l \<noteq> Some (Lnk t)) \<Longrightarrow> walk F n True cur ws = Ok l"
proof (induction F n False cur ws rule: walk.induct)
  case (2 F n cur w ws)
  show ?case
  proof (cases "w = ''..''")
    case True
    with 2 show ?thesis by simp
  next
    case False
    show ?thesis
    proof (cases "node_at F (cur @ [w])")
      case (Some nd)
      with 2 False show ?thesis by (cases nd) (auto split: if_splits nat.splits)
    qed (use 2 False in auto)
  qed
qed simp

lemma os_mkdir_dir: "os_mkdir p F = (Ok x, G) \<Longrightarrow> is_dir G p"
proof -
  assume a: "os_mkdir p F = (Ok x, G)"
  then obtain l where l: "locate F False p = Ok l" "node_at F l = None" "G = put_node F l (Dir 493)"
    by (auto simp: os_mkdir_def change_def split: sum.splits if_splits)
  then have ne: "l \<noteq> []" by auto
  have "walk F link_limit True [] (p_names p) = Ok l"
    using walk_follow [of F link_limit "[]" "p_names p" l] l(1,2) by (simp add: locate_def)
  then have "walk G link_limit True [] (p_names p) = Ok l"
    by (rule walk_grown [OF adds_grown [OF os_mkdir_adds [OF a]]]) (use l(3) ne in simp)
  then show ?thesis using l(3) ne by (simp add: is_dir_def stat_def lookup_def locate_def)
qed

lemma mkdir_parents_dir: "mkdir_parents p F = (Ok x, G) \<Longrightarrow> is_dir G p"
  by (subst (asm) mkdir_parents.simps)
    (auto split: prod.splits sum.splits exn.splits if_splits dest: os_mkdir_dir)

end
