(* ===== verification/ZpipProps.thy ===== *)
theory ZpipProps
  imports ZpipFront Confine
begin

text \<open>
  Properties of the package manager: names, the database file, the download, the checked
  extraction, uninstalling, search results, exit codes and the errors that reach the caller.
\<close>

section \<open>Package names\<close>

lemma collapse_chars: "c \<in> set (collapse q s) \<Longrightarrow> c = CHR ''-'' \<or> (c \<in> set s \<and> \<not> name_sep c)"
  by (induction q s rule: collapse.induct) (auto split: if_splits)

fun single_dashes :: "bool \<Rightarrow> string \<Rightarrow> bool" where
  "single_dashes q [] = True"
| "single_dashes q (c # s) = (if name_sep c then c = CHR ''-'' \<and> \<not> q \<and> single_dashes True s else single_dashes False s)"

lemma collapse_single: "single_dashes q (collapse q s)"
  by (induction q s rule: collapse.induct) (auto simp: name_sep_def)

lemma collapse_fixed: "single_dashes q s \<Longrightarrow> collapse q s = s"
  by (induction q s rule: single_dashes.induct) (auto split: if_splits)

lemma length_collapse: "length (collapse q s) \<le> length s"
  by (induction q s rule: collapse.induct) auto

definition lower_alnum :: "char \<Rightarrow> bool" where
  "lower_alnum c \<longleftrightarrow> alnum c \<and> lower_char c = c"

lemma alnum_lower: "alnum c \<Longrightarrow> lower_alnum (lower_char c)"
  by (auto simp: alnum_def lower_alnum_def lower_char_def Let_def)

lemma alnum_not_sep: "alnum c \<Longrightarrow> \<not> name_sep c"
  by (auto simp: alnum_def name_sep_def)

lemma alnum_not_space: "alnum c \<Longrightarrow> \<not> char_space c"
  by (auto simp: alnum_def char_space_def py_space_def Let_def)

lemma sep_facts: "name_sep c \<Longrightarrow> lower_char c = c" "name_sep c \<Longrightarrow> \<not> char_space c"
  by (auto simp: name_sep_def lower_char_def char_space_def py_space_def)

definition canonical :: "string \<Rightarrow> bool" where
  "canonical p \<longleftrightarrow> p \<noteq> '''' \<and> lower_alnum (hd p) \<and> list_all (\<lambda>c. lower_alnum c \<or> c = CHR ''-'') p
     \<and> single_dashes False p \<and> length p \<le> 128"

lemma strip_by_id: "(\<And>c. c \<in> set s \<Longrightarrow> \<not> sp c) \<Longrightarrow> strip_by sp s = s"
proof -
  assume a: "\<And>c. c \<in> set s \<Longrightarrow> \<not> sp c"
  have "dropWhile sp t = t" if "set t = set s" for t
    using a that hd_in_set [of t] by (auto simp: dropWhile_eq_self_iff)
  then show ?thesis by (simp add: strip_by_def)
qed

lemma canonicalize_canonical: "canonicalize nm = Ok p \<Longrightarrow> canonical p"
proof -
  assume a: "canonicalize nm = Ok p"
  define t where "t = str_strip nm"
  from a have v: "valid_name t" and p: "p = collapse False (lower t)"
    by (auto simp: canonicalize_def t_def split: if_splits)
  from v obtain c cs where t: "t = c # cs" "alnum c" "list_all (\<lambda>d. alnum d \<or> name_sep d) cs" "length cs \<le> 127"
    by (auto simp: valid_name_def split: list.splits)
  have c: "\<not> name_sep (lower_char c)" "lower_alnum (lower_char c)"
    using alnum_lower [OF t(2)] alnum_not_sep by (auto simp: lower_alnum_def)
  have hd: "p = lower_char c # collapse False (lower cs)" using p t c by (simp add: lower_def)
  have "lower_alnum d \<or> d = CHR ''-''" if "d \<in> set p" for d
  proof -
    from that p have "d = CHR ''-'' \<or> (d \<in> set (lower t) \<and> \<not> name_sep d)" by (auto dest: collapse_chars)
    then show ?thesis using t by (auto simp: lower_def list_all_iff sep_facts dest: alnum_lower)
  qed
  moreover have "length p \<le> 128" using length_collapse [of False "lower t"] t p by (simp add: lower_def)
  ultimately show ?thesis using hd c p by (simp add: canonical_def list_all_iff collapse_single)
qed

lemma canonical_fixed: "canonical p \<Longrightarrow> canonicalize p = Ok p"
proof -
  assume c: "canonical p"
  have ch: "\<not> char_space d \<and> lower_char d = d \<and> (alnum d \<or> name_sep d)" if "d \<in> set p" for d
    using that c sep_facts [of "CHR ''-''"]
    by (auto simp: canonical_def list_all_iff lower_alnum_def alnum_not_space name_sep_def)
  then have "str_strip p = p" "lower p = p"
    by (auto simp: str_strip_def strip_by_id lower_def intro: map_idI)
  moreover have "valid_name p"
    using c ch by (cases p) (auto simp: valid_name_def canonical_def list_all_iff lower_alnum_def)
  ultimately show ?thesis using c by (simp add: canonicalize_def canonical_def collapse_fixed)
qed

text \<open>
  An accepted package name is brought to its canonical form: it starts with a lower-case
  letter or digit, holds only those and single dashes, is at most 128 characters long, and is
  its own canonical form, so two names are the same package exactly when their forms agree.
\<close>

theorem canonicalize_normal_form:
  assumes "canonicalize nm = Ok p"
  shows "p \<noteq> '''' \<and> lower_alnum (hd p) \<and> list_all (\<lambda>c. lower_alnum c \<or> c = CHR ''-'') p
     \<and> single_dashes False p \<and> length p \<le> 128 \<and> canonicalize p = Ok p"
  using canonicalize_canonical [OF assms] canonical_fixed [of p] by (simp add: canonical_def)

theorem canonicalize_normal_form_witness:
  "canonicalize '' zope.interface__x'' = Ok ''zope-interface-x'' \<and> canonicalize ''zope-interface-x'' = Ok ''zope-interface-x''"
proof -
  have e: "canonicalize '' zope.interface__x'' = Ok ''zope-interface-x''"
    by (simp add: canonicalize_def str_strip_def strip_by_def valid_name_def alnum_def name_sep_def lower_def lower_char_def
        char_space_def py_space_def Let_def)
  from canonicalize_normal_form [OF e] e show ?thesis by simp
qed

section \<open>The installed database\<close>

lemma lookup_at:
  "plain F (p_names p) \<Longrightarrow> node_at F (p_names p) = Some (Reg c m) \<Longrightarrow> lookup F follow p = Ok (p_names p, Reg c m)"
  using walk_plain [of F "[]" "p_names p" follow link_limit] by (simp add: lookup_def locate_def)

lemma locate_at:
  "plain F (p_names p) \<Longrightarrow> (\<And>t. node_at F (p_names p) \<noteq> Some (Lnk t)) \<Longrightarrow> locate F follow p = Ok (p_names p)"
  using walk_plain [of F "[]" "p_names p" follow link_limit] by (simp add: locate_def)

lemma plain_put:
  "plain F l \<Longrightarrow> node_at F k = None \<or> (\<exists>c m. node_at F k = Some (Reg c m)) \<Longrightarrow> plain (put_node F k n) l"
  by (auto simp: plain_def)

text \<open>The directory of the database is a plain one and its two files are no links.\<close>

definition db_ready :: "zpip \<Rightarrow> fsys \<Rightarrow> bool" where
  "db_ready Z F \<longleftrightarrow> plain F (p_names (DB_FILE Z)) \<and>
     (\<forall>p \<in> {DB_FILE Z, DB_TEMP Z}. \<forall>t. node_at F (p_names p) \<noteq> Some (Lnk t))"

lemma db_names:
  "p_names (DB_FILE Z) = p_names (zp_installed Z) @ [''packages.json'']"
  "p_names (DB_TEMP Z) = p_names (zp_installed Z) @ [''packages.tmp'']"
  by (simp_all add: DB_FILE_def DB_TEMP_def good_name_def)

lemma plain_sibling: "plain F (l @ [v]) \<Longrightarrow> w \<noteq> ''..'' \<Longrightarrow> plain F (l @ [w])"
  by (auto simp: plain_def strict_prefix_def prefix_snoc)

lemma mkdir_parents_exists:
  assumes "plain F (p_names p)" "node_at F (p_names p) = Some (Dir m)"
  shows "mkdir_parents p F = (Ok (), F)"
proof -
  have l: "locate F fl p = Ok (p_names p)" for fl using assms by (intro locate_at) auto
  then have "os_mkdir p F = (Err (OSError ''File exists''), F)" "is_dir F p"
    using assms by (simp_all add: os_mkdir_def is_dir_def stat_def lookup_def)
  then show ?thesis by (simp add: mkdir_parents.simps [of p])
qed

lemma db_ready_facts:
  assumes "db_ready Z F"
  shows "mkdir_parents (zp_installed Z) F = (Ok (), F)"
    and "locate F fl (DB_TEMP Z) = Ok (p_names (DB_TEMP Z))" and "locate F fl (DB_FILE Z) = Ok (p_names (DB_FILE Z))"
proof -
  from assms have p: "plain F (p_names (DB_FILE Z))" "plain F (p_names (DB_TEMP Z))"
    by (auto simp: db_ready_def db_names intro: plain_sibling)
  then show "locate F fl (DB_TEMP Z) = Ok (p_names (DB_TEMP Z))" "locate F fl (DB_FILE Z) = Ok (p_names (DB_FILE Z))"
    using assms by (auto simp: db_ready_def intro!: locate_at)
  from p(1) obtain m where "plain F (p_names (zp_installed Z))" "node_at F (p_names (zp_installed Z)) = Some (Dir m)"
    by (auto simp: db_names dest: plain_prefixD)
  then show "mkdir_parents (zp_installed Z) F = (Ok (), F)" by (rule mkdir_parents_exists)
qed

lemma db_ready_put_temp:
  "db_ready Z F \<Longrightarrow> node_at F (p_names (DB_TEMP Z)) = None \<or> (\<exists>c m. node_at F (p_names (DB_TEMP Z)) = Some (Reg c m)) \<Longrightarrow>
     db_ready Z (put_node F (p_names (DB_TEMP Z)) (Reg c m))"
  by (auto simp: db_ready_def db_names plain_put)

lemma load_db_cong:
  assumes "db_ready Z F" "db_ready Z G" "node_at G (p_names (DB_FILE Z)) = node_at F (p_names (DB_FILE Z))"
  shows "fst (load_db Z G) = fst (load_db Z F)"
proof -
  have "read_text (DB_FILE Z) G = (fst (read_text (DB_FILE Z) F), G)" "read_text (DB_FILE Z) F = (fst (read_text (DB_FILE Z) F), F)"
    using assms by (simp_all add: read_text_def lookup_def db_ready_facts split: option.splits node.splits content.splits)
  then show ?thesis
    by (cases "fst (read_text (DB_FILE Z) F)")
      (simp_all add: load_db_def try_io_def bind_io_def lift_def split: sum.splits)
qed

text \<open>The write of the temporary file, and the rename.\<close>

lemma write_temp:
  assumes r: "db_ready Z F" and w: "write_text (DB_TEMP Z) s F = (r, F1)"
  shows "(F1 = F \<and> r \<noteq> Ok ()) \<or> (r = Ok () \<and> db_ready Z F1 \<and> (\<exists>m. F1 = put_node F (p_names (DB_TEMP Z)) (Reg (Text s) m)))"
proof -
  have l: "locate F True (DB_TEMP Z) = Ok (p_names (DB_TEMP Z))" by (rule db_ready_facts [OF r])
  show ?thesis
  proof (cases "node_at F (p_names (DB_TEMP Z))")
    case None
    with w l db_ready_put_temp [OF r] show ?thesis
      by (auto simp: write_text_def write_content_def change_def split: if_splits)
  next
    case (Some n)
    with w l db_ready_put_temp [OF r] show ?thesis
      by (cases n) (auto simp: write_text_def write_content_def change_def split: if_splits)
  qed
qed

lemma rename_temp:
  assumes r: "db_ready Z F" and n: "node_at F (p_names (DB_TEMP Z)) = Some (Reg (Text s) m)"
    and o: "os_replace (DB_TEMP Z) (DB_FILE Z) F = (q, F')"
  shows "(F' = F \<and> q \<noteq> Ok ()) \<or> (q = Ok () \<and> db_ready Z F' \<and> node_at F' (p_names (DB_FILE Z)) = Some (Reg (Text s) m))"
proof -
  let ?s = "p_names (DB_TEMP Z)" and ?d = "p_names (DB_FILE Z)"
  have np: "\<not> prefix ?s ?d" "\<not> prefix ?d ?s" "?s \<noteq> ?d" by (simp_all add: db_names)
  have l: "lookup F False (DB_TEMP Z) = Ok (?s, Reg (Text s) m)" "locate F False (DB_FILE Z) = Ok ?d"
    using n by (simp_all add: lookup_def db_ready_facts [OF r])
  let ?G = "move_tree F ?s ?d"
  have d: "node_at ?G ?d = Some (Reg (Text s) m)"
    using node_at_move(1) [OF np(1,2), of ?d F] n by simp
  have pre: "node_at ?G k = node_at F k" if "strict_prefix k ?d" for k
  proof (rule node_at_move(3) [OF np(1,2)])
    from that have "prefix k (p_names (zp_installed Z))" by (auto simp: db_names strict_prefix_def prefix_snoc)
    then show "\<not> prefix ?d k" "\<not> prefix ?s k" by (fastforce simp: db_names dest: prefix_length_le)+
  qed
  have t: "node_at ?G ?s = None" using node_at_move(2) [OF np(1,2), of ?s F] np by simp
  have "db_ready Z ?G" using r pre d t by (auto simp: db_ready_def plain_def)
  with d o l np show ?thesis
    by (auto simp: os_replace_def split: if_splits option.splits node.splits)
qed

text \<open>
  C22: Saving the database is atomic: when \<open>_save_db\<close> succeeds, loading gives back exactly the
  saved packages (with sorted keys); when any step of it fails, loading still gives what it gave
  before.
\<close>

theorem save_db_atomic:
  assumes "db_ready Z F" "json_plain (PDict db)" "save_db Z db F = (r, F')"
  shows "case r of
      Ok _ \<Rightarrow> load_db Z F' = (Ok (dict_items (sort_keys (PDict db))), F')
    | Err e \<Rightarrow> fst (load_db Z F') = fst (load_db Z F)"
proof -
  let ?t = "json_dump_sorted (PDict db)"
  obtain r1 F1 where w: "write_text (DB_TEMP Z) ?t F = (r1, F1)" by fastforce
  obtain q G where o: "os_replace (DB_TEMP Z) (DB_FILE Z) F1 = (q, G)" by fastforce
  from write_temp [OF assms(1) w] show ?thesis
  proof (elim disjE conjE exE)
    assume "F1 = F" "r1 \<noteq> Ok ()"
    with assms(3) w show ?thesis
      by (cases r1) (auto simp: save_db_def seq_io_def bind_io_def db_ready_facts [OF assms(1)])
  next
    fix m assume F1: "r1 = Ok ()" "db_ready Z F1" "F1 = put_node F (p_names (DB_TEMP Z)) (Reg (Text ?t) m)"
    then have e: "save_db Z db F = (q, G)" using w o
      by (auto simp: save_db_def seq_io_def bind_io_def db_ready_facts [OF assms(1)])
    have n: "node_at F1 (p_names (DB_TEMP Z)) = Some (Reg (Text ?t) m)" using F1(3) by (simp add: db_names)
    from rename_temp [OF F1(2) n o] show ?thesis
    proof (elim disjE conjE)
      assume "G = F1" "q \<noteq> Ok ()"
      moreover have "fst (load_db Z F1) = fst (load_db Z F)"
        using F1 assms(1) by (intro load_db_cong) (simp_all add: db_names)
      ultimately show ?thesis using e assms(3) by (cases q) auto
    next
      assume q: "q = Ok ()" "db_ready Z G" "node_at G (p_names (DB_FILE Z)) = Some (Reg (Text ?t) m)"
      then have "read_text (DB_FILE Z) G = (Ok ?t, G)" by (simp add: read_text_def lookup_def db_ready_facts)
      then have "load_db Z G = (Ok (dict_items (sort_keys (PDict db))), G)"
        by (simp add: load_db_def try_io_def bind_io_def lift_def json_dump_sorted_round_trip [OF assms(2)])
      then show ?thesis using e q assms(3) by auto
    qed
  qed
qed

section \<open>Download\<close>

lemma show_due_table: "show_due k n F = (Ok y, F') \<Longrightarrow> lookup F' fl p = lookup F fl p"
  and show_last_table: "show_last k n F = (Ok y, F') \<Longrightarrow> lookup F' fl p = lookup F fl p"
  by (auto simp: show_due_def show_last_def emit_def lookup_log split: option.splits prod.splits)

lemma wheel_loop_Ok:
  "wheel_loop k p cs fin acc F = (Ok d, F') \<Longrightarrow> holds_bytes F p acc \<Longrightarrow> length acc \<le> MAX_WHEEL_BYTES \<Longrightarrow>
     d = acc @ concat (takeWhile (\<lambda>c. c \<noteq> []) cs) \<and> length d \<le> MAX_WHEEL_BYTES \<and> holds_bytes F' p d"
proof (induction cs arbitrary: acc F)
  case Nil
  then show ?case by (auto split: option.splits)
next
  case (Cons c cs)
  show ?case
  proof (cases "c = []")
    case True
    with Cons.prems show ?thesis by auto
  next
    case False
    with Cons.prems have len: "length (acc @ c) \<le> MAX_WHEEL_BYTES" by (auto split: if_splits)
    with Cons.prems(1) False obtain x F1 y F2 where
      w: "write_content p (Binary (acc @ c)) F = (Ok x, F1)"
      and t: "show_due k (length acc + length c) F1 = (Ok y, F2)"
      and r: "wheel_loop k p cs fin (acc @ c) F2 = (Ok d, F')"
      by (auto simp: seq_Ok)
    have "holds_bytes F2 p (acc @ c)"
      using write_holds [OF w] show_due_table [OF t] by (simp add: holds_bytes_def)
    from Cons.IH [OF r this len] have "d = (acc @ c) @ concat (takeWhile (\<lambda>c. c \<noteq> []) cs)"
      "length d \<le> MAX_WHEEL_BYTES" "holds_bytes F' p d" by blast+
    with False show ?thesis by simp
  qed
qed

lemma fetch_wheel_Ok:
  assumes "fetch_wheel Z k url p F = (Ok d, F')"
  shows "\<exists>r. zp_fetch Z url = Ok r \<and> d = concat (takeWhile (\<lambda>c. c \<noteq> []) (rp_chunks r))
    \<and> length d \<le> MAX_WHEEL_BYTES \<and> holds_bytes F' p d"
proof -
  from assms obtain r n x F1 where r: "zp_fetch Z url = Ok r" "rp_announced r = Ok n"
    "write_content p (Binary []) F = (Ok x, F1)" "wheel_loop k p (rp_chunks r) (rp_end r) [] F1 = (Ok d, F')"
    by (auto simp: fetch_wheel_def seq_Ok split: sum.splits if_splits)
  from wheel_loop_Ok [OF r(4) write_holds [OF r(3)]] r(1) show ?thesis by auto
qed

text \<open>
  C15: An accepted wheel is the one the manifest names: it comes from an HTTPS URL, has at most
  100 MiB, its SHA-256 digest is the expected one, and the file on disk holds exactly the bytes
  that were hashed.
\<close>

theorem accepted_wheel_is_pinned:
  assumes "download_wheel Z k url expected p F = (Ok (n, digest), F')"
  shows "startswith url ''https://'' \<and> digest = expected \<and> n \<le> 100 * 1024 * 1024 \<and>
    (\<exists>r d. zp_fetch Z url = Ok r \<and> d = concat (takeWhile (\<lambda>c. c \<noteq> []) (rp_chunks r)) \<and> length d = n \<and>
       to_hex (sha256 d) = expected \<and> holds_bytes F' p d)"
proof -
  from assms obtain d F1 x where u: "startswith url ''https://''" and d: "fetch_wheel Z k url p F = (Ok d, F1)"
    "show_last k (length d) F1 = (Ok x, F')" "to_hex (sha256 d) = expected" "n = length d" "digest = expected"
    by (auto simp: download_wheel_def bind_Ok seq_Ok Let_def split: if_splits)
  from fetch_wheel_Ok [OF d(1)] show_last_table [OF d(2)] u d(3-5) show ?thesis
    by (auto simp: holds_bytes_def MAX_WHEEL_BYTES_def)
qed

section \<open>Checked extraction\<close>

definition sound_member :: "zmember \<Rightarrow> bool" where
  "sound_member m \<longleftrightarrow> zm_size m \<le> MAX_WHEEL_BYTES \<and> \<not> is_absolute (to_path (zm_name m))
     \<and> ''..'' \<notin> set (path_parts (to_path (zm_name m)))"

lemma wheel_members_Cons:
  assumes "wheel_members seen tot (m # infolist) = Ok ms"
  shows "wheel_members seen tot infolist = Ok ms \<or>
    (\<exists>ks. ms = m # ks \<and> wheel_members (zm_name m # seen) (tot + zm_size m) infolist = Ok ks \<and> sound_member m
       \<and> tot + zm_size m \<le> MAX_WHEEL_BYTES * 3 \<and> zm_name m \<notin> set seen)"
  using assms by (auto simp: Let_def map_r_Ok not_less sound_member_def split: if_splits)

lemma wheel_members_Ok:
  "wheel_members seen tot infolist = Ok ms \<Longrightarrow> tot \<le> MAX_WHEEL_BYTES * 3 \<Longrightarrow>
     subseq ms infolist \<and> distinct (map zm_name ms) \<and> set (map zm_name ms) \<inter> set seen = {} \<and>
     tot + sum_list (map zm_size ms) \<le> MAX_WHEEL_BYTES * 3 \<and> list_all sound_member ms"
proof (induction infolist arbitrary: seen tot ms)
  case (Cons m infolist)
  from wheel_members_Cons [OF Cons.prems(1)] show ?case
  proof (elim disjE exE conjE)
    assume "wheel_members seen tot infolist = Ok ms"
    from Cons.IH [OF this Cons.prems(2)] show ?thesis by (auto intro: list_emb_Cons)
  next
    fix ks assume k: "ms = m # ks" "wheel_members (zm_name m # seen) (tot + zm_size m) infolist = Ok ks"
      "sound_member m" "tot + zm_size m \<le> MAX_WHEEL_BYTES * 3" "zm_name m \<notin> set seen"
    from Cons.IH [OF k(2,4)] k(1,3,5) show ?thesis by auto
  qed
qed simp

text \<open>
  C23: What the wheel checker lets through is bounded and safe to unpack: members keep their
  order, names are distinct, relative and free of \<open>..\<close>, no member declares more than 100 MiB and
  all together at most 300 MiB, and a \<open>WHEEL\<close> and a \<open>RECORD\<close> file are among them.
\<close>

theorem checked_members_bounded:
  assumes "checked_members infolist = Ok ms"
  shows "subseq ms infolist \<and> distinct (map zm_name ms) \<and> sum_list (map zm_size ms) \<le> 3 * (100 * 1024 * 1024) \<and>
    list_all (\<lambda>m. zm_size m \<le> 100 * 1024 * 1024 \<and> \<not> is_absolute (to_path (zm_name m))
        \<and> ''..'' \<notin> set (path_parts (to_path (zm_name m)))) ms \<and>
    list_ex (\<lambda>m. endswith (zm_name m) ''.dist-info/WHEEL'') ms \<and> list_ex (\<lambda>m. endswith (zm_name m) ''.dist-info/RECORD'') ms"
proof -
  from assms have w: "wheel_members [] 0 infolist = Ok ms" and e: "list_ex (\<lambda>m. endswith (zm_name m) ''.dist-info/WHEEL'') ms"
      "list_ex (\<lambda>m. endswith (zm_name m) ''.dist-info/RECORD'') ms"
    by (auto simp: checked_members_def bind_r_Ok split: if_splits)
  from wheel_members_Ok [OF w] e show ?thesis by (simp add: list_all_iff sound_member_def MAX_WHEEL_BYTES_def)
qed

text \<open>
  Every location an extraction changes is comparable with the resolved staging directory: below
  it, or one of its ancestors that \<open>mkdir\<close> had to make.
\<close>

definition near :: "path \<Rightarrow> loc \<Rightarrow> bool" where
  "near base l \<longleftrightarrow> prefix (p_names base) l \<or> prefix l (p_names base)"

lemma near_below: "prefix (p_names base) d \<Longrightarrow> prefix l d \<Longrightarrow> near base l"
  unfolding near_def by (rule prefix_same_cases)

lemma fill_touches:
  assumes lf: "link_free F (p_names dest)" and b: "prefix (p_names base) (p_names dest)"
    and run: "(case src of Err e \<Rightarrow> raise e
      | Ok (data, fin) \<Rightarrow> seq_io (write_content dest (content_of_bytes data))
            (case fin of None \<Rightarrow> ret () | Some e \<Rightarrow> raise e)) F = (r, F')"
  shows "touches (near base) F F'"
proof (cases src)
  case (Inl e)
  with run show ?thesis by simp
next
  case (Inr df)
  obtain data fin where df: "df = (data, fin)" by (cases df)
  have w: "touches (near base) F H" if "write_content dest c F = (q, H)" for c q H
    by (rule write_content_touches [OF lf that]) (use b in \<open>simp add: near_def\<close>)
  from df Inr run have "seq_io (write_content dest (content_of_bytes data))
    (case fin of None \<Rightarrow> ret () | Some e \<Rightarrow> raise e) F = (r, F')" by simp
  then show ?thesis by (rule seq_io_touches) (auto intro: w split: option.splits)
qed

lemma extract_one_touches:
  assumes "extract_one staging base m F = (r, F')"
  shows "touches (near base) F F'"
proof (cases "resolve_path F (child staging (zm_name m))")
  case (Inl e)
  with assms show ?thesis by (simp add: extract_one_def bind_io_def resolve_io_def lift_def)
next
  case (Inr dest)
  then have lf: "link_free F (p_names dest)" by (auto dest: resolve_link_free)
  show ?thesis
  proof (cases "dest \<noteq> base \<and> \<not> under base dest")
    case True
    with assms Inr show ?thesis by (simp add: extract_one_def bind_io_def resolve_io_def lift_def)
  next
    case False
    then have b: "prefix (p_names base) (p_names dest)" by (auto simp: under_def)
    from assms Inr False have "seq_io (mkdir_parents (parent_path dest))
         (case zm_source m of Err e \<Rightarrow> raise e
          | Ok (data, fin) \<Rightarrow> seq_io (write_content dest (content_of_bytes data))
                (case fin of None \<Rightarrow> ret () | Some e \<Rightarrow> raise e)) F = (r, F')"
      by (simp add: extract_one_def bind_io_def resolve_io_def lift_def)
    moreover have mk: "touches (near base) F G" if m: "mkdir_parents (parent_path dest) F = (q, G)" for q G
      by (rule mkdir_parents_touches [OF _ m])
        (use lf b in \<open>auto simp: parent_path_def link_free_butlast
           intro: near_below [OF b] prefix_order.trans [OF _ prefixeq_butlast]\<close>)
    ultimately show ?thesis
      by (rule seq_io_touches) (blast intro: fill_touches [OF link_free_touches [OF mk lf] b])+
  qed
qed

text \<open>
  C16: Unpacking a wheel stays inside the staging directory, whatever the archive's names and
  whatever links exist: no location outside the resolved staging directory changes (apart from
  its own missing ancestors), and no symbolic link appears anywhere.
\<close>

theorem extraction_confined:
  assumes "extract_wheel unzip wheel staging F = (r, F')" "resolve_path F staging = Ok base"
  shows "(\<not> prefix (p_names base) l \<longrightarrow> \<not> prefix l (p_names base) \<longrightarrow> node_at F' l = node_at F l)
    \<and> (node_at F' l = Some (Lnk t) \<longrightarrow> node_at F l = Some (Lnk t))"
proof -
  have "touches (near base) F F'"
  proof (cases "fst (read_bytes wheel F)")
    case (Inl e)
    then have "read_bytes wheel F = (Err e, F)"
      by (auto simp: read_bytes_def read_content_def bind_io_def split: sum.splits node.splits prod.splits)
    with assms show ?thesis by (simp add: extract_wheel_def bind_io_def)
  next
    case (Inr bs)
    then have rb: "read_bytes wheel F = (Ok bs, F)"
      by (auto simp: read_bytes_def read_content_def bind_io_def split: sum.splits node.splits prod.splits)
    show ?thesis
    proof (cases "bind_r (unzip bs) checked_members")
      case (Inl e)
      with assms rb show ?thesis by (simp add: extract_wheel_def bind_io_def lift_def)
    next
      case (Inr ms)
      with assms rb have "seq_io (each_io (extract_one staging base) ms) (ret (map zm_name ms)) F = (r, F')"
        by (simp add: extract_wheel_def bind_io_def lift_def resolve_io_def)
      moreover have "touches (near base) G H" if "each_io (extract_one staging base) ms G = (q, H)" for q G H
        by (rule each_io_touches [where I = "\<lambda>_. True", OF _ _ _ that]) (auto dest: extract_one_touches)
      ultimately show ?thesis by (rule seq_io_touches) simp_all
    qed
  qed
  then show ?thesis unfolding touches_def near_def by blast
qed

section \<open>Uninstalling\<close>

lemma realpath_of_link_free: "link_free F (cur @ ws) \<Longrightarrow> realpath F n cur ws = Ok (cur @ ws)"
proof (induction ws arbitrary: cur)
  case (Cons w ws)
  from Cons.prems have w: "w \<noteq> ''..''" by (auto simp: link_free_def)
  have "node_at F (cur @ [w]) \<noteq> Some (Lnk t)" for t
    using Cons.prems by (simp add: link_free_def)
  with Cons.IH [of "cur @ [w]"] Cons.prems w show ?case by (auto split: option.splits node.splits)
qed simp

lemma resolve_of_link_free: "link_free F (p_names p) \<Longrightarrow> resolve_path F p = Ok (Path ''/'' (p_names p))"
  using realpath_of_link_free [of F "[]" "p_names p" link_limit] by (simp add: resolve_path_def)

abbreviation (input) below :: "path \<Rightarrow> loc \<Rightarrow> bool" where
  "below p l \<equiv> strict_prefix (p_names p) l"

lemma remove_file_touches:
  assumes "link_free F (p_names (zp_user Z))" "remove_file Z v n F = (r, F')"
  shows "touches (below (zp_user Z)) F F'"
proof (cases "as_str v")
  case (Inl e)
  with assms show ?thesis by (simp add: remove_file_def bind_io_def lift_def)
next
  case (Inr rel)
  show ?thesis
  proof (cases "resolve_path F (child (zp_user Z) rel)")
    case (Inl e)
    with assms Inr show ?thesis by (simp add: remove_file_def bind_io_def lift_def resolve_io_def)
  next
    case t: (Inr target)
    have k: "(if under (Path ''/'' (p_names (zp_user Z))) target \<and> is_file F target
          then seq_io (unlink target) (ret (Suc n)) else ret n) F = (r, F')"
      using assms Inr t resolve_of_link_free [OF assms(1)] by (simp add: remove_file_def bind_io_def lift_def resolve_io_def)
    show ?thesis
    proof (cases "under (Path ''/'' (p_names (zp_user Z))) target \<and> is_file F target")
      case True
      then have u: "below (zp_user Z) (p_names target)" by (simp add: under_def)
      have way: "way_free F (p_names target)" using t by (auto dest: resolve_link_free intro: link_free_way)
      from True k have "seq_io (unlink target) (ret (Suc n)) F = (r, F')" by simp
      then show ?thesis
      proof (rule seq_io_touches)
        show "touches (below (zp_user Z)) F G" if "unlink target F = (q, G)" for q G
          by (rule unlink_touches [OF way that]) (rule prefix_order.less_le_trans [OF u])
      qed simp
    next
      case False
      with k show ?thesis by (simp split: if_splits)
    qed
  qed
qed

lemma remove_files_touches:
  "link_free F (p_names (zp_user Z)) \<Longrightarrow> remove_files Z vs n F = (r, F') \<Longrightarrow> touches (below (zp_user Z)) F F'"
proof (induction vs arbitrary: n F)
  case (Cons v vs)
  from Cons.prems(2) have "bind_io (remove_file Z v n) (remove_files Z vs) F = (r, F')" by simp
  then show ?case
  proof (rule bind_io_touches)
    show "touches (below (zp_user Z)) F G" if "remove_file Z v n F = (q, G)" for q G
      using that by (rule remove_file_touches [OF Cons.prems(1)])
    show "touches (below (zp_user Z)) G F'" if "remove_file Z v n F = (Ok x, G)" "remove_files Z vs x G = (r, F')" for x G
      using Cons.IH [OF _ that(2)] link_free_touches [OF remove_file_touches [OF Cons.prems(1) that(1)] Cons.prems(1)] .
  qed
qed simp

lemma rglob_ways:
  assumes lf: "link_free F (p_names q)" and p: "p \<in> set (rglob q F)"
  shows "way_free F (p_names p) \<and> below q (p_names p)"
proof -
  from p obtain l m where l: "lookup F True q = Ok (l, Dir m)"
    by (auto simp: rglob_def split: sum.splits node.splits prod.splits dest: sym)
  then have "locate F True q = Ok l" by (auto simp: lookup_def split: sum.splits option.splits)
  with lf have lq: "l = p_names q" by (rule locate_free)
  from p l obtain k where k: "inside_dirs F l k" "p_names p = l @ drop (length l) k"
    by (auto simp: rglob_def lq)
  then have pk: "p_names p = k" by (auto simp: inside_dirs_def strict_prefix_def prefix_def)
  have "node_at F j \<noteq> Some (Lnk t)" if j: "strict_prefix j k" for j t
  proof (cases "length l \<le> length j")
    case True
    from j have "j = take (length j) k" "length j < length k"
      by (auto simp: strict_prefix_def prefix_def)
    with True k(1) have "case node_at F j of Some (Dir m) \<Rightarrow> True | _ \<Rightarrow> False"
      unfolding inside_dirs_def list_all_iff by (metis atLeastLessThan_iff set_upt)
    then show ?thesis by auto
  next
    case False
    from k(1) j have "prefix j l"
      using prefix_length_prefix [of j k l] False by (auto simp: inside_dirs_def strict_prefix_def)
    then show ?thesis using lf by (auto simp: link_free_def lq)
  qed
  moreover have "''..'' \<notin> set k"
  proof
    assume "''..'' \<in> set k"
    moreover have "k = l @ drop (length l) k" using k(1) by (auto simp: inside_dirs_def strict_prefix_def prefix_def)
    ultimately have "''..'' \<in> set l \<union> set (drop (length l) k)" by (metis set_append)
    then show False using k(1) lf by (auto simp: inside_dirs_def link_free_def lq)
  qed
  ultimately show ?thesis using k(1) pk lq by (simp add: way_free_def inside_dirs_def)
qed

lemma prune_touches:
  assumes lf: "link_free F (p_names q)" and e: "each_io prune_empty (deepest_first (rglob q F)) F = (r, F')"
  shows "touches (below q) F F'"
proof (rule each_io_touches [where I = "\<lambda>G. \<forall>p \<in> set (rglob q F). way_free G (p_names p)", OF _ _ _ e])
  show "\<forall>p \<in> set (rglob q F). way_free F (p_names p)" using rglob_ways [OF lf] by blast
  show "\<forall>p \<in> set (rglob q F). way_free H (p_names p)"
    if "\<forall>p \<in> set (rglob q F). way_free G (p_names p)" "touches (below q) G H" for G H
    using that way_free_touches by blast
  fix p G v H
  assume p: "p \<in> set (deepest_first (rglob q F))" and i: "\<forall>p \<in> set (rglob q F). way_free G (p_names p)"
    and s: "prune_empty p G = (v, H)"
  from p have p: "p \<in> set (rglob q F)" by (simp add: deepest_first_def)
  have "touches (below q) G K" if "rmdir p G = (w, K)" for w K
    by (rule rmdir_touches [OF _ that]) (use i p rglob_ways [OF lf p] in \<open>auto intro: prefix_order.less_le_trans\<close>)
  then show "touches (below q) G H"
    using s by (auto simp: prune_empty_def bind_io_def split: if_splits elim!: try_os_touches)
qed

text \<open>What saving the database can change, on a plain directory.\<close>

definition db_spot :: "zpip \<Rightarrow> loc \<Rightarrow> bool" where
  "db_spot Z l \<longleftrightarrow> prefix (p_names (DB_FILE Z)) l \<or> prefix (p_names (DB_TEMP Z)) l"

lemma save_db_spot:
  assumes r: "db_ready Z F" and s: "save_db Z d F = (q, F')" and l: "\<not> db_spot Z l"
  shows "node_at F' l = node_at F l"
proof -
  obtain r1 F1 where w: "write_text (DB_TEMP Z) (json_dump_sorted (PDict d)) F = (r1, F1)" by fastforce
  have np: "\<not> prefix (p_names (DB_TEMP Z)) (p_names (DB_FILE Z))" "\<not> prefix (p_names (DB_FILE Z)) (p_names (DB_TEMP Z))"
    by (simp_all add: db_names)
  from write_temp [OF r w] show ?thesis
  proof (elim disjE conjE exE)
    assume "F1 = F" "r1 \<noteq> Ok ()"
    with s w show ?thesis by (cases r1) (auto simp: save_db_def seq_io_def bind_io_def db_ready_facts [OF r])
  next
    fix m assume F1: "r1 = Ok ()" "db_ready Z F1"
      "F1 = put_node F (p_names (DB_TEMP Z)) (Reg (Text (json_dump_sorted (PDict d))) m)"
    then have o: "os_replace (DB_TEMP Z) (DB_FILE Z) F1 = (q, F')" using s w
      by (auto simp: save_db_def seq_io_def bind_io_def db_ready_facts [OF r])
    have l1: "node_at F1 l = node_at F l" using l F1(3) by (auto simp: db_spot_def)
    have "F' = F1 \<or> F' = move_tree F1 (p_names (DB_TEMP Z)) (p_names (DB_FILE Z))"
      using o db_ready_facts(2,3) [OF F1(2)]
      by (auto simp: os_replace_def lookup_def split: sum.splits option.splits node.splits if_splits)
    then show ?thesis using l l1 node_at_move(3) [OF np, of l F1] by (auto simp: db_spot_def)
  qed
qed

lemma db_ready_touches:
  assumes "db_ready Z F" "touches (below q) F F'" "\<not> prefix (p_names q) (p_names (zp_installed Z))"
  shows "db_ready Z F'"
proof -
  have same: "node_at F' k = node_at F k" if "prefix k (p_names (DB_FILE Z)) \<or> prefix k (p_names (DB_TEMP Z))" for k
  proof (rule touches_node [OF assms(2)])
    show "\<not> below q k"
      using assms(3) that by (auto simp: db_names prefix_snoc strict_prefix_def dest: prefix_order.trans prefix_order.antisym)
  qed
  then show ?thesis using assms(1) by (auto simp: db_ready_def plain_def strict_prefix_def)
qed

lemma load_db_same: "load_db Z F = (r, F') \<Longrightarrow> F' = F"
  by (auto simp: load_db_def try_io_def bind_io_def lift_def read_text_def split: sum.splits node.splits content.splits
      prod.splits if_splits)

text \<open>The part of \<open>uninstall\<close> that changes files: delete, prune, save.\<close>

lemma drop_files_spot:
  assumes "db_ready Z F" "link_free F (p_names (zp_user Z))"
    and "\<not> prefix (p_names (zp_user Z)) (p_names (zp_installed Z))"
    and run: "bind_io (remove_files Z files 0) (\<lambda>removed.
       bind_io (ask (\<lambda>F. deepest_first (rglob (zp_user Z) F))) (\<lambda>ps.
       seq_io (each_io prune_empty ps) (seq_io (save_db Z db) (ret (answer removed))))) F = (r, F')"
    and l: "\<not> strict_prefix (p_names (zp_user Z)) l" "\<not> db_spot Z l"
  shows "node_at F' l = node_at F l"
proof -
  obtain v H where rm: "remove_files Z files 0 F = (v, H)" by fastforce
  obtain w K where pr: "each_io prune_empty (deepest_first (rglob (zp_user Z) H)) H = (w, K)" by fastforce
  obtain z L where sv: "save_db Z db K = (z, L)" by fastforce
  have t1: "touches (below (zp_user Z)) F H" by (rule remove_files_touches [OF assms(2) rm])
  have t2: "touches (below (zp_user Z)) F K"
    by (rule touches_trans [OF t1 prune_touches [OF link_free_touches [OF t1 assms(2)] pr]])
  have "node_at L l = node_at K l"
    by (rule save_db_spot [OF db_ready_touches [OF assms(1) t2 assms(3)] sv l(2)])
  moreover have "F' = H \<or> F' = K \<or> F' = L"
    using run rm pr sv by (auto simp: bind_io_def seq_io_def split: sum.splits)
  ultimately show ?thesis using touches_node [OF t1 l(1)] touches_node [OF t2 l(1)] by auto
qed

text \<open>
  C17: Uninstalling deletes nothing outside the user package directory, whatever the database
  claims a package to own (absolute names, \<open>..\<close>, links): apart from the database file and its
  temporary, every location that is not strictly below the directory is untouched, in every
  outcome, errors included.
\<close>

theorem uninstall_confined:
  assumes "db_ready Z F" "link_free F (p_names (zp_user Z))"
    and "\<not> prefix (p_names (zp_user Z)) (p_names (zp_installed Z))"
    and "uninstall Z nm F = (r, F')" "\<not> strict_prefix (p_names (zp_user Z)) l" "\<not> db_spot Z l"
  shows "node_at F' l = node_at F l"
proof (cases "canonicalize nm")
  case (Inl e)
  with assms(4) show ?thesis by (simp add: uninstall_def bind_io_def lift_def)
next
  case (Inr package)
  obtain q G where ld: "load_db Z F = (q, G)" by fastforce
  then have G: "G = F" by (rule load_db_same)
  show ?thesis
  proof (cases "\<exists>db rec files. q = Ok db \<and> map_of db package = Some (PDict rec)
      \<and> bind_r (py_get ''files'' (PList []) (PDict rec)) py_iter = Ok files")
    case False
    with assms(4) Inr ld G show ?thesis
      by (auto simp: uninstall_def bind_io_def lift_def split: sum.splits option.splits pyval.splits)
  next
    case True
    then obtain db rec files where "q = Ok db" "map_of db package = Some (PDict rec)"
      "bind_r (py_get ''files'' (PList []) (PDict rec)) py_iter = Ok files" by blast
    with assms(4) Inr ld G show ?thesis
      by (intro drop_files_spot [OF assms(1-3) _ assms(5,6), of files]) (simp add: uninstall_def bind_io_def lift_def)
  qed
qed

section \<open>Search, exit codes and errors\<close>

definition hits_ok :: "string list \<Rightarrow> hits \<Rightarrow> bool" where
  "hits_ok tokens hs \<longleftrightarrow> distinct (map fst hs) \<and>
     (\<forall>e \<in> set hs. fst e = norm_name (h_name (snd e)) \<and> rank tokens (h_name (snd e)) (h_summary (snd e)) = Some (h_rank (snd e)))"

lemma set_dict_put: "e \<in> set (dict_put k v d) \<Longrightarrow> e = (k, v) \<or> e \<in> set d"
  by (induction k v d rule: dict_put.induct) (auto split: if_splits)

lemma hits_ok_put:
  "hits_ok tokens hs \<Longrightarrow> k = norm_name (h_name h) \<Longrightarrow> rank tokens (h_name h) (h_summary h) = Some (h_rank h) \<Longrightarrow>
     hits_ok tokens (dict_put k h hs)"
  by (auto simp: hits_ok_def keys_dict_put distinct_map dest: set_dict_put)

lemma consider_ok: "hits_ok tokens hs \<Longrightarrow> hits_ok tokens (consider_hit tokens inst src x hs)"
  by (cases x) (auto simp: consider_hit_def Let_def split: option.splits intro!: hits_ok_put)

lemma fold_consider_ok: "hits_ok tokens hs \<Longrightarrow> hits_ok tokens (fold (consider_hit tokens inst src) xs hs)"
  by (induction xs arbitrary: hs) (simp_all add: consider_ok)

lemma with_probe_ok:
  assumes "with_probe Z tokens catalog inst (local_hits tokens catalog inst) = Ok (hs, st)"
  shows "hits_ok tokens hs"
proof -
  have "hits_ok tokens []" by (simp add: hits_ok_def)
  then have "hits_ok tokens (local_hits tokens catalog inst)"
    unfolding local_hits_def by (intro fold_consider_ok)
  with assms show ?thesis
    by (auto simp: with_probe_def bind_r_Ok consider_ok split: if_splits option.splits)
qed

lemma rank_iff: "rank tokens nm summary = Some r \<Longrightarrow>
    list_all (\<lambda>t. contains (norm_name nm) (norm_name t) \<or> contains (lower summary) t) tokens \<and> r \<le> 2"
  by (auto simp: rank_def Let_def split: if_splits)

text \<open>
  A search shows only packages that match: every result holds each query token in its
  normalised name or its summary, no package appears twice, and the results stand in the order
  of their rank (exact name, then name, then summary).
\<close>

theorem search_results_match:
  assumes "search Z W raw F = (Ok (PDict kvs), F')" "map_of kvs ''results'' = Some (PList rs)"
  shows "\<exists>hs. rs = map hit_val hs \<and> sorted (map h_rank hs) \<and> distinct (map (norm_name \<circ> h_name) hs) \<and>
    list_all (\<lambda>h. h_rank h \<le> 2 \<and> list_all (\<lambda>t. contains (norm_name (h_name h)) (norm_name t) \<or> contains (lower (h_summary h)) t)
       (query_tokens '''' (lower raw))) hs"
proof -
  define tokens where "tokens = query_tokens '''' (lower raw)"
  from assms obtain inst catalog cs hs ps where
    w: "with_probe Z tokens catalog inst (local_hits tokens catalog inst) = Ok (hs, ps)" and rs: "rs = map hit_val (ranked hs)"
    by (auto simp: search_def tokens_def Let_def failed_def bind_Ok lift_def split: if_splits prod.splits)
  from with_probe_ok [OF w] have ok: "hits_ok tokens hs" .
  have "map fst hs = map (norm_name \<circ> h_name) (map snd hs)"
    using ok by (auto simp: hits_ok_def comp_def)
  moreover have "distinct (map fst hs)" using ok by (simp add: hits_ok_def)
  ultimately have d: "distinct (map (norm_name \<circ> h_name) (map snd hs))" by (simp only:)
  then have "distinct (map (norm_name \<circ> h_name) (ranked hs))"
    unfolding ranked_def by (metis distinct_map distinct_sort set_sort)
  moreover have "list_all (\<lambda>h. h_rank h \<le> 2 \<and> list_all (\<lambda>t. contains (norm_name (h_name h)) (norm_name t)
      \<or> contains (lower (h_summary h)) t) tokens) (ranked hs)"
    unfolding list_all_iff
  proof
    fix h assume "h \<in> set (ranked hs)"
    then have "rank tokens (h_name h) (h_summary h) = Some (h_rank h)"
      using ok by (auto simp: ranked_def hits_ok_def)
    from rank_iff [OF this] show "h_rank h \<le> 2 \<and> (\<forall>t \<in> set tokens. contains (norm_name (h_name h)) (norm_name t)
      \<or> contains (lower (h_summary h)) t)" by (simp add: list_all_iff)
  qed
  moreover have "sorted (map h_rank (ranked hs))" by (simp add: ranked_def)
  ultimately show ?thesis using rs unfolding tokens_def [symmetric] by blast
qed

text \<open>
  The exit code the terminal reports for a \<open>zpip\<close> command is 0 exactly when the result says
  \<open>ok\<close>, and 1 otherwise, whatever the command and whatever else the result holds.
\<close>

theorem exit_code_follows_ok:
  assumes "format_output command kvs = Ok (text, code)"
  shows "code = (if truthy (field ''ok'' PNone kvs) then 0 else 1)"
proof -
  have "code = (if truthy (field ''ok'' PNone kvs) then 0 else 1)"
    if "show_verify parts (PDict kvs) = Ok (text, code)" for parts
    using that by (auto simp: show_verify_def bind_r_Ok map_r_Ok field_def split: if_splits)
  with assms show ?thesis
    by (auto simp: format_output_def Let_def map_r_Ok split: if_splits)
qed

lemma fst_set_dict_put: "fst ` set (dict_put k v d) = insert k (fst ` set d)"
  by (induction k v d rule: dict_put.induct) auto

lemma keys_set_default: "fst ` set (set_default k v d) = insert k (fst ` set d)"
  by (auto simp: set_default_def fst_set_dict_put)

text \<open>
  No file-system or value error of a command reaches the caller of \<open>dispatch\<close>: it becomes a
  failed result, and every result the caller does get is marked as coming from the legacy
  manager.
\<close>

theorem dispatch_contains_errors:
  shows "case dispatch depth Z W command F of
      (Err e, F') \<Rightarrow> \<not> is_oserror e \<and> \<not> is_valueerror e
    | (Ok v, F') \<Rightarrow> {''legacy'', ''legacy_status'', ''legacy_notice'', ''manager''} \<subseteq> fst ` set (dict_items v)"
proof -
  have m: "{''legacy'', ''legacy_status'', ''legacy_notice'', ''manager''} \<subseteq> fst ` set (dict_items (mark_legacy_result v))" for v
    by (simp add: mark_legacy_result_def dict_items_def keys_set_default)
  show ?thesis
    by (auto simp: dispatch_def Let_def try_io_def bind_io_def m [simplified] split: sum.splits prod.splits)
qed

section \<open>The properties at concrete inputs\<close>

definition pkg_zpip :: zpip where
  "pkg_zpip =
     \<lparr>zp_installed = Path ''/'' [''i''], zp_downloads = Path ''/'' [''d''], zp_staging = Path ''/'' [''s''],
      zp_user = Path ''/'' [''p''], zp_cache = Path ''/'' [''c''], zp_index = ''https://x'', zp_runtime = ''r'', zp_abi = ''a'',
      zp_env = [''ZMUX_OFFLINE'' \<mapsto> ''1''],
      zp_fetch = (\<lambda>url. Ok \<lparr>rp_announced = Ok 3, rp_chunks = [[1, 2], [3]], rp_end = None\<rparr>)\<rparr>"

definition pkg_db :: db where
  "pkg_db = [(''x'', PDict [(''files'', PList [PStr ''../i/y'', PStr ''x'']), (''version'', PStr ''1'')])]"

definition pkg_text :: string where
  "pkg_text = json_dump_sorted (PDict pkg_db)"

definition pkg_fs :: fsys where
  "pkg_fs = empty_fs\<lparr>fs_table :=
     [([''i''], Dir 493), ([''i'', ''y''], Reg (Text ''keep'') 420), ([''p''], Dir 493), ([''p'', ''x''], Reg (Text '''') 420),
      ([''s''], Dir 493), ([''w''], Reg (Binary [1]) 420), ([''i'', ''packages.json''], Reg (Text pkg_text) 420)]\<rparr>"

lemma strict_prefix_single: "strict_prefix k [x] \<longleftrightarrow> k = []"
  by (auto simp: strict_prefix_def prefix_Cons)

lemma strict_prefix_two: "strict_prefix k [x, y] \<longleftrightarrow> k = [] \<or> k = [x]"
  by (auto simp: strict_prefix_def prefix_Cons)

lemma pkg_db_names: "p_names (DB_FILE pkg_zpip) = [''i'', ''packages.json'']" "p_names (DB_TEMP pkg_zpip) = [''i'', ''packages.tmp'']"
  by (simp_all add: db_names pkg_zpip_def)

lemma pkg_ready: "db_ready pkg_zpip pkg_fs"
  by (auto simp: db_ready_def pkg_db_names plain_def strict_prefix_two pkg_fs_def empty_fs_def node_at_def)

theorem save_db_atomic_witness:
  "fst (load_db pkg_zpip (snd (save_db pkg_zpip [] pkg_fs))) = Ok []"
proof -
  let ?r = "save_db pkg_zpip [] pkg_fs"
  have "fst ?r = Ok ()"
    by (simp add: save_db_def seq_io_def bind_io_def db_ready_facts [OF pkg_ready] write_text_def write_content_def
        pkg_db_names change_def)
      (simp add: os_replace_def lookup_def locate_def link_limit_def pkg_db_names pkg_fs_def empty_fs_def node_at_def
        put_node_def change_def)
  then have e: "save_db pkg_zpip [] pkg_fs = (Ok (), snd ?r)" by (metis prod.collapse)
  from save_db_atomic [OF pkg_ready _ e] show ?thesis by (simp add: dict_items_def)
qed

lemma valid_sha256_hex: "valid_sha256 (to_hex (sha256 bs))"
proof -
  have h: "is_digit (hex_digit n) \<or> hex_digit n \<in> set ''abcdef''" if "n < 16" for n
  proof -
    have "n < 10 \<or> n = 10 \<or> n = 11 \<or> n = 12 \<or> n = 13 \<or> n = 14 \<or> n = 15" using that by presburger
    then show ?thesis by (elim disjE) (simp_all add: hex_digit_def is_digit_def, simp_all add: char_of_def bit_0)
  qed
  have "list_all (\<lambda>c. is_digit c \<or> c \<in> set ''abcdef'') (to_hex xs)" for xs
  proof (induction xs)
    case (Cons x xs)
    have "unat x div 16 < 16" using unat_byte_less [of x] by (simp add: less_mult_imp_div_less)
    with Cons h [of "unat x div 16"] h [of "unat x mod 16"] show ?case by (simp add: to_hex_def)
  qed (simp add: to_hex_def)
  then show ?thesis by (simp add: valid_sha256_def)
qed

theorem accepted_wheel_is_pinned_witness:
  "\<exists>d. length d = 3 \<and> holds_bytes (snd (download_wheel pkg_zpip None ''https://w'' (to_hex (sha256 [1, 2, 3])) (Path ''/'' [''t'']) pkg_fs))
     (Path ''/'' [''t'']) d"
proof -
  let ?r = "download_wheel pkg_zpip None ''https://w'' (to_hex (sha256 [1, 2, 3])) (Path ''/'' [''t'']) pkg_fs"
  have "fst ?r = Ok (3, to_hex (sha256 [1, 2, 3]))"
    by (simp add: download_wheel_def fetch_wheel_def pkg_zpip_def startswith_def valid_sha256_hex bind_io_def seq_io_def
        write_content_def locate_def link_limit_def node_at_def pkg_fs_def empty_fs_def change_def put_node_def
        show_due_def show_last_def MAX_WHEEL_BYTES_def Let_def)
  then have e: "?r = (Ok (3, to_hex (sha256 [1, 2, 3])), snd ?r)" by (metis prod.collapse)
  from accepted_wheel_is_pinned [OF e] show ?thesis by blast
qed

definition demo_wheel :: "zmember list" where
  "demo_wheel = map (\<lambda>n. \<lparr>zm_name = n, zm_size = 1, zm_source = Ok ([7], None)\<rparr>)
     [''x/'', ''x/__init__.py'', ''x.dist-info/WHEEL'', ''x.dist-info/RECORD'']"

lemma demo_wheel_checked: "checked_members demo_wheel = Ok (tl demo_wheel)"
  by (simp add: checked_members_def demo_wheel_def Let_def to_path_def path_root_def path_parts_def is_absolute_def
      startswith_def endswith_def suffix_to_prefix MAX_WHEEL_BYTES_def)

theorem checked_members_bounded_witness:
  "checked_members demo_wheel = Ok (tl demo_wheel) \<and> distinct (map zm_name (tl demo_wheel))"
  using checked_members_bounded [OF demo_wheel_checked] demo_wheel_checked by blast

definition evil_wheel :: "bytes \<Rightarrow> exn + zmember list" where
  "evil_wheel bs = Ok demo_wheel"

lemma pkg_free: "link_free pkg_fs l \<longleftrightarrow> ''..'' \<notin> set l"
  by (auto simp: link_free_def pkg_fs_def empty_fs_def node_at_def split: if_splits)

theorem extraction_confined_witness:
  "node_at (snd (extract_wheel evil_wheel (Path ''/'' [''w'']) (Path ''/'' [''s'']) pkg_fs)) [''i'', ''y''] = Some (Reg (Text ''keep'') 420)"
proof -
  let ?r = "extract_wheel evil_wheel (Path ''/'' [''w'']) (Path ''/'' [''s'']) pkg_fs"
  have e: "?r = (fst ?r, snd ?r)" by simp
  have b: "resolve_path pkg_fs (Path ''/'' [''s'']) = Ok (Path ''/'' [''s''])"
    by (simp add: resolve_of_link_free pkg_free)
  from extraction_confined [OF e b, of "[''i'', ''y'']"] show ?thesis
    by (simp add: pkg_fs_def empty_fs_def node_at_def)
qed

theorem uninstall_confined_witness:
  "node_at (snd (uninstall pkg_zpip ''x'' pkg_fs)) [''i'', ''y''] = Some (Reg (Text ''keep'') 420)"
proof -
  let ?r = "uninstall pkg_zpip ''x'' pkg_fs"
  have e: "?r = (fst ?r, snd ?r)" by simp
  have "node_at (snd ?r) [''i'', ''y''] = node_at pkg_fs [''i'', ''y'']"
    by (rule uninstall_confined [OF pkg_ready _ _ e])
      (simp_all add: pkg_free db_spot_def pkg_db_names, simp_all add: pkg_zpip_def strict_prefix_def)
  then show ?thesis by (simp add: pkg_fs_def empty_fs_def node_at_def)
qed

definition pkg_world :: world where
  "pkg_world =
     \<lparr>wd_run = (\<lambda>argv env. ret (0, '''', '''')), wd_import = (\<lambda>p m. ret ()), wd_executable = ''python'', wd_sys_path = [],
      wd_unzip = evil_wheel, wd_parse = (\<lambda>s. None), wd_order = (\<lambda>vs. vs), wd_uuid = (\<lambda>n. ''u''),
      wd_progress = (\<lambda>l. None), wd_fingerprint = PNone, wd_free = 0, wd_clock = ''0''\<rparr>"

lemma pkg_load: "load_db pkg_zpip pkg_fs = (Ok pkg_db, pkg_fs)"
proof -
  have r: "read_text (DB_FILE pkg_zpip) pkg_fs = (Ok pkg_text, pkg_fs)"
    by (simp add: read_text_def lookup_def db_ready_facts [OF pkg_ready] pkg_db_names)
      (simp add: pkg_fs_def empty_fs_def node_at_def)
  have "json_loads pkg_text = Ok (sort_keys (PDict pkg_db))"
    unfolding pkg_text_def by (rule json_dump_sorted_round_trip) (simp add: pkg_db_def)
  then have p: "json_loads pkg_text = Ok (PDict pkg_db)" by (simp add: pkg_db_def)
  show ?thesis using r p by (simp add: load_db_def try_io_def bind_io_def lift_def dict_items_def)
qed

lemma pkg_offline: "offline pkg_zpip"
  by (simp add: offline_def pkg_zpip_def env_get_def str_strip_def strip_by_def lower_def lower_char_def
        char_space_def py_space_def)

lemma pkg_catalog: "fetch_curated_catalog pkg_zpip t pkg_fs = (Ok ([], ''unavailable''), pkg_fs)"
proof -
  have "offline pkg_zpip" by (rule pkg_offline)
  moreover have "p_names (catalog_cache_path pkg_zpip) = [''c'', ''catalogs'', ''r-a.json'']"
    by (simp add: catalog_cache_path_def pkg_zpip_def good_name_def alnum_def name_sep_def)
  then have "locate pkg_fs True (catalog_cache_path pkg_zpip) = Err FileNotFoundError"
    by (simp add: locate_def link_limit_def pkg_fs_def empty_fs_def node_at_def)
  ultimately show ?thesis
    by (simp add: fetch_curated_catalog_def cached_catalog_def try_io_def bind_io_def read_text_def lookup_def)
qed

theorem search_results_match_witness:
  "\<exists>kvs F' rs. search pkg_zpip pkg_world ''x'' pkg_fs = (Ok (PDict kvs), F') \<and> map_of kvs ''results'' = Some (PList rs)
     \<and> rs \<noteq> [] \<and> (\<exists>hs. rs = map hit_val hs \<and> sorted (map h_rank hs))"
proof -
  have l: "local_hits [''x''] [] pkg_db = [(''x'', \<lparr>h_rank = 0, h_priority = 2, h_name = ''x'', h_version = ''1'', h_summary = '''',
      h_source = Installed, h_installed = True\<rparr>)]"
    by (simp add: local_hits_def pkg_db_def consider_hit_def installed_row_def field_def rank_def py_str_def py_or_def
        norm_name_def lower_def lower_char_def name_sep_def contains_def occurs_def priority_def Let_def)
  have "with_probe pkg_zpip [''x''] [] pkg_db hs = Ok (hs, ''skipped'')" for hs
    by (simp add: with_probe_def probe_wanted_def pkg_offline)
  then obtain kvs rs where e: "search pkg_zpip pkg_world ''x'' pkg_fs = (Ok (PDict kvs), pkg_fs)"
      "map_of kvs ''results'' = Some (PList rs)" "rs \<noteq> []"
    by (simp add: search_def alnum_def Let_def bind_io_def pkg_load pkg_catalog lift_def l lower_def lower_char_def ranked_def)
  from search_results_match [OF e(1,2)] e show ?thesis by blast
qed

theorem exit_code_follows_ok_witness:
  "format_output '''' [(''ok'', PBool True)] = Ok (''Command executed successfully'', 0) \<and> (0 :: int) = (if truthy (field ''ok'' PNone [(''ok'', PBool True)]) then 0 else 1)"
proof -
  have e: "format_output '''' [(''ok'', PBool True)] = Ok (''Command executed successfully'', 0)"
    by (simp add: format_output_def Let_def str_split_def str_strip_def strip_by_def words_by.simps field_def show_ok_def)
  from exit_code_follows_ok [OF e] e show ?thesis by simp
qed

end
