(* ===== verification/ZpipTxn.thy ===== *)
theory ZpipTxn
  imports ZpipProps
begin

text \<open>
  The install transaction and the database: on a file system without links, an install that
  reports failure leaves the package database as it was.  \<open>guard\<close> is the relation every step
  keeps, \<open>keeps_tx\<close> carries it through the transaction monad.
\<close>

section \<open>The guarded region\<close>

definition safe_rel :: "string \<Rightarrow> bool" where
  "safe_rel n \<longleftrightarrow> \<not> is_absolute (to_path n) \<and> ''..'' \<notin> set (path_parts (to_path n))"

text \<open>The files the database records are relative names without \<open>..\<close>.\<close>

definition safe_records :: "db \<Rightarrow> bool" where
  "safe_records db \<longleftrightarrow> (\<forall>e \<in> set db. case record_files (snd e) of
      Ok fs \<Rightarrow> list_all (\<lambda>v. case v of PStr s \<Rightarrow> safe_rel s | _ \<Rightarrow> True) fs | Err x \<Rightarrow> True)"

definition settled :: "zpip \<Rightarrow> fsys \<Rightarrow> bool" where
  "settled Z F \<longleftrightarrow> no_links F \<and> db_ready Z F \<and> (\<forall>db. fst (load_db Z F) = Ok db \<longrightarrow> safe_records db)"

definition guard :: "zpip \<Rightarrow> fsys \<Rightarrow> fsys \<Rightarrow> bool" where
  "guard Z F F' \<longleftrightarrow> (settled Z F \<longrightarrow>
     no_links F' \<and> (\<forall>k. prefix k (p_names (DB_FILE Z)) \<longrightarrow> node_at F' k = node_at F k))"

lemma guard_settled:
  assumes "guard Z F F'" "settled Z F"
  shows "settled Z F'"
proof -
  have g: "no_links F'" "\<And>k. prefix k (p_names (DB_FILE Z)) \<Longrightarrow> node_at F' k = node_at F k"
    using assms by (auto simp: guard_def)
  then have r: "db_ready Z F'"
    using assms(2) by (auto simp: settled_def db_ready_def plain_def strict_prefix_def no_links_def)
  have "fst (load_db Z F') = fst (load_db Z F)"
    using assms(2) r g(2) by (intro load_db_cong) (auto simp: settled_def)
  then show ?thesis using assms(2) g r by (simp add: settled_def)
qed

lemma guard_refl [simp]: "guard Z F F"
  by (simp add: guard_def settled_def)

lemma guard_trans: "guard Z F G \<Longrightarrow> guard Z G H \<Longrightarrow> guard Z F H"
  using guard_settled [of Z F G] by (simp add: guard_def)

lemma guard_reflp [simp]: "reflp (guard Z)"
  by (rule reflpI) simp

lemma guard_transp [simp]: "transp (guard Z)"
  unfolding transp_def by (blast intro: guard_trans)

lemmas guard_calculus = keeps_intros guard_reflp guard_transp

definition apart :: "zpip \<Rightarrow> path \<Rightarrow> bool" where
  "apart Z p \<longleftrightarrow> ''..'' \<notin> set (p_names p) \<and> \<not> prefix (p_names p) (p_names (DB_FILE Z)) \<and> \<not> prefix (p_names (DB_FILE Z)) (p_names p)"

definition clear :: "zpip \<Rightarrow> path \<Rightarrow> bool" where
  "clear Z p \<longleftrightarrow> ''..'' \<notin> set (p_names p) \<and> \<not> prefix (p_names (DB_FILE Z)) (p_names p)"

lemma apart_clear: "apart Z p \<Longrightarrow> clear Z p"
  by (simp add: apart_def clear_def)

lemma clear_parent: "clear Z p \<Longrightarrow> clear Z (parent_path p)"
  unfolding clear_def parent_path_def
  by (auto dest: in_set_butlastD intro: prefix_order.trans [OF _ prefixeq_butlast])

lemma apart_parent: "apart Z p \<Longrightarrow> clear Z (parent_path p)"
  by (simp add: apart_clear clear_parent)

text \<open>A change away from the database and its ancestors is guarded.\<close>

lemma guard_touches:
  "(settled Z F \<Longrightarrow> touches (\<lambda>l. \<not> prefix l (p_names (DB_FILE Z))) F F') \<Longrightarrow> guard Z F F'"
  unfolding guard_def settled_def by (blast intro: no_links_touches dest: touches_node)

lemma apart_free: "settled Z F \<Longrightarrow> apart Z p \<Longrightarrow> link_free F (p_names p)"
  by (simp add: settled_def apart_def no_links_free)

lemma apart_below: "apart Z p \<Longrightarrow> prefix (p_names p) l \<Longrightarrow> \<not> prefix l (p_names (DB_FILE Z))"
  unfolding apart_def by (blast intro: prefix_order.trans)

section \<open>The primitives are guarded\<close>

lemma keeps_guardI: "(\<And>F r F'. m F = (r, F') \<Longrightarrow> guard Z F F') \<Longrightarrow> keeps (guard Z) m"
  unfolding keeps_def by (metis prod.collapse)

lemma guarded_write [keeps_intros]: "apart Z p \<Longrightarrow> keeps (guard Z) (write_content p c)"
  by (rule keeps_guardI, rule guard_touches)
    (auto intro!: write_content_touches apart_free dest: apart_below [OF _ prefix_order.refl])

lemma guarded_unlink [keeps_intros]: "apart Z p \<Longrightarrow> keeps (guard Z) (unlink p)"
  by (rule keeps_guardI, rule guard_touches)
    (auto intro!: unlink_touches link_free_way apart_free dest: apart_below)

lemma guarded_unlink_ok [keeps_intros]: "apart Z p \<Longrightarrow> keeps (guard Z) (unlink_missing_ok p)"
  unfolding unlink_missing_ok_def by (intro keeps_try guard_transp guarded_unlink) (auto intro: keeps_intros)

lemma guarded_chmod [keeps_intros]: "apart Z p \<Longrightarrow> keeps (guard Z) (chmod p m)"
  by (rule keeps_guardI, rule guard_touches)
    (auto intro!: chmod_touches apart_free dest: apart_below [OF _ prefix_order.refl])

lemma guarded_copy [keeps_intros]: "apart Z q \<Longrightarrow> keeps (guard Z) (copy_file p q)"
  by (rule keeps_guardI, rule guard_touches)
    (auto intro!: copy_file_touches apart_free dest: apart_below [OF _ prefix_order.refl])

lemma guarded_rmtree [keeps_intros]: "apart Z p \<Longrightarrow> keeps (guard Z) (rmtree_ignore p)"
  by (rule keeps_guardI, rule guard_touches)
    (auto intro!: rmtree_touches link_free_way apart_free dest: apart_below)

lemma guarded_replace [keeps_intros]: "apart Z p \<Longrightarrow> apart Z q \<Longrightarrow> keeps (guard Z) (os_replace p q)"
proof (rule keeps_guardI, rule guard_touches)
  fix F r F' assume a: "apart Z p" "apart Z q" and o: "os_replace p q F = (r, F')" and s: "settled Z F"
  show "touches (\<lambda>l. \<not> prefix l (p_names (DB_FILE Z))) F F'"
    by (rule os_replace_touches [OF _ _ _ o])
      (use a s in \<open>auto simp: settled_def apart_def dest: apart_below [OF a(1)] apart_below [OF a(2)]\<close>)
qed

lemma guarded_mkdir [keeps_intros]:
  assumes "clear Z p"
  shows "keeps (guard Z) (os_mkdir p)"
proof (rule keeps_guardI, rule guard_touches)
  fix F r F' assume m: "os_mkdir p F = (r, F')" and s: "settled Z F"
  show "touches (\<lambda>l. \<not> prefix l (p_names (DB_FILE Z))) F F'"
  proof (cases "prefix (p_names p) (p_names (DB_FILE Z))")
    case False
    with assms s have "apart Z p" by (simp add: apart_def clear_def)
    then show ?thesis using s m False by (auto intro!: os_mkdir_touches link_free_way apart_free)
  next
    case True
    then have st: "strict_prefix (p_names p) (p_names (DB_FILE Z))"
      using assms by (auto simp: clear_def strict_prefix_def)
    then obtain m where d: "node_at F (p_names p) = Some (Dir m)"
      using s by (auto simp: settled_def db_ready_def plain_def)
    have "plain F (p_names p)"
      using s st assms by (auto simp: settled_def db_ready_def plain_def clear_def intro: prefix_order.less_trans)
    then have "locate F False p = Ok (p_names p)" using d by (intro locate_at) auto
    with m d show ?thesis by (auto simp: os_mkdir_def)
  qed
qed

lemma guarded_mkdirs_state: "clear Z p \<Longrightarrow> guard Z F (snd (mkdir_parents p F))"
proof (induction p F rule: mkdir_parents.induct)
  case (1 p F)
  have os: "guard Z G H" if "os_mkdir p G = (r, H)" for G r H
    using guarded_mkdir [OF "1.prems"] that by (rule keeps_D)
  obtain r1 F1 where m: "os_mkdir p F = (r1, F1)" by fastforce
  show ?case
  proof (cases "r1 = Err FileNotFoundError \<and> p_names p \<noteq> []")
    case False
    with m os [OF m] show ?thesis
      by (subst mkdir_parents.simps) (auto split: sum.splits exn.splits)
  next
    case True
    obtain r2 F2 where m2: "mkdir_parents (parent_path p) F1 = (r2, F2)" by fastforce
    have g2: "guard Z F1 F2"
      using "1.IH" [OF m [symmetric]] True clear_parent [OF "1.prems"] m2 by (metis snd_conv)
    obtain r3 F3 where m3: "os_mkdir p F2 = (r3, F3)" by fastforce
    have "snd (mkdir_parents p F) = F2 \<or> snd (mkdir_parents p F) = F3"
      using m m2 m3 True by (subst (1 2) mkdir_parents.simps) (auto split: sum.splits)
    then show ?thesis using os [OF m] g2 os [OF m3] by (metis guard_trans)
  qed
qed

lemma guarded_mkdirs [keeps_intros]: "clear Z p \<Longrightarrow> keeps (guard Z) (mkdir_parents p)"
  by (simp add: keeps_def guarded_mkdirs_state)

lemma guarded_mkdir_fresh [keeps_intros]: "clear Z p \<Longrightarrow> keeps (guard Z) (mkdir_fresh p)"
  unfolding mkdir_fresh_def
  by (intro keeps_try guard_transp guarded_mkdir)
    (auto intro!: keeps_seq guarded_mkdirs guarded_mkdir clear_parent keeps_raise)

lemma guarded_emit [keeps_intros]: "keeps (guard Z) (emit t)"
  by (simp add: keeps_def emit_def guard_def settled_def no_links_def)

lemma guarded_lift [keeps_intros]: "keeps (guard Z) (lift q)"
  by (simp add: keeps_def lift_def)

lemma guarded_each: "(\<And>x. x \<in> set xs \<Longrightarrow> keeps (guard Z) (f x)) \<Longrightarrow> keeps (guard Z) (each_io f xs)"
  by (induction xs) (auto intro: keeps_intros)

lemma guarded_same: "(\<And>F r F'. m F = (r, F') \<Longrightarrow> F' = F) \<Longrightarrow> keeps (guard Z) m"
  by (rule keeps_guardI) (metis guard_refl)

lemma guarded_reads [keeps_intros]:
  "keeps (guard Z) (read_bytes p)" "keeps (guard Z) (read_text_replace p)" "keeps (guard Z) (load_db Z')"
  "keeps (guard Z) (iterdir p)"
  by (rule guarded_same; auto simp: read_bytes_def read_text_replace_def read_content_def bind_io_def iterdir_def
      dest: load_db_same split: sum.splits node.splits prod.splits)+

lemma guarded_scan [keeps_intros]: "keeps (guard Z) (scan_infos staging package nms)"
  by (induction nms) (auto simp: Let_def intro!: keeps_intros)

lemma guarded_discover [keeps_intros]: "keeps (guard Z) (discover_modules staging package)"
  unfolding discover_modules_def by (auto intro!: keeps_intros split: option.split)

lemma keeps_if: "keeps R m \<Longrightarrow> keeps R k \<Longrightarrow> keeps R (if c then m else k)"
  by simp

section \<open>Passing on what is known\<close>

lemma keeps_bind_known:
  "transp R \<Longrightarrow> keeps R m \<Longrightarrow> (\<And>x F F'. m F = (Ok x, F') \<Longrightarrow> keeps R (f x)) \<Longrightarrow> keeps R (bind_io m f)"
  unfolding keeps_def bind_io_def
  by (auto split: prod.splits sum.splits) (metis snd_conv transpD)+

lemma guarded_resolve:
  assumes "''..'' \<notin> set (p_names p)" "keeps (guard Z) (f (Path ''/'' (p_names p)))"
  shows "keeps (guard Z) (bind_io (resolve_io p) f)"
proof (rule keeps_guardI)
  fix F r F' assume b: "bind_io (resolve_io p) f F = (r, F')"
  show "guard Z F F'"
  proof (cases "settled Z F")
    case True
    then have "resolve_path F p = Ok (Path ''/'' (p_names p))"
      using assms(1) by (intro resolve_of_link_free no_links_free) (simp add: settled_def)
    with b have "f (Path ''/'' (p_names p)) F = (r, F')" by (simp add: bind_io_def resolve_io_def lift_def)
    then show ?thesis using assms(2) by (rule keeps_D [rotated])
  qed (simp add: guard_def)
qed

section \<open>Names inside a directory\<close>

lemma safe_rel_names:
  assumes "safe_rel n"
  shows "p_names (child p n) = p_names p @ p_names (to_path n) \<and> ''..'' \<notin> set (p_names (to_path n))"
  using assms by (auto simp: safe_rel_def child_def joinpath_def is_absolute_def path_parts_def)

lemma apart_child: "apart Z p \<Longrightarrow> safe_rel n \<Longrightarrow> apart Z (child p n)"
  using safe_rel_names [of n p] unfolding apart_def
  by (auto dest: prefix_same_cases [of "p_names (DB_FILE Z)" "p_names p @ p_names (to_path n)" "p_names p"] append_prefixD)

lemma safe_rel_good: "good_name w \<Longrightarrow> w \<noteq> ''..'' \<Longrightarrow> safe_rel w"
  by (simp add: safe_rel_def is_absolute_def path_parts_def)

text \<open>What a parent of a guarded path may be asked to create.\<close>

lemma guarded_extract_one:
  assumes "apart Z staging" "safe_rel (zm_name m)"
  shows "keeps (guard Z) (extract_one staging base m)"
proof -
  have a: "apart Z (Path ''/'' (p_names (child staging (zm_name m))))"
    using apart_child [OF assms] by (simp add: apart_def)
  show ?thesis
    unfolding extract_one_def
    by (rule guarded_resolve)
      (use apart_child [OF assms] a in \<open>auto simp: apart_def intro!: keeps_intros apart_parent split: sum.split option.split\<close>)
qed

lemma known_members:
  assumes "bind_r r checked_members = Ok ms"
  shows "list_all (\<lambda>m. safe_rel (zm_name m)) ms"
proof -
  from assms obtain infolist where "checked_members infolist = Ok ms" by (auto simp: bind_r_Ok)
  from checked_members_bounded [OF this] show ?thesis by (simp add: list_all_iff safe_rel_def)
qed

lemma guarded_extract:
  assumes "apart Z staging"
  shows "keeps (guard Z) (extract_wheel unzip wheel staging)"
  unfolding extract_wheel_def
proof (rule keeps_bind [OF guard_transp guarded_reads(1)], rule keeps_bind_known [OF guard_transp guarded_lift])
  fix bs ms F F' assume "lift (\<lambda>F. bind_r (unzip bs) checked_members) F = (Ok ms, F')"
  then have k: "list_all (\<lambda>m. safe_rel (zm_name m)) ms" by (auto simp: lift_def dest: known_members)
  show "keeps (guard Z) (bind_io (resolve_io staging) (\<lambda>base. seq_io (each_io (extract_one staging base) ms) (ret (map zm_name ms))))"
    by (rule guarded_resolve)
      (use assms k in \<open>auto simp: apart_def list_all_iff intro!: keeps_intros guarded_each guarded_extract_one\<close>)
qed

lemma extract_names:
  assumes "extract_wheel unzip wheel staging F = (Ok files, F')"
  shows "list_all safe_rel files"
proof -
  from assms obtain bs ms where "bind_r (unzip bs) checked_members = Ok ms" "files = map zm_name ms"
    by (auto simp: extract_wheel_def bind_Ok seq_Ok lift_def)
  with known_members show ?thesis by (fastforce simp: list_all_iff)
qed

lemma guarded_wheel_loop: "apart Z p \<Longrightarrow> keeps (guard Z) (wheel_loop k p cs fin acc)"
  by (induction cs arbitrary: acc) (auto simp: show_due_def intro!: keeps_intros split: option.split)

lemma guarded_fetch_artifact:
  assumes "apart Z wheel"
  shows "keeps (guard Z) (fetch_artifact Z' W package manifest wheel)"
  unfolding fetch_artifact_def download_wheel_def fetch_wheel_def show_last_def Let_def
  using assms
  by (auto intro!: keeps_intros guarded_wheel_loop apart_parent split: sum.split option.split)

section \<open>The transaction\<close>

definition txn_ok :: "txn \<Rightarrow> bool" where
  "txn_ok t \<longleftrightarrow> tx_deps t = [] \<and> list_all safe_rel (tx_committed t)"

definition keeps_tx :: "zpip \<Rightarrow> 'a tx \<Rightarrow> bool" where
  "keeps_tx Z m \<longleftrightarrow> (\<forall>t F r t' F'. settled Z F \<longrightarrow> txn_ok t \<longrightarrow> m t F = ((r, t'), F') \<longrightarrow> txn_ok t' \<and> guard Z F F')"

text \<open>The same for a failing run only.\<close>

definition fails_keep :: "zpip \<Rightarrow> 'a tx \<Rightarrow> bool" where
  "fails_keep Z m \<longleftrightarrow> (\<forall>t F e t' F'. settled Z F \<longrightarrow> txn_ok t \<longrightarrow> m t F = ((Err e, t'), F') \<longrightarrow> txn_ok t' \<and> guard Z F F')"

lemma keeps_tx_lift: "keeps (guard Z) m \<Longrightarrow> keeps_tx Z (lift_tx m)"
  by (auto simp: keeps_tx_def lift_tx_def split: prod.splits dest: keeps_D)

lemma bind_tx_cases:
  "bind_tx m f t F = ((r, t'), F') \<longleftrightarrow>
     (\<exists>e. m t F = ((Err e, t'), F') \<and> r = Err e) \<or> (\<exists>x t1 F1. m t F = ((Ok x, t1), F1) \<and> f x t1 F1 = ((r, t'), F'))"
  by (auto simp: bind_tx_def split: prod.splits sum.splits)

lemma keeps_tx_bind:
  assumes "keeps_tx Z m" "\<And>x t F t' F'. settled Z F \<Longrightarrow> m t F = ((Ok x, t'), F') \<Longrightarrow> keeps_tx Z (f x)"
  shows "keeps_tx Z (bind_tx m f)"
  unfolding keeps_tx_def bind_tx_cases
proof (intro allI impI, elim disjE exE conjE)
  fix t F r t' F' e assume "settled Z F" "txn_ok t" "m t F = ((Err e, t'), F')"
  then show "txn_ok t' \<and> guard Z F F'" using assms(1) by (auto simp: keeps_tx_def)
next
  fix t F r t' F' x t1 F1 assume f: "settled Z F" and t: "txn_ok t" and m: "m t F = ((Ok x, t1), F1)" and k: "f x t1 F1 = ((r, t'), F')"
  from assms(1) f t m have g: "txn_ok t1 \<and> guard Z F F1" unfolding keeps_tx_def by blast
  with f have "settled Z F1" by (blast intro: guard_settled)
  with assms(2) [OF f m] g k show "txn_ok t' \<and> guard Z F F'" unfolding keeps_tx_def by (blast intro: guard_trans)
qed

lemma fails_keep_bind:
  assumes "keeps_tx Z m" "\<And>x t F t' F'. settled Z F \<Longrightarrow> m t F = ((Ok x, t'), F') \<Longrightarrow> fails_keep Z (f x)"
  shows "fails_keep Z (bind_tx m f)"
  unfolding fails_keep_def bind_tx_cases
proof (intro allI impI, elim disjE exE conjE)
  fix t F e t' F' e' assume "settled Z F" "txn_ok t" "m t F = ((Err e', t'), F')"
  then show "txn_ok t' \<and> guard Z F F'" using assms(1) by (auto simp: keeps_tx_def)
next
  fix t F e t' F' x t1 F1 assume f: "settled Z F" and t: "txn_ok t" and m: "m t F = ((Ok x, t1), F1)" and k: "f x t1 F1 = ((Err e, t'), F')"
  from assms(1) f t m have g: "txn_ok t1 \<and> guard Z F F1" unfolding keeps_tx_def by blast
  with f have "settled Z F1" by (blast intro: guard_settled)
  with assms(2) [OF f m] g k show "txn_ok t' \<and> guard Z F F'" unfolding fails_keep_def by (blast intro: guard_trans)
qed

text \<open>After the last step that can fail, nothing fails.\<close>

lemma fails_keep_last:
  assumes "fails_keep Z m" "\<And>x t F. \<exists>y t' F'. f x t F = ((Ok y, t'), F')"
  shows "fails_keep Z (bind_tx m f)"
  unfolding fails_keep_def bind_tx_cases
proof (intro allI impI, elim disjE exE conjE)
  fix t F e t' F' e' assume "settled Z F" "txn_ok t" "m t F = ((Err e', t'), F')"
  then show "txn_ok t' \<and> guard Z F F'" using assms(1) by (auto simp: fails_keep_def)
next
  fix t F e t' F' x t1 F1 assume "f x t1 F1 = ((Err e, t'), F')"
  then show "txn_ok t' \<and> guard Z F F'" using assms(2) [of x t1 F1] by auto
qed

lemma keeps_tx_committed: "safe_rel f \<Longrightarrow> keeps_tx Z (committed f)"
  by (auto simp: keeps_tx_def committed_def txn_ok_def)

definition sandboxed :: "zpip \<Rightarrow> bool" where
  "sandboxed Z \<longleftrightarrow> apart Z (zp_user Z) \<and> apart Z (zp_staging Z) \<and> apart Z (zp_downloads Z)"

lemma guarded_commit_one:
  assumes "apart Z (zp_user Z)" "apart Z staging" "apart Z backup" "safe_rel f"
  shows "keeps (guard Z) (commit_one Z staging backup f)"
  unfolding commit_one_def Let_def
  by (intro keeps_intros keeps_if guard_reflp guard_transp apart_parent apart_child assms)

lemma keeps_commit_files:
  assumes "apart Z (zp_user Z)" "apart Z staging" "apart Z backup"
  shows "list_all safe_rel fs \<Longrightarrow> keeps_tx Z (commit_files Z staging backup fs)"
proof (induction fs)
  case (Cons f fs)
  then show ?case
    by (auto intro!: keeps_tx_bind keeps_tx_lift keeps_tx_committed guarded_commit_one assms)
qed (simp add: keeps_tx_lift keeps_ret)

lemma save_db_fails:
  assumes "db_ready Z F" "save_db Z d F = (Err e, F')"
  shows "F' = F \<or> (\<exists>n. is_reg n \<and> F' = put_node F (p_names (DB_TEMP Z)) n)"
proof -
  obtain r1 F1 where w: "write_text (DB_TEMP Z) (json_dump_sorted (PDict d)) F = (r1, F1)" by fastforce
  obtain q G where o: "os_replace (DB_TEMP Z) (DB_FILE Z) F1 = (q, G)" by fastforce
  have e: "(r1 = Ok () \<and> q = Err e \<and> F' = G) \<or> (r1 \<noteq> Ok () \<and> F' = F1)"
    using assms(2) w o by (cases r1) (auto simp: save_db_def seq_io_def bind_io_def db_ready_facts [OF assms(1)])
  from write_temp [OF assms(1) w] show ?thesis
  proof (elim disjE conjE exE)
    fix m assume F1: "r1 = Ok ()" "db_ready Z F1"
      "F1 = put_node F (p_names (DB_TEMP Z)) (Reg (Text (json_dump_sorted (PDict d))) m)"
    then have "node_at F1 (p_names (DB_TEMP Z)) = Some (Reg (Text (json_dump_sorted (PDict d))) m)" by (simp add: db_names)
    from rename_temp [OF F1(2) this o] e F1 show ?thesis by (auto intro: is_node_simps)
  qed (use e in auto)
qed

lemma fails_keep_save: "fails_keep Z (lift_tx (save_db Z d))"
  unfolding fails_keep_def
proof (intro allI impI)
  fix t F e t' F' assume f: "settled Z F" and t: "txn_ok t" and s: "lift_tx (save_db Z d) t F = ((Err e, t'), F')"
  then have s': "save_db Z d F = (Err e, F')" "t' = t" by (auto simp: lift_tx_def split: prod.splits)
  have "guard Z F F'"
  proof (rule guard_touches)
    assume "settled Z F"
    then have "db_ready Z F" by (simp add: settled_def)
    from save_db_fails [OF this s'(1)] show "touches (\<lambda>l. \<not> prefix l (p_names (DB_FILE Z))) F F'"
      by (auto simp: db_names is_lnk_iff is_reg_iff intro!: touches_put)
  qed
  with t s'(2) show "txn_ok t' \<and> guard Z F F'" by simp
qed

lemma guarded_remove_obsolete:
  assumes "apart Z (zp_user Z)" "case v of PStr s \<Rightarrow> safe_rel s | _ \<Rightarrow> True"
  shows "keeps (guard Z) (remove_obsolete Z v)"
proof (cases "\<exists>s. v = PStr s")
  case True
  then obtain s where v: "v = PStr s" by blast
  with assms have "apart Z (child (zp_user Z) s)" by (intro apart_child) simp_all
  then show ?thesis
    unfolding remove_obsolete_def v
    by (intro keeps_bind_known guard_transp guarded_lift) (auto simp: lift_def as_str_def intro!: keeps_intros)
next
  case False
  then have "remove_obsolete Z v = lift (\<lambda>F. Err TypeError)"
    by (cases v) (simp_all add: remove_obsolete_def as_str_def bind_io_def lift_def fun_eq_iff)
  then show ?thesis by (simp add: guarded_lift)
qed

lemma obsolete_safe:
  assumes db: "safe_records db"
    and p: "record_files (case map_of db package of Some (PDict d) \<Rightarrow> PDict d | _ \<Rightarrow> PDict []) = Ok previous"
    and o: "obsolete_files W previous files = Ok vs" and w: "\<And>xs. set (wd_order W xs) \<subseteq> set xs" and v: "v \<in> set vs"
  shows "case v of PStr s \<Rightarrow> safe_rel s | _ \<Rightarrow> True"
proof -
  from o w v have "v \<in> set previous"
    by (fastforce simp: obsolete_files_def map_r_Ok hash_all_def split: if_splits)
  moreover have "list_all (\<lambda>v. case v of PStr s \<Rightarrow> safe_rel s | _ \<Rightarrow> True) previous"
  proof (cases "\<exists>d. map_of db package = Some (PDict d)")
    case True
    then obtain d where d: "map_of db package = Some (PDict d)" by blast
    then show ?thesis using db map_of_SomeD [OF d] p by (fastforce simp: safe_records_def)
  next
    case False
    then have "(case map_of db package of Some (PDict d) \<Rightarrow> PDict d | _ \<Rightarrow> PDict []) = PDict []"
      by (auto split: option.splits pyval.splits)
    with p show ?thesis by (simp add: record_files_def py_iter_def)
  qed
  ultimately show ?thesis by (auto simp: list_all_iff)
qed

text \<open>
  What is asked of the parameters: child processes and imports stay away from the database, the
  order of a set adds nothing to it, and random identifiers are plain names.
\<close>

definition world_ok :: "zpip \<Rightarrow> world \<Rightarrow> bool" where
  "world_ok Z W \<longleftrightarrow> (\<forall>argv env. keeps (guard Z) (wd_run W argv env)) \<and> (\<forall>p m. keeps (guard Z) (wd_import W p m))
     \<and> (\<forall>xs. set (wd_order W xs) \<subseteq> set xs) \<and> (\<forall>n. good_name (wd_uuid W n) \<and> wd_uuid W n \<noteq> ''..'')"

lemma lift_tx_Ok: "lift_tx m t F = ((Ok x, t'), F') \<longleftrightarrow> m F = (Ok x, F') \<and> t' = t"
  by (auto simp: lift_tx_def split: prod.splits)

lemma keeps_pure [simp]: "keeps_tx Z (pure_tx r)"
  by (simp add: keeps_tx_lift guarded_lift)

lemma fails_keep_commit:
  assumes w: "world_ok Z W" and a: "apart Z (zp_user Z)" "apart Z staging" "apart Z backup" and f: "list_all safe_rel files"
  shows "fails_keep Z (commit_wheel Z W package channel stack manifest transaction staging backup files modules got)"
  unfolding commit_wheel_def Let_def
proof (rule fails_keep_bind [OF keeps_tx_lift [OF guarded_reads(3)]])
  fix db t F t' F' assume s: "settled Z F" and l: "lift_tx (load_db Z) t F = ((Ok db, t'), F')"
  from s l have db: "safe_records db" by (simp add: settled_def lift_tx_Ok)
  let ?old = "case map_of db package of Some (PDict d) \<Rightarrow> PDict d | _ \<Rightarrow> PDict []"
  show "fails_keep Z (bind_tx (pure_tx (record_files ?old)) (\<lambda>previous.
          bind_tx (pure_tx (check_owners package db files)) (\<lambda>_.
          bind_tx (lift_tx (mkdir_fresh backup)) (\<lambda>_.
          bind_tx (commit_files Z staging backup files) (\<lambda>_.
          bind_tx (pure_tx (obsolete_files W previous files)) (\<lambda>obsolete.
          bind_tx (lift_tx (each_io (remove_obsolete Z) obsolete)) (\<lambda>_.
          bind_tx (pure_tx (bind_r (py_get ''explicit'' PNone ?old) (\<lambda>ex.
              db_record manifest channel files (snd got) (fst got) transaction modules (truthy ex \<or> stack = [])))) (\<lambda>rec.
            lift_tx (save_db Z (dict_put package rec db))))))))))"
  proof (rule fails_keep_bind [OF keeps_pure])
    fix previous t1 F1 t2 F2 assume "pure_tx (record_files ?old) t1 F1 = ((Ok previous, t2), F2)"
    then have p: "record_files ?old = Ok previous" by (simp add: lift_tx_Ok lift_def)
    show "fails_keep Z (bind_tx (pure_tx (check_owners package db files)) (\<lambda>_.
          bind_tx (lift_tx (mkdir_fresh backup)) (\<lambda>_.
          bind_tx (commit_files Z staging backup files) (\<lambda>_.
          bind_tx (pure_tx (obsolete_files W previous files)) (\<lambda>obsolete.
          bind_tx (lift_tx (each_io (remove_obsolete Z) obsolete)) (\<lambda>_.
          bind_tx (pure_tx (bind_r (py_get ''explicit'' PNone ?old) (\<lambda>ex.
              db_record manifest channel files (snd got) (fst got) transaction modules (truthy ex \<or> stack = [])))) (\<lambda>rec.
            lift_tx (save_db Z (dict_put package rec db)))))))))"
    proof (rule fails_keep_bind [OF keeps_pure],
        rule fails_keep_bind [OF keeps_tx_lift [OF guarded_mkdir_fresh [OF apart_clear [OF a(3)]]]],
        rule fails_keep_bind [OF keeps_commit_files [OF a f]], rule fails_keep_bind [OF keeps_pure])
      fix obsolete t3 F3 t4 F4 assume "pure_tx (obsolete_files W previous files) t3 F3 = ((Ok obsolete, t4), F4)"
      then have o: "obsolete_files W previous files = Ok obsolete" by (simp add: lift_tx_Ok lift_def)
      have "keeps (guard Z) (remove_obsolete Z v)" if v: "v \<in> set obsolete" for v
        by (rule guarded_remove_obsolete [OF a(1) obsolete_safe [OF db p o _ v]]) (use w in \<open>simp add: world_ok_def\<close>)
      then have k: "keeps (guard Z) (each_io (remove_obsolete Z) obsolete)" by (rule guarded_each)
      show "fails_keep Z (bind_tx (lift_tx (each_io (remove_obsolete Z) obsolete)) (\<lambda>_.
          bind_tx (pure_tx (bind_r (py_get ''explicit'' PNone ?old) (\<lambda>ex.
              db_record manifest channel files (snd got) (fst got) transaction modules (truthy ex \<or> stack = [])))) (\<lambda>rec.
            lift_tx (save_db Z (dict_put package rec db)))))"
        by (rule fails_keep_bind [OF keeps_tx_lift [OF k]], rule fails_keep_bind [OF keeps_pure], rule fails_keep_save)
    qed
  qed
qed

lemma guarded_smoke:
  assumes "world_ok Z W"
  shows "keeps (guard Z) (smoke_test Z' W staging m)"
proof -
  have "keeps (guard Z) (wd_run W argv env)" "keeps (guard Z) (wd_import W p n)" for argv env p n
    using assms by (simp_all add: world_ok_def)
  then show ?thesis
    unfolding smoke_test_def smoke_test_in_process_def Let_def case_prod_beta
    by (intro keeps_if keeps_intros guard_transp guard_reflp)
qed

lemma resolved_is_dict: "resolve_manifest Z package version channel = Ok m \<Longrightarrow> is_dict m"
proof -
  have c: "is_dict m" if "manifest_from_curated Z n channel = Ok (Some m)" for n
  proof (cases "request_json Z (index_url Z)")
    case (Inr index)
    from that show ?thesis
      unfolding manifest_from_curated_def Inr sum.case bind_r_Ok by (elim exE conjE) (simp add: bind_r_Ok split: if_splits)
  qed (use that in \<open>simp add: manifest_from_curated_def\<close>)
  have p: "is_dict m" if "manifest_from_pypi Z n version = Ok m" for n
  proof -
    from that obtain info sel where "pypi_manifest n version info sel = Ok m"
      unfolding manifest_from_pypi_def bind_r_Ok by (elim exE conjE) (simp add: bind_r_Ok split: option.splits; blast)
    then show ?thesis unfolding pypi_manifest_def bind_r_Ok by (elim exE conjE) (auto simp: is_dict_iff)
  qed
  show "resolve_manifest Z package version channel = Ok m \<Longrightarrow> is_dict m"
    by (auto simp: resolve_manifest_def bind_r_Ok split: option.splits if_splits dest: c p)
qed

text \<open>Nothing fails once the database is saved.\<close>

lemma install_result_Ok:
  assumes "is_dict m" "canonical package"
  shows "\<exists>v. install_result package m files digest deps = Ok v"
  using assms by (auto simp: install_result_def is_dict_iff tool_collision_warning_def canonical_fixed)

lemma fails_keep_body:
  assumes w: "world_ok Z W" and a: "apart Z (zp_user Z)" "apart Z staging" "apart Z backup" "apart Z wheel"
    and c: "canonical package"
    and nd: "\<And>m. resolve_manifest Z package version channel = Ok m \<Longrightarrow> manifest_requirements (wd_parse W) m = Ok []"
  shows "fails_keep Z (install_body Z W again package version channel stack transaction staging backup wheel)"
  unfolding install_body_def
proof (rule fails_keep_bind [OF keeps_pure])
  fix m t1 F1 t2 F2 assume "pure_tx (resolve_manifest Z package version channel) t1 F1 = ((Ok m, t2), F2)"
  then have r: "resolve_manifest Z package version channel = Ok m" by (simp add: lift_tx_Ok lift_def)
  note last = install_result_Ok [OF resolved_is_dict [OF r] c]
  let ?rest = "\<lambda>got files modules. bind_tx (lift_tx (smoke_test Z W staging (hd modules))) (\<lambda>_.
     bind_tx (commit_wheel Z W package channel stack m transaction staging backup files modules got) (\<lambda>_.
     bind_tx get_deps (\<lambda>deps. pure_tx (install_result package m files (snd got) deps))))"
  have rest: "fails_keep Z (?rest got files modules)" if "list_all safe_rel files" for got files modules
  proof (rule fails_keep_bind [OF keeps_tx_lift [OF guarded_smoke [OF w]]],
      rule fails_keep_last [OF fails_keep_commit [OF w a(1-3) that]])
    show "\<exists>y t' F'. bind_tx get_deps (\<lambda>deps. pure_tx (install_result package m files (snd got) deps)) t F = ((Ok y, t'), F')" for x t F
      using last [of files "snd got" "tx_deps t"] by (auto simp: bind_tx_def get_deps_def lift_tx_def lift_def)
  qed
  show "fails_keep Z (bind_tx (lift_tx (load_db Z)) (\<lambda>before.
     bind_tx (pure_tx (manifest_requirements (wd_parse W) m)) (\<lambda>reqs.
     bind_tx (install_deps Z again (stack @ [package]) before reqs) (\<lambda>_.
     bind_tx (lift_tx (fetch_artifact Z W package m wheel)) (\<lambda>got.
     bind_tx (lift_tx (mkdir_fresh staging)) (\<lambda>_.
     bind_tx (lift_tx (extract_wheel (wd_unzip W) wheel staging)) (\<lambda>files.
     bind_tx (lift_tx (discover_modules staging package)) (\<lambda>modules. ?rest got files modules))))))))"
  proof (rule fails_keep_bind [OF keeps_tx_lift [OF guarded_reads(3)]], rule fails_keep_bind [OF keeps_pure])
    fix before reqs t3 F3 t4 F4 assume "pure_tx (manifest_requirements (wd_parse W) m) t3 F3 = ((Ok reqs, t4), F4)"
    then have q: "reqs = []" using nd [OF r] by (simp add: lift_tx_Ok lift_def)
    have d: "keeps_tx Z (install_deps Z again (stack @ [package]) before reqs)"
      unfolding q by (simp add: keeps_tx_lift keeps_ret)
    show "fails_keep Z (bind_tx (install_deps Z again (stack @ [package]) before reqs) (\<lambda>_.
     bind_tx (lift_tx (fetch_artifact Z W package m wheel)) (\<lambda>got.
     bind_tx (lift_tx (mkdir_fresh staging)) (\<lambda>_.
     bind_tx (lift_tx (extract_wheel (wd_unzip W) wheel staging)) (\<lambda>files.
     bind_tx (lift_tx (discover_modules staging package)) (\<lambda>modules. ?rest got files modules))))))"
    proof (rule fails_keep_bind [OF d], rule fails_keep_bind [OF keeps_tx_lift [OF guarded_fetch_artifact [OF a(4)]]],
        rule fails_keep_bind [OF keeps_tx_lift [OF guarded_mkdir_fresh [OF apart_clear [OF a(2)]]]],
        rule fails_keep_bind [OF keeps_tx_lift [OF guarded_extract [OF a(2)]]])
      fix got files t5 F5 t6 F6 assume "lift_tx (extract_wheel (wd_unzip W) wheel staging) t5 F5 = ((Ok files, t6), F6)"
      then have "list_all safe_rel files" by (auto simp: lift_tx_Ok dest: extract_names)
      then show "fails_keep Z (bind_tx (lift_tx (discover_modules staging package)) (\<lambda>modules. ?rest got files modules))"
        by (intro fails_keep_bind [OF keeps_tx_lift [OF guarded_discover]] rest)
    qed
  qed
qed

lemma guarded_rollback:
  assumes "txn_ok t" "apart Z (zp_user Z)" "apart Z backup"
  shows "keeps (guard Z) (rollback Z backup t)"
proof -
  have "keeps (guard Z) (restore_one Z backup f)" if "safe_rel f" for f
    unfolding restore_one_def Let_def
    by (intro keeps_if keeps_intros guard_transp guard_reflp apart_parent apart_child assms(2,3) that)
  then have "keeps (guard Z) (each_io (restore_one Z backup) (rev (tx_committed t)))"
    using assms(1) by (intro guarded_each) (auto simp: txn_ok_def list_all_iff)
  then show ?thesis using assms(1) unfolding rollback_def txn_ok_def by (auto intro!: keeps_intros)
qed

lemma guarded_cleanup: "apart Z staging \<Longrightarrow> apart Z backup \<Longrightarrow> apart Z wheel \<Longrightarrow> keeps (guard Z) (cleanup staging backup wheel)"
  unfolding cleanup_def by (intro keeps_intros guard_transp)

lemma guarded_fresh_id: "keeps (guard Z) (fresh_id W)"
  by (simp add: keeps_def fresh_id_def guard_def settled_def no_links_def)

lemma good_suffix: "good_name w \<Longrightarrow> good_name v \<Longrightarrow> length v > 2 \<Longrightarrow> safe_rel (w @ v)"
  by (rule safe_rel_good) (auto simp: good_name_def append_eq_Cons_conv)

lemma failed_txn_guarded:
  assumes w: "world_ok Z W" and b: "sandboxed Z" and c: "canonical package"
    and nd: "\<And>m. resolve_manifest Z package version channel = Ok m \<Longrightarrow> manifest_requirements (wd_parse W) m = Ok []"
    and s: "settled Z F" and i: "install_txn Z W again package version channel stack F = (Ok (failure package err True), F')"
  shows "guard Z F F'"
proof -
  obtain F1 where f: "fresh_id W F = (Ok (wd_uuid W (fs_serial F)), F1)" by (simp add: fresh_id_def)
  define id where "id = wd_uuid W (fs_serial F)"
  let ?staging = "child (zp_staging Z) id" and ?backup = "child (zp_staging Z) (id @ ''.backup'')"
    and ?wheel = "child (zp_downloads Z) (id @ ''.whl'')" and ?t0 = "\<lparr>tx_committed = [], tx_deps = []\<rparr>"
  have g: "good_name id" "id \<noteq> ''..''" using w by (auto simp: world_ok_def id_def)
  then have "safe_rel id" "safe_rel (id @ ''.backup'')" "safe_rel (id @ ''.whl'')"
    by (simp_all add: safe_rel_good good_suffix good_name_def)
  then have a: "apart Z (zp_user Z)" "apart Z ?staging" "apart Z ?backup" "apart Z ?wheel"
    using b unfolding sandboxed_def by (blast intro: apart_child)+
  obtain r t F2 where body: "install_body Z W again package version channel stack id ?staging ?backup ?wheel ?t0 F1 = ((r, t), F2)"
    by (metis prod.collapse)
  have g1: "guard Z F F1" using f guarded_fresh_id by (rule keeps_D [rotated])
  then have s1: "settled Z F1" using s by (rule guard_settled)
  show ?thesis
  proof (cases r)
    case (Inr v)
    from body Inr obtain mf files dg deps where "install_result package mf files dg deps = Ok v"
      by (auto simp: install_body_def bind_tx_cases lift_tx_Ok lift_def)
    with i f body Inr show ?thesis
      by (auto simp: install_txn_def bind_io_def Let_def finally_io_def id_def [symmetric] failure_def failed_def install_result_def
          bind_r_Ok split: prod.splits sum.splits)
  next
    case (Inl e)
    have "txn_ok ?t0" by (simp add: txn_ok_def)
    with fails_keep_body [OF w a c nd] body Inl s1 have k: "txn_ok t" "guard Z F1 F2"
      unfolding fails_keep_def by blast+
    let ?last = "finally_io (seq_io (rollback Z ?backup t) (ret (failure package (exn_text e) True))) (cleanup ?staging ?backup ?wheel)"
    have "keeps (guard Z) ?last"
      by (intro keeps_finally keeps_seq keeps_ret guarded_rollback guarded_cleanup guard_transp guard_reflp k(1) a)
    moreover have "?last F2 = (Ok (failure package err True), F')"
      using i f body Inl by (simp add: install_txn_def bind_io_def Let_def finally_io_def id_def [symmetric])
    ultimately have "guard Z F2 F'" by (rule keeps_D)
    with g1 k(2) show ?thesis by (blast intro: guard_trans)
  qed
qed


definition cut_off :: zpip where
  "cut_off = pkg_zpip\<lparr>zp_fetch := (\<lambda>url. Err ConnectionError)\<rparr>"

definition bare_fs :: fsys where
  "bare_fs = empty_fs\<lparr>fs_table := [([''i''], Dir 493), ([''p''], Dir 493), ([''d''], Dir 493), ([''s''], Dir 493)]\<rparr>"

lemma bare_settled: "settled cut_off bare_fs"
proof -
  have names: "p_names (DB_FILE cut_off) = [''i'', ''packages.json'']" "p_names (DB_TEMP cut_off) = [''i'', ''packages.tmp'']"
    by (simp_all add: db_names cut_off_def pkg_zpip_def)
  have n: "no_links bare_fs" by (auto simp: no_links_def bare_fs_def empty_fs_def node_at_def)
  moreover have r: "db_ready cut_off bare_fs"
    by (auto simp: db_ready_def names plain_def strict_prefix_two bare_fs_def empty_fs_def node_at_def)
  moreover have "fst (load_db cut_off bare_fs) = Ok []"
    using db_ready_facts(3) [OF r]
    by (simp add: load_db_def try_io_def bind_io_def read_text_def lookup_def names)
      (simp add: bare_fs_def empty_fs_def node_at_def)
  ultimately show ?thesis by (simp add: settled_def safe_records_def)
qed

lemma pkg_world_ok: "world_ok Z pkg_world"
  by (simp add: world_ok_def pkg_world_def keeps_ret good_name_def)

lemma cut_off_sandboxed: "sandboxed cut_off"
  by (simp add: sandboxed_def apart_def db_names cut_off_def pkg_zpip_def)


end
