(* ===== verification/Runtime.thy ===== *)
theory Runtime
  imports LinuxGates ZpipFront
begin

text \<open>
  The runtime's own modules: the build marker (\<open>zmux/buildinfo.py\<close>), the Java bridge resolved once
  on the main thread (\<open>zmux/javabridge.py\<close>), shared storage (\<open>zmux/storage.py\<close>), the runtime
  fingerprint (\<open>zmux/runtime_info.py\<close>), the TLS context (\<open>zmux/net.py\<close>) and the crash log
  (\<open>zmux/crash.py\<close>, \<open>main.py\<close>).  What Java, OpenSSL and the platform answer is a parameter.
\<close>

section \<open>Build marker\<close>

definition marker_path :: "path \<Rightarrow> path" where
  "marker_path app_source = child app_source ''build_marker.txt''"

definition build_marker :: "path \<Rightarrow> string io" where
  "build_marker app_source =
     try_os (bind_io (read_text_replace (marker_path app_source)) (\<lambda>s. ret (str_strip s))) ''''"

definition short_marker :: "path \<Rightarrow> string io" where
  "short_marker app_source =
     bind_io (build_marker app_source) (\<lambda>m. ret (if m = '''' then '''' else hd (str_split m)))"

section \<open>The Java bridge\<close>

text \<open>
  What pyjnius answers: resolving the class and touching its field (the text of the error when it
  fails), whether the activity is alive, and how \<open>requestPermissions\<close> fails.
\<close>

record java =
  ja_autoclass :: "string option"
  ja_activity :: bool
  ja_request :: "string option"

record bridge =
  br_class :: bool
  br_error :: "string option"
  br_primed :: bool
  br_requests :: nat

definition fresh_bridge :: bridge where
  "fresh_bridge = \<lparr>br_class = False, br_error = None, br_primed = False, br_requests = 0\<rparr>"

definition host_android :: "environ \<Rightarrow> bool" where
  "host_android env = list_ex (\<lambda>k. env k \<noteq> None) [''ANDROID_PRIVATE'', ''ANDROID_ARGUMENT'', ''ANDROID_APP_PATH'']"

definition ACTIVITY_CLASS_NAME :: string where
  "ACTIVITY_CLASS_NAME = ''org.kivy.android.PythonActivity''"

definition prime :: "environ \<Rightarrow> java \<Rightarrow> bridge \<Rightarrow> bool \<times> bridge" where
  "prime env J B =
     (if br_primed B then (br_class B, B)
      else let B = B\<lparr>br_primed := True\<rparr> in
        if \<not> host_android env then (False, B\<lparr>br_error := Some ''not running on Android''\<rparr>)
        else case ja_autoclass J of
            None \<Rightarrow> (True, B\<lparr>br_class := True\<rparr>)
          | Some e \<Rightarrow> (False, B\<lparr>br_class := False,
              br_error := Some (''could not resolve '' @ ACTIVITY_CLASS_NAME @ '': '' @ e)\<rparr>))"

definition activity_class :: "environ \<Rightarrow> java \<Rightarrow> bridge \<Rightarrow> bool \<times> bridge" where
  "activity_class env J B =
     (let B = (if \<not> br_primed B then snd (prime env J B) else B) in (br_class B, B))"

definition mActivity :: "environ \<Rightarrow> java \<Rightarrow> bridge \<Rightarrow> bool \<times> bridge" where
  "mActivity env J B = (case activity_class env J B of (c, B) \<Rightarrow> (c \<and> ja_activity J, B))"

section \<open>Shared storage\<close>

definition storage_dir :: "path \<Rightarrow> path" where "storage_dir home = child home ''storage''"

definition PUBLIC_TARGETS :: "(string \<times> string) list" where
  "PUBLIC_TARGETS =
     [(''downloads'', ''Download''), (''documents'', ''Documents''), (''dcim'', ''DCIM''),
      (''pictures'', ''Pictures''), (''music'', ''Music''), (''movies'', ''Movies'')]"

definition request_permissions :: "environ \<Rightarrow> java \<Rightarrow> bridge \<Rightarrow> (bool \<times> string) \<times> bridge" where
  "request_permissions env J B =
     (if \<not> host_android env then ((True, ''not running on Android; skipping the permission prompt''), B)
      else case mActivity env J B of (alive, B) \<Rightarrow>
        if \<not> alive then
          ((False, ''could not reach the Android activity (''
             @ (case br_error B of Some e \<Rightarrow> if e = '''' then ''Java bridge unavailable'' else e
                | None \<Rightarrow> ''Java bridge unavailable'')
             @ '') '' @ EMDASH @ '' grant Storage manually in Android Settings > Apps > ZMUX''), B)
        else let B = B\<lparr>br_requests := Suc (br_requests B)\<rparr>
             in case ja_request J of
                  Some e \<Rightarrow> ((False, ''permission request failed: '' @ e), B)
                | None \<Rightarrow> ((True, ''permission requested''), B))"

fun dirs_once :: "fsys \<Rightarrow> path \<Rightarrow> path list \<Rightarrow> string list \<Rightarrow> path list" where
  "dirs_once F cwd acc [] = acc"
| "dirs_once F cwd acc (v # vs) =
     (let p = to_path v in
      if v \<noteq> '''' \<and> is_dir F (joinpath cwd p) \<and> p \<notin> set acc then dirs_once F cwd (acc @ [p]) vs
      else dirs_once F cwd acc vs)"

definition external_roots :: "environ \<Rightarrow> path \<Rightarrow> fsys \<Rightarrow> path list" where
  "external_roots env cwd F =
     dirs_once F cwd []
       [env_get env ''EXTERNAL_STORAGE'' '''', env_get env ''ANDROID_STORAGE'' '''', ''/storage/emulated/0'', ''/sdcard'']"

definition access_r :: "fsys \<Rightarrow> path \<Rightarrow> bool" where
  "access_r F p = (case stat F p of Err _ \<Rightarrow> False | Ok n \<Rightarrow> mode_of n div 256 mod 2 = 1)"

type_synonym links = "(string \<times> string \<times> string) list"

definition link_one :: "path \<Rightarrow> path \<Rightarrow> string \<Rightarrow> path \<Rightarrow> links io" where
  "link_one home cwd nm target =
     (let link = child (storage_dir home) nm
      in try_io
          (bind_io (ask (\<lambda>F. is_symlink F link \<or> path_exists F link)) (\<lambda>old.
           seq_io (if old then unlink link else ret ())
          (seq_io (symlink_to link (path_str target))
          (bind_io (ask (\<lambda>F. access_r F (joinpath cwd target))) (\<lambda>readable.
             ret [(nm, path_str target, if readable then ''ok'' else ''linked (not readable yet)'')])))))
          (\<lambda>e. if is_oserror e then ret [(nm, path_str target, ''failed: '' @ exn_text e)] else raise e))"

fun link_public :: "path \<Rightarrow> path \<Rightarrow> path \<Rightarrow> (string \<times> string) list \<Rightarrow> links io" where
  "link_public home cwd rt [] = ret []"
| "link_public home cwd rt ((nm, relative) # ts) =
     bind_io (ask (\<lambda>F. is_dir F (joinpath cwd (child rt relative)))) (\<lambda>d.
     bind_io (if d then link_one home cwd nm (child rt relative) else ret []) (\<lambda>here.
     bind_io (link_public home cwd rt ts) (\<lambda>more. ret (here @ more))))"

record storage_result =
  sr_ok :: bool
  sr_granted :: bool
  sr_message :: string
  sr_dir :: string
  sr_links :: links
  sr_android :: bool

definition app_external :: "environ \<Rightarrow> string" where
  "app_external env =
     (let a = env_get env ''ANDROID_APP_PATH'' '''' in if a \<noteq> '''' then a else env_get env ''EXTERNAL_STORAGE'' '''')"

definition link_app :: "environ \<Rightarrow> path \<Rightarrow> path \<Rightarrow> links io" where
  "link_app env home cwd =
     (let a = app_external env in
      if a = '''' then ret []
      else bind_io (ask (\<lambda>F. is_dir F (joinpath cwd (to_path a)))) (\<lambda>d.
             if d then link_one home cwd ''app'' (to_path a) else ret []))"

definition link_shared :: "environ \<Rightarrow> path \<Rightarrow> path \<Rightarrow> links io" where
  "link_shared env home cwd =
     bind_io (ask (external_roots env cwd)) (\<lambda>roots. case roots of
         [] \<Rightarrow> ret []
       | r # _ \<Rightarrow> bind_io (link_one home cwd ''shared'' r) (\<lambda>here.
           bind_io (link_public home cwd r PUBLIC_TARGETS) (\<lambda>more. ret (here @ more))))"

definition storage_setup :: "environ \<Rightarrow> java \<Rightarrow> path \<Rightarrow> path \<Rightarrow> bridge \<Rightarrow> (storage_result \<times> bridge) io" where
  "storage_setup env J home cwd B =
     (case request_permissions env J B of ((granted, message), B') \<Rightarrow>
        seq_io (mkdir_parents (storage_dir home))
       (bind_io (link_app env home cwd) (\<lambda>l1.
        bind_io (link_shared env home cwd) (\<lambda>l2.
          ret (\<lparr>sr_ok = l1 @ l2 \<noteq> [], sr_granted = granted, sr_message = message,
                sr_dir = path_str (storage_dir home), sr_links = l1 @ l2, sr_android = host_android env\<rparr>, B')))))"

definition pad_right :: "nat \<Rightarrow> string \<Rightarrow> string" where
  "pad_right n s = s @ replicate (n - length s) (CHR '' '')"

definition format_setup :: "storage_result \<Rightarrow> string" where
  "format_setup r =
     join_with LF1
       ([''ZMUX storage setup'', replicate 40 (CHR ''='')]
        @ (if sr_android r then []
           else [''Not running on Android '' @ EMDASH @ '' links point at this machine'' @ [SQ] @ ''s paths.''])
        @ [''Permission: '' @ sr_message r, ''Location:   '' @ sr_dir r, '''']
        @ (if sr_links r = []
           then [''No shared directories were reachable.'',
                 ''On Android 11+ scoped storage may block them even after granting'',
                 ''the permission. Files can still be exchanged through the app'' @ [SQ] @ ''s'',
                 ''own external directory, when the device provides one.'']
           else map (\<lambda>(nm, target, status). ''  ~/storage/'' @ pad_right 10 nm @ '' -> '' @ target
                      @ ''  ['' @ status @ '']'') (sr_links r)
                @ ['''', ''Use them like any other directory, e.g.  ls ~/storage/downloads'']))"

section \<open>The crash log\<close>

definition MAX_LOG_BYTES :: nat where "MAX_LOG_BYTES = 256 * 1024"

definition crash_path :: "path \<Rightarrow> path" where "crash_path log_dir = child log_dir ''zmux_crash.log''"

definition crash_entry :: "string \<Rightarrow> string \<Rightarrow> string \<Rightarrow> string" where
  "crash_entry stamp source body = LF1 @ ''===== '' @ stamp @ '' ['' @ source @ ''] ====='' @ LF1 @ body"

definition content_size :: "content \<Rightarrow> nat" where
  "content_size c = (case c of Text s \<Rightarrow> length s | Binary bs \<Rightarrow> length bs)"

definition file_size :: "fsys \<Rightarrow> path \<Rightarrow> nat" where
  "file_size F p = (case stat F p of Ok (Reg c m) \<Rightarrow> content_size c | _ \<Rightarrow> 0)"

text \<open>The last \<open>n\<close> characters of the text, written back as UTF-8.\<close>

definition tail_chars :: "nat \<Rightarrow> content \<Rightarrow> string" where
  "tail_chars n c =
     (let t = utf8_replace (b (universal_newlines (lenient_text c))) in map (\<lambda>x. char_of (unat x)) (utf8_encode (drop (length t - n) t)))"

definition append_content :: "content \<Rightarrow> string \<Rightarrow> content" where
  "append_content c s = (case c of Text t \<Rightarrow> Text (t @ s) | Binary bs \<Rightarrow> Binary (bs @ b s))"

definition append_text :: "path \<Rightarrow> string \<Rightarrow> unit io" where
  "append_text p s =
     bind_io (ask (\<lambda>F. path_exists F p)) (\<lambda>ex.
       if ex then bind_io (read_content p) (\<lambda>c. write_content p (append_content c s)) else write_text p s)"

definition trim_log :: "path \<Rightarrow> unit io" where
  "trim_log p =
     bind_io (ask (\<lambda>F. path_exists F p \<and> file_size F p > MAX_LOG_BYTES)) (\<lambda>big.
       if big then bind_io (read_content p) (\<lambda>c. write_text p (tail_chars (MAX_LOG_BYTES div 2) c)) else ret ())"

definition record_crash :: "path \<Rightarrow> string \<Rightarrow> string \<Rightarrow> string \<Rightarrow> unit io" where
  "record_crash log_dir stamp source body =
     try_io
       (seq_io (mkdir_parents log_dir)
       (seq_io (trim_log (crash_path log_dir))
          (append_text (crash_path log_dir) (crash_entry stamp source body))))
       (\<lambda>e. ret ())"

text \<open>\<open>main.py\<close>: the crash text in every candidate directory that takes it.\<close>

fun write_crash_log :: "string \<Rightarrow> string list \<Rightarrow> unit io" where
  "write_crash_log text [] = ret ()"
| "write_crash_log text (c # cs) =
     seq_io (if c = '''' then ret ()
             else try_io (seq_io (mkdir_parents (to_path c)) (write_text (child (to_path c) ''zmux_crash.log'') text))
                    (\<lambda>e. ret ()))
       (write_crash_log text cs)"

definition crash_candidates :: "environ \<Rightarrow> path \<Rightarrow> string list" where
  "crash_candidates env source_dir =
     map (\<lambda>k. env_get env k '''') [''ANDROID_PRIVATE'', ''ANDROID_ARGUMENT'', ''ANDROID_APP_PATH'']
     @ [path_str source_dir, ''/data/local/tmp'']"

section \<open>The runtime fingerprint\<close>

text \<open>What \<open>platform\<close>, \<open>sysconfig\<close>, \<open>struct\<close> and \<open>shutil.disk_usage\<close> answer.\<close>

record platform_info =
  pf_version :: string
  pf_implementation :: string
  pf_machine :: string
  pf_release :: string
  pf_soabi :: string
  pf_ext_suffix :: string
  pf_pointer_bits :: nat
  pf_home :: path
  pf_disk_free :: "exn + int"

definition ARM64_NAMES :: "string list" where "ARM64_NAMES = [''aarch64'', ''arm64'', ''arm64-v8a'']"
definition ARM32_NAMES :: "string list" where "ARM32_NAMES = [''armv7l'', ''armv8l'', ''armeabi-v7a'']"

definition android_abi :: "platform_info \<Rightarrow> string" where
  "android_abi Q =
     (let machine = lower (pf_machine Q) in
      if pf_pointer_bits Q = 32 \<and> machine \<in> set (ARM64_NAMES @ ARM32_NAMES @ [''arm'']) then ''armeabi-v7a''
      else if machine \<in> set ARM32_NAMES then ''armeabi-v7a''
      else if machine \<in> set ARM64_NAMES then ''arm64-v8a''
      else machine)"

definition load_installed_db :: "path \<Rightarrow> (string \<times> pyval) list io" where
  "load_installed_db db_file =
     try_io
       (bind_io (read_text db_file) (\<lambda>s. bind_io (lift (\<lambda>F. json_loads s)) (\<lambda>v. ret (dict_items v))))
       (\<lambda>e. if is_oserror e \<or> is_valueerror e then ret [] else raise e)"

definition db_file :: "path \<Rightarrow> path" where
  "db_file app = child (child app ''installed'') ''packages.json''"

definition user_packages :: "path \<Rightarrow> path" where "user_packages app = child app ''user_packages''"

definition APP_VERSION :: string where "APP_VERSION = ''1.0.0''"
definition P4A_COMMIT :: string where "P4A_COMMIT = ''5c192d7b7308''"
definition NDK :: string where "NDK = ''28c''"

definition runtime_id :: "string \<Rightarrow> string" where
  "runtime_id version =
     ''zmux-py'' @ concat (take 2 (split_on (CHR ''.'') version)) @ ''-api26-p4a'' @ P4A_COMMIT @ ''-r1''"

definition android_api :: "environ \<Rightarrow> exn + int" where
  "android_api env = (let v = env_get env ''ANDROID_API'' ''0'' in py_int (if v = '''' then PInt 0 else PStr v))"

text \<open>What the shipped \<open>proot\<close> asks for.\<close>

definition proot_report :: "linux \<Rightarrow> pyval option io" where
  "proot_report X =
     (case native_library_dir X of
        None \<Rightarrow> ret None
      | Some d \<Rightarrow>
          if d = '''' then ret None
          else let proot = os_join d ''libproot.so''
               in bind_io (ask (\<lambda>F. is_file F (to_path proot))) (\<lambda>file.
                    if \<not> file then
                      ret (Some (PDict [(''binary'', PStr proot),
                        (''error'', PStr (''libproot.so is present but unreadable as ELF (corrupted build ''
                           @ EMDASH @ '' reinstall the latest APK)''))]))
                    else try_io
                      (bind_io (read_bytes (to_path proot)) (\<lambda>bs. case elf_dynamic_needed bs of
                           Err e \<Rightarrow> raise e
                         | Ok needed0 \<Rightarrow>
                             let needed = map (map char_of) needed0
                             in ret (Some (PDict [(''binary'', PStr proot), (''needed'', PList (map PStr needed)),
                                  (''talloc'', case find (\<lambda>n. startswith n ''libtalloc'') needed of
                                       None \<Rightarrow> PNone | Some n \<Rightarrow> PStr n)]))))
                      (\<lambda>e. ret (Some (PDict [(''binary'', PStr (if proot = '''' then ''(unknown)'' else proot)),
                         (''error'', PStr (''could not read libproot.so ('' @ exn_name e @ '': '' @ exn_text e @ '')''))])))))"

definition runtime_fingerprint :: "linux \<Rightarrow> platform_info \<Rightarrow> path \<Rightarrow> pyval io" where
  "runtime_fingerprint X Q app_source =
     bind_io (build_marker app_source) (\<lambda>marker.
     bind_io (lift (\<lambda>F. android_api (lx_env X))) (\<lambda>api.
     bind_io (lift (\<lambda>F. pf_disk_free Q)) (\<lambda>free.
     bind_io (load_installed_db (db_file (lx_app X))) (\<lambda>db.
     bind_io (proot_report X) (\<lambda>proot.
       let installed = map fst db; up = path_str (user_packages (lx_app X))
       in ret (PDict
         ([(''schema_version'', PInt 1), (''app_version'', PStr APP_VERSION), (''build'', PStr marker),
           (''runtime_id'', PStr (runtime_id (pf_version Q))),
           (''python'', PDict [(''implementation'', PStr (pf_implementation Q)), (''version'', PStr (pf_version Q)),
              (''soabi'', PStr (pf_soabi Q)), (''ext_suffix'', PStr (pf_ext_suffix Q)),
              (''pointer_bits'', PInt (int (pf_pointer_bits Q)))]),
           (''android'', PDict [(''abi'', PStr (android_abi Q)), (''api'', PInt api), (''release'', PStr (pf_release Q))]),
           (''build_contract'', PDict [(''p4a_commit'', PStr P4A_COMMIT), (''ndk'', PStr NDK)]),
           (''paths'', PDict [(''cwd'', PStr (path_str (lx_cwd X))), (''user_packages'', PStr up),
              (''home'', PStr (path_str (pf_home Q)))]),
           (''storage'', PDict [(''free_bytes'', PInt free)]),
           (''installed'', PList (map PStr installed)),
           (''legacy_package_db'', PDict [(''status'', PStr ''compatibility-only''), (''manager'', PStr ''zpip''),
              (''user_packages'', PStr up), (''installed_db'', PStr (path_str (db_file (lx_app X)))),
              (''installed_count'', PInt (int (length installed)))])]
          @ (case proot of None \<Rightarrow> [] | Some r \<Rightarrow> [(''proot'', r)]))))))))"

text \<open>The text of \<open>zmux-info\<close>.\<close>

fun py_path :: "string list \<Rightarrow> pyval \<Rightarrow> exn + pyval" where
  "py_path [] v = Ok v"
| "py_path (k # ks) v = bind_r (py_item k v) (py_path ks)"

definition or_text :: "string \<Rightarrow> pyval \<Rightarrow> string" where
  "or_text d v = (if truthy v then py_str v else d)"

definition labelled :: "pyval \<Rightarrow> string \<times> string list \<Rightarrow> exn + string" where
  "labelled fp row = map_r (\<lambda>v. pad_right 20 (fst row) @ py_str v) (py_path (snd row) fp)"

definition platform_rows :: "(string \<times> string list) list" where
  "platform_rows =
     [(''Python version:'', [''python'', ''version'']), (''Implementation:'', [''python'', ''implementation'']),
      (''SOABI:'', [''python'', ''soabi'']), (''EXT_SUFFIX:'', [''python'', ''ext_suffix'']),
      (''Pointer bits:'', [''python'', ''pointer_bits'']), (''ABI:'', [''android'', ''abi'']),
      (''Android API:'', [''android'', ''api'']), (''Runtime ID:'', [''runtime_id'']),
      (''p4a commit:'', [''build_contract'', ''p4a_commit'']), (''NDK:'', [''build_contract'', ''ndk'']),
      (''CWD:'', [''paths'', ''cwd''])]"

definition proot_lines :: "pyval \<Rightarrow> exn + string list" where
  "proot_lines fp =
     (case map_of (dict_items fp) ''proot'' of
        None \<Rightarrow> Ok []
      | Some r \<Rightarrow>
          bind_r (py_get ''needed'' PNone r) (\<lambda>nd.
          bind_r (if truthy nd then bind_r (py_iter nd) (all_r as_str) else Ok []) (\<lambda>needed.
          bind_r (py_get ''talloc'' PNone r) (\<lambda>talloc.
          bind_r (py_get ''error'' PNone r) (\<lambda>err.
            Ok ([''Proot NEEDED:       '' @ (if join_with '', '' needed = '''' then ''(none)'' else join_with '', '' needed),
                 ''Proot talloc:       '' @ or_text ''(none)'' talloc
                   @ (if talloc = PStr ''libtalloc.so'' then ''''
                      else ''  [STALE '' @ EMDASH @ '' reinstall the latest build]'')]
                @ (if truthy err then [''Proot status:      '' @ py_str err] else [])))))))"

definition installed_line :: "pyval \<Rightarrow> exn + string" where
  "installed_line fp =
     bind_r (py_item ''installed'' fp) (\<lambda>v.
       if truthy v then map_r (\<lambda>ns. ''Installed packages (legacy zpip): '' @ join_with '', '' ns)
                          (bind_r (py_iter v) (all_r as_str))
       else Ok ''Installed packages (legacy zpip): (none)'')"

definition format_fingerprint :: "pyval \<Rightarrow> exn + string" where
  "format_fingerprint fp =
     bind_r (labelled fp (''App version:'', [''app_version''])) (\<lambda>version.
     bind_r (py_get ''build'' PNone fp) (\<lambda>build.
     bind_r (proot_lines fp) (\<lambda>proot.
     bind_r (all_r (labelled fp) platform_rows) (\<lambda>rows.
     bind_r (py_path [''paths'', ''user_packages''] fp) (\<lambda>packages.
     bind_r (py_get ''legacy_package_db'' PNone fp) (\<lambda>db.
     bind_r (py_get ''status'' (PStr ''compatibility-only'') (if truthy db then db else PDict [])) (\<lambda>status.
     bind_r (bind_r (py_path [''storage'', ''free_bytes''] fp) thousands) (\<lambda>free.
     bind_r (installed_line fp) (\<lambda>installed.
       Ok (join_with LF1
         ([''ZMUX Runtime Fingerprint'', replicate 40 (CHR ''=''), version,
           ''Build:              '' @ or_text ''(not recorded)'' build]
          @ proot @ rows
          @ [''Legacy user packages: '' @ py_str packages, ''Legacy package DB:  '' @ py_str status,
             ''Free storage:       '' @ free @ '' bytes'', installed])))))))))))"

section \<open>The TLS context\<close>

text \<open>
  A context is known by where its trust anchors come from; every one of them verifies.  \<open>cafile\<close>
  is what building a context from certifi's bundle yields, \<open>system\<close> building the default one and
  how many anchors it holds, the second time the retry of the last branch.
\<close>

datatype tls = Certifi | System nat

definition resolve_context :: "exn + unit \<Rightarrow> exn + nat \<Rightarrow> exn + nat \<Rightarrow> exn + tls \<times> bool" where
  "resolve_context cafile system again =
     (case cafile of
        Ok _ \<Rightarrow> Ok (Certifi, True)
      | Err _ \<Rightarrow> (case system of
            Ok n \<Rightarrow> Ok (System n, n > 0)
          | Err _ \<Rightarrow> map_r (\<lambda>n. (System n, False)) again))"

section \<open>Lemmas\<close>

text \<open>The bridge is primed at most once, and the first outcome stays.\<close>

definition bridge_ok :: "bridge \<Rightarrow> bool" where "bridge_ok B \<longleftrightarrow> (br_class B \<longrightarrow> br_primed B)"

lemma prime_idempotent: "bridge_ok B \<Longrightarrow> prime env J B = (r, B') \<Longrightarrow> prime env' J' B' = (r, B') \<and> bridge_ok B'"
  by (auto simp: prime_def bridge_ok_def Let_def split: if_splits option.splits)

text \<open>A fingerprint can be shown: none of the lookups of \<open>zmux-info\<close> fails.\<close>

lemma proot_report_shape:
  "proot_report X F = (r, F') \<Longrightarrow> \<exists>v. r = Ok v \<and> (\<forall>d. v = Some d \<longrightarrow> (\<exists>kvs. d = PDict kvs))"
  by (auto simp: proot_report_def Let_def bind_io_def try_io_def split: option.splits if_splits prod.splits sum.splits)

end
