(* ===== verification/ShellBuiltins.thy ===== *)
theory ShellBuiltins
  imports LinuxProot "HOL-Library.Multiset"
begin

text \<open>
  The built-in file commands of the legacy command interpreter (\<open>PythonShell\<close> in
  \<open>zmux/python_shell.py\<close>): argument handling, \<open>ls\<close>, \<open>mkdir\<close>, \<open>rm\<close>, \<open>cp\<close>, \<open>mv\<close>, \<open>cat\<close>, \<open>touch\<close>,
  \<open>echo\<close>, \<open>pwd\<close>, \<open>cd\<close>, \<open>env\<close>, \<open>which\<close>, and the lookup of executables.  An \<open>OSError\<close> that the code
  raises with a text of its own (a subclass with a message) is \<open>OSError\<close> with that text.
\<close>

section \<open>What the commands read\<close>

text \<open>
  The process: its environment in order, its working directory, the application and home
  directories, the password database (\<open>''''\<close> is the own user), \<open>platform.platform()\<close>, and the parts
  of \<open>stat\<close> the table of the file system does not hold.
\<close>

record proc =
  pc_env :: dict
  pc_cwd :: path
  pc_app :: path
  pc_home :: path
  pc_passwd :: "string \<Rightarrow> string option"
  pc_platform :: string
  pc_mtime :: "fsys \<Rightarrow> path \<Rightarrow> nat"
  pc_dir_size :: nat

definition environ_of :: "proc \<Rightarrow> environ" where "environ_of P = map_of (pc_env P)"

text \<open>\<open>os.path.expanduser\<close>.\<close>

definition tilde_home :: "proc \<Rightarrow> string \<Rightarrow> string option" where
  "tilde_home P user =
     (if user = '''' then (case environ_of P ''HOME'' of Some h \<Rightarrow> Some h | None \<Rightarrow> pc_passwd P '''')
      else pc_passwd P user)"

definition expanduser :: "proc \<Rightarrow> string \<Rightarrow> string" where
  "expanduser P s =
     (if \<not> startswith s ''~'' then s
      else let user = takeWhile (\<lambda>c. c \<noteq> SEP) (tl s); rest = dropWhile (\<lambda>c. c \<noteq> SEP) (tl s)
           in case tilde_home P user of None \<Rightarrow> s
              | Some h \<Rightarrow> (let r = rev (dropWhile (\<lambda>c. c = SEP) (rev h)) @ rest in if r = '''' then ''/'' else r))"

definition shell_path :: "proc \<Rightarrow> path \<Rightarrow> string \<Rightarrow> fsys \<Rightarrow> exn + path" where
  "shell_path P cwd value F = resolve_path F (joinpath cwd (to_path (expanduser P value)))"

fun each_path :: "proc \<Rightarrow> path \<Rightarrow> string list \<Rightarrow> fsys \<Rightarrow> exn + path list" where
  "each_path P cwd [] F = Ok []"
| "each_path P cwd (v # vs) F =
     (case shell_path P cwd v F of Err e \<Rightarrow> Err e
      | Ok p \<Rightarrow> (case each_path P cwd vs F of Err e \<Rightarrow> Err e | Ok ps \<Rightarrow> Ok (p # ps)))"

definition invalid_option :: "string \<Rightarrow> exn" where
  "invalid_option shown = ValueError (''invalid option -- '' @ [SQ] @ shown @ [SQ])"

definition missing_operand :: exn where "missing_operand = ValueError ''missing operand''"

definition no_such :: "path \<Rightarrow> exn" where
  "no_such p = OSError (''No such file or directory: '' @ [SQ] @ path_str p @ [SQ])"

section \<open>ls\<close>

record ls_opts =
  o_all :: bool
  o_long :: bool
  o_recursive :: bool
  o_time :: bool
  o_reverse :: bool

definition no_opts :: ls_opts where
  "no_opts = \<lparr>o_all = False, o_long = False, o_recursive = False, o_time = False, o_reverse = False\<rparr>"

definition add_letters :: "string \<Rightarrow> ls_opts \<Rightarrow> ls_opts" where
  "add_letters ls q =
     \<lparr>o_all = o_all q \<or> CHR ''a'' \<in> set ls, o_long = o_long q \<or> CHR ''l'' \<in> set ls,
      o_recursive = o_recursive q \<or> CHR ''R'' \<in> set ls, o_time = o_time q \<or> CHR ''t'' \<in> set ls,
      o_reverse = o_reverse q \<or> CHR ''r'' \<in> set ls\<rparr>"

fun ls_args :: "ls_opts \<Rightarrow> string list \<Rightarrow> string list \<Rightarrow> exn + ls_opts \<times> string list" where
  "ls_args q ops [] = Ok (q, ops)"
| "ls_args q ops (arg # args) =
     (if arg = ''--'' then Ok (q, ops @ args)
      else if startswith arg ''-'' \<and> arg \<noteq> ''-'' then
        (if \<not> set (tl arg) \<subseteq> set ''alRtr''
         then Err (invalid_option (if startswith arg ''--'' then arg else [hd (tl arg)]))
         else ls_args (add_letters (tl arg) q) ops args)
      else ls_args q (ops @ [arg]) args)"

fun stat_all :: "fsys \<Rightarrow> path list \<Rightarrow> exn + (path \<times> node) list" where
  "stat_all F [] = Ok []"
| "stat_all F (p # ps) =
     (case stat F p of Err e \<Rightarrow> Err e
      | Ok n \<Rightarrow> (case stat_all F ps of Err e \<Rightarrow> Err e | Ok r \<Rightarrow> Ok ((p, n) # r)))"

text \<open>\<open>list.sort(key, reverse)\<close>: equal keys keep their order either way.\<close>

definition py_sort :: "bool \<Rightarrow> ('a \<Rightarrow> 'k::linorder) \<Rightarrow> 'a list \<Rightarrow> 'a list" where
  "py_sort descending f xs = (if descending then rev (sort_key f (rev xs)) else sort_key f xs)"

definition entry_path :: "path \<Rightarrow> string \<Rightarrow> path" where
  "entry_path p n = Path (p_root p) (p_names p @ [n])"

definition dir_entries :: "fsys \<Rightarrow> path \<Rightarrow> bool \<Rightarrow> exn + path list" where
  "dir_entries F p show_all =
     (case fst (iterdir p F) of Err e \<Rightarrow> Err e
      | Ok ns \<Rightarrow> Ok (map (entry_path p) (filter (\<lambda>n. show_all \<or> \<not> startswith n ''.'') ns)))"

definition ls_entries :: "proc \<Rightarrow> fsys \<Rightarrow> ls_opts \<Rightarrow> path \<Rightarrow> exn + path list" where
  "ls_entries P F q p =
     (case dir_entries F p (o_all q) of Err e \<Rightarrow> Err e
      | Ok es \<Rightarrow>
          if o_time q
          then (case stat_all F es of Err e \<Rightarrow> Err e | Ok _ \<Rightarrow> Ok (py_sort (\<not> o_reverse q) (pc_mtime P F) es))
          else Ok (py_sort (o_reverse q) path_name es))"

fun octal :: "nat \<Rightarrow> string" where
  "octal n = (if n < 8 then [char_of (48 + n)] else octal (n div 8) @ [char_of (48 + n mod 8)])"
declare octal.simps [simp del]

definition pad_left :: "char \<Rightarrow> nat \<Rightarrow> string \<Rightarrow> string" where
  "pad_left c n s = replicate (n - length s) c @ s"

definition st_mode :: "node \<Rightarrow> nat" where
  "st_mode n = (case n of Reg c m \<Rightarrow> 32768 + m | Dir m \<Rightarrow> 16384 + m | Lnk t \<Rightarrow> 40960 + 511)"

definition st_size :: "proc \<Rightarrow> node \<Rightarrow> nat" where
  "st_size P n = (case n of Reg (Text s) m \<Rightarrow> length s | Reg (Binary bs) m \<Rightarrow> length bs
     | Dir m \<Rightarrow> pc_dir_size P | Lnk t \<Rightarrow> length t)"

definition ls_format :: "proc \<Rightarrow> fsys \<Rightarrow> bool \<Rightarrow> path list \<Rightarrow> exn + string" where
  "ls_format P F long es =
     (if long then
        (case stat_all F es of Err e \<Rightarrow> Err e
         | Ok r \<Rightarrow> Ok (concat (map (\<lambda>(p, n). pad_left (CHR ''0'') 6 (octal (st_mode n)) @ '' ''
                          @ pad_left (CHR '' '') 8 (nat_str (st_size P n)) @ '' '' @ path_name p @ LF1) r)))
      else Ok (join_with ''  '' (map path_name es) @ (if es \<noteq> [] then LF1 else '''')))"

definition listable :: "fsys \<Rightarrow> path \<Rightarrow> bool" where
  "listable F p = (is_dir F p \<and> \<not> is_symlink F p)"

definition ls_body :: "proc \<Rightarrow> fsys \<Rightarrow> ls_opts \<Rightarrow> path \<Rightarrow> exn + string" where
  "ls_body P F q p =
     (case ls_entries P F q p of Err e \<Rightarrow> Err e | Ok es \<Rightarrow> ls_format P F (o_long q) es)"

fun ls_sections :: "proc \<Rightarrow> fsys \<Rightarrow> ls_opts \<Rightarrow> bool \<Rightarrow> path list \<Rightarrow> exn + string list" where
  "ls_sections P F q headed [] = Ok []"
| "ls_sections P F q headed (p # ps) =
     (case (if listable F p then ls_body P F q p else Ok (path_name p @ LF1)) of Err e \<Rightarrow> Err e
      | Ok body \<Rightarrow>
          (case ls_sections P F q headed ps of Err e \<Rightarrow> Err e
           | Ok ss \<Rightarrow> Ok ((if headed then path_str p @ '':'' @ LF1 @ body else body) # ss)))"

definition ls_flat :: "proc \<Rightarrow> fsys \<Rightarrow> ls_opts \<Rightarrow> path list \<Rightarrow> exn + string" where
  "ls_flat P F q targets =
     (case ls_sections P F q (length targets > 1) targets of Err e \<Rightarrow> Err e
      | Ok ss \<Rightarrow> Ok (if length targets > 1 then join_with LF1 ss else concat ss))"

text \<open>
  \<open>ls -R\<close>: the stack of directories still to list.  An entry is descended into when it is a
  directory and no link; the walk ends because each such entry lies deeper in the table.
\<close>

definition deepest :: "fsys \<Rightarrow> nat" where
  "deepest F = foldr (\<lambda>e n. max (length (fst e)) n) (fs_table F) 0"

lemma deepest_ge: "e \<in> set es \<Longrightarrow> length (fst e) \<le> foldr (\<lambda>e n. max (length (fst e)) n) es 0"
  by (induction es) (auto simp: le_max_iff_disj)

lemma node_deepest: "node_at F l \<noteq> None \<Longrightarrow> length l \<le> deepest F"
  unfolding node_at_def deepest_def
  using deepest_ge map_of_SomeD by (fastforce split: if_splits)

definition descend :: "fsys \<Rightarrow> path \<Rightarrow> bool" where
  "descend F q = (listable F q \<and> node_at F (p_names q) \<noteq> None)"

lemma ls_entries_depth:
  "ls_entries P F q p = Ok es \<Longrightarrow> e \<in> set es \<Longrightarrow> length (p_names e) = Suc (length (p_names p))"
  by (auto simp: ls_entries_def dir_entries_def py_sort_def entry_path_def split: sum.splits if_splits)

function ls_walk :: "proc \<Rightarrow> fsys \<Rightarrow> ls_opts \<Rightarrow> path list \<Rightarrow> exn + (path \<times> string) list" where
  "ls_walk P F q [] = Ok []"
| "ls_walk P F q (p # stack) =
     (case ls_entries P F q p of Err e \<Rightarrow> Err e
      | Ok es \<Rightarrow>
          (case ls_format P F (o_long q) es of Err e \<Rightarrow> Err e
           | Ok body \<Rightarrow>
               (case ls_walk P F q (filter (descend F) es @ stack) of Err e \<Rightarrow> Err e
                | Ok ss \<Rightarrow> Ok ((p, body) # ss))))"
  by pat_completeness auto
termination
proof (relation "inv_image (mult less_than) (\<lambda>(P, F, q, st). image_mset (\<lambda>p. Suc (deepest F) - length (p_names p)) (mset st))")
  show "wf (inv_image (mult less_than) (\<lambda>(P, F, q, st). image_mset (\<lambda>p. Suc (deepest F) - length (p_names p)) (mset st)))"
    by (intro wf_inv_image wf_mult) simp
next
  fix P F q p stack es body
  assume es: "ls_entries P F q p = Inr es"
  let ?f = "\<lambda>p. Suc (deepest F) - length (p_names p)"
  let ?ds = "filter (descend F) es"
  have "x < ?f p" if "x \<in># image_mset ?f (mset ?ds)" for x
  proof -
    from that obtain e where e: "e \<in> set es" "descend F e" "x = ?f e" by auto
    have "length (p_names e) \<le> deepest F" using e(2) by (auto simp: descend_def intro: node_deepest)
    with e(3) ls_entries_depth [OF es e(1)] show ?thesis by auto
  qed
  then have "(image_mset ?f (mset stack) + image_mset ?f (mset ?ds), image_mset ?f (mset stack) + {#?f p#}) \<in> mult less_than"
    by (intro one_step_implies_mult) auto
  then show "((P, F, q, ?ds @ stack), P, F, q, p # stack)
      \<in> inv_image (mult less_than) (\<lambda>(P, F, q, st). image_mset (\<lambda>p. Suc (deepest F) - length (p_names p)) (mset st))"
    by (simp add: ac_simps)
qed

fun ls_trees :: "proc \<Rightarrow> fsys \<Rightarrow> ls_opts \<Rightarrow> path list \<Rightarrow> exn + string list" where
  "ls_trees P F q [] = Ok []"
| "ls_trees P F q (p # ps) =
     (case (if listable F p
            then (case ls_walk P F q [p] of Err e \<Rightarrow> Err e
                  | Ok ss \<Rightarrow> Ok (map (\<lambda>(h, body). path_str h @ '':'' @ LF1 @ body) ss))
            else Ok [path_name p @ LF1]) of Err e \<Rightarrow> Err e
      | Ok here \<Rightarrow> (case ls_trees P F q ps of Err e \<Rightarrow> Err e | Ok ss \<Rightarrow> Ok (here @ ss)))"

definition ls_recursive :: "proc \<Rightarrow> fsys \<Rightarrow> ls_opts \<Rightarrow> path list \<Rightarrow> exn + string" where
  "ls_recursive P F q targets =
     (case ls_trees P F q targets of Err e \<Rightarrow> Err e | Ok ss \<Rightarrow> Ok (join_with LF1 ss))"

definition cmd_ls :: "proc \<Rightarrow> path \<Rightarrow> string list \<Rightarrow> fsys \<Rightarrow> exn + string" where
  "cmd_ls P cwd args F =
     (case ls_args no_opts [] args of Err e \<Rightarrow> Err e
      | Ok (q, operands) \<Rightarrow>
          (case each_path P cwd (if operands = [] then [''.''] else operands) F of Err e \<Rightarrow> Err e
           | Ok targets \<Rightarrow>
               (case find (\<lambda>p. \<not> path_exists F p) targets of
                  Some p \<Rightarrow> Err (no_such p)
                | None \<Rightarrow> if o_recursive q then ls_recursive P F q targets else ls_flat P F q targets)))"

section \<open>mkdir, rm\<close>

definition operands_of :: "string list \<Rightarrow> string list" where
  "operands_of args = filter (\<lambda>a. \<not> startswith a ''-'') args"

definition on_path :: "proc \<Rightarrow> path \<Rightarrow> (path \<Rightarrow> unit io) \<Rightarrow> string \<Rightarrow> unit io" where
  "on_path P cwd f value = bind_io (lift (shell_path P cwd value)) f"

definition cmd_mkdir :: "proc \<Rightarrow> path \<Rightarrow> string list \<Rightarrow> string io" where
  "cmd_mkdir P cwd args =
     (if operands_of args = [] then raise missing_operand
      else seq_io (each_io (on_path P cwd (\<lambda>p. if ''-p'' \<in> set args then mkdir_parents p else os_mkdir p)) (operands_of args))
             (ret ''''))"

fun rm_flags :: "bool \<times> bool \<Rightarrow> string list \<Rightarrow> exn + bool \<times> bool" where
  "rm_flags rf [] = Ok rf"
| "rm_flags (r, f) (arg # args) =
     (if \<not> startswith arg ''-'' then rm_flags (r, f) args
      else if arg = ''--recursive'' then rm_flags (True, f) args
      else if arg = ''--force'' then rm_flags (r, True) args
      else if tl arg \<noteq> '''' \<and> set (tl arg) \<subseteq> set ''rRf''
        then rm_flags (r \<or> CHR ''r'' \<in> set arg \<or> CHR ''R'' \<in> set arg, f \<or> CHR ''f'' \<in> set arg) args
      else Err (invalid_option (if startswith arg ''--'' then arg else tl arg)))"

text \<open>\<open>shutil.rmtree\<close>: bottom up, stopping at the first error.\<close>

definition remove_entry :: "path \<Rightarrow> unit io" where
  "remove_entry p F =
     (case lstat F p of Err e \<Rightarrow> (Err e, F) | Ok n \<Rightarrow> if is_dirnode n then rmdir p F else unlink p F)"

definition rmtree :: "path \<Rightarrow> unit io" where
  "rmtree p = bind_io (ask (descendants p)) (\<lambda>qs. seq_io (each_io remove_entry qs) (rmdir p))"

definition remove_one :: "bool \<Rightarrow> path \<Rightarrow> unit io" where
  "remove_one recursive p =
     bind_io (ask (\<lambda>F. listable F p)) (\<lambda>d.
       if d then (if \<not> recursive then raise (OSError (path_str p)) else rmtree p) else unlink p)"

definition cmd_rm :: "proc \<Rightarrow> path \<Rightarrow> string list \<Rightarrow> string io" where
  "cmd_rm P cwd args =
     (case rm_flags (False, False) args of
        Err e \<Rightarrow> raise e
      | Ok (recursive, force) \<Rightarrow>
          if operands_of args = [] then raise missing_operand
          else seq_io (each_io (on_path P cwd (\<lambda>p.
                  try_io (remove_one recursive p)
                    (\<lambda>e. if e = FileNotFoundError \<and> force then ret () else raise e))) (operands_of args))
               (ret ''''))"

section \<open>cp, mv\<close>

text \<open>\<open>shutil.copy2\<close>: into a directory, and not onto itself.\<close>

definition same_file :: "fsys \<Rightarrow> path \<Rightarrow> path \<Rightarrow> bool" where
  "same_file F p q =
     (case lookup F True p of Err _ \<Rightarrow> False
      | Ok (l, n) \<Rightarrow> (case lookup F True q of Err _ \<Rightarrow> False | Ok (k, n') \<Rightarrow> l = k))"

definition copy2 :: "path \<Rightarrow> path \<Rightarrow> unit io" where
  "copy2 src dest =
     bind_io (ask (\<lambda>F. if is_dir F dest then entry_path dest (path_name src) else dest)) (\<lambda>d.
     bind_io (ask (\<lambda>F. same_file F src d)) (\<lambda>same.
       if same then raise (OSError (py_repr (path_str src) @ '' and '' @ py_repr (path_str d) @ '' are the same file''))
       else copy_file src d))"

definition cp_mv_usage :: "string \<Rightarrow> exn" where
  "cp_mv_usage c = ValueError (''usage: '' @ c @ '' SOURCE DEST'')"

definition cmd_cp :: "proc \<Rightarrow> path \<Rightarrow> string list \<Rightarrow> string io" where
  "cmd_cp P cwd args =
     (if length args \<noteq> 2 then raise (cp_mv_usage ''cp'')
      else bind_io (lift (shell_path P cwd (args ! 0))) (\<lambda>src.
           bind_io (lift (shell_path P cwd (args ! 1))) (\<lambda>dest.
           bind_io (ask (\<lambda>F. is_dir F dest)) (\<lambda>d.
             seq_io (copy2 src (if d then child dest (path_name src) else dest)) (ret '''')))))"

text \<open>
  \<open>shutil.move\<close>: a rename; when the system refuses it, a copy followed by removal.  \<open>copytree\<close>
  goes on after an error and reports at the end.
\<close>

definition copy_entry :: "path \<Rightarrow> path \<Rightarrow> path \<Rightarrow> unit io" where
  "copy_entry src dest q =
     (let d = Path (p_root dest) (p_names dest @ drop (length (p_names src)) (p_names q))
      in bind_io (ask (\<lambda>F. lstat F q)) (\<lambda>r. case r of
           Err e \<Rightarrow> raise e
         | Ok (Lnk t) \<Rightarrow> symlink_to d t
         | Ok (Dir m) \<Rightarrow> seq_io (mkdir_fresh d) (chmod d m)
         | Ok (Reg c m) \<Rightarrow> copy2 q d))"

fun collect_errors :: "('a \<Rightarrow> unit io) \<Rightarrow> 'a list \<Rightarrow> exn list io" where
  "collect_errors f [] = ret []"
| "collect_errors f (x # xs) =
     bind_io (try_io (seq_io (f x) (ret [])) (\<lambda>e. if is_oserror e then ret [e] else raise e)) (\<lambda>es.
     bind_io (collect_errors f xs) (\<lambda>r. ret (es @ r)))"

definition copytree :: "path \<Rightarrow> path \<Rightarrow> unit io" where
  "copytree src dest =
     bind_io (ask (rglob src)) (\<lambda>qs.
     seq_io (mkdir_fresh dest)
       (bind_io (collect_errors (copy_entry src dest) qs) (\<lambda>es.
          if es \<noteq> [] then raise (OSError (join_with '', '' (map exn_text es))) else ret ())))"

definition dest_in_src :: "path \<Rightarrow> path \<Rightarrow> bool" where
  "dest_in_src src dest = (p_root src = p_root dest \<and> prefix (p_names src) (p_names dest))"

definition move_fallback :: "path \<Rightarrow> path \<Rightarrow> path \<Rightarrow> unit io" where
  "move_fallback src dest real =
     bind_io (ask (\<lambda>F. (is_symlink F src, is_dir F src))) (\<lambda>(l, d).
       if l then bind_io (readlink src) (\<lambda>t. seq_io (symlink_to real t) (unlink src))
       else if d then
         (if dest_in_src src dest
          then raise (OSError (''Cannot move a directory '' @ [SQ] @ path_str src @ [SQ] @ '' into itself ''
                 @ [SQ] @ path_str dest @ [SQ] @ ''.''))
          else seq_io (copytree src real) (rmtree src))
       else seq_io (copy2 src real) (unlink src))"

definition rename_or :: "path \<Rightarrow> path \<Rightarrow> unit io \<Rightarrow> unit io" where
  "rename_or src real fallback =
     try_io (os_replace src real) (\<lambda>e. if is_oserror e then fallback else raise e)"

definition shutil_move :: "path \<Rightarrow> path \<Rightarrow> unit io" where
  "shutil_move src dest =
     bind_io (ask (\<lambda>F. is_dir F dest)) (\<lambda>d.
       if \<not> d then rename_or src dest (move_fallback src dest dest)
       else bind_io (ask (\<lambda>F. same_file F src dest)) (\<lambda>same.
         if same then os_replace src dest
         else let real = entry_path dest (path_name src)
              in bind_io (ask (\<lambda>F. path_exists F real)) (\<lambda>ex.
                   if ex then raise (OSError (''Destination path '' @ [SQ] @ path_str real @ [SQ] @ '' already exists''))
                   else rename_or src real (move_fallback src dest real))))"

definition cmd_mv :: "proc \<Rightarrow> path \<Rightarrow> string list \<Rightarrow> string io" where
  "cmd_mv P cwd args =
     (if length args \<noteq> 2 then raise (cp_mv_usage ''mv'')
      else bind_io (lift (shell_path P cwd (args ! 0))) (\<lambda>src.
           bind_io (lift (shell_path P cwd (args ! 1))) (\<lambda>dest.
             seq_io (shutil_move src dest) (ret ''''))))"

section \<open>cat, touch, echo, pwd, env\<close>

definition read_text_mode :: "path \<Rightarrow> string io" where
  "read_text_mode p = bind_io (read_text p) (\<lambda>s. ret (universal_newlines s))"

fun concat_texts :: "(string \<Rightarrow> string io) \<Rightarrow> string list \<Rightarrow> string io" where
  "concat_texts f [] = ret ''''"
| "concat_texts f (a # as) = bind_io (f a) (\<lambda>s. bind_io (concat_texts f as) (\<lambda>r. ret (s @ r)))"

definition cmd_cat :: "proc \<Rightarrow> path \<Rightarrow> string list \<Rightarrow> string io" where
  "cmd_cat P cwd args =
     (if args = [] then raise missing_operand
      else concat_texts (\<lambda>a. bind_io (lift (shell_path P cwd a)) read_text_mode) args)"

definition cmd_touch :: "proc \<Rightarrow> path \<Rightarrow> string list \<Rightarrow> string io" where
  "cmd_touch P cwd args =
     (if args = [] then raise missing_operand
      else seq_io (each_io (on_path P cwd touch) args) (ret ''''))"

definition cmd_echo :: "string list \<Rightarrow> string" where
  "cmd_echo args = join_with '' '' args @ LF1"

definition cmd_pwd :: "path \<Rightarrow> string" where
  "cmd_pwd cwd = path_str cwd @ LF1"

definition clear_sequence :: string where
  "clear_sequence = concat (map (\<lambda>s. CHR 0x1B # s) [''[H'', ''[2J'', ''[3J''])"

definition cmd_env :: "proc \<Rightarrow> string" where
  "cmd_env P = concat (map (\<lambda>(k, v). k @ ''='' @ v @ LF1) (sort_key fst (pc_env P)))"

section \<open>Executables\<close>

definition runnable_file :: "proc \<Rightarrow> fsys \<Rightarrow> string \<Rightarrow> bool" where
  "runnable_file P F s = (let p = joinpath (pc_cwd P) (to_path s) in is_file F p \<and> access_x F p)"

definition find_executable :: "proc \<Rightarrow> fsys \<Rightarrow> string \<Rightarrow> string option" where
  "find_executable P F command =
     (if SEP \<in> set command then (if runnable_file P F command then Some command else None)
      else map_option (\<lambda>d. os_join d command)
             (find (\<lambda>d. runnable_file P F (os_join d command))
               (split_on PSEP (build_path (environ_of P) (pc_app P) []))))"

definition cmd_which :: "proc \<Rightarrow> fsys \<Rightarrow> string list \<Rightarrow> string" where
  "cmd_which P F args =
     concat (map (\<lambda>path. path @ LF1) (List.map_filter (find_executable P F) args))"

definition PYTHON_KEYWORD_GUARD :: "string list" where
  "PYTHON_KEYWORD_GUARD =
     [''import'', ''from'', ''print'', ''exec'', ''eval'', ''assert'', ''del'', ''pass'',
      ''raise'', ''return'', ''yield'', ''lambda'', ''with'', ''while'', ''for'', ''if'',
      ''else'', ''elif'', ''try'', ''except'', ''finally'', ''class'', ''def'', ''global'',
      ''nonlocal'', ''not'', ''and'', ''or'', ''is'', ''in'', ''break'', ''continue'',
      ''async'', ''await'', ''match'', ''case'', ''true'', ''false'', ''none'']"

definition is_external_command :: "proc \<Rightarrow> fsys \<Rightarrow> string \<Rightarrow> bool" where
  "is_external_command P F command =
     (command \<notin> set PYTHON_KEYWORD_GUARD \<and> find_executable P F command \<noteq> None)"

section \<open>cd\<close>

text \<open>The new working directory; both sides are resolved before they are compared.\<close>

definition cmd_cd :: "proc \<Rightarrow> path \<Rightarrow> string list \<Rightarrow> fsys \<Rightarrow> exn + path" where
  "cmd_cd P cwd args F =
     (if length args > 1 then Err (ValueError ''too many arguments'')
      else case resolve_path F (pc_home P) of Err e \<Rightarrow> Err e
      | Ok home \<Rightarrow>
          (case (if args = [] then Ok home
                 else case shell_path P cwd (hd args) F of Err e \<Rightarrow> Err e | Ok p \<Rightarrow> resolve_path F p) of
             Err e \<Rightarrow> Err e
           | Ok target \<Rightarrow>
               if relative_to target home = None
               then Err (OSError (''cannot access '' @ [SQ] @ path_str target @ [SQ] @ '': outside home directory''))
               else if \<not> is_dir F target then Err (no_such target)
               else Ok target))"

section \<open>The table of built-in commands\<close>

definition BUILTINS :: "string list" where
  "BUILTINS = [''ls'', ''mkdir'', ''rm'', ''cp'', ''mv'', ''cat'', ''touch'', ''echo'', ''pwd'', ''cd'', ''clear'',
     ''env'', ''which'', ''uname'']"

text \<open>The output of a built-in command and the working directory after it.\<close>

definition run_builtin :: "proc \<Rightarrow> path \<Rightarrow> string \<Rightarrow> string list \<Rightarrow> (string \<times> path) io" where
  "run_builtin P cwd command args =
     (if command = ''cd'' then bind_io (lift (cmd_cd P cwd args)) (\<lambda>d. ret ('''', d))
      else bind_io
        (if command = ''ls'' then lift (cmd_ls P cwd args)
         else if command = ''mkdir'' then cmd_mkdir P cwd args
         else if command = ''rm'' then cmd_rm P cwd args
         else if command = ''cp'' then cmd_cp P cwd args
         else if command = ''mv'' then cmd_mv P cwd args
         else if command = ''cat'' then cmd_cat P cwd args
         else if command = ''touch'' then cmd_touch P cwd args
         else if command = ''echo'' then ret (cmd_echo args)
         else if command = ''pwd'' then ret (cmd_pwd cwd)
         else if command = ''clear'' then ret clear_sequence
         else if command = ''env'' then ret (cmd_env P)
         else if command = ''which'' then ask (\<lambda>F. cmd_which P F args)
         else ret (pc_platform P @ LF1)) (\<lambda>out. ret (out, cwd)))"

end
