(* ===== verification/Cli.thy ===== *)
theory Cli
  imports Runtime ShellBuiltins
begin

text \<open>
  The command-line entry \<open>python -m zmux.cli\<close> (\<open>zmux/cli.py\<close>): every command of the registry, on
  the models of the modules it calls.  The process writes texts to standard output and standard
  error; they are collected in order.  Child processes, the network, archive formats, Java and the
  kernel's terminals are parameters.
\<close>

section \<open>The process and its output\<close>

datatype stream = Out | Error | Progress

record console =
  tm_fs :: fsys
  tm_prints :: "(stream \<times> string) list"
  tm_bridge :: bridge
  tm_seccomp :: "bool option"
  tm_sink :: bool

text \<open>
  \<open>tm_sink\<close> says whether the terminal has installed its progress sink in \<open>zpip\<close> and \<open>linuxenv\<close>;
  what the sink gets is kept among the texts, as \<open>Progress\<close>.
\<close>

type_synonym ('s, 'a) act = "'s \<Rightarrow> (exn + 'a) \<times> 's"

definition ret_a :: "'a \<Rightarrow> ('s, 'a) act" where "ret_a x s = (Ok x, s)"
definition raise_a :: "exn \<Rightarrow> ('s, 'a) act" where "raise_a e s = (Err e, s)"

definition bind_a :: "('s, 'a) act \<Rightarrow> ('a \<Rightarrow> ('s, 'b) act) \<Rightarrow> ('s, 'b) act" where
  "bind_a m f s = (case m s of (Err e, s') \<Rightarrow> (Err e, s') | (Ok x, s') \<Rightarrow> f x s')"

definition seq_a :: "('s, 'a) act \<Rightarrow> ('s, 'b) act \<Rightarrow> ('s, 'b) act" where
  "seq_a m k = bind_a m (\<lambda>_. k)"

definition try_a :: "('s, 'a) act \<Rightarrow> (exn \<Rightarrow> ('s, 'a) act) \<Rightarrow> ('s, 'a) act" where
  "try_a m h s = (case m s of (Err e, s') \<Rightarrow> h e s' | (Ok x, s') \<Rightarrow> (Ok x, s'))"

definition get_a :: "('s \<Rightarrow> 'a) \<Rightarrow> ('s, 'a) act" where "get_a q s = (Ok (q s), s)"
definition modify_a :: "('s \<Rightarrow> 's) \<Rightarrow> ('s, unit) act" where "modify_a g s = (Ok (), g s)"
definition pure_a :: "exn + 'a \<Rightarrow> ('s, 'a) act" where "pure_a r s = (r, s)"

lemma act_simps [simp]:
  "ret_a x s = (Ok x, s)" "raise_a e s = (Err e, s)" "get_a q s = (Ok (q s), s)" "modify_a g s = (Ok (), g s)"
  "pure_a r s = (r, s)"
  by (simp_all add: ret_a_def raise_a_def get_a_def modify_a_def pure_a_def)

definition io_a :: "'a io \<Rightarrow> ('z console_scheme, 'a) act" where
  "io_a m s = (case m (tm_fs s) of (r, F) \<Rightarrow> (r, s\<lparr>tm_fs := F\<rparr>))"

definition write_a :: "stream \<Rightarrow> string \<Rightarrow> ('z console_scheme, unit) act" where
  "write_a k t = modify_a (\<lambda>s. s\<lparr>tm_prints := tm_prints s @ [(k, t)]\<rparr>)"

definition print_a :: "string \<Rightarrow> ('z console_scheme, unit) act" where "print_a t = write_a Out (t @ LF1)"
definition print_err :: "string \<Rightarrow> ('z console_scheme, unit) act" where "print_err t = write_a Error (t @ LF1)"

text \<open>An operation whose reports (the log it adds to) go to a stream, one text per report.\<close>

definition reporting :: "stream \<Rightarrow> (string \<Rightarrow> string) \<Rightarrow> 'a io \<Rightarrow> ('z console_scheme, 'a) act" where
  "reporting k shown m s =
     (case m (tm_fs s) of (r, F) \<Rightarrow>
        (r, s\<lparr>tm_fs := F\<lparr>fs_log := fs_log (tm_fs s)\<rparr>,
              tm_prints := tm_prints s @ map (\<lambda>t. (k, shown t)) (drop (length (fs_log (tm_fs s))) (fs_log F))\<rparr>))"

text \<open>What the process calls on.\<close>

datatype probe = Crashed string string | Probed bool string

record app =
  ap_proc :: proc
  ap_linux :: linux
  ap_zpip :: zpip
  ap_world :: world
  ap_depth :: nat
  ap_platform :: platform_info
  ap_java :: java
  ap_source :: path
  ap_package_root :: path
  ap_untar :: untar
  ap_pace :: "nat \<Rightarrow> string option"
  ap_fetch :: "string \<Rightarrow> exn + response"
  ap_run :: runner
  ap_ptmx :: "exn option"
  ap_probes :: "probe list"
  ap_executable :: string
  ap_call :: "string list \<Rightarrow> int io"
  ap_call_shell :: "string \<Rightarrow> environ \<Rightarrow> int io"

section \<open>Texts\<close>

definition HELP_TEXT :: string where
  "HELP_TEXT = unlines
     [''ZMUX Terminal '' @ EMDASH @ '' Alpine Linux'',
      '''',
      ''ZMUX opens a real Alpine Linux shell in a PTY. Standard shell commands work'',
      ''normally: cd, export, pwd, ls, sh, vim, git, ssh, and apk.'',
      '''',
      ''Packages:'',
      ''  apk add <package>               Install Alpine packages'',
      ''  apk add py3-colorama            Example Python package from Alpine'',
      ''  python3 -m venv ~/.venv         Create a Python virtual environment'',
      ''  . ~/.venv/bin/activate          Activate it'',
      ''  python3 -m pip install <name>   Install a Python package in the venv'',
      '''',
      ''Workspace:'',
      ''  ~/projects                      Persistent ZMUX projects'',
      ''  ~/storage                       Optional Android storage links'',
      ''  zmux-setup-storage              Request Android storage access and link the'',
      ''                                  reachable directories into ~/storage'',
      '''',
      ''Terminal controls:'',
      ''  help                            Show this help text'',
      ''  ESC, CTRL, Tab and arrows are available in the one-row swipeable key bar.'',
      ''  Ctrl+C                          Interrupt foreground command'',
      ''  Ctrl+D                          End input / exit the active shell'',
      '''',
      ''Packages:'',
      ''  Prefer direct Alpine commands. You are already inside Alpine, so use'',
      ''  '' @ [BQ] @ ''apk add ...'' @ [BQ] @ '', not the old '' @ [BQ] @ ''linux apk add ...'' @ [BQ] @ '' wrapper style.'',
      '''',
      ''Migration from legacy ZABAWHEELS:'',
      ''  zpip search <query>            Retired; use apk search <query> or pip in a venv'',
      ''  linux <command...>             Retired for normal use; run <command...> directly'',
      '''',
      ''Diagnostics:'',
      ''  linux-setup                    Install/repair the Alpine rootfs'',
      ''  gates                          Run the ZMUX device acceptance checks'',
      ''  ZMUX diagnostics are app-internal. Alpine package and shell commands remain'',
      ''  the normal user workflow.'']"

definition PIP_FALLBACK :: string where
  "PIP_FALLBACK = join_with LF1
     [''Host-side pip is not part of the Alpine-first ZMUX workflow.'',
      ''Open the Alpine terminal and install Python packages there instead:'',
      ''  apk add python3 py3-pip py3-virtualenv'',
      ''  python3 -m venv ~/.venv'',
      ''  . ~/.venv/bin/activate'',
      ''  python3 -m pip install <name>'',
      '''',
      ''Prefer Alpine packages first when they exist:'',
      ''  apk search <name>'',
      ''  apk add py3-<package>'']"

definition USAGE :: string where
  "USAGE = join_with LF1
     [''usage: python -m zmux.cli <command> [args...]'',
      ''active: '' @ join_with '', '' PRIMARY_COMMANDS,
      ''diagnostics: '' @ join_with '', '' DIAGNOSTIC_COMMANDS,
      ''legacy compat: '' @ join_with '', '' (LEGACY_COMPAT_COMMANDS @ LEGACY_ALIAS_COMMANDS)]"

definition legacy_notice :: "string \<Rightarrow> string" where
  "legacy_notice command =
     (if command = ''zpip'' then
        ''zpip is legacy compatibility in Alpine-first ZMUX; prefer '' @ [BQ] @ ''apk search/add'' @ [BQ]
        @ '' or '' @ [BQ] @ ''python3 -m pip'' @ [BQ] @ '' inside an Alpine venv.''
      else if command = ''pip'' then
        ''host-side pip is legacy compatibility; prefer Python packages inside an Alpine virtual environment.''
      else if command \<in> {''linux'', ''alpine''} then
        command @ '' is a legacy host wrapper; in the normal Alpine shell, run the command directly without the prefix.''
      else command @ '' is legacy compatibility.'')"

definition warn_legacy :: "string \<Rightarrow> ('z console_scheme, unit) act" where
  "warn_legacy command = print_err (''WARNING: '' @ legacy_notice command)"

section \<open>Commands\<close>

definition cmd_help :: "('z console_scheme, int) act" where
  "cmd_help = seq_a (write_a Out HELP_TEXT)
     (seq_a (if \<not> endswith HELP_TEXT LF1 then write_a Out LF1 else ret_a ()) (ret_a 0))"

definition cmd_clear :: "('z console_scheme, int) act" where
  "cmd_clear = seq_a (write_a Out clear_sequence) (ret_a 0)"

definition cmd_setup_storage :: "app \<Rightarrow> ('z console_scheme, int) act" where
  "cmd_setup_storage A =
     bind_a (get_a tm_bridge) (\<lambda>B.
     bind_a (io_a (storage_setup (environ_of (ap_proc A)) (ap_java A) (pc_home (ap_proc A)) (pc_cwd (ap_proc A)) B)) (\<lambda>(r, B').
     seq_a (modify_a (\<lambda>s. s\<lparr>tm_bridge := B'\<rparr>))
    (seq_a (print_a (format_setup r)) (ret_a (if sr_ok r then 0 else 1)))))"

definition cmd_zmux_info :: "app \<Rightarrow> ('z console_scheme, int) act" where
  "cmd_zmux_info A =
     bind_a (io_a (runtime_fingerprint (ap_linux A) (ap_platform A) (ap_source A))) (\<lambda>fp.
     bind_a (pure_a (format_fingerprint fp)) (\<lambda>t. seq_a (print_a t) (ret_a 0)))"

text \<open>Without the sink \<open>zpip\<close> shows no progress.\<close>

definition zpip_world :: "app \<Rightarrow> bool \<Rightarrow> world" where
  "zpip_world A sunk = (if sunk then ap_world A else (ap_world A)\<lparr>wd_progress := \<lambda>_. None\<rparr>)"

definition run_zpip :: "app \<Rightarrow> string \<Rightarrow> ('z console_scheme, pyval) act" where
  "run_zpip A command =
     bind_a (get_a tm_sink) (\<lambda>sunk.
       reporting Progress id (ZpipFront.dispatch (ap_depth A) (ap_zpip A) (zpip_world A sunk) command))"

definition cmd_zpip :: "app \<Rightarrow> string list \<Rightarrow> ('z console_scheme, int) act" where
  "cmd_zpip A args =
     seq_a (warn_legacy ''zpip'')
       (let command = ''zpip'' @ (if args \<noteq> [] then '' '' @ shlex_join args else '''')
        in bind_a (run_zpip A command) (\<lambda>v.
           bind_a (pure_a (format_output command (dict_items v))) (\<lambda>(text, code).
             seq_a (print_a text) (ret_a code))))"

definition guest_git :: "linux \<Rightarrow> path" where
  "guest_git X = child (child (child (lx_rootfs X) ''usr'') ''bin'') ''git''"

definition cmd_linux_setup :: "app \<Rightarrow> ('z console_scheme, int) act" where
  "cmd_linux_setup A =
     bind_a
       (try_a
         (bind_a (reporting Out id (LinuxInstall.install (ap_depth A) (ap_linux A) (ap_package_root A) (ap_untar A)
              (ap_pace A) (ap_fetch A) (Callable True) ''alpine'')) (\<lambda>r. ret_a (Some r)))
         (\<lambda>e. seq_a (print_err (''linux-setup failed: '' @ exn_text e)) (ret_a None)))
       (\<lambda>result. case result of
            None \<Rightarrow> ret_a 1
          | Some r \<Rightarrow>
              seq_a (print_a (''Alpine '' @ ir_version r @ '' ready at '' @ ir_path r))
             (bind_a (io_a (ask (\<lambda>F. is_file F (guest_git (ap_linux A))))) (\<lambda>git.
              seq_a (if git then print_a ([BQ] @ ''git'' @ [BQ] @ '' is available. Try: git clone <url>'')
                     else seq_a (print_a ''Enable git from the Alpine shell (one-time, needs network):'')
                            (print_a ''  apk add git openssh-client''))
                (ret_a 0))))"

definition proot_env_a :: "app \<Rightarrow> ('z console_scheme, dict) act" where
  "proot_env_a A =
     bind_a (get_a tm_seccomp) (\<lambda>c.
     bind_a (io_a (proot_env (ap_run A) (ap_linux A) c)) (\<lambda>(d, c').
       seq_a (modify_a (\<lambda>s. s\<lparr>tm_seccomp := c'\<rparr>)) (ret_a d)))"

definition cmd_linux :: "app \<Rightarrow> string \<Rightarrow> string list \<Rightarrow> ('z console_scheme, int) act" where
  "cmd_linux A command args =
     seq_a (warn_legacy command)
    (bind_a (io_a (is_installed (ap_linux A))) (\<lambda>ok.
       if \<not> ok then seq_a (print_err ''Alpine environment is not installed. Run: linux-setup'') (ret_a 1)
       else if args = [] then
         seq_a (print_a (''usage: zmux '' @ command @ '' <command...>''))
        (seq_a (print_a ''In the normal Alpine shell, run commands directly, e.g.: apk add git'') (ret_a 2))
       else bind_a
         (try_a
           (bind_a (io_a (build_command_line (ap_linux A) [''/bin/sh'', ''-c'', shlex_join args] (lx_home (ap_linux A)) []))
              (\<lambda>c. ret_a (Some c)))
           (\<lambda>e. case e of RuntimeError t \<Rightarrow> seq_a (print_err (''linux: '' @ t)) (ret_a None) | _ \<Rightarrow> raise_a e))
         (\<lambda>cmdline. case cmdline of
              None \<Rightarrow> ret_a 1
            | Some c \<Rightarrow> bind_a (proot_env_a A) (\<lambda>extra.
                io_a (ap_call_shell A c (env_update (environ_of (ap_proc A)) extra))))))"

text \<open>The gates report through the sink, or else through \<open>print\<close>, which adds a newline of its own.\<close>

definition cmd_gates :: "app \<Rightarrow> ('z console_scheme, int) act" where
  "cmd_gates A =
     bind_a (io_a (build_marker (ap_source A))) (\<lambda>marker.
     bind_a (get_a tm_seccomp) (\<lambda>c.
     bind_a (get_a tm_sink) (\<lambda>sunk.
     bind_a ((if sunk then reporting Progress id else reporting Out (\<lambda>t. t @ LF1))
               (run_gates (ap_run A) (ap_linux A) (ap_ptmx A) (Some marker) c)) (\<lambda>rs.
       ret_a (if length (filter (\<lambda>(nm, ok, d). ok) rs) = length rs then 0 else 1)))))"

text \<open>\<open>realpty.run_pty_probe\<close>: every probe reports, and a crashing one fails.\<close>

definition PTY_PROBES :: "string list" where
  "PTY_PROBES = [''pty1-openpty'', ''pty2-shell-runs'', ''pty3-isatty'', ''pty4-resize'', ''pty5-sigint'', ''pty6-exit-code'']"

definition probe_result :: "probe \<Rightarrow> bool \<times> string" where
  "probe_result p =
     (case p of Probed ok detail \<Rightarrow> (ok, detail) | Crashed nm text \<Rightarrow> (False, ''probe crashed: '' @ nm @ '': '' @ text))"

fun run_pty_probe :: "(string \<times> probe) list \<Rightarrow> gates \<Rightarrow> ('z console_scheme, gates) act" where
  "run_pty_probe [] rs = ret_a rs"
| "run_pty_probe ((nm, p) # ps) rs =
     (case probe_result p of (ok, detail) \<Rightarrow>
        seq_a (print_a (''['' @ (if ok then ''PASS'' else ''FAIL'') @ ''] '' @ nm @ '': '' @ detail))
          (run_pty_probe ps (dict_put nm (ok, detail) rs)))"

definition cmd_pty_probe :: "app \<Rightarrow> ('z console_scheme, int) act" where
  "cmd_pty_probe A =
     bind_a (run_pty_probe (zip PTY_PROBES (ap_probes A)) []) (\<lambda>rs.
       ret_a (if length (filter (\<lambda>(nm, ok, d). ok) rs) = length rs then 0 else 1))"

definition cmd_pip :: "app \<Rightarrow> string list \<Rightarrow> ('z console_scheme, int) act" where
  "cmd_pip A args =
     (let exe = ap_executable A; fallback = seq_a (print_a PIP_FALLBACK) (ret_a 1)
      in bind_a (io_a (ask (\<lambda>F. exe \<noteq> '''' \<and> access_x F (to_path exe)))) (\<lambda>ok.
           if ok then seq_a (warn_legacy ''pip'')
             (try_a (io_a (ap_call A ([exe, ''-m'', ''pip''] @ args)))
                (\<lambda>e. if is_oserror e then fallback else raise_a e))
           else fallback))"

definition basename :: "string \<Rightarrow> string" where
  "basename s = rev (takeWhile (\<lambda>c. c \<noteq> SEP) (rev s))"

definition unknown_command :: "string \<Rightarrow> ('z console_scheme, int) act" where
  "unknown_command command =
     seq_a (print_err (''zmux.cli: unknown command: '' @ command)) (seq_a (print_err USAGE) (ret_a 127))"

definition cli_main :: "app \<Rightarrow> string list \<Rightarrow> ('z console_scheme, int) act" where
  "cli_main A argv =
     (if argv = [] then seq_a (print_err USAGE) (ret_a 2)
      else let command = basename (hd argv); args = tl argv in
        if command \<notin> set ACCEPTED_COMMANDS then unknown_command command
        else if command = ''help'' then cmd_help
        else if command = ''clear'' then cmd_clear
        else if command = ''zmux-info'' then cmd_zmux_info A
        else if command = ''zmux-setup-storage'' then cmd_setup_storage A
        else if command = ''linux-setup'' then cmd_linux_setup A
        else if command \<in> {''linux'', ''alpine''} then cmd_linux A command args
        else if command = ''gates'' then cmd_gates A
        else if command = ''zmux-pty-probe'' then cmd_pty_probe A
        else if command = ''zpip'' then cmd_zpip A args
        else if command = ''pip'' then cmd_pip A args
        else unknown_command command)"

end
