(* ===== verification/PyShell.thy ===== *)
theory PyShell
  imports Cli Streams
begin

text \<open>
  The legacy command interpreter (\<open>PythonShell\<close> in \<open>zmux/python_shell.py\<close>): Python source run in
  process, the pipeline executor with its redirections, the commands run inside Alpine, the
  app-control commands and the two dispatchers \<open>execute\<close> and \<open>execute_command\<close>.  CPython itself and
  the processes of a pipeline are parameters.
\<close>

section \<open>State\<close>

record sys = console +
  sh_cwd :: path
  sh_globals :: "string \<Rightarrow> pyval option"
  sh_width :: nat
  sh_provider :: "nat option"
  sh_output :: bool
  sh_sent :: "bytes list"
  sh_interrupt :: bool
  sh_epoch :: nat
  sh_procs :: "nat list"
  sh_depth :: int
  sh_next_pid :: nat
  sh_signals :: "(nat \<times> string) list"
  ps_cwd :: path
  ps_stdin :: nat
  ps_argv :: "string list"

record result =
  rs_ok :: bool
  rs_stdout :: string
  rs_stderr :: string
  rs_code :: int
  rs_status :: string
  rs_streamed :: bool

definition mk_result :: "string \<Rightarrow> string \<Rightarrow> int \<Rightarrow> bool \<Rightarrow> result" where
  "mk_result out err code streamed =
     \<lparr>rs_ok = code = 0, rs_stdout = out, rs_stderr = err, rs_code = code, rs_status = ''idle'', rs_streamed = streamed\<rparr>"

abbreviation (input) done_ok :: "string \<Rightarrow> result" where "done_ok out \<equiv> mk_result out '''' 0 False"
abbreviation (input) fails :: "string \<Rightarrow> int \<Rightarrow> result" where "fails err code \<equiv> mk_result '''' err code False"

text \<open>
  CPython: compiling in \<open>eval\<close> (\<open>True\<close>) and \<open>exec\<close> mode, running the code (the text of a value that
  is not \<open>None\<close>, what was written, and the new state), the rendering of a traceback, the version,
  and the names it reserves.
\<close>

datatype exit_arg = NoCode | IntCode int | OtherCode

datatype py_exc = SyntaxErr string | NameErr string | Interrupted | SysExit exit_arg | OtherExc string

record python =
  py_compile :: "bool \<Rightarrow> string \<Rightarrow> py_exc + nat"
  py_run :: "nat \<Rightarrow> sys \<Rightarrow> (py_exc + string option) \<times> (stream \<times> w_op) list \<times> sys"
  py_traceback :: "nat \<Rightarrow> py_exc \<Rightarrow> string"
  py_version :: string
  py_builtins :: "string list"

text \<open>
  The processes of a pipeline: whether one starts (and still runs right after), and what all of
  them together do: a timeout, or their return codes and the texts read from standard output of the
  last and standard error of all, in the order they were read.  \<open>ch_orphans\<close> is what the processes
  do that nobody waits for.
\<close>

datatype pipe_end = Expired "(stream \<times> string) list" | Finished "int list" "(stream \<times> string) list"

record children =
  ch_spawn :: "string list \<Rightarrow> path \<Rightarrow> fsys \<Rightarrow> exn + bool"
  ch_wait :: "string list list \<Rightarrow> environ \<Rightarrow> path \<Rightarrow> content option \<Rightarrow> rat option \<Rightarrow> fsys \<Rightarrow> pipe_end \<times> fsys"
  ch_orphans :: "string list list \<Rightarrow> environ \<Rightarrow> path \<Rightarrow> fsys \<Rightarrow> fsys"
  ch_float :: "rat \<Rightarrow> string"

definition here :: "app \<Rightarrow> sys \<Rightarrow> proc" where "here A s = (ap_proc A)\<lparr>pc_cwd := ps_cwd s\<rparr>"

section \<open>Interrupts\<close>

definition signal_all :: "string \<Rightarrow> nat list \<Rightarrow> sys \<Rightarrow> sys" where
  "signal_all sig pids s = s\<lparr>sh_signals := sh_signals s @ map (\<lambda>p. (p, sig)) pids\<rparr>"

text \<open>\<open>interrupt\<close> returns the victims its timer escalates to later.\<close>

definition sh_interrupt_now :: "(nat \<Rightarrow> bool) \<Rightarrow> sys \<Rightarrow> nat list \<times> sys" where
  "sh_interrupt_now alive s =
     (let victims = filter alive (sh_procs s)
      in (victims, signal_all ''SIGINT'' victims (s\<lparr>sh_epoch := sh_epoch s + 1, sh_interrupt := True\<rparr>)))"

definition sh_escalate :: "(nat \<Rightarrow> bool) \<Rightarrow> nat list \<Rightarrow> sys \<Rightarrow> sys" where
  "sh_escalate alive victims s = signal_all ''SIGKILL'' (filter alive victims) s"

definition has_running_processes :: "(nat \<Rightarrow> bool) \<Rightarrow> sys \<Rightarrow> bool" where
  "has_running_processes alive s = (if sh_depth s > 0 then True else list_ex alive (sh_procs s))"

definition sh_clear_interrupt :: "nat option \<Rightarrow> sys \<Rightarrow> sys" where
  "sh_clear_interrupt epoch s =
     (if epoch = None \<or> epoch = Some (sh_epoch s) then s\<lparr>sh_interrupt := False\<rparr> else s)"

section \<open>Output sinks\<close>

definition enc :: "ustr \<Rightarrow> string" where "enc t = map (\<lambda>x. char_of (unat x)) (utf8_encode t)"
definition dec :: "string \<Rightarrow> ustr" where "dec s = utf8_replace (b s)"

text \<open>Standard output and error write to one streaming writer each; both share the sink.\<close>

type_synonym writers = "writer \<times> writer \<times> bytes list"

fun w_apply :: "stream \<times> w_op \<Rightarrow> writers \<Rightarrow> writers" where
  "w_apply (Out, x) (W, V, sent) = (let W' = w_step x W in (W', V, sent @ drop (length (w_out W)) (w_out W')))"
| "w_apply (Error, x) (W, V, sent) = (let V' = w_step x V in (W, V', sent @ drop (length (w_out V)) (w_out V')))"
| "w_apply (Progress, Write t) (W, V, sent) = (W, V, sent @ [utf8_encode (lf_to_crlf t)])"
| "w_apply (Progress, Flush) (W, V, sent) = (W, V, sent)"

definition no_writers :: writers where "no_writers = (new_writer, new_writer, [])"

definition send :: "bytes list \<Rightarrow> sys \<Rightarrow> sys" where
  "send chunks s = (if sh_output s then s\<lparr>sh_sent := sh_sent s @ chunks\<rparr> else s)"

text \<open>Both sinks are drained: what was written, and what the terminal has been sent.\<close>

definition drain_result :: "(stream \<times> w_op) list \<Rightarrow> int \<Rightarrow> sys \<Rightarrow> result \<times> sys" where
  "drain_result ops code s =
     (case fold w_apply (ops @ [(Out, Flush), (Error, Flush)]) no_writers of
        (W, V, sent) \<Rightarrow> (mk_result (enc (w_getvalue W)) (enc (w_getvalue V)) code (sh_output s), send sent s))"

section \<open>What looks like a command\<close>

definition UNSUPPORTED_OPERATORS :: "(string \<times> string) list" where
  "UNSUPPORTED_OPERATORS =
     [(''&&'', [SQ] @ ''&&'' @ [SQ] @ '' (conditional AND)''), (''||'', [SQ] @ ''||'' @ [SQ] @ '' (conditional OR)''),
      (''2>&1'', [SQ] @ ''2>&1'' @ [SQ] @ '' (stream merging)''), ('';'', [SQ] @ '';'' @ [SQ] @ '' (command sequencing)''),
      (''&'', [SQ] @ ''&'' @ [SQ] @ '' (background jobs)''),
      ([BQ], [SQ, BQ] @ ''...'' @ [BQ, SQ] @ '' (command substitution)''),
      (''$('', [SQ] @ ''$(...)'' @ [SQ] @ '' (command substitution)'')]"

definition operator_hit :: "string list \<Rightarrow> string \<Rightarrow> bool" where
  "operator_hit parts x \<longleftrightarrow>
     x \<in> set parts \<or> x \<in> {[BQ], ''$(''} \<and> list_ex (\<lambda>w. contains w x) parts
     \<or> x = '';'' \<and> list_ex (\<lambda>w. endswith w '';'') parts"

definition rejection_text :: "string \<Rightarrow> string" where
  "rejection_text description =
     ''zmux: '' @ description @ '' is not supported '' @ EMDASH @ '' ZMUX has no shell language.'' @ LF1
     @ ''  Supported: pipelines (|), redirection (> >> <), quoting.'' @ LF1"

definition unsupported_operator :: "string list \<Rightarrow> result option" where
  "unsupported_operator parts =
     map_option (\<lambda>(x, description). fails (rejection_text description
         @ ''  For shell logic use Python instead, e.g. subprocess.run(...) or run commands one per line.'' @ LF1) 2)
       (find (\<lambda>(x, d). operator_hit parts x) UNSUPPORTED_OPERATORS)"

text \<open>The guard for \<open>true\<close> and \<open>false\<close> leaves a lone \<open>&\<close> to Python.\<close>

definition true_operator_hit :: "string list \<Rightarrow> string \<Rightarrow> bool" where
  "true_operator_hit parts x =
     (if x = ''&'' then False
      else if x \<in> {[BQ], ''$(''} then list_ex (\<lambda>w. contains w x) parts
      else if x = '';'' then '';'' \<in> set parts \<or> list_ex (\<lambda>w. endswith w '';'') parts
      else x \<in> set parts)"

definition true_guard :: "string list \<Rightarrow> result option" where
  "true_guard parts =
     map_option (\<lambda>(x, description). fails (rejection_text description) 2)
       (find (\<lambda>(x, d). true_operator_hit parts x) UNSUPPORTED_OPERATORS)"

definition APP_COMMANDS :: "string list" where
  "APP_COMMANDS = [''python'', ''python3'', ''pip'', ''zpip'', ''help'', ''zmux-info'', ''zmux-setup-storage'',
     ''git'', ''linux'', ''alpine'', ''linux-setup'', ''gates'', ''zmux-pty-probe'']"

definition command_names :: "string list" where "command_names = BUILTINS @ APP_COMMANDS"

definition KNOWN_TUI_COMMANDS :: "string list" where
  "KNOWN_TUI_COMMANDS = [''nano'', ''vim'', ''vi'', ''emacs'', ''htop'', ''top'', ''less'', ''more'',
     ''micro'', ''joe'', ''mcedit'', ''ranger'', ''screen'', ''tmux'']"

text \<open>The regular expressions, on ASCII; a byte beyond it counts as part of a word.\<close>

definition word_char :: "char \<Rightarrow> bool" where "word_char c \<longleftrightarrow> ascii_word c \<or> 128 \<le> (of_char c :: nat)"

definition command_word :: "string \<Rightarrow> bool" where
  "command_word w \<longleftrightarrow> w \<noteq> '''' \<and> list_all (\<lambda>c. word_char c \<or> c \<in> set ''.@/-'') w"

definition command_arg :: "string \<Rightarrow> bool" where
  "command_arg w \<longleftrightarrow> w \<noteq> '''' \<and> list_all (\<lambda>c. word_char c \<or> c \<in> set ''.@/:~=+*?,%#[]{}-'') w"

definition PYTHON_OPERATORS :: "string list" where
  "PYTHON_OPERATORS = str_split ''+ - * / // % ** = == != < > <= >= | & ^ ~ @ := and or not in is if else for''"

definition KEYWORDS :: "string list" where
  "KEYWORDS = [''False'', ''None'', ''True'', ''and'', ''as'', ''assert'', ''async'', ''await'', ''break'', ''class'',
     ''continue'', ''def'', ''del'', ''elif'', ''else'', ''except'', ''finally'', ''for'', ''from'', ''global'', ''if'',
     ''import'', ''in'', ''is'', ''lambda'', ''nonlocal'', ''not'', ''or'', ''pass'', ''raise'', ''return'', ''try'',
     ''while'', ''with'', ''yield'', ''_'', ''case'', ''match'']"

definition plausible_arg :: "string \<Rightarrow> bool" where
  "plausible_arg w \<longleftrightarrow>
     startswith w ''-'' \<and> length w > 1 \<and> w ! 1 \<notin> set ''0123456789''
     \<or> w \<notin> set PYTHON_OPERATORS \<and> command_arg w"

definition looks_like_command :: "python \<Rightarrow> string \<Rightarrow> sys \<Rightarrow> bool" where
  "looks_like_command Y source s =
     (let stripped = str_strip source; ws = str_split stripped; w = hd ws in
      if stripped = '''' \<or> CHR 0x0A \<in> set stripped then False
      else if \<not> command_word w then False
      else if \<not> list_all plausible_arg (tl ws) then False
      else if sh_globals s w \<noteq> None \<or> w \<in> set (py_builtins Y) then False
      else if w \<in> set command_names \<or> w \<in> {''exit'', ''quit''} then False
      else w \<notin> set KEYWORDS)"

definition not_found_text :: "string \<Rightarrow> string" where
  "not_found_text nm = ''zmux: '' @ nm @ '': command not found'' @ LF1"

definition command_not_found :: "string \<Rightarrow> result" where
  "command_not_found source = fails (not_found_text (hd (str_split (str_strip source)))) 127"

section \<open>Python in process\<close>

text \<open>\<open>_stdin_context\<close> and \<open>_chdir_context\<close>: entered before, left after the code, whatever it did.\<close>

definition enter_context :: "sys \<Rightarrow> sys" where
  "enter_context s =
     s\<lparr>ps_stdin := (case sh_provider s of None \<Rightarrow> ps_stdin s | Some p \<Rightarrow> p),
       ps_cwd := (if is_dir (tm_fs s) (sh_cwd s) then sh_cwd s else ps_cwd s)\<rparr>"

definition previous_cwd :: "app \<Rightarrow> sys \<Rightarrow> path" where
  "previous_cwd A s = (if is_dir (tm_fs s) (ps_cwd s) then ps_cwd s else pc_home (ap_proc A))"

definition leave_context :: "app \<Rightarrow> sys \<Rightarrow> sys \<Rightarrow> sys" where
  "leave_context A before s =
     s\<lparr>ps_stdin := (case sh_provider before of None \<Rightarrow> ps_stdin s | Some p \<Rightarrow> ps_stdin before),
       ps_cwd := (if is_dir (tm_fs s) (previous_cwd A before) then previous_cwd A before else ps_cwd s)\<rparr>"

definition run_source :: "python \<Rightarrow> string \<Rightarrow> sys \<Rightarrow> (py_exc + string option) \<times> (stream \<times> w_op) list \<times> sys" where
  "run_source Y source s =
     (case py_compile Y True source of
        Inr code \<Rightarrow> py_run Y code s
      | Inl (SyntaxErr m) \<Rightarrow>
          (case py_compile Y False source of
             Inl e \<Rightarrow> (Inl e, [], s)
           | Inr code \<Rightarrow> (case py_run Y code s of (Inl e, w, s') \<Rightarrow> (Inl e, w, s') | (Inr v, w, s') \<Rightarrow> (Inr None, w, s')))
      | Inl e \<Rightarrow> (Inl e, [], s))"

definition printed :: "string \<Rightarrow> (stream \<times> w_op) list" where
  "printed t = [(Out, Write (dec t)), (Out, Write (dec LF1))]"

definition exit_status :: "exit_arg \<Rightarrow> int" where
  "exit_status x = (case x of IntCode n \<Rightarrow> n | NoCode \<Rightarrow> 0 | OtherCode \<Rightarrow> 1)"

definition name_head :: "string \<Rightarrow> string" where
  "name_head w = takeWhile (\<lambda>c. c \<notin> set ''.-/@'') w"

text \<open>A mistyped command: a syntax error, or an unbound name that is the first word or its head.\<close>

definition mistyped :: "python \<Rightarrow> string option \<Rightarrow> py_exc \<Rightarrow> sys \<Rightarrow> string option" where
  "mistyped Y origin e s =
     (case origin of None \<Rightarrow> None
      | Some line \<Rightarrow>
          if \<not> looks_like_command Y line s then None
          else let nm = hd (str_split (str_strip line)); h = name_head nm in
            (case e of
               SyntaxErr m \<Rightarrow> Some nm
             | NameErr m \<Rightarrow> if contains m nm \<or> h \<noteq> '''' \<and> contains m ([SQ] @ h @ [SQ]) then Some nm else None
             | _ \<Rightarrow> None))"

definition failure_of :: "python \<Rightarrow> string option \<Rightarrow> py_exc \<Rightarrow> sys \<Rightarrow> string \<times> int" where
  "failure_of Y origin e s =
     (case e of
        Interrupted \<Rightarrow> (''KeyboardInterrupt'' @ LF1, 130)
      | SysExit x \<Rightarrow> ('''', exit_status x)
      | _ \<Rightarrow> (case mistyped Y origin e s of
                Some nm \<Rightarrow> (not_found_text nm, 127)
              | None \<Rightarrow> (py_traceback Y (sh_width s) e, 1)))"

definition exec_python :: "app \<Rightarrow> python \<Rightarrow> string \<Rightarrow> string option \<Rightarrow> sys \<Rightarrow> result \<times> sys" where
  "exec_python A Y source origin s =
     (case run_source Y source (enter_context s) of (r, ops, s1) \<Rightarrow>
        let s' = leave_context A s s1 in
        case r of
          Inr v \<Rightarrow> drain_result (ops @ (case v of None \<Rightarrow> [] | Some t \<Rightarrow> printed t)) 0 s'
        | Inl e \<Rightarrow> (case failure_of Y origin e s' of (text, code) \<Rightarrow>
            drain_result (ops @ [(Error, Write (dec text))]) code s'))"

definition total_act :: "(sys \<Rightarrow> 'a \<times> sys) \<Rightarrow> (sys, 'a) act" where
  "total_act f s = (case f s of (x, s') \<Rightarrow> (Ok x, s'))"

text \<open>\<open>python\<close>, \<open>python -c\<close> and \<open>python script\<close>; the script's names are put back afterwards.\<close>

definition run_script :: "app \<Rightarrow> python \<Rightarrow> path \<Rightarrow> string list \<Rightarrow> string \<Rightarrow> sys \<Rightarrow> result \<times> sys" where
  "run_script A Y script args source s =
     (let g = sh_globals s; old = (\<lambda>k. case g k of None \<Rightarrow> PNone | Some v \<Rightarrow> v);
          s1 = s\<lparr>sh_globals := g(''__name__'' \<mapsto> PStr ''__main__'', ''__file__'' \<mapsto> PStr (path_str script)),
                 ps_argv := path_str script # args\<rparr>
      in case exec_python A Y source None s1 of (r, s2) \<Rightarrow>
           (r, s2\<lparr>sh_globals := (sh_globals s2)(''__name__'' \<mapsto> old ''__name__'', ''__file__'' \<mapsto> old ''__file__''),
                  ps_argv := ps_argv s\<rparr>))"

definition exec_python_command :: "app \<Rightarrow> python \<Rightarrow> string list \<Rightarrow> (sys, result) act" where
  "exec_python_command A Y args =
     (if args = [] \<or> hd args \<in> {''--version'', ''-V''} then
        ret_a (done_ok (''Python '' @ py_version Y @ LF1
          @ (if args = [] then ''Use Python expressions directly at this prompt.'' @ LF1 else '''')))
      else if hd args = ''-c'' then
        (if length args < 2 then ret_a (fails (''python: argument expected for -c'' @ LF1) 2)
         else total_act (exec_python A Y (args ! 1) None))
      else bind_a (get_a (\<lambda>s. shell_path (here A s) (sh_cwd s) (hd args) (tm_fs s))) (\<lambda>r.
        case r of Err e \<Rightarrow> raise_a e
        | Ok script \<Rightarrow>
            bind_a (try_a (bind_a (io_a (read_text_mode script)) (\<lambda>t. ret_a (Inr t)))
                      (\<lambda>e. if is_oserror e then ret_a (Inl (fails (''python: '' @ exn_text e @ LF1) 1)) else raise_a e)) (\<lambda>x.
            case x of Inl bad \<Rightarrow> ret_a bad
            | Inr source \<Rightarrow> total_act (run_script A Y script (tl args) source))))"

section \<open>App-control commands\<close>

definition print_ops :: "(stream \<times> string) list \<Rightarrow> (stream \<times> w_op) list" where
  "print_ops ps = map (\<lambda>(k, t). (k, Write (dec t))) ps"

definition exec_zmux_command :: "app \<Rightarrow> string \<Rightarrow> string list \<Rightarrow> (sys, result) act" where
  "exec_zmux_command A command args s =
     (case cli_main A (command # args) (s\<lparr>tm_prints := [], tm_sink := sh_output s \<or> tm_sink s\<rparr>) of
        (r, s1) \<Rightarrow>
          let ops = print_ops (tm_prints s1); s2 = s1\<lparr>tm_prints := tm_prints s, tm_sink := tm_sink s\<rparr> in
          case r of
            Err e \<Rightarrow> (Err e, send (snd (snd (fold w_apply ops no_writers))) s2)
          | Ok code \<Rightarrow> (case drain_result ops code s2 of (x, s3) \<Rightarrow> (Ok x, s3)))"

section \<open>Pipelines\<close>

text \<open>The tokens between the bars; a quoted bar is one too.\<close>

fun split_stages :: "string list \<Rightarrow> string list \<Rightarrow> string list list" where
  "split_stages cur [] = [cur]"
| "split_stages cur (t # ts) = (if t = ''|'' then cur # split_stages [] ts else split_stages (cur @ [t]) ts)"

record redir =
  rd_in :: "path option"
  rd_out :: "path option"
  rd_append :: bool

definition no_redir :: redir where "no_redir = \<lparr>rd_in = None, rd_out = None, rd_append = False\<rparr>"

text \<open>One stage: its arguments, or the text of the usage error (\<open>Inl\<close>); resolving a target can raise.\<close>

fun stage_args :: "(string \<Rightarrow> exn + path) \<Rightarrow> bool \<Rightarrow> bool \<Rightarrow> string list \<Rightarrow> redir \<Rightarrow> string list
    \<Rightarrow> exn + (string + string list \<times> redir)" where
  "stage_args res first final argv rd [] = Ok (Inr (argv, rd))"
| "stage_args res first final argv rd [t] =
     (if t \<in> {''<'', ''>'', ''>>''} then Ok (Inl (''missing redirection target after '' @ t @ LF1))
      else Ok (Inr (argv @ [t], rd)))"
| "stage_args res first final argv rd (t # v # ts) =
     (if t \<in> {''<'', ''>'', ''>>''} then
        (case res v of Err e \<Rightarrow> Err e
         | Ok target \<Rightarrow>
             if t = ''<'' \<and> first then stage_args res first final argv (rd\<lparr>rd_in := Some target\<rparr>) ts
             else if t \<in> {''>'', ''>>''} \<and> final
               then stage_args res first final argv (rd\<lparr>rd_out := Some target, rd_append := t = ''>>''\<rparr>) ts
             else Ok (Inl (''redirection must be at pipeline edge'' @ LF1)))
      else stage_args res first final (argv @ [t]) rd (v # ts))"

fun parse_stages :: "(string \<Rightarrow> exn + path) \<Rightarrow> bool \<Rightarrow> redir \<Rightarrow> string list list
    \<Rightarrow> exn + (string + string list list \<times> redir)" where
  "parse_stages res first rd [] = Ok (Inr ([], rd))"
| "parse_stages res first rd (stage # rest) =
     (case stage_args res first (rest = []) [] rd stage of
        Err e \<Rightarrow> Err e
      | Ok (Inl bad) \<Rightarrow> Ok (Inl bad)
      | Ok (Inr (argv, rd')) \<Rightarrow>
          if argv = [] then Ok (Inl (''invalid command'' @ LF1))
          else (case parse_stages res False rd' rest of
                  Err e \<Rightarrow> Err e
                | Ok (Inl bad) \<Rightarrow> Ok (Inl bad)
                | Ok (Inr (argvs, rd'')) \<Rightarrow> Ok (Inr (argv # argvs, rd''))))"

definition parse_pipeline :: "(string \<Rightarrow> exn + path) \<Rightarrow> string \<Rightarrow> exn + (string + string list list \<times> redir)" where
  "parse_pipeline res line =
     (case shlex_pipeline line of
        Err e \<Rightarrow> Err e
      | Ok tokens \<Rightarrow>
          let stages = split_stages [] tokens in
          if [] \<in> set stages then Ok (Inl (''invalid pipeline'' @ LF1))
          else parse_stages res True no_redir stages)"

definition child_env :: "app \<Rightarrow> dict \<Rightarrow> sys \<Rightarrow> environ" where
  "child_env A extra s =
     env_update (build_env (environ_of (ap_proc A)) (pc_app (ap_proc A)) (Some (sh_cwd s))) extra"

text \<open>
  Starting the processes in order: each is registered, and signalled at once when Ctrl+C came first.
  \<open>Inl\<close> is the failure of a stage: not found (a result) or not startable (an exception); the
  argument vectors and pids of those started are kept.
\<close>

fun spawn_all :: "app \<Rightarrow> children \<Rightarrow> string list list \<Rightarrow> (string list \<times> nat) list \<Rightarrow> sys
    \<Rightarrow> ((result + exn) option \<times> (string list \<times> nat) list) \<times> sys" where
  "spawn_all A K [] started s = ((None, started), s)"
| "spawn_all A K (stage # rest) started s =
     (case find_executable (here A s) (tm_fs s) (hd stage) of
        None \<Rightarrow> ((Some (Inl (fails (hd stage @ '': command not found'' @ LF1) 127)), started), s)
      | Some exe \<Rightarrow>
          (case ch_spawn K (exe # tl stage) (sh_cwd s) (tm_fs s) of
             Err e \<Rightarrow> ((Some (Inr e), started), s)
           | Ok alive \<Rightarrow>
               let pid = sh_next_pid s;
                   s1 = s\<lparr>sh_next_pid := Suc pid, sh_procs := sh_procs s @ [pid]\<rparr>;
                   s2 = (if sh_interrupt s1 \<and> alive then signal_all ''SIGINT'' [pid] s1 else s1)
               in spawn_all A K rest (started @ [(exe # tl stage, pid)]) s2))"

definition chunks_of :: "stream \<Rightarrow> (stream \<times> string) list \<Rightarrow> string" where
  "chunks_of k cs = concat (map snd (filter (\<lambda>(j, t). j = k) cs))"

definition signal_hint :: "int \<Rightarrow> string" where
  "signal_hint sig =
     ''[process terminated by signal '' @ int_str sig
     @ (if sig = 9 then '' '' @ EMDASH @ '' SIGKILL; on Android 12+ this is often the OS phantom-process limit'' else '''')
     @ '']'' @ LF1"

definition first_code :: "int list \<Rightarrow> int" where
  "first_code codes = (case find (\<lambda>c. c \<noteq> 0) codes of None \<Rightarrow> 0 | Some c \<Rightarrow> c)"

definition crlf_bytes_of :: "string \<Rightarrow> bytes" where
  "crlf_bytes_of t = utf8_encode (crlf (dec t))"

definition open_output :: "redir \<Rightarrow> string \<Rightarrow> unit io" where
  "open_output rd out =
     (case rd_out rd of
        None \<Rightarrow> ret ()
      | Some p \<Rightarrow> if rd_append rd then append_text p out else write_text p out)"

definition open_input :: "redir \<Rightarrow> content option io" where
  "open_input rd =
     (case rd_in rd of None \<Rightarrow> ret None | Some p \<Rightarrow> bind_io (read_content p) (\<lambda>c. ret (Some c)))"

text \<open>What follows once every process has been started.\<close>

definition show_chunks :: "redir \<Rightarrow> (stream \<times> string) list \<Rightarrow> sys \<Rightarrow> sys" where
  "show_chunks rd chunks s = (if rd_out rd = None then send (map (\<lambda>(k, t). crlf_bytes_of t) chunks) s else s)"

definition finish_pipeline :: "children \<Rightarrow> environ \<Rightarrow> content option \<Rightarrow> rat option \<Rightarrow> redir
    \<Rightarrow> (string list \<times> nat) list \<Rightarrow> (sys, result) act" where
  "finish_pipeline K env input timeout rd started s =
     (case ch_wait K (map fst started) env (sh_cwd s) input timeout (tm_fs s) of
        (Expired chunks, F) \<Rightarrow>
          (Ok (fails (''Command timed out after '' @ (case timeout of None \<Rightarrow> ''None'' | Some q \<Rightarrow> ch_float K q) @ ''s'' @ LF1) 1),
           signal_all ''SIGKILL'' (map snd started) (show_chunks rd chunks (s\<lparr>tm_fs := F\<rparr>)))
      | (Finished codes chunks, F) \<Rightarrow>
          let streamed = (sh_output s \<and> rd_out rd = None);
              s1 = show_chunks rd chunks (s\<lparr>tm_fs := F\<rparr>);
              out = chunks_of Out chunks;
              code = first_code codes;
              hint = (if code < 0 then signal_hint (- code) else '''')
          in bind_a (io_a (open_output rd out)) (\<lambda>_.
             seq_a (modify_a (if code < 0 \<and> streamed then send [crlf_bytes_of hint] else id))
               (ret_a (mk_result (if rd_out rd = None then out else '''') (chunks_of Error chunks @ hint) code streamed))) s1)"

text \<open>
  A pipeline that cannot start completely abandons what it started; the registry forgets its
  processes on every way out.
\<close>

definition run_pipeline :: "app \<Rightarrow> children \<Rightarrow> dict \<Rightarrow> rat option \<Rightarrow> string list list \<Rightarrow> redir \<Rightarrow> (sys, result) act" where
  "run_pipeline A K extra timeout argvs rd s =
     (case open_input rd (tm_fs s) of
        (Err e, F) \<Rightarrow> (Err e, s\<lparr>tm_fs := F\<rparr>)
      | (Ok input, F) \<Rightarrow>
          let s0 = s\<lparr>tm_fs := F\<rparr>; env = child_env A extra s0 in
          (case spawn_all A K argvs [] s0 of
             ((bad, started), s1) \<Rightarrow>
               (case (case bad of
                        None \<Rightarrow> finish_pipeline K env input timeout rd started s1
                      | Some f \<Rightarrow>
                          ((case f of Inl r \<Rightarrow> Ok r | Inr e \<Rightarrow> Err e),
                           s1\<lparr>tm_fs := ch_orphans K (map fst started) env (sh_cwd s1) (tm_fs s1)\<rparr>)) of
                  (r, s2) \<Rightarrow> (r, s2\<lparr>sh_procs := filter (\<lambda>p. p \<notin> snd ` set started) (sh_procs s2)\<rparr>))))"

definition exec_subprocess :: "app \<Rightarrow> children \<Rightarrow> string \<Rightarrow> rat option \<Rightarrow> dict \<Rightarrow> (sys, result) act" where
  "exec_subprocess A K line timeout extra s =
     (let s1 = s\<lparr>sh_depth := sh_depth s + 1\<rparr> in
      case (case parse_pipeline (\<lambda>v. shell_path (here A s1) (sh_cwd s1) v (tm_fs s1)) line of
              Err e \<Rightarrow> (Err e, s1)
            | Ok (Inl bad) \<Rightarrow> (Ok (fails bad 2), s1)
            | Ok (Inr (argvs, rd)) \<Rightarrow> run_pipeline A K extra timeout argvs rd s1) of
        (r, s2) \<Rightarrow> (r, s2\<lparr>sh_depth := sh_depth s2 - 1\<rparr>))"

section \<open>Commands inside Alpine\<close>

definition not_installed_text :: string where
  "not_installed_text =
     ''zmux: Alpine environment is not installed.'' @ LF1
     @ ''  Run '' @ [BQ] @ ''linux-setup'' @ [BQ] @ '' once (downloads ~4 MiB, verifies SHA-512,'' @ LF1
     @ ''  extracts into app-private storage). Then '' @ [BQ] @ ''git'' @ [BQ] @ '' works normally.'' @ LF1"

definition no_git_text :: string where
  "no_git_text =
     ''zmux: git is not installed inside the Alpine environment yet.'' @ LF1
     @ ''  Run: linux apk add git openssh-client'' @ LF1"

definition linux_help_asked :: string where
  "linux_help_asked = unlines
     [''Alpine Linux inside ZMUX (proot).'',
      ''  linux              open the real interactive Alpine shell'',
      ''                     (PTY: vim/htop/less/tmux work; exit returns)'',
      ''  linux <command...>  run one shell command, e.g. linux apk add git'',
      ''  git <args...>       real git, e.g. git clone <url>'',
      ''  linux-setup         install/repair the environment'',
      ''  gates               run the on-device acceptance tests'']"

definition linux_help_bare :: string where
  "linux_help_bare = unlines
     [''Alpine Linux inside ZMUX (proot).'',
      ''  linux              open the real interactive Alpine shell'',
      ''                     (PTY: vim/htop/less/tmux work; exit returns)'',
      ''  linux <command...>  run a shell command, e.g. linux apk add git'',
      ''  git <args...>       real git, e.g. git clone <url>'',
      ''  linux-setup         install/repair the environment'',
      ''  gates               run the on-device acceptance tests'']"

text \<open>The argument vector for the guest, or the result that ends the command.\<close>

definition guest_argv :: "app \<Rightarrow> fsys \<Rightarrow> string \<Rightarrow> string list \<Rightarrow> result + string list" where
  "guest_argv A F command args =
     (if command = ''git'' then
        (if \<not> is_file F (guest_git (ap_linux A)) then Inl (fails no_git_text 1) else Inr (''/usr/bin/git'' # args))
      else if command \<in> {''linux'', ''alpine''} then
        (if args \<noteq> [] \<and> hd args \<in> {''--help'', ''-h'', ''help''} then Inl (done_ok linux_help_asked)
         else if args = [] then Inl (done_ok linux_help_bare)
         else Inr [''/bin/sh'', ''-c'', join_with '' '' (map shlex_quote args)])
      else Inl (fails (''zmux: unknown linux command '' @ command @ LF1) 2))"

definition exec_linux :: "app \<Rightarrow> children \<Rightarrow> string \<Rightarrow> string list \<Rightarrow> rat option \<Rightarrow> (sys, result) act" where
  "exec_linux A K command args timeout =
     bind_a (io_a (is_installed (ap_linux A))) (\<lambda>ok.
       if \<not> ok then ret_a (fails not_installed_text 1)
       else bind_a (get_a (\<lambda>s. guest_argv A (tm_fs s) command args)) (\<lambda>g. case g of
           Inl r \<Rightarrow> ret_a r
         | Inr argv \<Rightarrow>
             bind_a (try_a
                (bind_a (get_a sh_cwd) (\<lambda>cwd.
                 bind_a (io_a (build_command_line (ap_linux A) argv cwd [])) (\<lambda>c. ret_a (Inr c))))
                (\<lambda>e. case e of RuntimeError t \<Rightarrow> ret_a (Inl (fails (''zmux: '' @ t @ LF1) 1)) | _ \<Rightarrow> raise_a e)) (\<lambda>c.
             case c of Inl r \<Rightarrow> ret_a r
             | Inr cmdline \<Rightarrow> bind_a (proot_env_a A) (\<lambda>extra. exec_subprocess A K cmdline timeout extra))))"

section \<open>Dispatch\<close>

definition builtin_act :: "app \<Rightarrow> string \<Rightarrow> string list \<Rightarrow> (sys, result) act" where
  "builtin_act A command args =
     bind_a (get_a (\<lambda>s. (here A s, sh_cwd s))) (\<lambda>(P, cwd).
     bind_a (io_a (run_builtin P cwd command args)) (\<lambda>(out, cwd').
       seq_a (modify_a (\<lambda>s. s\<lparr>sh_cwd := cwd'\<rparr>)) (ret_a (done_ok out))))"

text \<open>The commands both dispatchers share; \<open>None\<close> when the word is none of them.\<close>

definition dispatch_command :: "app \<Rightarrow> python \<Rightarrow> children \<Rightarrow> string \<Rightarrow> string list \<Rightarrow> rat option \<Rightarrow> (sys, result) act option" where
  "dispatch_command A Y K command args timeout =
     (if command \<in> set BUILTINS then Some (builtin_act A command args)
      else if command \<in> {''git'', ''linux'', ''alpine''} then Some (exec_linux A K command args timeout)
      else if command \<in> {''linux-setup'', ''gates'', ''zmux-pty-probe''} then Some (exec_zmux_command A command args)
      else if command \<in> {''python'', ''python3''} then Some (exec_python_command A Y args)
      else if command \<in> {''pip'', ''zpip'', ''help'', ''zmux-info'', ''zmux-setup-storage''}
        then Some (exec_zmux_command A command args)
      else None)"

definition needs_pipeline :: "string \<Rightarrow> bool" where
  "needs_pipeline line \<longleftrightarrow> list_ex (\<lambda>c. c \<in> set line) ''|><''"

definition no_tty_text :: "string \<Rightarrow> string" where
  "no_tty_text command = ''zmux: '' @ command @ '' needs a real TTY, which ZMUX does not provide (no PTY).'' @ LF1"

definition no_tty_advice :: "string \<Rightarrow> string" where
  "no_tty_advice command =
     ''  Non-interactive use can still go through the Alpine sandbox, e.g.:  linux '' @ command @ '' --help'' @ LF1
     @ ''  To edit files, use the Python runtime:  python'' @ LF1
     @ ''    (open('' @ [SQ] @ ''file'' @ [SQ] @ '','' @ [SQ] @ ''w'' @ [SQ] @ '').write(...))  or  cat > file'' @ LF1"

definition shell_errors :: "string \<Rightarrow> (sys, result) act \<Rightarrow> (sys, result) act" where
  "shell_errors command m =
     try_a m (\<lambda>e. if is_oserror e \<or> is_valueerror e
       then ret_a (fails (command @ '': '' @ exn_text e @ LF1) 1) else raise_a e)"

definition parse_failure :: "exn \<Rightarrow> result" where
  "parse_failure e = fails (''parse error: '' @ exn_text e @ LF1) 2"

text \<open>\<open>ZMUX_STRICT_HOST_COMMANDS\<close>.\<close>

definition strict_host_commands :: "environ \<Rightarrow> bool" where
  "strict_host_commands env =
     (lower (str_strip (env_get env ''ZMUX_STRICT_HOST_COMMANDS'' '''')) \<in> {''1'', ''true'', ''yes'', ''on''})"

definition guard_operators :: "app \<Rightarrow> string list \<Rightarrow> sys \<Rightarrow> result option" where
  "guard_operators A parts s =
     (let command = hd parts; r = (if command \<in> set command_names \<or> is_external_command (here A s) (tm_fs s) command
                                   then unsupported_operator parts else None)
      in if r \<noteq> None then r else if command \<in> {''true'', ''false''} then true_guard parts else None)"

definition run_line :: "app \<Rightarrow> python \<Rightarrow> children \<Rightarrow> string \<Rightarrow> string list \<Rightarrow> rat option \<Rightarrow> dict \<Rightarrow> (sys, result) act" where
  "run_line A Y K line parts timeout extra s =
     (let command = hd parts; args = tl parts in
      if needs_pipeline line then exec_subprocess A K line timeout extra s
      else case dispatch_command A Y K command args timeout of
        Some m \<Rightarrow> m s
      | None \<Rightarrow>
          if is_external_command (here A s) (tm_fs s) command then exec_subprocess A K line timeout extra s
          else if command \<in> set KNOWN_TUI_COMMANDS
            then (Ok (fails (no_tty_text command @ no_tty_advice command) 1), s)
          else if strict_host_commands (environ_of (ap_proc A)) \<and> looks_like_command Y line s
            then (Ok (command_not_found line), s)
          else total_act (exec_python A Y line (Some line)) s)"

definition execute :: "app \<Rightarrow> python \<Rightarrow> children \<Rightarrow> string \<Rightarrow> rat option \<Rightarrow> bool \<Rightarrow> dict \<Rightarrow> (sys, result) act" where
  "execute A Y K line0 timeout force_python extra s =
     (let line = str_strip line0 in
      if line = '''' then (Ok (done_ok ''''), s)
      else if force_python then total_act (exec_python A Y line None) s
      else case shlex_split line of
        Err e \<Rightarrow> (Ok (parse_failure e), s)
      | Ok parts \<Rightarrow>
          if parts = [] then (Ok (done_ok ''''), s)
          else case guard_operators A parts s of
            Some r \<Rightarrow> (Ok r, s)
          | None \<Rightarrow> shell_errors (hd parts) (run_line A Y K line parts timeout extra) s)"

definition execute_command :: "app \<Rightarrow> python \<Rightarrow> children \<Rightarrow> string \<Rightarrow> rat option \<Rightarrow> dict \<Rightarrow> (sys, result) act" where
  "execute_command A Y K line0 timeout extra s =
     (let line = str_strip line0 in
      if line = '''' then (Ok (done_ok ''''), s)
      else case shlex_split line of
        Err e \<Rightarrow> (Ok (parse_failure e), s)
      | Ok parts \<Rightarrow>
          if parts = [] then (Ok (done_ok ''''), s)
          else case unsupported_operator parts of
            Some r \<Rightarrow> (Ok r, s)
          | None \<Rightarrow>
              if needs_pipeline line then exec_subprocess A K line timeout extra s
              else let command = hd parts in shell_errors command
                (case dispatch_command A Y K command (tl parts) timeout of
                   Some m \<Rightarrow> m
                 | None \<Rightarrow> (\<lambda>s.
                     if is_external_command (here A s) (tm_fs s) command then exec_subprocess A K line timeout extra s
                     else if command \<in> set KNOWN_TUI_COMMANDS then (Ok (fails (no_tty_text command) 1), s)
                     else (Ok (command_not_found line), s))) s)"

end
