(* ===== verification/Rest.thy ===== *)
theory Rest
  imports PyShell Secrets
begin

text \<open>
  The REST server: the legacy terminal session (\<open>zmux/terminal.py\<close>) and the Flask application
  (\<open>zmux/server.py\<close>) with its authentication, JSON payloads, endpoints, response headers and the
  choice of its ports.  Flask's parsing of a request body follows its documentation; the kernel's
  answers to \<open>bind\<close> and the clock are parameters.
\<close>

section \<open>The terminal session\<close>

text \<open>What a running child would answer; the session never has one (see \<open>no_process\<close> below).\<close>

record child_proc =
  cp_alive :: "nat \<Rightarrow> bool"
  cp_send :: "nat \<Rightarrow> string \<Rightarrow> string option"
  cp_stop :: "nat \<Rightarrow> string + int"

record session =
  ss_cwd :: path
  ss_process :: "nat option"
  ss_status :: string
  ss_exit :: "int option"

record rest =
  rt_sys :: sys
  rt_session :: "session option"
  rt_ws_port :: nat

record server =
  sv_app :: app
  sv_python :: python
  sv_children :: children
  sv_procs :: child_proc
  sv_token :: string

type_synonym dictv = "(string \<times> pyval) list"

definition init_shell :: "path \<Rightarrow> sys \<Rightarrow> sys" where
  "init_shell cwd s =
     s\<lparr>sh_cwd := cwd,
       sh_globals := [''__name__'' \<mapsto> PStr ''__main__'', ''__package__'' \<mapsto> PNone, ''__builtins__'' \<mapsto> PStr ''builtins''],
       sh_width := 80, sh_provider := None, sh_output := False, sh_sent := [], sh_interrupt := False,
       sh_epoch := 0, sh_procs := [], sh_depth := 0\<rparr>"

definition home_of :: "server \<Rightarrow> path" where "home_of S = pc_home (ap_proc (sv_app S))"

definition new_session :: "path \<Rightarrow> session" where
  "new_session home = \<lparr>ss_cwd = home, ss_process = None, ss_status = ''idle'', ss_exit = None\<rparr>"

text \<open>The environment the session keeps.\<close>

definition session_env :: "server \<Rightarrow> environ" where
  "session_env S =
     (let P = ap_proc (sv_app S); env = environ_of P
      in env(''HOME'' \<mapsto> path_str (pc_home P), ''TERM'' \<mapsto> ''xterm-256color'', ''LANG'' \<mapsto> ''C.UTF-8'',
             ''LC_ALL'' \<mapsto> ''C.UTF-8'', ''PATH'' \<mapsto> build_path env (pc_app P) [],
             ''PYTHONPATH'' \<mapsto> legacy_user_packages_pythonpath (pc_app P) (env_get env ''PYTHONPATH'' '''')))"

text \<open>\<open>get_session\<close>: the shell is created with the session, in the resolved home directory.\<close>

definition get_session :: "server \<Rightarrow> (rest, session) act" where
  "get_session S R =
     (case rt_session R of
        Some t \<Rightarrow> (Ok t, R)
      | None \<Rightarrow>
          (case resolve_path (tm_fs (rt_sys R)) (home_of S) of
             Err e \<Rightarrow> (Err e, R)
           | Ok cwd \<Rightarrow>
               let t = new_session (home_of S)
               in (Ok t, R\<lparr>rt_session := Some t, rt_sys := init_shell cwd (rt_sys R)\<rparr>)))"

definition busy :: "server \<Rightarrow> session \<Rightarrow> bool" where
  "busy S t = (case ss_process t of None \<Rightarrow> False | Some p \<Rightarrow> cp_alive (sv_procs S) p)"

definition busy_result :: dictv where
  "busy_result =
     [(''ok'', PBool False), (''error'', PStr ''Another process is running. Use stop() first.''),
      (''status'', PStr ''running'')]"

definition shell_dict :: "result \<Rightarrow> dictv" where
  "shell_dict r =
     [(''ok'', PBool (rs_ok r)), (''stdout'', PStr (rs_stdout r)), (''stderr'', PStr (rs_stderr r)),
      (''exit_code'', PInt (rs_code r)), (''status'', PStr (rs_status r)),
      (''streamed'', PList (if rs_streamed r then [PStr ''stdout'', PStr ''stderr''] else []))]"

definition put_session :: "session \<Rightarrow> (rest, unit) act" where
  "put_session t = modify_a (\<lambda>R. R\<lparr>rt_session := Some t\<rparr>)"

definition run_shell :: "(sys, 'a) act \<Rightarrow> (rest, 'a) act" where
  "run_shell m R = (case m (rt_sys R) of (r, s) \<Rightarrow> (r, R\<lparr>rt_sys := s\<rparr>))"

text \<open>Running a line in the shell and taking over its directory and exit code.\<close>

definition through_shell :: "server \<Rightarrow> session \<Rightarrow> (sys, result) act \<Rightarrow> (rest, dictv) act" where
  "through_shell S t m =
     (if busy S t then ret_a busy_result
      else bind_a (run_shell m) (\<lambda>r.
           bind_a (get_a (\<lambda>R. sh_cwd (rt_sys R))) (\<lambda>cwd.
           seq_a (put_session (t\<lparr>ss_cwd := cwd, ss_exit := Some (rs_code r), ss_status := ''idle''\<rparr>))
             (ret_a (dict_put ''status'' (PStr ''idle'') (shell_dict r))))))"

definition exit_request :: "string \<Rightarrow> int option" where
  "exit_request command =
     (case str_split command of
        w # args \<Rightarrow>
          if w \<noteq> ''exit'' then None
          else Some (case args of [] \<Rightarrow> 0 | v # _ \<Rightarrow> (case py_int (PStr v) of Ok n \<Rightarrow> n | Err _ \<Rightarrow> 2))
      | [] \<Rightarrow> None)"

definition session_execute :: "server \<Rightarrow> string \<Rightarrow> rat option \<Rightarrow> session \<Rightarrow> (rest, dictv) act" where
  "session_execute S command timeout t =
     (if busy S t then ret_a busy_result
      else case exit_request command of
        Some code \<Rightarrow>
          seq_a (put_session (t\<lparr>ss_exit := Some code, ss_status := ''exited''\<rparr>))
            (ret_a [(''ok'', PBool (code = 0)), (''stdout'', PStr (''Goodbye!'' @ LF1)), (''stderr'', PStr ''''),
                    (''exit_code'', PInt code), (''status'', PStr ''exited'')])
      | None \<Rightarrow> through_shell S t (execute (sv_app S) (sv_python S) (sv_children S) command timeout False []))"

definition session_python :: "server \<Rightarrow> string \<Rightarrow> rat option \<Rightarrow> session \<Rightarrow> (rest, dictv) act" where
  "session_python S source timeout t =
     through_shell S t (execute (sv_app S) (sv_python S) (sv_children S) source timeout True [])"

definition session_command :: "server \<Rightarrow> string \<Rightarrow> rat option \<Rightarrow> session \<Rightarrow> (rest, dictv) act" where
  "session_command S command timeout t =
     through_shell S t (execute_command (sv_app S) (sv_python S) (sv_children S) command timeout [])"

definition session_input :: "server \<Rightarrow> string \<Rightarrow> session \<Rightarrow> dictv" where
  "session_input S text t =
     (if \<not> busy S t then [(''ok'', PBool False), (''error'', PStr ''No process running'')]
      else case cp_send (sv_procs S) (the (ss_process t)) (text @ LF1) of
          None \<Rightarrow> [(''ok'', PBool True)]
        | Some e \<Rightarrow> [(''ok'', PBool False), (''error'', PStr e)])"

definition session_stop :: "server \<Rightarrow> session \<Rightarrow> (rest, dictv) act" where
  "session_stop S t =
     (if \<not> busy S t then ret_a [(''ok'', PBool True), (''message'', PStr ''No process running'')]
      else case cp_stop (sv_procs S) (the (ss_process t)) of
          Inl e \<Rightarrow> ret_a [(''ok'', PBool False), (''error'', PStr e)]
        | Inr code \<Rightarrow> seq_a (put_session (t\<lparr>ss_status := ''stopped'', ss_exit := Some code\<rparr>))
            (ret_a [(''ok'', PBool True), (''exit_code'', PInt code)]))"

definition session_status :: "server \<Rightarrow> session \<Rightarrow> string" where
  "session_status S t = (if busy S t then ''running'' else ss_status t)"

definition session_prompt :: "server \<Rightarrow> (rest, string) act" where
  "session_prompt S =
     bind_a (get_session S) (\<lambda>t.
     bind_a (get_a (\<lambda>R. display_path (tm_fs (rt_sys R)) (ss_cwd t) (home_of S))) (\<lambda>r.
     bind_a (pure_a r) (\<lambda>d. ret_a (''zmux:'' @ d @ ''$ ''))))"

section \<open>Requests and responses\<close>

record request =
  rq_method :: string
  rq_path :: string
  rq_token :: string
  rq_json :: bool
  rq_body :: string

datatype body = JsonBody dictv | TerminalPage string nat | NoPage

record reply =
  rp_status :: nat
  rp_body :: body
  rp_headers :: "(string \<times> string) list"

definition json_reply :: "nat \<Rightarrow> dictv \<Rightarrow> reply" where
  "json_reply code d = \<lparr>rp_status = code, rp_body = JsonBody d, rp_headers = []\<rparr>"

text \<open>
  \<open>request.get_json(silent=True)\<close>: nothing unless the body is declared to be JSON and parses.
\<close>

definition get_json :: "request \<Rightarrow> pyval option" where
  "get_json q =
     (if \<not> rq_json q then None
      else case json_loads (rq_body q) of Err _ \<Rightarrow> None | Ok PNone \<Rightarrow> None | Ok v \<Rightarrow> Some v)"

definition refusal :: "string \<Rightarrow> dictv \<Rightarrow> dictv" where
  "refusal message extra = [(''ok'', PBool False), (''message'', PStr message)] @ extra"

definition json_payload :: "request \<Rightarrow> reply + dictv" where
  "json_payload q =
     (case get_json q of
        None \<Rightarrow>
          if str_strip (rq_body q) \<noteq> ''''
          then Inl (json_reply 400 (refusal ''Invalid JSON'' [(''code'', PStr ''invalid_json'')]))
          else Inr []
      | Some (PDict d) \<Rightarrow> Inr d
      | Some v \<Rightarrow> Inl (json_reply 400 (refusal ''JSON must be object'' [(''code'', PStr ''invalid_json_type'')])))"

definition content_policy :: "nat \<Rightarrow> string" where
  "content_policy port =
     (let sq = (\<lambda>w. [SQ] @ w @ [SQ]); p = nat_str port in
      join_with ''; ''
        [''default-src '' @ sq ''self'',
         ''script-src '' @ sq ''self'' @ '' '' @ sq ''unsafe-inline'' @ '' '' @ sq ''unsafe-eval'',
         ''style-src '' @ sq ''self'' @ '' '' @ sq ''unsafe-inline'',
         ''img-src '' @ sq ''self'' @ '' data: blob:'',
         ''connect-src '' @ sq ''self'' @ '' ws://127.0.0.1:'' @ p @ '' ws://localhost:'' @ p,
         ''font-src '' @ sq ''self'' @ '' data:'', ''object-src '' @ sq ''none'', ''base-uri '' @ sq ''none'',
         ''frame-ancestors '' @ sq ''none''])"

definition add_header :: "string \<times> string \<Rightarrow> reply \<Rightarrow> reply" where
  "add_header h r = (if fst h \<in> fst ` set (rp_headers r) then r else r\<lparr>rp_headers := rp_headers r @ [h]\<rparr>)"

definition security_headers :: "nat \<Rightarrow> reply \<Rightarrow> reply" where
  "security_headers port r =
     add_header (''Referrer-Policy'', ''no-referrer'')
       (add_header (''X-Content-Type-Options'', ''nosniff'')
         (add_header (''Content-Security-Policy'', content_policy port) r))"

section \<open>Compatibility annotations\<close>

definition LEGACY_REST_DEPRECATION :: string where
  "LEGACY_REST_DEPRECATION =
     ''REST terminal session endpoints are retained for compatibility only. The WebView terminal uses ''
     @ ''authenticated WebSocket input connected to the Alpine PTY shell.''"

definition LEGACY_EXEC_DEPRECATION :: string where
  "LEGACY_EXEC_DEPRECATION =
     ''REST /api/exec is retained for compatibility only. The WebView terminal uses authenticated ''
     @ ''WebSocket input connected to the Alpine PTY shell.''"

definition LEGACY_EXEC_PROMPT :: string where "LEGACY_EXEC_PROMPT = ''zmux:~$ ''"

definition legacy_rest_result :: "string \<Rightarrow> dictv \<Rightarrow> dictv" where
  "legacy_rest_result deprecation d =
     set_default ''deprecation'' (PStr deprecation)
       (set_default ''legacy_status'' (PStr ''compatibility-only'')
         (set_default ''legacy_endpoint'' (PBool True) (set_default ''legacy'' (PBool True) d)))"

definition legacy_exec_result :: "string \<Rightarrow> bool \<Rightarrow> dictv \<Rightarrow> dictv" where
  "legacy_exec_result language explicit d =
     legacy_rest_result LEGACY_EXEC_DEPRECATION
       (set_default ''language'' (PStr language)
         (set_default ''explicit_language'' (PBool explicit)
           (set_default ''legacy_input_mode'' (PStr ''legacy-auto-command-or-python'') d)))"

definition EXEC_LANGUAGES_IMPLEMENTED :: "string list" where
  "EXEC_LANGUAGES_IMPLEMENTED = [''command'', ''legacy-auto'', ''python'']"

definition EXEC_LANGUAGES_PLANNED :: "string list" where "EXEC_LANGUAGES_PLANNED = []"

definition language_refusal :: "nat \<Rightarrow> string \<Rightarrow> string \<Rightarrow> reply" where
  "language_refusal http code message =
     json_reply http
       [(''ok'', PBool False), (''code'', PStr code), (''message'', PStr message),
        (''supported'', PList (map PStr EXEC_LANGUAGES_IMPLEMENTED)),
        (''planned'', PList (map PStr EXEC_LANGUAGES_PLANNED))]"

definition get_exec_language :: "dictv \<Rightarrow> reply + string" where
  "get_exec_language payload =
     (case (case map_of payload ''language'' of None \<Rightarrow> PStr ''legacy-auto'' | Some v \<Rightarrow> v) of
        PStr raw \<Rightarrow>
          let language = lower (str_strip raw) in
          if language \<in> set EXEC_LANGUAGES_IMPLEMENTED then Inr language
          else if language \<in> set EXEC_LANGUAGES_PLANNED then
            Inl (language_refusal 501 ''language_not_implemented''
              (''/api/exec language='' @ py_repr language @ '' is reserved but not implemented yet''))
          else Inl (language_refusal 400 ''invalid_language'' (''Unsupported /api/exec language: '' @ raw))
      | _ \<Rightarrow> Inl (language_refusal 400 ''invalid_language''
              (''Field '' @ [SQ] @ ''language'' @ [SQ] @ '' must be a string'')))"

definition get_timeout :: "dictv \<Rightarrow> exn + (reply + rat option)" where
  "get_timeout payload =
     (case map_of payload ''timeout'' of
        None \<Rightarrow> Ok (Inr None)
      | Some PNone \<Rightarrow> Ok (Inr None)
      | Some v \<Rightarrow>
          (case py_float v of
             Ok q \<Rightarrow> Ok (Inr (Some q))
           | Err e \<Rightarrow> if e = TypeError \<or> is_valueerror e
               then Ok (Inl (json_reply 400 (refusal ''timeout must be a number'' []))) else Err e))"

definition must_be_string :: "string \<Rightarrow> reply" where
  "must_be_string k = json_reply 400 (refusal (''Field '' @ [SQ] @ k @ [SQ] @ '' must be a string'') [])"

definition string_field :: "string \<Rightarrow> dictv \<Rightarrow> reply + string" where
  "string_field k d =
     (case map_of d k of None \<Rightarrow> Inr '''' | Some (PStr s) \<Rightarrow> Inr s | Some v \<Rightarrow> Inl (must_be_string k))"

section \<open>Endpoints\<close>

definition with_prompt :: "server \<Rightarrow> dictv \<Rightarrow> (rest, dictv) act" where
  "with_prompt S d = bind_a (session_prompt S) (\<lambda>p. ret_a (dict_put ''prompt'' (PStr p) d))"

definition exec_in_session :: "server \<Rightarrow> string \<Rightarrow> string \<Rightarrow> rat option \<Rightarrow> (rest, dictv) act" where
  "exec_in_session S language command timeout =
     bind_a (get_session S) (\<lambda>t.
     bind_a (if language = ''python'' then session_python S command timeout t
             else if language = ''command'' then session_command S command timeout t
             else session_execute S command timeout t) (with_prompt S))"

definition exec_zpip :: "server \<Rightarrow> string \<Rightarrow> (rest, dictv) act" where
  "exec_zpip S command =
     bind_a (run_shell (run_zpip (sv_app S) command)) (\<lambda>v.
     bind_a (pure_a (format_output command (dict_items v))) (\<lambda>(text, code).
     let get = (\<lambda>k d. case map_of (dict_items v) k of None \<Rightarrow> d | Some x \<Rightarrow> x) in
       ret_a [(''ok'', PBool (code = 0)), (''stdout'', PStr (text @ LF1)), (''stderr'', PStr ''''),
              (''exit_code'', PInt code), (''status'', PStr ''idle''),
              (''legacy_command'', get ''legacy'' (PBool True)),
              (''legacy_status'', get ''legacy_status'' (PStr ''compatibility-only'')),
              (''legacy_notice'', get ''legacy_notice'' (PStr '''')),
              (''legacy_manager'', get ''manager'' (PStr ''zpip'')), (''prompt'', PStr LEGACY_EXEC_PROMPT)]))"

definition exec_info :: "server \<Rightarrow> (rest, dictv) act" where
  "exec_info S =
     bind_a (run_shell (io_a (runtime_fingerprint (ap_linux (sv_app S)) (ap_platform (sv_app S)) (ap_source (sv_app S))))) (\<lambda>fp.
     bind_a (pure_a (format_fingerprint fp)) (\<lambda>t.
       ret_a [(''ok'', PBool True), (''stdout'', PStr (t @ LF1)), (''stderr'', PStr ''''), (''exit_code'', PInt 0),
              (''status'', PStr ''idle''), (''prompt'', PStr LEGACY_EXEC_PROMPT)]))"

definition run_exec :: "server \<Rightarrow> string \<Rightarrow> string \<Rightarrow> rat option \<Rightarrow> (rest, dictv) act" where
  "run_exec S language command timeout =
     (if language \<in> {''python'', ''command''} then exec_in_session S language command timeout
      else if startswith (str_strip command) ''zpip'' then exec_zpip S command
      else if str_strip command = ''zmux-info'' then exec_info S
      else exec_in_session S language command timeout)"

definition exec_endpoint :: "server \<Rightarrow> request \<Rightarrow> (rest, reply) act" where
  "exec_endpoint S q =
     (case json_payload q of Inl r \<Rightarrow> ret_a r
      | Inr payload \<Rightarrow>
          (case string_field ''command'' payload of Inl r \<Rightarrow> ret_a r
           | Inr command \<Rightarrow>
               (case get_exec_language payload of Inl r \<Rightarrow> ret_a r
                | Inr language \<Rightarrow>
                    bind_a (pure_a (get_timeout payload)) (\<lambda>x. case x of Inl r \<Rightarrow> ret_a r
                      | Inr timeout \<Rightarrow>
                          bind_a (run_exec S language command timeout) (\<lambda>d.
                            ret_a (json_reply 200
                              (legacy_exec_result language (map_of payload ''language'' \<noteq> None) d)))))))"

definition input_endpoint :: "server \<Rightarrow> request \<Rightarrow> (rest, reply) act" where
  "input_endpoint S q =
     (case json_payload q of Inl r \<Rightarrow> ret_a r
      | Inr payload \<Rightarrow>
          (case string_field ''text'' payload of Inl r \<Rightarrow> ret_a r
           | Inr text \<Rightarrow>
               bind_a (get_session S) (\<lambda>t.
                 ret_a (json_reply 200 (legacy_rest_result LEGACY_REST_DEPRECATION (session_input S text t))))))"

definition stop_endpoint :: "server \<Rightarrow> (rest, reply) act" where
  "stop_endpoint S =
     bind_a (get_session S) (\<lambda>t.
     bind_a (session_stop S t) (\<lambda>d.
     bind_a (with_prompt S d) (\<lambda>d'.
       ret_a (json_reply 200 (legacy_rest_result LEGACY_REST_DEPRECATION d')))))"

definition status_endpoint :: "server \<Rightarrow> (rest, reply) act" where
  "status_endpoint S =
     bind_a (get_session S) (\<lambda>t.
     bind_a (session_prompt S) (\<lambda>p.
       ret_a (json_reply 200 (legacy_rest_result LEGACY_REST_DEPRECATION
         [(''ok'', PBool True), (''status'', PStr (session_status S t)),
          (''exit_code'', case ss_exit t of None \<Rightarrow> PNone | Some c \<Rightarrow> PInt c),
          (''cwd'', PStr (path_str (ss_cwd t))), (''prompt'', PStr p)]))))"

definition prompt_endpoint :: "server \<Rightarrow> (rest, reply) act" where
  "prompt_endpoint S =
     bind_a (session_prompt S) (\<lambda>p.
       ret_a (json_reply 200 (legacy_rest_result LEGACY_REST_DEPRECATION
         [(''ok'', PBool True), (''prompt'', PStr p)])))"

definition health_reply :: reply where
  "health_reply =
     json_reply 200 [(''ok'', PBool True), (''version'', PStr ''1.0.2''), (''app'', PStr ''ZMUX''), (''type'', PStr ''terminal''),
       (''status'', PStr ''idle''), (''runtime'', PStr ''alpine-pty'')]"

definition index_endpoint :: "server \<Rightarrow> (rest, reply) act" where
  "index_endpoint S =
     bind_a (get_a rt_ws_port) (\<lambda>p.
       ret_a \<lparr>rp_status = 200, rp_body = TerminalPage (sv_token S) p, rp_headers = []\<rparr>)"

definition require_auth :: "server \<Rightarrow> request \<Rightarrow> (rest, reply) act \<Rightarrow> (rest, reply) act" where
  "require_auth S q handler =
     (case verify_auth_token (sv_token S) (rq_token q) of
        Err e \<Rightarrow> raise_a e
      | Ok True \<Rightarrow> handler
      | Ok False \<Rightarrow> ret_a (json_reply 401 (refusal ''Access denied'' [])))"

text \<open>The routes; Flask answers the other paths and methods itself.\<close>

definition route :: "server \<Rightarrow> request \<Rightarrow> (rest, reply) act" where
  "route S q =
     (let r = (rq_method q, rq_path q) in
      if r = (''GET'', ''/'') then index_endpoint S
      else if r = (''GET'', ''/api/health'') then ret_a health_reply
      else if r = (''POST'', ''/api/exec'') then require_auth S q (exec_endpoint S q)
      else if r = (''POST'', ''/api/input'') then require_auth S q (input_endpoint S q)
      else if r = (''POST'', ''/api/stop'') then require_auth S q (stop_endpoint S)
      else if r = (''GET'', ''/api/status'') then require_auth S q (status_endpoint S)
      else if r = (''GET'', ''/api/prompt'') then require_auth S q (prompt_endpoint S)
      else ret_a \<lparr>rp_status = 404, rp_body = NoPage, rp_headers = []\<rparr>)"

text \<open>An exception that leaves a handler becomes status 500; every response gets the headers.\<close>

definition handle_request :: "server \<Rightarrow> request \<Rightarrow> rest \<Rightarrow> reply \<times> rest" where
  "handle_request S q R =
     (case route S q R of
        (Ok r, R') \<Rightarrow> (security_headers (rt_ws_port R') r, R')
      | (Err e, R') \<Rightarrow> (security_headers (rt_ws_port R') \<lparr>rp_status = 500, rp_body = NoPage, rp_headers = []\<rparr>, R'))"

section \<open>Ports\<close>

definition CHROMIUM_RESTRICTED_PORTS :: "nat list" where
  "CHROMIUM_RESTRICTED_PORTS =
     [0, 1, 7, 9, 11, 13, 15, 17, 19, 20, 21, 22, 23, 25, 37, 42, 43, 53, 69,
      77, 79, 87, 95, 101, 102, 103, 104, 109, 110, 111, 113, 115, 117, 119,
      123, 135, 137, 139, 143, 161, 179, 389, 427, 465, 512, 513, 514, 515,
      526, 530, 531, 532, 540, 548, 554, 556, 563, 587, 601, 636, 989, 990,
      993, 995, 1719, 1720, 1723, 2049, 3659, 4045, 5060, 5061, 6000, 6566,
      6665, 6666, 6667, 6668, 6669, 6697, 10080]"

definition ZABACODE_HTTP_PORT :: nat where "ZABACODE_HTTP_PORT = 5000"
definition P4A_HTTP_PORT :: nat where "P4A_HTTP_PORT = 8000"
definition P4A_BIND_TIMEOUT :: nat where "P4A_BIND_TIMEOUT = 30000"

type_synonym listener = "string \<times> nat"

text \<open>Whether the kernel grants a listener on a host and port.\<close>

type_synonym grants = "string \<Rightarrow> nat \<Rightarrow> bool"

definition bind_first :: "grants \<Rightarrow> listener list \<Rightarrow> listener option" where
  "bind_first ok cs = find (\<lambda>(h, p). ok h p) cs"

text \<open>
  On Android the exact port is retried until the deadline: each round has what the kernel answers
  and the milliseconds since the start when it is over.  \<open>None\<close>: still waiting.
\<close>

fun android_rounds :: "(grants \<times> nat) list \<Rightarrow> (exn + listener) option" where
  "android_rounds [] = None"
| "android_rounds ((ok, now) # rounds) =
     (case bind_first ok [(''127.0.0.1'', P4A_HTTP_PORT), (''localhost'', P4A_HTTP_PORT)] of
        Some l \<Rightarrow> Some (Ok l)
      | None \<Rightarrow>
          if now \<ge> P4A_BIND_TIMEOUT
          then Some (Err (RuntimeError (''Could not bind 127.0.0.1:'' @ nat_str P4A_HTTP_PORT @ '' within 30s. The Android ''
                 @ ''WebView shell waits for this exact port, so ZMUX cannot start. Close other ZMUX instances and restart the app.'')))
          else android_rounds rounds)"

definition bind_http_socket :: "bool \<Rightarrow> (grants \<times> nat) list \<Rightarrow> grants \<Rightarrow> (exn + listener) option" where
  "bind_http_socket android rounds ok =
     (if P4A_HTTP_PORT \<in> set CHROMIUM_RESTRICTED_PORTS
      then Some (Err (RuntimeError (''P4A_HTTP_PORT='' @ nat_str P4A_HTTP_PORT @ '' is on Chromium'' @ [SQ] @ ''s restricted-port list: the Android WebView would refuse to load it with net::ERR_UNSAFE_PORT. ''
             @ ''Pick a port not in net/base/port_util.cc kRestrictedPorts and update p4a.port in app/buildozer.spec.'')))
      else if android then android_rounds rounds
      else Some (case bind_first ok (map (\<lambda>p. (''127.0.0.1'', p)) [P4A_HTTP_PORT..<P4A_HTTP_PORT + 11]) of
          Some l \<Rightarrow> Ok l
        | None \<Rightarrow> Err (RuntimeError (''All ports '' @ nat_str P4A_HTTP_PORT @ ''-'' @ nat_str (P4A_HTTP_PORT + 10) @ '' occupied.''))))"

definition bind_ws_socket :: "grants \<Rightarrow> nat \<Rightarrow> exn + listener" where
  "bind_ws_socket ok http_port =
     (case bind_first ok (map (\<lambda>p. (''127.0.0.1'', p))
             (filter (\<lambda>p. p \<notin> set CHROMIUM_RESTRICTED_PORTS) [http_port + 1..<http_port + 101])) of
        Some l \<Rightarrow> Ok l
      | None \<Rightarrow> Err (RuntimeError (''Could not find a free WebSocket port above '' @ nat_str http_port @ ''.'')))"

definition bind_ipv6_loopback :: "grants \<Rightarrow> nat \<Rightarrow> listener list" where
  "bind_ipv6_loopback ok port = (if ok ''::1'' port then [(''::1'', port)] else [])"

text \<open>
  What \<open>run_server\<close> sets up before it serves: the listeners of both servers, and the port it
  publishes to the page and the policy.
\<close>

record listening =
  lg_http :: "listener list"
  lg_ws :: "listener list"
  lg_ws_port :: nat

definition run_server :: "bool \<Rightarrow> (grants \<times> nat) list \<Rightarrow> grants \<Rightarrow> (exn + listening) option" where
  "run_server android rounds ok =
     (case bind_http_socket android rounds ok of
        None \<Rightarrow> None
      | Some (Err e) \<Rightarrow> Some (Err e)
      | Some (Ok (h, http_port)) \<Rightarrow>
          Some (case bind_ws_socket ok http_port of
              Err e \<Rightarrow> Err e
            | Ok (h', ws_port) \<Rightarrow>
                Ok \<lparr>lg_http = (h, http_port) # bind_ipv6_loopback ok http_port,
                    lg_ws = (h', ws_port) # bind_ipv6_loopback ok ws_port, lg_ws_port = ws_port\<rparr>))"

end
