(* ===== verification/Actions.thy ===== *)
theory Actions
  imports Cli
begin

text \<open>
  Reasoning about the actions of the command-line entry, the interpreter and the REST server: what
  an action keeps of the state (\<open>keeps_a\<close>, for a relation that is reflexive and transitive: the
  interface of a frame) and what a value it returns satisfies (\<open>yields\<close>).
\<close>

section \<open>What an action keeps\<close>

definition keeps_a :: "('s \<Rightarrow> 's \<Rightarrow> bool) \<Rightarrow> ('s, 'a) act \<Rightarrow> bool" where
  "keeps_a R m \<longleftrightarrow> (\<forall>s. R s (snd (m s)))"

lemma keeps_aD: "keeps_a R m \<Longrightarrow> m s = (r, s') \<Longrightarrow> R s s'"
  by (auto simp: keeps_a_def dest: spec [of _ s])

lemma keeps_mono: "keeps_a R m \<Longrightarrow> (\<And>s s'. R s s' \<Longrightarrow> Q s s') \<Longrightarrow> keeps_a Q m"
  by (auto simp: keeps_a_def)

named_theorems act_intros \<open>rules for the calculus of actions\<close>

locale action_relation =
  fixes rel :: "'s \<Rightarrow> 's \<Rightarrow> bool"
  assumes same: "rel s s"
    and compose: "rel s s' \<Longrightarrow> rel s' s'' \<Longrightarrow> rel s s''"
begin

lemma act_pure [act_intros]:
  "keeps_a rel (ret_a x)" "keeps_a rel (raise_a e)" "keeps_a rel (get_a q)" "keeps_a rel (pure_a r)" "keeps_a rel (Pair y)"
  using same by (simp_all add: keeps_a_def)

lemma act_bind [act_intros]: "keeps_a rel m \<Longrightarrow> (\<And>x. keeps_a rel (f x)) \<Longrightarrow> keeps_a rel (bind_a m f)"
  unfolding keeps_a_def bind_a_def
  by (auto split: prod.splits sum.splits) (metis snd_conv compose)+

lemma act_seq [act_intros]: "keeps_a rel m \<Longrightarrow> keeps_a rel k \<Longrightarrow> keeps_a rel (seq_a m k)"
  by (simp add: seq_a_def act_bind)

lemma act_try [act_intros]: "keeps_a rel m \<Longrightarrow> (\<And>e. keeps_a rel (h e)) \<Longrightarrow> keeps_a rel (try_a m h)"
  unfolding keeps_a_def try_a_def
  by (auto split: prod.splits sum.splits) (metis snd_conv compose)+

lemma act_if [act_intros]: "keeps_a rel m \<Longrightarrow> keeps_a rel k \<Longrightarrow> keeps_a rel (if c then m else k)"
  by simp

end

section \<open>What an action returns\<close>

definition yields :: "('a \<Rightarrow> bool) \<Rightarrow> ('s, 'a) act \<Rightarrow> bool" where
  "yields P m \<longleftrightarrow> (\<forall>s x s'. m s = (Ok x, s') \<longrightarrow> P x)"

lemma yieldsD: "yields P m \<Longrightarrow> m s = (Ok x, s') \<Longrightarrow> P x"
  by (auto simp: yields_def)

named_theorems yield_intros \<open>postconditions of actions\<close>

lemma yields_pure [yield_intros]:
  "P x \<Longrightarrow> yields P (ret_a x)" "yields P (raise_a e)" "P x \<Longrightarrow> yields P (Pair (Ok x))"
  by (simp_all add: yields_def)

lemma yields_bind [yield_intros]: "(\<And>x. yields P (f x)) \<Longrightarrow> yields P (bind_a m f)"
  unfolding yields_def bind_a_def by (auto split: prod.splits sum.splits)

lemma yields_through: "yields Q m \<Longrightarrow> (\<And>x. Q x \<Longrightarrow> yields P (f x)) \<Longrightarrow> yields P (bind_a m f)"
  unfolding yields_def bind_a_def by (auto split: prod.splits sum.splits) blast

lemma yields_get: "(\<And>s. P (q s)) \<Longrightarrow> yields P (get_a q)"
  by (simp add: yields_def)

lemma yields_seq [yield_intros]: "yields P k \<Longrightarrow> yields P (seq_a m k)"
  by (simp add: seq_a_def yields_bind)

lemma yields_try [yield_intros]: "yields P m \<Longrightarrow> (\<And>e. yields P (h e)) \<Longrightarrow> yields P (try_a m h)"
  unfolding yields_def try_a_def by (auto split: prod.splits sum.splits)

lemma yields_if [yield_intros]: "yields P m \<Longrightarrow> yields P k \<Longrightarrow> yields P (if c then m else k)"
  by simp

end
