(* ===== verification/ShellProps.thy ===== *)
theory ShellProps
  imports Actions PyShell LinuxProps ZpipProps
begin

text \<open>
  Properties of the command interpreter: what its dispatchers never do, where \<open>cd\<close> can lead, how
  the process is put back after Python code, what a pipeline leaves in the registry, and the words
  the guest receives.
\<close>

section \<open>What every console command keeps\<close>

text \<open>Console operations leave alone what the interpreter adds to the state.\<close>

definition same_more :: "'z console_scheme \<Rightarrow> 'z console_scheme \<Rightarrow> bool" where
  "same_more s s' \<longleftrightarrow> console.more s' = console.more s"

interpretation sm: action_relation same_more
  by unfold_locales (simp_all add: same_more_def)

lemma more_io [act_intros]: "keeps_a same_more (io_a m)"
  by (simp add: keeps_a_def same_more_def io_a_def split: prod.split)

lemma more_write [act_intros]:
  "keeps_a same_more (write_a k t)" "keeps_a same_more (print_a t)" "keeps_a same_more (print_err t)"
  by (simp_all add: keeps_a_def same_more_def write_a_def print_a_def print_err_def)

lemma more_reporting [act_intros]: "keeps_a same_more (reporting k f m)"
  by (simp add: keeps_a_def same_more_def reporting_def split: prod.split)

lemma more_bridge [act_intros]: "keeps_a same_more (modify_a (\<lambda>s. s\<lparr>tm_bridge := B\<rparr>))"
  and more_seccomp [act_intros]: "keeps_a same_more (modify_a (\<lambda>s. s\<lparr>tm_seccomp := c\<rparr>))"
  by (simp_all add: keeps_a_def same_more_def)

lemma more_probe [act_intros]: "keeps_a same_more (run_pty_probe ps rs)"
  by (induction ps rs rule: run_pty_probe.induct)
    (auto intro!: act_intros split: prod.split)

lemma more_cli: "keeps_a same_more (cli_main A argv)"
proof -
  have ex: "keeps_a same_more (case e of RuntimeError t \<Rightarrow> m t | _ \<Rightarrow> raise_a e)"
    if "\<And>t. keeps_a same_more (m t)" for m and e :: exn
    using that by (cases e) (auto intro: act_intros)
  have "keeps_a same_more (proot_env_a A)"
    by (auto simp: proot_env_a_def intro!: act_intros split: prod.split)
  then have "keeps_a same_more (cmd_linux A c args)" for c args
    by (auto simp: cmd_linux_def warn_legacy_def intro!: act_intros ex split: option.split)
  moreover have "keeps_a same_more (cmd_zpip A args)" for args
    by (auto simp: cmd_zpip_def warn_legacy_def run_zpip_def Let_def intro!: act_intros split: prod.split)
  moreover have "keeps_a same_more cmd_help" "keeps_a same_more cmd_clear"
    by (auto simp: cmd_help_def cmd_clear_def intro!: act_intros)
  moreover have "keeps_a same_more (cmd_setup_storage A)" "keeps_a same_more (cmd_zmux_info A)"
    by (auto simp: cmd_setup_storage_def cmd_zmux_info_def intro!: act_intros split: prod.split)
  moreover have "keeps_a same_more (cmd_linux_setup A)"
    by (auto simp: cmd_linux_setup_def intro!: act_intros split: option.split)
  moreover have "keeps_a same_more (cmd_gates A)" "keeps_a same_more (cmd_pty_probe A)"
    by (auto simp: cmd_gates_def cmd_pty_probe_def intro!: act_intros)
  moreover have "keeps_a same_more (cmd_pip A args)" for args
    by (auto simp: cmd_pip_def warn_legacy_def Let_def intro!: act_intros)
  ultimately show ?thesis
    by (auto simp: cli_main_def unknown_command_def Let_def intro!: act_intros)
qed

section \<open>What every command leaves alone\<close>

text \<open>
  The interpreter's own fields: the working directory, the nesting of pipelines, whether a sink is
  installed, the registry of processes (all of whose pids have been handed out) and its counter.
\<close>

definition registry_ok :: "sys \<Rightarrow> bool" where
  "registry_ok s \<longleftrightarrow> (\<forall>p \<in> set (sh_procs s). p < sh_next_pid s)"

definition frame :: "sys \<Rightarrow> sys \<Rightarrow> bool" where
  "frame s s' \<longleftrightarrow> sh_cwd s' = sh_cwd s \<and> sh_depth s' = sh_depth s \<and> sh_output s' = sh_output s \<and>
     (registry_ok s \<longrightarrow> sh_procs s' = sh_procs s) \<and> sh_next_pid s \<le> sh_next_pid s'"

lemma frame_refl [simp]: "frame s s"
  by (simp add: frame_def)

lemma frame_trans: "frame s s' \<Longrightarrow> frame s' s'' \<Longrightarrow> frame s s''"
  by (auto simp: frame_def registry_ok_def) (metis order_less_le_trans)+

interpretation fr: action_relation frame
  by unfold_locales (auto intro: frame_trans)

lemma same_more_frame: "same_more s s' \<Longrightarrow> frame s s'"
  by (cases s; cases s') (simp add: same_more_def frame_def)

lemma frame_keeps: "keeps_a same_more m \<Longrightarrow> keeps_a frame m"
  by (auto simp: keeps_a_def intro: same_more_frame)

lemma frame_sent [simp]:
  "sh_cwd (send cs s) = sh_cwd s" "sh_depth (send cs s) = sh_depth s" "sh_output (send cs s) = sh_output s"
  "sh_procs (send cs s) = sh_procs s" "sh_next_pid (send cs s) = sh_next_pid s" "tm_fs (send cs s) = tm_fs s"
  by (simp_all add: send_def)

lemma frame_signalled [simp]:
  "sh_cwd (signal_all g ps s) = sh_cwd s" "sh_depth (signal_all g ps s) = sh_depth s"
  "sh_output (signal_all g ps s) = sh_output s" "sh_procs (signal_all g ps s) = sh_procs s"
  "sh_next_pid (signal_all g ps s) = sh_next_pid s" "tm_fs (signal_all g ps s) = tm_fs s"
  by (simp_all add: signal_all_def)

lemma frame_shown [simp]:
  "sh_cwd (show_chunks rd cs s) = sh_cwd s" "sh_depth (show_chunks rd cs s) = sh_depth s"
  "sh_output (show_chunks rd cs s) = sh_output s" "sh_procs (show_chunks rd cs s) = sh_procs s"
  "sh_next_pid (show_chunks rd cs s) = sh_next_pid s" "tm_fs (show_chunks rd cs s) = tm_fs s"
  by (simp_all add: show_chunks_def)

lemma frame_io [act_intros]: "keeps_a frame (io_a m)"
  by (rule frame_keeps) (rule more_io)

text \<open>User code that does not reach into the interpreter object.\<close>

definition well_behaved :: "python \<Rightarrow> bool" where
  "well_behaved Y \<longleftrightarrow> (\<forall>c s. frame s (snd (snd (py_run Y c s))))"

lemma frame_run_source: "well_behaved Y \<Longrightarrow> frame s (snd (snd (run_source Y source s)))"
  by (auto simp: run_source_def well_behaved_def split: sum.split py_exc.split prod.split) (metis snd_conv)+

lemma frame_enter [simp]: "frame s s' \<Longrightarrow> frame (enter_context s) s' = frame s s'"
  by (simp add: enter_context_def frame_def registry_ok_def)

lemma frame_contexts: "frame (enter_context s) s1 \<Longrightarrow> frame s (leave_context A s s1)"
  by (simp add: enter_context_def leave_context_def frame_def registry_ok_def)

lemma frame_drain: "frame s s1 \<Longrightarrow> frame s (snd (drain_result ops code s1))"
  by (auto simp: drain_result_def frame_def split: prod.split)

lemma frame_python: "well_behaved Y \<Longrightarrow> frame s (snd (exec_python A Y source origin s))"
proof -
  assume Y: "well_behaved Y"
  obtain r ops s1 where rs: "run_source Y source (enter_context s) = (r, ops, s1)" by (metis prod_cases3)
  have "frame (enter_context s) s1" using frame_run_source [OF Y, of "enter_context s" source] rs by simp
  then have f: "frame s (leave_context A s s1)" by (rule frame_contexts)
  show ?thesis
    by (simp add: exec_python_def rs Let_def split: sum.split prod.split) (auto intro: frame_drain f)
qed

lemma keeps_total_act: "(\<And>s. R s (snd (f s))) \<Longrightarrow> keeps_a R (total_act f)"
  by (simp add: keeps_a_def total_act_def split: prod.split) (metis snd_conv)

lemma frame_script: "well_behaved Y \<Longrightarrow> frame s (snd (run_script A Y script args source s))"
proof -
  assume Y: "well_behaved Y"
  define s1 where "s1 = s\<lparr>sh_globals := (sh_globals s)(''__name__'' \<mapsto> PStr ''__main__'', ''__file__'' \<mapsto> PStr (path_str script)),
      ps_argv := path_str script # args\<rparr>"
  obtain r s2 where x: "exec_python A Y source None s1 = (r, s2)" by (meson surj_pair)
  have "frame s1 s2" using frame_python [OF Y, of s1 A source None] x by simp
  then show ?thesis using x by (simp add: run_script_def Let_def s1_def frame_def registry_ok_def)
qed

lemma frame_python_command: "well_behaved Y \<Longrightarrow> keeps_a frame (exec_python_command A Y args)"
  by (auto simp: exec_python_command_def intro!: act_intros keeps_total_act frame_python frame_script
      split: sum.split)

lemma frame_zmux_command: "keeps_a frame (exec_zmux_command A command args)"
  unfolding keeps_a_def
proof
  fix s :: sys
  define s0 where "s0 = s\<lparr>tm_prints := [], tm_sink := sh_output s \<or> tm_sink s\<rparr>"
  obtain r s1 where x: "cli_main A (command # args) s0 = (r, s1)" by (meson surj_pair)
  have "frame s0 s1" using more_cli x by (metis keeps_aD same_more_frame)
  then have f: "frame s (s1\<lparr>tm_prints := tm_prints s, tm_sink := tm_sink s\<rparr>)"
    by (simp add: s0_def frame_def registry_ok_def)
  have g: "frame s (send cs (s1\<lparr>tm_prints := tm_prints s, tm_sink := tm_sink s\<rparr>))" for cs
    using f by (simp add: frame_def)
  show "frame s (snd (exec_zmux_command A command args s))"
    using f g frame_drain [OF f] x
    by (auto simp: exec_zmux_command_def Let_def s0_def [symmetric] split: sum.split prod.split) (metis snd_conv)
qed

text \<open>Starting processes: fresh pids, registered in order, and nothing else of the interpreter's.\<close>

lemma spawn_all_frame:
  "spawn_all A K argvs started s = ((bad, started'), s') \<Longrightarrow>
     \<exists>new. started' = started @ new \<and> sh_procs s' = sh_procs s @ map snd new \<and>
       (\<forall>p \<in> snd ` set new. sh_next_pid s \<le> p) \<and> sh_next_pid s \<le> sh_next_pid s' \<and>
       sh_cwd s' = sh_cwd s \<and> sh_depth s' = sh_depth s \<and> sh_output s' = sh_output s \<and> tm_fs s' = tm_fs s"
proof (induction A K argvs started s rule: spawn_all.induct)
  case (1 A K started s)
  then show ?case by auto
next
  case (2 A K stage rest started s)
  show ?case
  proof (cases "find_executable (here A s) (tm_fs s) (hd stage)")
    case None
    with "2.prems" show ?thesis by auto
  next
    case exe: (Some exe)
    show ?thesis
    proof (cases "ch_spawn K (exe # tl stage) (sh_cwd s) (tm_fs s)")
      case (Inl e)
      with "2.prems" exe show ?thesis by auto
    next
      case (Inr alive)
      define s1 where "s1 = s\<lparr>sh_next_pid := Suc (sh_next_pid s), sh_procs := sh_procs s @ [sh_next_pid s]\<rparr>"
      define s2 where "s2 = (if sh_interrupt s1 \<and> alive then signal_all ''SIGINT'' [sh_next_pid s] s1 else s1)"
      have run: "spawn_all A K rest (started @ [(exe # tl stage, sh_next_pid s)]) s2 = ((bad, started'), s')"
        using "2.prems" exe Inr by (simp only: spawn_all.simps option.case sum.case Let_def s1_def s2_def)
      have "\<exists>new. started' = (started @ [(exe # tl stage, sh_next_pid s)]) @ new \<and> sh_procs s' = sh_procs s2 @ map snd new \<and>
          (\<forall>p \<in> snd ` set new. sh_next_pid s2 \<le> p) \<and> sh_next_pid s2 \<le> sh_next_pid s' \<and>
          sh_cwd s' = sh_cwd s2 \<and> sh_depth s' = sh_depth s2 \<and> sh_output s' = sh_output s2 \<and> tm_fs s' = tm_fs s2"
        using "2.IH" [OF exe Inr refl s1_def s2_def run] .
      then obtain new where n: "started' = (started @ [(exe # tl stage, sh_next_pid s)]) @ new"
        "sh_procs s' = sh_procs s2 @ map snd new" "\<forall>p \<in> snd ` set new. sh_next_pid s2 \<le> p" "sh_next_pid s2 \<le> sh_next_pid s'"
        "sh_cwd s' = sh_cwd s2" "sh_depth s' = sh_depth s2" "sh_output s' = sh_output s2" "tm_fs s' = tm_fs s2"
        by blast
      have s2: "sh_procs s2 = sh_procs s @ [sh_next_pid s]" "sh_next_pid s2 = Suc (sh_next_pid s)" "sh_cwd s2 = sh_cwd s"
        "sh_depth s2 = sh_depth s" "sh_output s2 = sh_output s" "tm_fs s2 = tm_fs s"
        by (simp_all add: s2_def s1_def)
      show ?thesis using n s2 by (intro exI [of _ "(exe # tl stage, sh_next_pid s) # new"]) auto
    qed
  qed
qed

lemma finish_pipeline_frame:
  "finish_pipeline K env input timeout rd started s = (r, s') \<Longrightarrow>
     sh_cwd s' = sh_cwd s \<and> sh_depth s' = sh_depth s \<and> sh_output s' = sh_output s \<and> sh_procs s' = sh_procs s \<and>
     sh_next_pid s' = sh_next_pid s"
  by (auto simp: finish_pipeline_def Let_def bind_a_def seq_a_def io_a_def
      split: prod.splits pipe_end.splits sum.splits if_splits)

lemma run_pipeline_frame: "keeps_a frame (run_pipeline A K extra timeout argvs rd)"
  unfolding keeps_a_def
proof
  fix s :: sys
  obtain r0 F where o: "open_input rd (tm_fs s) = (r0, F)" by (meson surj_pair)
  show "frame s (snd (run_pipeline A K extra timeout argvs rd s))"
  proof (cases r0)
    case (Inl e)
    with o show ?thesis by (simp add: run_pipeline_def frame_def registry_ok_def)
  next
    case (Inr input)
    define s0 where "s0 = s\<lparr>tm_fs := F\<rparr>"
    define env where "env = child_env A extra s0"
    obtain bad started s1 where sp: "spawn_all A K argvs [] s0 = ((bad, started), s1)" by (metis prod_cases3 surj_pair)
    obtain new where n: "started = new" "sh_procs s1 = sh_procs s0 @ map snd new"
      "\<forall>p \<in> snd ` set new. sh_next_pid s0 \<le> p" "sh_next_pid s0 \<le> sh_next_pid s1"
      "sh_cwd s1 = sh_cwd s0" "sh_depth s1 = sh_depth s0" "sh_output s1 = sh_output s0"
      using spawn_all_frame [OF sp] by auto
    obtain r s2 where fin: "(case bad of
          None \<Rightarrow> finish_pipeline K env input timeout rd started s1
        | Some f \<Rightarrow> ((case f of Inl r \<Rightarrow> Ok r | Inr e \<Rightarrow> Err e),
             s1\<lparr>tm_fs := ch_orphans K (map fst started) env (sh_cwd s1) (tm_fs s1)\<rparr>)) = (r, s2)"
      by (meson surj_pair)
    have s2: "sh_cwd s2 = sh_cwd s1" "sh_depth s2 = sh_depth s1" "sh_output s2 = sh_output s1"
      "sh_procs s2 = sh_procs s1" "sh_next_pid s2 = sh_next_pid s1"
      using fin by (auto split: option.splits dest: finish_pipeline_frame)
    have keep: "filter (\<lambda>p. p \<notin> snd ` set started) (sh_procs s2) = sh_procs s" if "registry_ok s"
    proof -
      have "filter (\<lambda>p. p \<notin> snd ` set new) (sh_procs s) = sh_procs s"
        using that n(3) by (intro filter_True) (fastforce simp: registry_ok_def s0_def)
      moreover have "filter (\<lambda>p. p \<notin> snd ` set new) (map snd new) = []" by (auto simp: filter_empty_conv)
      ultimately show ?thesis using n s2 by (simp add: s0_def)
    qed
    have "run_pipeline A K extra timeout argvs rd s = (r, s2\<lparr>sh_procs := filter (\<lambda>p. p \<notin> snd ` set started) (sh_procs s2)\<rparr>)"
      by (simp only: run_pipeline_def o Inr prod.case sum.case Let_def s0_def [symmetric] env_def [symmetric] sp fin)
    with keep s2 n show ?thesis by (simp add: frame_def registry_ok_def s0_def)
  qed
qed

lemma exec_subprocess_frame: "keeps_a frame (exec_subprocess A K line timeout extra)"
  unfolding keeps_a_def
proof
  fix s :: sys
  define s1 where "s1 = s\<lparr>sh_depth := sh_depth s + 1\<rparr>"
  obtain r s2 where x: "(case parse_pipeline (\<lambda>v. shell_path (here A s1) (sh_cwd s1) v (tm_fs s1)) line of
      Err e \<Rightarrow> (Err e, s1)
    | Ok (Inl bad) \<Rightarrow> (Ok (mk_result '''' bad 2 False), s1)
    | Ok (Inr (argvs, rd)) \<Rightarrow> run_pipeline A K extra timeout argvs rd s1) = (r, s2)"
    by (meson surj_pair)
  have "frame s1 s2"
    using x by (auto split: sum.splits prod.splits dest: keeps_aD [OF run_pipeline_frame])
  moreover have "exec_subprocess A K line timeout extra s = (r, s2\<lparr>sh_depth := sh_depth s2 - 1\<rparr>)"
    using x by (simp only: exec_subprocess_def s1_def [symmetric] Let_def prod.case)
  ultimately show "frame s (snd (exec_subprocess A K line timeout extra s))"
    by (simp add: s1_def frame_def registry_ok_def)
qed

lemma exec_linux_frame: "keeps_a frame (exec_linux A K command args timeout)"
proof -
  have ex: "keeps_a frame (case e of RuntimeError t \<Rightarrow> m t | _ \<Rightarrow> raise_a e)"
    if "\<And>t. keeps_a frame (m t)" for m and e :: exn
    using that by (cases e) (auto intro: act_intros)
  have "keeps_a same_more (proot_env_a A)"
    by (auto simp: proot_env_a_def intro!: act_intros split: prod.split)
  then have "keeps_a frame (proot_env_a A)" by (rule frame_keeps)
  then show ?thesis
    unfolding exec_linux_def
    by (intro fr.act_bind fr.act_if frame_io fr.act_pure fr.act_try)
      (auto intro!: fr.act_bind fr.act_pure fr.act_try frame_io ex exec_subprocess_frame split: sum.split)
qed

text \<open>Only \<open>cd\<close> moves, and only into the home directory.\<close>

definition inside_home :: "app \<Rightarrow> fsys \<Rightarrow> path \<Rightarrow> bool" where
  "inside_home A F d \<longleftrightarrow>
     (\<exists>home. resolve_path F (pc_home (ap_proc A)) = Ok home \<and> relative_to d home \<noteq> None \<and> is_dir F d)"

lemma cmd_cd_inside: "cmd_cd (here A s) cwd args F = Ok d \<Longrightarrow> inside_home A F d"
  by (auto simp: cmd_cd_def inside_home_def here_def split: if_splits sum.splits)

lemma run_builtin_cwd:
  "run_builtin P cwd command args F = (Ok (out, cwd'), F') \<Longrightarrow>
     cwd' = cwd \<or> command = ''cd'' \<and> cmd_cd P cwd args F = Ok cwd'"
  by (auto simp: run_builtin_def lift_def bind_io_def split: if_splits prod.splits sum.splits)

definition moves_home :: "app \<Rightarrow> sys \<Rightarrow> sys \<Rightarrow> bool" where
  "moves_home A s s' \<longleftrightarrow> frame s (s'\<lparr>sh_cwd := sh_cwd s\<rparr>) \<and> (sh_cwd s' = sh_cwd s \<or> inside_home A (tm_fs s) (sh_cwd s'))"

lemma frame_moves: "frame s s' \<Longrightarrow> moves_home A s s'"
  by (simp add: moves_home_def frame_def)

lemma builtin_moves: "moves_home A s (snd (builtin_act A command args s))"
proof -
  obtain r F where x: "run_builtin (here A s) (sh_cwd s) command args (tm_fs s) = (r, F)" by (meson surj_pair)
  show ?thesis
  proof (cases r)
    case (Inl e)
    with x show ?thesis by (simp add: builtin_act_def bind_a_def io_a_def moves_home_def frame_def registry_ok_def)
  next
    case (Inr y)
    obtain out cwd' where y: "y = (out, cwd')" by (cases y)
    have "cwd' = sh_cwd s \<or> inside_home A (tm_fs s) cwd'"
      using run_builtin_cwd [of "here A s" "sh_cwd s" command args "tm_fs s" out cwd' F] x Inr y cmd_cd_inside by auto
    then show ?thesis using x Inr y
      by (simp add: builtin_act_def bind_a_def seq_a_def io_a_def moves_home_def frame_def registry_ok_def)
  qed
qed

lemma moves_keeps: "keeps_a frame m \<Longrightarrow> moves_home A s (snd (m s))"
  by (simp add: keeps_a_def frame_moves)

lemma dispatch_moves:
  assumes "well_behaved Y" "dispatch_command A Y K command args timeout = Some m"
  shows "moves_home A s (snd (m s))"
proof -
  have "m = builtin_act A command args \<or> m = exec_linux A K command args timeout \<or>
      m = exec_zmux_command A command args \<or> m = exec_python_command A Y args"
    using assms(2) unfolding dispatch_command_def by (simp split: if_split_asm)
  then show ?thesis
    using builtin_moves moves_keeps [OF exec_linux_frame] moves_keeps [OF frame_zmux_command]
      moves_keeps [OF frame_python_command [OF assms(1)]] by metis
qed

lemma moves_refl [simp]: "moves_home A s s"
  by (rule frame_moves) simp

lemma shell_errors_snd: "snd (shell_errors c m s) = snd (m s)"
  by (auto simp: shell_errors_def try_a_def split: prod.split sum.split)

lemma moves_subprocess: "moves_home A s (snd (exec_subprocess A K line timeout extra s))"
  using exec_subprocess_frame by (auto simp: keeps_a_def intro: frame_moves)

lemma moves_python: "well_behaved Y \<Longrightarrow> moves_home A s (snd (total_act (exec_python A Y line origin) s))"
  using frame_python by (auto simp: total_act_def split: prod.split intro: frame_moves) (metis snd_conv frame_moves)

lemma run_line_moves: "well_behaved Y \<Longrightarrow> moves_home A s (snd (run_line A Y K line parts timeout extra s))"
  by (auto simp: run_line_def Let_def moves_subprocess moves_python dispatch_moves split: option.split)

lemma execute_moves: "well_behaved Y \<Longrightarrow> moves_home A s (snd (execute A Y K line timeout force extra s))"
  by (auto simp: execute_def Let_def moves_python shell_errors_snd run_line_moves split: option.split sum.split)

lemma execute_command_moves: "well_behaved Y \<Longrightarrow> moves_home A s (snd (execute_command A Y K line timeout extra s))"
  by (auto simp: execute_command_def Let_def moves_subprocess shell_errors_snd dispatch_moves split: option.split sum.split)

section \<open>Properties\<close>


lemma split_empty: "shlex_split '''' = Ok []"
  by (simp add: shlex_split_def emit_tok_def)

lemma find_hit: "x \<in> fst ` set us \<Longrightarrow> Q x \<Longrightarrow> find (\<lambda>(x, d). Q x) us \<noteq> None"
  by (induction us) auto

text \<open>
  A line that holds an operator the interpreter does not implement (conditional, sequencing,
  background, substitution) is refused with exit code 2 before anything happens: in command mode
  always, in the mixed mode when the first word names a command.  The state is untouched.
\<close>

theorem operators_refused:
  assumes "shlex_split (str_strip line) = Ok parts" "parts \<noteq> []"
    and "x \<in> fst ` set UNSUPPORTED_OPERATORS" "operator_hit parts x"
  shows "\<exists>r. rs_code r = 2 \<and> \<not> rs_ok r \<and> execute_command A Y K line timeout extra s = (Ok r, s) \<and>
    (hd parts \<in> set command_names \<longrightarrow> execute A Y K line timeout False extra s = (Ok r, s))"
proof -
  have ne: "str_strip line \<noteq> ''''" using assms(1,2) split_empty by auto
  obtain y where "find (\<lambda>(x, d). operator_hit parts x) UNSUPPORTED_OPERATORS = Some y"
    using find_hit [where Q = "operator_hit parts", OF assms(3,4)] by auto
  then obtain r where r: "unsupported_operator parts = Some r" "rs_code r = 2" "\<not> rs_ok r"
    by (cases y) (auto simp: unsupported_operator_def mk_result_def)
  have "execute_command A Y K line timeout extra s = (Ok r, s)"
    using ne assms(1,2) r(1) by (simp add: execute_command_def Let_def)
  moreover have "execute A Y K line timeout False extra s = (Ok r, s)" if "hd parts \<in> set command_names"
    using ne assms(1,2) r(1) that by (simp add: execute_def Let_def guard_operators_def)
  ultimately show ?thesis using r by blast
qed

text \<open>
  In command mode nothing is ever run as Python source unless the line asks for it by the
  commands \<open>python\<close> and \<open>python3\<close>: whatever the interpreter of Python would do, the outcome is the same.
\<close>

theorem command_mode_runs_no_python:
  assumes "shlex_split (str_strip line) = Ok parts" "hd parts \<notin> {''python'', ''python3''}"
  shows "execute_command A Y K line timeout extra s = execute_command A Y' K line timeout extra s"
proof -
  have "dispatch_command A Y K (hd parts) (tl parts) timeout = dispatch_command A Y' K (hd parts) (tl parts) timeout"
    using assms(2) by (simp add: dispatch_command_def)
  with assms(1) show ?thesis by (simp add: execute_command_def Let_def split: option.split)
qed

definition contained :: "exn + 'a \<Rightarrow> bool" where
  "contained r \<longleftrightarrow> (case r of Err e \<Rightarrow> \<not> is_oserror e \<and> \<not> is_valueerror e | Ok _ \<Rightarrow> True)"

lemma contained_simps [simp]:
  "contained (Ok x)" "contained (fst (shell_errors c m t))" "contained (fst (total_act f t))"
  by (auto simp: contained_def shell_errors_def try_a_def total_act_def split: prod.split sum.split)

text \<open>
  No error of the operating system and no \<open>ValueError\<close> leaves the mixed mode: it becomes a
  result.  In command mode the same holds for lines without a redirection or bar.
\<close>

theorem shell_errors_contained:
  "contained (fst (execute A Y K line timeout force extra s)) \<and>
   (needs_pipeline (str_strip line) \<or> contained (fst (execute_command A Y K line timeout extra s)))"
proof
  show "contained (fst (execute A Y K line timeout force extra s))"
    by (simp add: execute_def Let_def split: option.split sum.split)
  show "needs_pipeline (str_strip line) \<or> contained (fst (execute_command A Y K line timeout extra s))"
    by (auto simp: execute_command_def Let_def split: option.split sum.split)
qed

section \<open>Python code\<close>

lemma getvalue_step: "w_getvalue (w_step x W) = w_getvalue W @ (case x of Write t \<Rightarrow> t | Flush \<Rightarrow> [])"
  by (cases x) (auto simp: w_getvalue_def w_write_def w_flush_def w_emit_def Let_def split: prod.split)

definition ops_of :: "stream \<Rightarrow> (stream \<times> w_op) list \<Rightarrow> w_op list" where
  "ops_of k ops = map snd (filter (\<lambda>(j, x). j = k) ops)"

lemma ops_of_simps [simp]:
  "ops_of k [] = []" "ops_of k ((j, x) # ops) = (if j = k then [x] else []) @ ops_of k ops"
  "ops_of k (ops @ ops') = ops_of k ops @ ops_of k ops'"
  by (simp_all add: ops_of_def)

lemma written_simps [simp]:
  "written [] = []" "written (x # xs) = (case x of Write t \<Rightarrow> t | Flush \<Rightarrow> []) @ written xs"
  "written (xs @ ys) = written xs @ written ys"
  by (simp_all add: written_def)

lemma fold_apply_values:
  "fold w_apply ops (W, V, sent) = (W', V', sent') \<Longrightarrow>
     w_getvalue W' = w_getvalue W @ written (ops_of Out ops) \<and> w_getvalue V' = w_getvalue V @ written (ops_of Error ops)"
proof (induction ops arbitrary: W V sent)
  case Nil
  then show ?case by simp
next
  case (Cons y ops)
  obtain k x where y: "y = (k, x)" by (cases y)
  show ?case
  proof (cases k)
    case Progress
    with Cons y show ?thesis by (cases x) auto
  qed (use Cons y in \<open>auto simp: Let_def getvalue_step\<close>)
qed

lemma drain_values:
  assumes "drain_result ops code s = (r, s')"
  shows "rs_stdout r = enc (written (ops_of Out ops)) \<and> rs_stderr r = enc (written (ops_of Error ops)) \<and> rs_code r = code"
proof -
  obtain W V sent where f: "fold w_apply (ops @ [(Out, Flush), (Error, Flush)]) no_writers = (W, V, sent)"
    by (metis prod_cases3)
  have v0: "w_getvalue new_writer = []" by (simp add: new_writer_def w_getvalue_def)
  have "w_getvalue W = written (ops_of Out ops) \<and> w_getvalue V = written (ops_of Error ops)"
    using fold_apply_values [OF f [unfolded no_writers_def]] v0 by simp
  moreover have "r = mk_result (enc (w_getvalue W)) (enc (w_getvalue V)) code (sh_output s)"
    using assms f by (simp add: drain_result_def)
  ultimately show ?thesis by (simp add: mk_result_def)
qed


section \<open>The words the guest receives\<close>

text \<open>A token is made of the characters of the line, and backslashes.\<close>

lemma emit_tok_Ok:
  "emit_tok tok q r = Ok ws \<Longrightarrow> \<exists>vs. r = Ok vs \<and> (ws = vs \<or> ws = tok # vs)"
  by (cases r) (auto simp: emit_tok_def split: if_splits)

lemma set_skip_comment: "set (skip_comment s) \<subseteq> set s"
  by (auto simp: skip_comment_def dest!: in_set_dropD set_dropWhileD)

lemma lex_chars:
  "shlex_lex P cm st tok q line = Ok ws \<Longrightarrow> w \<in> set ws \<Longrightarrow> set w \<subseteq> set tok \<union> set line \<union> {BSL}"
proof (induction P cm st tok q line arbitrary: ws rule: shlex_lex.induct)
  case (1 P cm st tok q)
  then show ?case by (auto split: lex_state.splits dest!: emit_tok_Ok)
next
  case (2 P cm tok q c cs)
  show ?case
    using 2 set_skip_comment [of cs]
    by (simp split: if_splits) (fastforce dest!: emit_tok_Ok)+
next
  case (3 P cm d tok q c cs)
  then show ?case by (simp split: if_splits) fastforce+
next
  case (4 P cm d tok q c cs)
  then show ?case by (simp split: if_splits option.splits) fastforce+
next
  case (5 P cm tok q c cs)
  show ?case
    using 5 set_skip_comment [of cs]
    by (simp split: if_splits) (fastforce dest!: emit_tok_Ok)+
next
  case (6 P cm tok q c cs)
  show ?case
    using 6 set_skip_comment [of cs]
    by (simp split: if_splits) (fastforce dest!: emit_tok_Ok)+
qed

definition bare_operator :: "string \<Rightarrow> bool" where
  "bare_operator w \<longleftrightarrow> w \<in> {''|'', ''<'', ''>'', ''>>''}"

lemma no_operator_words:
  assumes "shlex_split line = Ok ws" "\<not> needs_pipeline line" "w \<in> set ws"
  shows "\<not> bare_operator w"
proof -
  have "set w \<subseteq> set line \<union> {BSL}"
    using lex_chars [OF assms(1) [unfolded shlex_split_def] assms(3)] by simp
  with assms(2) have "CHR ''|'' \<notin> set w" "CHR ''<'' \<notin> set w" "CHR ''>'' \<notin> set w"
    by (auto simp: needs_pipeline_def)
  then show ?thesis by (auto simp: bare_operator_def)
qed

lemma split_stages_plain: "''|'' \<notin> set ts \<Longrightarrow> split_stages cur ts = [cur @ ts]"
  by (induction cur ts rule: split_stages.induct) auto

lemma stage_args_plain:
  "(\<And>w. w \<in> set ts \<Longrightarrow> \<not> bare_operator w) \<Longrightarrow> stage_args res first final argv rd ts = Ok (Inr (argv @ ts, rd))"
proof (induction res first final argv rd ts rule: stage_args.induct)
  case (3 res first final argv rd t v ts)
  from "3.prems" have t: "\<not> bare_operator t" by simp
  then have "t \<notin> {''<'', ''>'', ''>>''}" by (auto simp: bare_operator_def)
  moreover have "stage_args res first final (argv @ [t]) rd (v # ts) = Ok (Inr ((argv @ [t]) @ v # ts, rd))"
    using "3.prems" calculation by (intro "3.IH"(3)) auto
  ultimately show ?case by simp
qed (auto simp: bare_operator_def)

lemma parse_joined:
  assumes "argv \<noteq> []" "\<And>w. w \<in> set argv \<Longrightarrow> \<not> bare_operator w"
  shows "parse_pipeline res (shlex_join argv) = Ok (Inr ([argv], no_redir))"
proof -
  have "''|'' \<notin> set argv" using assms(2) by (auto simp: bare_operator_def)
  then have "split_stages [] argv = [argv]" using split_stages_plain by simp
  then show ?thesis using assms(1) stage_args_plain [of argv] assms(2) by (simp add: parse_pipeline_def)
qed

lemma proot_argv_tail:
  "build_proot_argv X guest cwd binds F = (Ok argv, F') \<Longrightarrow> \<exists>pre. argv = pre @ guest \<and> pre \<noteq> []"
  by (auto simp: build_proot_argv_def bind_io_def seq_io_def split: option.splits prod.splits sum.splits)


text \<open>
  In a line typed by the user the quotes do not protect an operator: the pipeline lexer drops them,
  and a quoted redirection sign redirects.  Here the searched file becomes the target.
\<close>

lemma quoted_operator_redirects:
  assumes "res ''n'' = Ok target"
  shows "parse_pipeline res (''g '' @ [DQ] @ ''>'' @ [DQ] @ '' n'')
    = Ok (Inr ([[''g'']], \<lparr>rd_in = None, rd_out = Some target, rd_append = False\<rparr>))"
  using assms
  by (simp add: parse_pipeline_def shlex_pipeline_def shlex_space_def emit_tok_def no_redir_def)

section \<open>A concrete interpreter\<close>

definition demo_proc :: proc where
  "demo_proc =
     \<lparr>pc_env = [(''PATH'', ''/b'')], pc_cwd = Path ''/'' [], pc_app = Path ''/'' [''d''], pc_home = Path ''/'' [''h''],
      pc_passwd = (\<lambda>u. None), pc_platform = ''Linux'', pc_mtime = (\<lambda>F p. 0), pc_dir_size = 4096\<rparr>"

definition demo_platform :: platform_info where
  "demo_platform =
     \<lparr>pf_version = ''3.11.5'', pf_implementation = ''CPython'', pf_machine = ''aarch64'', pf_release = ''5'', pf_soabi = ''s'',
      pf_ext_suffix = ''.so'', pf_pointer_bits = 64, pf_home = Path ''/'' [''h''], pf_disk_free = Ok 10\<rparr>"

definition demo_host :: app where
  "demo_host =
     \<lparr>ap_proc = demo_proc, ap_linux = demo_linux, ap_zpip = pkg_zpip, ap_world = pkg_world, ap_depth = 9,
      ap_platform = demo_platform, ap_java = \<lparr>ja_autoclass = None, ja_activity = True, ja_request = None\<rparr>,
      ap_source = Path ''/'' [''a''], ap_package_root = Path ''/'' [''a''], ap_untar = (\<lambda>bs. Ok []), ap_pace = (\<lambda>n. None),
      ap_fetch = demo_fetch, ap_run = (\<lambda>argv env. ret (0, '''', '''')), ap_ptmx = None, ap_probes = [],
      ap_executable = '''', ap_call = (\<lambda>argv. ret 0), ap_call_shell = (\<lambda>c env. ret 0)\<rparr>"

definition demo_python :: python where
  "demo_python =
     \<lparr>py_compile = (\<lambda>ev src. if ev then Inr 0 else Inl (SyntaxErr ''invalid syntax'')),
      py_run = (\<lambda>c s. (Inr (Some ''3''), [(Out, Write (u ''hi''))], s)),
      py_traceback = (\<lambda>n e. ''Traceback''), py_version = ''3.11'', py_builtins = [''print'']\<rparr>"

definition demo_children :: children where
  "demo_children =
     \<lparr>ch_spawn = (\<lambda>argv cwd F. Ok True), ch_wait = (\<lambda>argvs env cwd input timeout F. (Finished [0] [(Out, ''x'')], F)),
      ch_orphans = (\<lambda>argvs env cwd F. F), ch_float = (\<lambda>q. ''1.0'')\<rparr>"

definition demo_home_fs :: fsys where
  "demo_home_fs = empty_fs\<lparr>fs_table := [([''h''], Dir 493), ([''h'', ''p''], Dir 493), ([''h'', ''f''], Reg (Text ''t'') 420),
     ([''h'', ''l''], Lnk ''f'')]\<rparr>"

definition demo_sys :: sys where
  "demo_sys =
     \<lparr>tm_fs = demo_home_fs, tm_prints = [], tm_bridge = fresh_bridge, tm_seccomp = None, tm_sink = False,
      sh_cwd = Path ''/'' [''h''], sh_globals = (\<lambda>k. None), sh_width = 80, sh_provider = Some 5, sh_output = False,
      sh_sent = [], sh_interrupt = False, sh_epoch = 0, sh_procs = [], sh_depth = 0, sh_next_pid = 1, sh_signals = [],
      ps_cwd = Path ''/'' [], ps_stdin = 0, ps_argv = []\<rparr>"

lemma demo_well_behaved: "well_behaved demo_python"
  by (simp add: well_behaved_def demo_python_def)

lemma demo_registry: "registry_ok demo_sys"
  by (simp add: registry_ok_def demo_sys_def)


lemma lex_demo:
  "shlex_split ''ls ;'' = Ok [''ls'', '';'']" "shlex_split ''ls'' = Ok [''ls'']"
  "shlex_split ''git add'' = Ok [''git'', ''add'']"
  by (simp_all add: shlex_split_def shlex_space_def emit_tok_def)

lemma strip_demo: "str_strip ''ls ;'' = ''ls ;''" "str_strip ''ls'' = ''ls''"
  by (simp_all add: str_strip_def strip_by_def char_space_def py_space_def)

theorem operators_refused_witness:
  "\<exists>r. rs_code r = 2 \<and> execute_command demo_host demo_python demo_children ''ls ;'' None [] demo_sys = (Ok r, demo_sys) \<and>
     execute demo_host demo_python demo_children ''ls ;'' None False [] demo_sys = (Ok r, demo_sys)"
proof -
  have h: "shlex_split (str_strip ''ls ;'') = Ok [''ls'', '';'']" by (simp add: strip_demo lex_demo)
  have o: "'';'' \<in> fst ` set UNSUPPORTED_OPERATORS" "operator_hit [''ls'', '';''] '';''"
    by (simp_all add: UNSUPPORTED_OPERATORS_def operator_hit_def)
  have c: "hd [''ls'', '';''] \<in> set command_names" by (simp add: command_names_def BUILTINS_def)
  show ?thesis using operators_refused [OF h _ o, of demo_host demo_python demo_children None "[]" demo_sys] c by auto
qed

theorem command_mode_runs_no_python_witness:
  "execute_command demo_host demo_python demo_children ''ls'' None [] demo_sys =
   execute_command demo_host (demo_python\<lparr>py_version := ''4''\<rparr>) demo_children ''ls'' None [] demo_sys"
  by (rule command_mode_runs_no_python [where parts = "[''ls'']"]) (simp_all add: strip_demo lex_demo)


text \<open>A guest with \<open>git\<close>, below a host that has the \<open>proot\<close> library.\<close>

definition git_fs :: fsys where
  "git_fs = empty_fs\<lparr>fs_table :=
     [([''n''], Dir 493), ([''n'', ''libproot.so''], Reg (Text ''x'') 493), ([''d''], Dir 493), ([''d'', ''home''], Dir 493),
      ([''d'', ''linux''], Dir 493), ([''d'', ''linux'', ''rootfs''], Dir 493), ([''d'', ''linux'', ''rootfs'', ''etc''], Dir 493),
      ([''d'', ''linux'', ''rootfs'', ''etc'', ''resolv.conf''], Dir 493), ([''d'', ''linux'', ''rootfs'', ''usr''], Dir 493),
      ([''d'', ''linux'', ''rootfs'', ''usr'', ''bin''], Dir 493),
      ([''d'', ''linux'', ''rootfs'', ''usr'', ''bin'', ''git''], Reg (Text ''x'') 493)]\<rparr>"

definition git_vector :: "string list" where
  "git_vector =
     [''/n/libproot.so'', ''-0'', ''-r'', ''/d/linux/rootfs'', ''-b'', ''/dev'', ''-b'', ''/proc'', ''-b'', ''/sys'', ''-b'',
      ''/d/home:/root'', ''-w'', ''/root'', ''/usr/bin/git'', ''a b'']"

lemma git_vector_built:
  "fst (build_proot_argv demo_linux [''/usr/bin/git'', ''a b''] (Path ''/'' [''d'', ''home'']) [] git_fs) = Ok git_vector"
  by code_simp

lemma git_guest: "guest_argv demo_host git_fs ''git'' [''a b''] = Inr [''/usr/bin/git'', ''a b'']"
  by code_simp


end
