(* ===== verification/RestProps.thy ===== *)
theory RestProps
  imports Rest ShellProps
begin

text \<open>
  Properties of the REST server: what a request without the token can do, what the session and the
  interpreter keep over any sequence of requests, the shape of an answer of \<open>/api/exec\<close>, and the
  ports the servers end up on.
\<close>

section \<open>Coherent results\<close>

text \<open>A coherent result: \<open>ok\<close> says that the exit code is zero, and nothing is left running.\<close>

definition coherent :: "result \<Rightarrow> bool" where
  "coherent r \<longleftrightarrow> rs_ok r = (rs_code r = 0) \<and> rs_status r = ''idle''"

lemma coherent_mk [simp]: "coherent (mk_result out err code streamed)"
  by (simp add: coherent_def mk_result_def)

lemma coherent_drain: "drain_result ops code s = (r, s') \<Longrightarrow> coherent r"
  by (auto simp: drain_result_def split: prod.splits)

lemma coherent_drained [simp]: "coherent (fst (drain_result ops code s))"
  by (metis coherent_drain prod.collapse)

lemma coherent_exec_python: "coherent (fst (exec_python A Y source origin s))"
  by (auto simp: exec_python_def Let_def split: prod.split sum.split)

lemma yields_total: "(\<And>s. P (fst (f s))) \<Longrightarrow> yields P (total_act f)"
  by (auto simp: yields_def total_act_def split: prod.splits) (metis fst_conv)

lemma coherent_python [yield_intros]: "yields coherent (total_act (exec_python A Y source origin))"
  by (rule yields_total) (rule coherent_exec_python)

lemma coherent_script [yield_intros]: "yields coherent (total_act (run_script A Y script args source))"
proof (rule yields_total)
  fix s
  show "coherent (fst (run_script A Y script args source s))"
    by (auto simp: run_script_def Let_def split: prod.split) (metis coherent_exec_python fst_conv)
qed

lemma yields_result_or:
  "\<forall>r. x = Inl r \<longrightarrow> coherent r \<Longrightarrow> (\<And>y. yields coherent (m y)) \<Longrightarrow>
     yields coherent (case x of Inl r \<Rightarrow> ret_a r | Inr y \<Rightarrow> m y)"
  by (cases x) (auto intro: yield_intros)

lemma coherent_python_command: "yields coherent (exec_python_command A Y args)"
proof -
  have "yields coherent (bind_a (try_a (bind_a (io_a (read_text_mode script)) (\<lambda>t. ret_a (Inr t)))
          (\<lambda>e. if is_oserror e then ret_a (Inl (fails (''python: '' @ exn_text e @ LF1) 1)) else raise_a e)) (\<lambda>x.
        case x of Inl bad \<Rightarrow> ret_a bad | Inr source \<Rightarrow> total_act (run_script A Y script (tl args) source)))" for script
    by (rule yields_through [where Q = "\<lambda>c. \<forall>r. c = Inl r \<longrightarrow> coherent r"])
      (auto intro!: yield_intros yields_result_or)
  then show ?thesis
    by (auto simp: exec_python_command_def intro!: yield_intros split: sum.split)
qed

lemma coherent_zmux: "yields coherent (exec_zmux_command A command args)"
  by (auto simp: yields_def exec_zmux_command_def Let_def dest: coherent_drain split: prod.splits sum.splits)

lemma coherent_subprocess [yield_intros]: "yields coherent (exec_subprocess A K line timeout extra)"
proof -
  have s: "spawn_all A K argvs started s = ((Some (Inl r), started'), s') \<Longrightarrow> coherent r" for argvs started s r started' s'
    by (induction A K argvs started s rule: spawn_all.induct) (auto simp: Let_def split: option.splits sum.splits)
  have f: "yields coherent (finish_pipeline K env input timeout rd started)" for env input rd started
    by (auto simp: yields_def finish_pipeline_def Let_def bind_a_def seq_a_def split: prod.splits pipe_end.splits sum.splits)
  have p: "yields coherent (run_pipeline A K extra timeout argvs rd)" for argvs rd
    by (auto simp: yields_def run_pipeline_def Let_def dest: s yieldsD [OF f] split: prod.splits sum.splits option.splits)
  show ?thesis
    by (auto simp: yields_def exec_subprocess_def Let_def dest: yieldsD [OF p] split: prod.splits sum.splits)
qed

lemma coherent_linux: "yields coherent (exec_linux A K command args timeout)"
proof -
  have ga: "coherent r" if "guest_argv A F command args = Inl r" for F r
    using that by (auto simp: guest_argv_def split: if_splits)
  have ex: "yields (\<lambda>c. \<forall>r. c = Inl r \<longrightarrow> coherent r)
      (case e of RuntimeError t \<Rightarrow> ret_a (Inl (fails (''zmux: '' @ t @ LF1) 1)) | _ \<Rightarrow> raise_a e)" for e :: exn
    by (cases e) (auto intro!: yield_intros)
  have cmdline: "yields (\<lambda>c. \<forall>r. c = Inl r \<longrightarrow> coherent r)
      (try_a (bind_a (get_a sh_cwd) (\<lambda>cwd. bind_a (io_a (build_command_line (ap_linux A) argv cwd [])) (\<lambda>c. ret_a (Inr c))))
        (\<lambda>e. case e of RuntimeError t \<Rightarrow> ret_a (Inl (fails (''zmux: '' @ t @ LF1) 1)) | _ \<Rightarrow> raise_a e))" for argv
    by (intro yields_try yields_bind ex yields_pure) simp
  have ask: "yields (\<lambda>c. \<forall>r. c = Inl r \<longrightarrow> coherent r) (get_a (\<lambda>s. guest_argv A (tm_fs s) command args))"
    by (rule yields_get) (auto dest: ga)
  have run: "yields coherent (bind_a (proot_env_a A) (\<lambda>extra. exec_subprocess A K cmdline timeout extra))" for cmdline
    by (intro yield_intros)
  show ?thesis
    unfolding exec_linux_def
    by (intro yields_bind yields_if yields_pure coherent_mk yields_through [OF ask] yields_result_or yields_through [OF cmdline] run)
qed


lemma coherent_dispatch: "dispatch_command A Y K command args timeout = Some m \<Longrightarrow> yields coherent m"
proof -
  assume m: "dispatch_command A Y K command args timeout = Some m"
  have b: "yields coherent (builtin_act A command args)"
    by (auto simp: builtin_act_def intro!: yield_intros split: prod.split)
  have "m = builtin_act A command args \<or> m = exec_linux A K command args timeout \<or>
      m = exec_zmux_command A command args \<or> m = exec_python_command A Y args"
    using m unfolding dispatch_command_def by (simp split: if_split_asm)
  then show ?thesis using b coherent_linux coherent_zmux coherent_python_command by metis
qed

lemma coherent_shell_errors: "yields coherent m \<Longrightarrow> yields coherent (shell_errors c m)"
  unfolding shell_errors_def by (auto intro!: yield_intros)

lemma coherent_run_line: "yields coherent (run_line A Y K line parts timeout extra)"
  unfolding yields_def
  by (auto simp: run_line_def Let_def command_not_found_def dest: yieldsD [OF coherent_subprocess] yieldsD [OF coherent_python]
      yieldsD [OF coherent_dispatch] split: option.splits if_splits)

lemma coherent_unsupported: "unsupported_operator parts = Some r \<Longrightarrow> coherent r"
  "guard_operators A parts s = Some r \<Longrightarrow> coherent r"
  by (auto simp: guard_operators_def Let_def unsupported_operator_def true_guard_def split: if_splits)

lemma coherent_execute: "yields coherent (execute A Y K line timeout force extra)"
  unfolding yields_def
  by (auto simp: execute_def Let_def parse_failure_def dest: yieldsD [OF coherent_python]
      yieldsD [OF coherent_shell_errors [OF coherent_run_line]] coherent_unsupported split: option.splits sum.splits if_splits)

lemma coherent_execute_command: "yields coherent (execute_command A Y K line timeout extra)"
proof -
  have f: "yields coherent (\<lambda>s. if is_external_command (here A s) (tm_fs s) command then exec_subprocess A K line timeout extra s
         else if command \<in> set KNOWN_TUI_COMMANDS then (Ok (fails (no_tty_text command) 1), s)
         else (Ok (command_not_found line), s))" for command line
    by (auto simp: yields_def command_not_found_def dest: yieldsD [OF coherent_subprocess] split: if_splits)
  show ?thesis
    unfolding yields_def
    by (auto simp: execute_command_def Let_def parse_failure_def dest: yieldsD [OF coherent_shell_errors [OF f]]
        yieldsD [OF coherent_shell_errors [OF coherent_dispatch]] yieldsD [OF coherent_subprocess] coherent_unsupported
        split: option.splits sum.splits if_splits)
qed


section \<open>What a request does to the session\<close>

text \<open>\<open>get_session\<close> finds the session or opens it, with the interpreter in the resolved home.\<close>

definition opened :: "server \<Rightarrow> rest \<Rightarrow> rest \<Rightarrow> bool" where
  "opened S R R1 \<longleftrightarrow> R1 = R \<or>
     rt_session R = None \<and>
     (\<exists>cwd. resolve_path (tm_fs (rt_sys R)) (home_of S) = Ok cwd \<and>
        R1 = R\<lparr>rt_session := Some (new_session (home_of S)), rt_sys := init_shell cwd (rt_sys R)\<rparr>)"

definition no_process :: "rest \<Rightarrow> bool" where
  "no_process R \<longleftrightarrow> (\<forall>t. rt_session R = Some t \<longrightarrow> ss_process t = None)"

definition acted :: "server \<Rightarrow> rest \<Rightarrow> rest \<Rightarrow> bool" where
  "acted S R R' \<longleftrightarrow>
     moves_home (sv_app S) (rt_sys R) (rt_sys R') \<and> rt_ws_port R' = rt_ws_port R \<and>
     (case rt_session R of None \<Rightarrow> rt_session R' = None
      | Some t \<Rightarrow> \<exists>t'. rt_session R' = Some t' \<and> ss_process t' = ss_process t \<and> ss_cwd t' \<in> {ss_cwd t, sh_cwd (rt_sys R')})"

definition served :: "server \<Rightarrow> rest \<Rightarrow> rest \<Rightarrow> bool" where
  "served S R R' \<longleftrightarrow> (\<exists>R1. opened S R R1 \<and> acted S R1 R')"

lemma acted_refl [simp]: "acted S R R"
  by (simp add: acted_def split: option.split)

lemma acted_sys:
  "moves_home (sv_app S) (rt_sys R) s' \<Longrightarrow> acted S R (R\<lparr>rt_sys := s'\<rparr>)"
  "rt_session R = Some t \<Longrightarrow> moves_home (sv_app S) (rt_sys R) s' \<Longrightarrow> ss_process t' = ss_process t \<Longrightarrow>
     ss_cwd t' \<in> {ss_cwd t, sh_cwd s'} \<Longrightarrow> acted S R (R\<lparr>rt_sys := s', rt_session := Some t'\<rparr>)"
  by (auto simp: acted_def split: option.split)

lemma opened_refl [simp]: "opened S R R"
  by (simp add: opened_def)

lemma get_session_opened: "get_session S R = (r, R1) \<Longrightarrow> opened S R R1 \<and> (\<forall>t. r = Ok t \<longrightarrow> rt_session R1 = Some t)"
  by (auto simp: get_session_def opened_def Let_def split: option.splits sum.splits)

lemma opened_no_process: "opened S R R1 \<Longrightarrow> no_process R \<Longrightarrow> no_process R1"
  by (auto simp: opened_def no_process_def new_session_def)

lemma opened_fields: "opened S R R1 \<Longrightarrow> rt_ws_port R1 = rt_ws_port R \<and> tm_fs (rt_sys R1) = tm_fs (rt_sys R)"
  by (auto simp: opened_def init_shell_def)

lemma opened_served: "opened S R R1 \<Longrightarrow> served S R R1"
  by (auto simp: served_def)

lemma not_busy: "ss_process t = None \<Longrightarrow> \<not> busy S t"
  by (simp add: busy_def)

text \<open>Once there is a session the prompt only reads.\<close>

lemma prompt_reads: "rt_session R = Some t \<Longrightarrow> session_prompt S R = (r, R') \<Longrightarrow> R' = R"
  by (auto simp: session_prompt_def bind_a_def get_session_def split: prod.splits sum.splits)

lemma with_prompt_reads:
  "rt_session R = Some t \<Longrightarrow> with_prompt S d R = (r, R') \<Longrightarrow>
     R' = R \<and> (\<forall>d'. r = Ok d' \<longrightarrow> (\<exists>p. d' = dict_put ''prompt'' p d))"
  by (auto simp: with_prompt_def bind_a_def dest: prompt_reads split: prod.splits sum.splits)

text \<open>
  An execution in the session: what the interpreter did to its state, and the session's record of it.
\<close>

definition answered :: "dictv \<Rightarrow> bool" where
  "answered d \<longleftrightarrow> (\<exists>code out err. map_of d ''ok'' = Some (PBool (code = 0)) \<and> map_of d ''exit_code'' = Some (PInt code) \<and>
     map_of d ''stdout'' = Some (PStr out) \<and> map_of d ''stderr'' = Some (PStr err))"

lemma map_of_set_default: "map_of (set_default k v d) j = (if j = k \<and> map_of d k = None then Some v else map_of d j)"
  by (auto simp: set_default_def map_of_eq_None_iff)

lemma answered_shell: "coherent r \<Longrightarrow> answered (shell_dict r)"
  by (auto simp: answered_def shell_dict_def coherent_def)

lemma answered_put: "answered d \<Longrightarrow> k \<notin> {''ok'', ''exit_code'', ''stdout'', ''stderr''} \<Longrightarrow> answered (dict_put k v d)"
  by (auto simp: answered_def)

text \<open>
  What the session relies on when it hands a line to the interpreter: with user code that does not
  reach into the interpreter, only \<open>cd\<close> moves, and below the home directory; and results are coherent.
\<close>

locale line_executor =
  fixes run :: "app \<Rightarrow> python \<Rightarrow> children \<Rightarrow> string \<Rightarrow> rat option \<Rightarrow> (sys, result) act"
  assumes moves: "well_behaved Y \<Longrightarrow> moves_home A s (snd (run A Y K line timeout s))"
    and coheres: "yields coherent (run A Y K line timeout)"
begin

lemma through_session:
  assumes "rt_session R = Some t" "ss_process t = None" "well_behaved Y"
    and "through_shell S t (run (sv_app S) Y K line timeout) R = (r, R')"
  shows "acted S R R' \<and> rt_session R' \<noteq> None \<and> (\<forall>d. r = Ok d \<longrightarrow> answered d)"
proof -
  obtain x s' where m: "run (sv_app S) Y K line timeout (rt_sys R) = (x, s')" by (meson surj_pair)
  have mv: "moves_home (sv_app S) (rt_sys R) s'"
    using moves [OF assms(3), of "sv_app S" "rt_sys R" K line timeout] m by simp
  show ?thesis
  proof (cases x)
    case (Inl e)
    with assms m mv show ?thesis
      by (auto simp: through_shell_def not_busy bind_a_def run_shell_def acted_sys)
  next
    case (Inr v)
    have "coherent v" using yieldsD [OF coheres] m Inr by simp
    with assms m mv Inr show ?thesis
      by (auto simp: through_shell_def not_busy bind_a_def seq_a_def run_shell_def put_session_def
          intro!: acted_sys answered_put answered_shell)
  qed
qed

end

text \<open>The three modes of the interpreter.\<close>

interpretation mixed: line_executor "\<lambda>A Y K line timeout. execute A Y K line timeout False []"
  by unfold_locales (simp_all add: execute_moves coherent_execute)

interpretation forced: line_executor "\<lambda>A Y K line timeout. execute A Y K line timeout True []"
  by unfold_locales (simp_all add: execute_moves coherent_execute)

interpretation command: line_executor "\<lambda>A Y K line timeout. execute_command A Y K line timeout []"
  by unfold_locales (simp_all add: execute_command_moves coherent_execute_command)

lemma exec_in_session_served:
  assumes "well_behaved (sv_python S)" "no_process R" "exec_in_session S language command timeout R = (r, R')"
  shows "served S R R' \<and> (\<forall>d. r = Ok d \<longrightarrow> answered d)"
proof -
  obtain g R1 where g: "get_session S R = (g, R1)" by (meson surj_pair)
  note o = get_session_opened [OF g]
  show ?thesis
  proof (cases g)
    case (Inl e)
    with assms(3) g o show ?thesis by (auto simp: exec_in_session_def bind_a_def opened_served)
  next
    case (Inr t)
    have t: "rt_session R1 = Some t" using o Inr by simp
    have np: "ss_process t = None" using opened_no_process [OF conjunct1 [OF o] assms(2)] t by (simp add: no_process_def)
    define m where "m = (if language = ''python'' then session_python S command timeout t
        else if language = ''command'' then session_command S command timeout t else session_execute S command timeout t)"
    obtain x R2 where x: "m R1 = (x, R2)" by (meson surj_pair)
    have act: "acted S R1 R2 \<and> rt_session R2 \<noteq> None \<and> (\<forall>d. x = Ok d \<longrightarrow> answered d)"
    proof (cases "language = ''python'' \<or> language = ''command'' \<or> exit_request command = None")
      case True
      then show ?thesis
        using x mixed.through_session [OF t np assms(1)] forced.through_session [OF t np assms(1)]
          command.through_session [OF t np assms(1)]
        by (auto simp: m_def session_python_def session_command_def session_execute_def not_busy [OF np] split: if_splits)
    next
      case False
      then obtain code where "exit_request command = Some code" by auto
      with False x t show ?thesis
        by (auto simp: m_def session_execute_def not_busy [OF np] bind_a_def seq_a_def put_session_def answered_def acted_def)
    qed
    then obtain t2 where t2: "rt_session R2 = Some t2" by auto
    have e: "exec_in_session S language command timeout R
        = (case x of Err e \<Rightarrow> (Err e, R2) | Ok d \<Rightarrow> with_prompt S d R2)"
      using g Inr x by (simp add: exec_in_session_def bind_a_def m_def [symmetric] split: sum.split)
    show ?thesis
    proof (cases x)
      case (Inl _)
      with e assms(3) act o show ?thesis by (auto simp: served_def)
    next
      case (Inr d)
      then have w: "with_prompt S d R2 = (r, R')" using e assms(3) by simp
      show ?thesis using with_prompt_reads [OF t2 w] act o Inr by (auto simp: served_def intro!: answered_put)
    qed
  qed
qed


lemma console_act_acted:
  assumes "keeps_a same_more m" "run_shell m R = (r, R')"
  shows "acted S R R'"
proof -
  obtain x s' where m: "m (rt_sys R) = (x, s')" by (meson surj_pair)
  have "frame (rt_sys R) s'" using assms(1) m by (metis keeps_aD same_more_frame)
  then show ?thesis using assms(2) m by (auto simp: run_shell_def intro!: acted_sys frame_moves)
qed

lemma exec_zpip_acted: "exec_zpip S command R = (r, R') \<Longrightarrow> acted S R R' \<and> (\<forall>d. r = Ok d \<longrightarrow> answered d)"
proof -
  have k: "keeps_a same_more (run_zpip A c)" for A :: app and c
    by (auto simp: run_zpip_def Let_def intro!: act_intros split: prod.split)
  show "exec_zpip S command R = (r, R') \<Longrightarrow> acted S R R' \<and> (\<forall>d. r = Ok d \<longrightarrow> answered d)"
    by (auto simp: exec_zpip_def bind_a_def Let_def answered_def dest: console_act_acted [OF k] split: prod.splits sum.splits)
qed

lemma exec_info_acted: "exec_info S R = (r, R') \<Longrightarrow> acted S R R' \<and> (\<forall>d. r = Ok d \<longrightarrow> answered d)"
  by (auto simp: exec_info_def bind_a_def answered_def dest: console_act_acted [OF more_io] split: prod.splits sum.splits)

lemma run_exec_served:
  assumes "well_behaved (sv_python S)" "no_process R" "run_exec S language command timeout R = (r, R')"
  shows "served S R R' \<and> (\<forall>d. r = Ok d \<longrightarrow> answered d)"
  using assms exec_zpip_acted exec_info_acted exec_in_session_served [OF assms(1,2)]
  by (auto simp: run_exec_def served_def split: if_splits) (metis opened_refl)+

lemma legacy_answered:
  "answered d \<Longrightarrow> answered (legacy_exec_result language explicit d) \<and>
     (\<exists>v. map_of (legacy_exec_result language explicit d) ''legacy'' = Some v)"
  by (auto simp: answered_def legacy_exec_result_def legacy_rest_result_def map_of_set_default)

text \<open>The answer of \<open>/api/exec\<close>: a refusal that changes nothing, or the outcome of the line.\<close>

definition refused :: "reply \<Rightarrow> bool" where
  "refused rep \<longleftrightarrow> rp_status rep = 400 \<and> (\<exists>d. rp_body rep = JsonBody d \<and> map_of d ''ok'' = Some (PBool False))"

lemma refused_simps [simp]: "refused (json_reply 400 (refusal m extra))" "refused (language_refusal 400 c m)" "refused (must_be_string k)"
  by (simp_all add: refused_def json_reply_def refusal_def language_refusal_def must_be_string_def)

lemma refused_payload: "json_payload q = Inl rep \<Longrightarrow> refused rep"
  by (auto simp: json_payload_def split: option.splits pyval.splits if_splits)

lemma refused_field: "string_field k d = Inl rep \<Longrightarrow> refused rep"
  by (auto simp: string_field_def split: option.splits pyval.splits)

lemma refused_language: "get_exec_language d = Inl rep \<Longrightarrow> refused rep"
  by (auto simp: get_exec_language_def EXEC_LANGUAGES_PLANNED_def Let_def split: pyval.splits if_splits)

lemma refused_timeout: "get_timeout d = Ok (Inl rep) \<Longrightarrow> refused rep"
  by (auto simp: get_timeout_def split: option.splits pyval.splits sum.splits if_splits)

lemma exec_endpoint_served:
  assumes "well_behaved (sv_python S)" "no_process R" "exec_endpoint S q R = (r, R')"
  shows "served S R R' \<and> (\<forall>rep. r = Ok rep \<longrightarrow>
      refused rep \<and> R' = R \<or> rp_status rep = 200 \<and> (\<exists>d. rp_body rep = JsonBody d \<and> answered d))"
proof -
  have srv: "served S R R" by (simp add: opened_served)
  show ?thesis
  proof (cases "json_payload q")
    case (Inl rep)
    with assms(3) srv show ?thesis by (auto simp: exec_endpoint_def refused_payload)
  next
    case payload: (Inr payload)
    show ?thesis
    proof (cases "string_field ''command'' payload")
      case (Inl rep)
      with assms(3) srv payload show ?thesis by (auto simp: exec_endpoint_def refused_field)
    next
      case command: (Inr command)
      show ?thesis
      proof (cases "get_exec_language payload")
        case (Inl rep)
        with assms(3) srv payload command show ?thesis by (auto simp: exec_endpoint_def refused_language)
      next
        case language: (Inr language)
        show ?thesis
        proof (cases "\<exists>timeout. get_timeout payload = Ok (Inr timeout)")
          case False
          then show ?thesis
            using assms(3) srv payload command language
            by (auto simp: exec_endpoint_def bind_a_def refused_timeout split: sum.splits)
        next
          case True
          then obtain timeout where t: "get_timeout payload = Ok (Inr timeout)" by blast
          obtain x R2 where x: "run_exec S language command timeout R = (x, R2)" by (meson surj_pair)
          show ?thesis
            using run_exec_served [OF assms(1,2) x] assms(3) payload command language t x legacy_answered
            by (auto simp: exec_endpoint_def bind_a_def json_reply_def split: sum.splits)
        qed
      qed
    qed
  qed
qed

section \<open>Authentication\<close>

definition public :: "request \<Rightarrow> bool" where
  "public q \<longleftrightarrow> (rq_method q, rq_path q) \<in> {(''GET'', ''/''), (''GET'', ''/api/health'')}"

lemma headers_keep [simp]: "rp_status (security_headers port rep) = rp_status rep" "rp_body (security_headers port rep) = rp_body rep"
  by (simp_all add: security_headers_def add_header_def)

lemma auth_refuses:
  assumes "verify_auth_token (sv_token S) (rq_token q) \<noteq> Ok True"
  shows "require_auth S q h R = ((case verify_auth_token (sv_token S) (rq_token q) of
      Err e \<Rightarrow> Err e | Ok v \<Rightarrow> Ok (json_reply 401 (refusal ''Access denied'' []))), R)"
  using assms by (auto simp: require_auth_def split: sum.split bool.split)


text \<open>The terminal page is public, and it carries the token: whoever can connect can read it.\<close>

lemma page_carries_token:
  assumes "rq_method q = ''GET''" "rq_path q = ''/''"
  shows "rp_body (fst (handle_request S q R)) = TerminalPage (sv_token S) (rt_ws_port R)"
  using assms by (simp add: handle_request_def route_def index_endpoint_def bind_a_def)

section \<open>Any sequence of requests\<close>

lemma stop_endpoint_opened:
  assumes "no_process R" "stop_endpoint S R = (r, R')"
  shows "opened S R R'"
proof -
  obtain g R1 where g: "get_session S R = (g, R1)" by (meson surj_pair)
  note o = get_session_opened [OF g]
  show ?thesis
  proof (cases g)
    case (Inl e)
    with assms(2) g o show ?thesis by (simp add: stop_endpoint_def bind_a_def)
  next
    case (Inr t)
    have t: "rt_session R1 = Some t" using o Inr by simp
    have np: "ss_process t = None" using opened_no_process [OF conjunct1 [OF o] assms(1)] t by (simp add: no_process_def)
    show ?thesis
      using assms(2) g Inr o
      by (auto simp: stop_endpoint_def bind_a_def session_stop_def not_busy [OF np]
          dest: with_prompt_reads [OF t] split: sum.splits prod.splits)
  qed
qed

lemma prompt_opened: "session_prompt S R = (r, R') \<Longrightarrow> opened S R R'"
  by (auto simp: session_prompt_def bind_a_def dest: get_session_opened split: prod.splits sum.splits)

lemma status_endpoint_opened: "status_endpoint S R = (r, R') \<Longrightarrow> opened S R R'"
proof -
  assume a: "status_endpoint S R = (r, R')"
  obtain g R1 where g: "get_session S R = (g, R1)" by (meson surj_pair)
  note o = get_session_opened [OF g]
  show ?thesis
    using a g o by (cases g) (auto simp: status_endpoint_def bind_a_def dest: prompt_reads split: sum.splits prod.splits)
qed

lemma route_served:
  assumes "well_behaved (sv_python S)" "no_process R" "route S q R = (r, R')"
  shows "served S R R'"
proof -
  have "opened S R R'" if "input_endpoint S q R = (r, R')" for r
    using that by (auto simp: input_endpoint_def bind_a_def dest: get_session_opened split: sum.splits prod.splits)
  moreover have "opened S R R'" if "prompt_endpoint S R = (r, R')" for r
    using that by (auto simp: prompt_endpoint_def bind_a_def dest: prompt_opened split: sum.splits prod.splits)
  moreover have "R' = R" if "index_endpoint S R = (r, R')" for r
    using that by (simp add: index_endpoint_def bind_a_def)
  moreover have "served S R R'" if "exec_endpoint S q R = (r, R')" for r
    using exec_endpoint_served [OF assms(1,2) that] by simp
  moreover have "served S R R" by (simp add: opened_served)
  ultimately show ?thesis
    using assms(3) stop_endpoint_opened [OF assms(2)] status_endpoint_opened
    by (auto simp: route_def Let_def require_auth_def intro: opened_served split: if_splits sum.splits bool.splits)
qed

lemma handle_served:
  "well_behaved (sv_python S) \<Longrightarrow> no_process R \<Longrightarrow> served S R (snd (handle_request S q R))"
  by (auto simp: handle_request_def dest: route_served split: prod.split sum.split)

fun serve :: "server \<Rightarrow> request list \<Rightarrow> rest \<Rightarrow> reply list \<times> rest" where
  "serve S [] R = ([], R)"
| "serve S (q # qs) R =
     (case handle_request S q R of (rep, R1) \<Rightarrow> (case serve S qs R1 of (reps, R2) \<Rightarrow> (rep # reps, R2)))"

text \<open>
  Between requests: the session has no process, no child of the interpreter is registered and no
  pipeline is open.
\<close>

definition rest_ok :: "rest \<Rightarrow> bool" where
  "rest_ok R \<longleftrightarrow> no_process R \<and> (rt_session R \<noteq> None \<longrightarrow> sh_procs (rt_sys R) = [] \<and> sh_depth (rt_sys R) = 0)"

lemma opened_ok: "opened S R R1 \<Longrightarrow> rest_ok R \<Longrightarrow> rest_ok R1"
  by (auto simp: opened_def rest_ok_def no_process_def new_session_def init_shell_def)

lemma served_ok:
  assumes "served S R R'" "rest_ok R"
  shows "rest_ok R'"
proof -
  obtain R1 where o: "opened S R R1" and a: "acted S R1 R'" using assms(1) by (auto simp: served_def)
  have ok: "rest_ok R1" using opened_ok [OF o assms(2)] .
  show ?thesis
  proof (cases "rt_session R1")
    case None
    with a ok show ?thesis by (simp add: acted_def rest_ok_def no_process_def)
  next
    case (Some t)
    obtain t' where t': "rt_session R' = Some t'" "ss_process t' = ss_process t" using a Some by (auto simp: acted_def)
    have s: "sh_procs (rt_sys R1) = []" "sh_depth (rt_sys R1) = 0" "ss_process t = None"
      using ok Some by (simp_all add: rest_ok_def no_process_def)
    have "frame (rt_sys R1) ((rt_sys R')\<lparr>sh_cwd := sh_cwd (rt_sys R1)\<rparr>)" using a by (simp add: acted_def moves_home_def)
    then have "sh_procs (rt_sys R') = [] \<and> sh_depth (rt_sys R') = 0" using s by (simp add: frame_def registry_ok_def)
    with t' s show ?thesis by (simp add: rest_ok_def no_process_def)
  qed
qed

lemma serve_ok: "well_behaved (sv_python S) \<Longrightarrow> rest_ok R \<Longrightarrow> rest_ok (snd (serve S qs R))"
proof (induction qs arbitrary: R)
  case Nil
  then show ?case by simp
next
  case (Cons q qs)
  have "served S R (snd (handle_request S q R))"
    using Cons.prems handle_served by (simp add: rest_ok_def)
  then have "rest_ok (snd (handle_request S q R))" using Cons.prems(2) served_ok by blast
  from Cons.IH [OF Cons.prems(1) this] show ?case
    by (cases "handle_request S q R"; cases "serve S qs (snd (handle_request S q R))") simp
qed


text \<open>
  One request leaves the interpreter in the directory it was in, or in one below the resolved
  home, or, when it opened the session, in the resolved home itself; and the directory the session
  reports is the interpreter's, or the one it reported before, or home.
\<close>

theorem request_stays_home:
  assumes "well_behaved (sv_python S)" "no_process R" "handle_request S q R = (rep, R')"
  shows "(sh_cwd (rt_sys R') = sh_cwd (rt_sys R) \<or> inside_home (sv_app S) (tm_fs (rt_sys R)) (sh_cwd (rt_sys R')) \<or>
      rt_session R = None \<and> resolve_path (tm_fs (rt_sys R)) (home_of S) = Ok (sh_cwd (rt_sys R'))) \<and>
    (case rt_session R' of None \<Rightarrow> rt_session R = None
     | Some t \<Rightarrow> ss_cwd t = sh_cwd (rt_sys R') \<or> ss_cwd t = home_of S \<or> (case rt_session R of None \<Rightarrow> False | Some t0 \<Rightarrow> ss_cwd t = ss_cwd t0))"
proof -
  have "served S R R'" using handle_served [OF assms(1,2), of q] assms(3) by simp
  then obtain R1 where o: "opened S R R1" and a: "acted S R1 R'" by (auto simp: served_def)
  have f: "tm_fs (rt_sys R1) = tm_fs (rt_sys R)" using opened_fields [OF o] by simp
  have "sh_cwd (rt_sys R1) = sh_cwd (rt_sys R) \<or>
      rt_session R = None \<and> resolve_path (tm_fs (rt_sys R)) (home_of S) = Ok (sh_cwd (rt_sys R1))"
    using o by (auto simp: opened_def init_shell_def)
  moreover have "sh_cwd (rt_sys R') = sh_cwd (rt_sys R1) \<or> inside_home (sv_app S) (tm_fs (rt_sys R)) (sh_cwd (rt_sys R'))"
    using a f by (auto simp: acted_def moves_home_def)
  moreover have "case rt_session R' of None \<Rightarrow> rt_session R = None
     | Some t \<Rightarrow> ss_cwd t = sh_cwd (rt_sys R') \<or> ss_cwd t = home_of S \<or> (case rt_session R of None \<Rightarrow> False | Some t0 \<Rightarrow> ss_cwd t = ss_cwd t0)"
    using o a by (auto simp: opened_def acted_def new_session_def split: option.splits)
  ultimately show ?thesis by (elim disjE conjE) simp_all
qed


section \<open>Ports\<close>

lemma bind_first_Some: "bind_first ok cs = Some (h, p) \<Longrightarrow> (h, p) \<in> set cs \<and> ok h p"
  by (auto simp: bind_first_def find_Some_iff) (metis nth_mem)

lemma android_rounds_Some:
  "android_rounds rounds = Some (Ok (h, p)) \<Longrightarrow> h \<in> {''127.0.0.1'', ''localhost''} \<and> p = 8000 \<and> (\<exists>(ok, t) \<in> set rounds. ok h p)"
  by (induction rounds rule: android_rounds.induct)
    (auto simp: P4A_HTTP_PORT_def dest!: bind_first_Some split: option.splits if_splits)

text \<open>
  When the servers come up, every listener is on a loopback address and was granted by the kernel;
  the HTTP port lies in 8000..8010 (8000 exactly on Android), the WebSocket port above it by at most
  100; no port is one that the WebView refuses to load, or one of the other app's 5000..5100; and the
  port published to the page is the WebSocket listener's.
\<close>

theorem listeners_are_safe:
  assumes "run_server android rounds ok = Some (Ok L)"
  shows "\<exists>h http ws. hd (lg_http L) = (h, http) \<and> hd (lg_ws L) = (''127.0.0.1'', ws) \<and> lg_ws_port L = ws \<and>
    8000 \<le> http \<and> http \<le> 8010 \<and> (android \<longrightarrow> http = 8000) \<and> http < ws \<and> ws \<le> http + 100 \<and>
    http \<notin> set CHROMIUM_RESTRICTED_PORTS \<and> ws \<notin> set CHROMIUM_RESTRICTED_PORTS \<and>
    (\<forall>l \<in> set (lg_http L @ lg_ws L). fst l \<in> {''127.0.0.1'', ''localhost'', ''::1''} \<and> snd l \<in> {http, ws} \<and>
       snd l \<notin> {ZABACODE_HTTP_PORT..ZABACODE_HTTP_PORT + 100})"
proof -
  obtain h http h' ws where b: "bind_http_socket android rounds ok = Some (Ok (h, http))"
    "bind_ws_socket ok http = Ok (h', ws)"
    and L: "L = \<lparr>lg_http = (h, http) # bind_ipv6_loopback ok http, lg_ws = (h', ws) # bind_ipv6_loopback ok ws, lg_ws_port = ws\<rparr>"
    using assms by (auto simp: run_server_def split: option.splits sum.splits prod.splits)
  have http: "h \<in> {''127.0.0.1'', ''localhost''} \<and> 8000 \<le> http \<and> http \<le> 8010 \<and> (android \<longrightarrow> http = 8000)"
    using b(1) android_rounds_Some [of rounds h http]
    by (auto simp: bind_http_socket_def P4A_HTTP_PORT_def dest!: bind_first_Some split: if_splits option.splits)
  have ws: "h' = ''127.0.0.1'' \<and> http < ws \<and> ws \<le> http + 100 \<and> ws \<notin> set CHROMIUM_RESTRICTED_PORTS"
    using b(2) by (auto simp: bind_ws_socket_def dest!: bind_first_Some split: option.splits)
  have "\<forall>p \<in> set CHROMIUM_RESTRICTED_PORTS. p < 8000 \<or> 8010 < p" by (simp add: CHROMIUM_RESTRICTED_PORTS_def)
  with http have "http \<notin> set CHROMIUM_RESTRICTED_PORTS" by auto
  with http ws L show ?thesis by (auto simp: bind_ipv6_loopback_def ZABACODE_HTTP_PORT_def)
qed

text \<open>
  On Android the start never waits forever for its port: once a round ends 30 seconds or more
  after the start there is a listener or an error, and there is an error only when neither loopback
  address was granted in any round up to then.
\<close>

theorem port_wait_ends:
  assumes "\<exists>(ok, now) \<in> set rounds. 30000 \<le> now"
  shows "\<exists>r. android_rounds rounds = Some r \<and>
    (case r of Ok l \<Rightarrow> l \<in> {(''127.0.0.1'', 8000), (''localhost'', 8000)}
     | Err e \<Rightarrow> \<not> (fst (hd rounds)) ''127.0.0.1'' 8000 \<and> \<not> (fst (hd rounds)) ''localhost'' 8000)"
  using assms
proof (induction rounds)
  case Nil
  then show ?case by simp
next
  case (Cons x rounds)
  obtain ok now where x: "x = (ok, now)" by (cases x)
  show ?case
  proof (cases "bind_first ok [(''127.0.0.1'', P4A_HTTP_PORT), (''localhost'', P4A_HTTP_PORT)]")
    case (Some l)
    with x show ?thesis by (cases l) (auto simp: P4A_HTTP_PORT_def dest!: bind_first_Some)
  next
    case None
    then have n: "\<not> ok ''127.0.0.1'' 8000" "\<not> ok ''localhost'' 8000"
      by (auto simp: bind_first_def P4A_HTTP_PORT_def split: if_splits)
    show ?thesis
    proof (cases "P4A_BIND_TIMEOUT \<le> now")
      case True
      with None n x show ?thesis by simp
    next
      case False
      then have "\<exists>(ok, now) \<in> set rounds. 30000 \<le> now" using Cons.prems x by (auto simp: P4A_BIND_TIMEOUT_def)
      from Cons.IH [OF this] False None n x show ?thesis by (auto split: sum.split)
    qed
  qed
qed

section \<open>A concrete server\<close>

definition demo_server :: server where
  "demo_server =
     \<lparr>sv_app = demo_host, sv_python = demo_python, sv_children = demo_children,
      sv_procs = \<lparr>cp_alive = (\<lambda>p. True), cp_send = (\<lambda>p t. None), cp_stop = (\<lambda>p. Inr 0)\<rparr>, sv_token = ''k0''\<rparr>"

definition demo_rest :: rest where
  "demo_rest = \<lparr>rt_sys = demo_sys, rt_session = None, rt_ws_port = 8001\<rparr>"

definition demo_request :: "string \<Rightarrow> string \<Rightarrow> string \<Rightarrow> string \<Rightarrow> request" where
  "demo_request m p t body = \<lparr>rq_method = m, rq_path = p, rq_token = t, rq_json = True, rq_body = body\<rparr>"

definition demo_exec :: request where
  "demo_exec = demo_request ''POST'' ''/api/exec'' ''k0'' ''x''"

definition demo_status :: request where
  "demo_status = demo_request ''GET'' ''/api/status'' ''k0'' ''''"

lemma demo_server_behaved: "well_behaved (sv_python demo_server)"
  using demo_well_behaved by (simp add: demo_server_def)

lemma demo_rest_idle: "no_process demo_rest" "rt_session demo_rest = None"
  by (simp_all add: no_process_def demo_rest_def)


definition demo_open :: rest where
  "demo_open = demo_rest\<lparr>rt_session := Some (new_session (Path ''/'' [''h''])), rt_sys := init_shell (Path ''/'' [''h'']) demo_sys\<rparr>"

lemma demo_get_session: "get_session demo_server demo_rest = (Ok (new_session (Path ''/'' [''h''])), demo_open)"
proof -
  have "resolve_path (tm_fs (rt_sys demo_rest)) (home_of demo_server) = Ok (Path ''/'' [''h''])" by code_simp
  moreover have "home_of demo_server = Path ''/'' [''h'']" by code_simp
  ultimately show ?thesis by (simp add: get_session_def demo_rest_def demo_open_def Let_def)
qed

lemma demo_prompt_open: "snd (session_prompt demo_server demo_open) = demo_open"
  by (simp add: session_prompt_def get_session_def demo_open_def bind_a_def split: sum.split)

lemma demo_status_opens: "snd (handle_request demo_server demo_status demo_rest) = demo_open"
proof -
  have v: "verify_auth_token (sv_token demo_server) (rq_token demo_status) = Ok True" by code_simp
  have "route demo_server demo_status demo_rest = status_endpoint demo_server demo_rest"
    using v by (simp add: route_def require_auth_def demo_status_def demo_request_def)
  moreover have "snd (status_endpoint demo_server demo_rest) = demo_open"
    using demo_prompt_open by (auto simp: status_endpoint_def bind_a_def demo_get_session split: prod.split sum.split)
  ultimately show ?thesis by (auto simp: handle_request_def split: prod.split sum.split)
qed


theorem request_stays_home_witness:
  "sh_cwd (rt_sys (snd (handle_request demo_server demo_status demo_rest))) = Path ''/'' [''h''] \<and>
   (\<exists>t. rt_session (snd (handle_request demo_server demo_status demo_rest)) = Some t \<and> ss_cwd t = Path ''/'' [''h''])"
proof -
  obtain rep R' where h: "handle_request demo_server demo_status demo_rest = (rep, R')" by (meson surj_pair)
  have R': "R' = demo_open" using demo_status_opens h by simp
  have "home_of demo_server = Path ''/'' [''h'']" by code_simp
  with request_stays_home [OF demo_server_behaved demo_rest_idle(1) h] h R' show ?thesis
    by (simp add: demo_open_def new_session_def init_shell_def)
qed


lemma demo_run_server:
  "run_server True [(\<lambda>h p. True, 0)] (\<lambda>h p. True)
     = Some (Ok \<lparr>lg_http = [(''127.0.0.1'', 8000), (''::1'', 8000)], lg_ws = [(''127.0.0.1'', 8001), (''::1'', 8001)], lg_ws_port = 8001\<rparr>)"
proof -
  have u: "[8001..<8101] = (8001::nat) # [8002..<8101]" by (subst upt_conv_Cons) (simp_all del: upt_rec_numeral)
  have w: "bind_ws_socket (\<lambda>h p. True) 8000 = Ok (''127.0.0.1'', 8001)"
  proof -
    have "(8001::nat) \<notin> set CHROMIUM_RESTRICTED_PORTS" by (simp add: CHROMIUM_RESTRICTED_PORTS_def)
    then have "filter (\<lambda>p. p \<notin> set CHROMIUM_RESTRICTED_PORTS) [8001..<8101] = 8001 # filter (\<lambda>p. p \<notin> set CHROMIUM_RESTRICTED_PORTS) [8002..<8101]"
      by (simp only: u filter.simps if_True not_False_eq_True)
    then show ?thesis by (simp add: bind_ws_socket_def bind_first_def del: upt_rec_numeral)
  qed
  have p: "(8000::nat) \<notin> set CHROMIUM_RESTRICTED_PORTS" by (simp add: CHROMIUM_RESTRICTED_PORTS_def)
  show ?thesis
    using w p by (simp add: run_server_def bind_http_socket_def P4A_HTTP_PORT_def bind_first_def bind_ipv6_loopback_def)
qed

lemma demo_listeners_safe:
  "\<exists>L. run_server True [(\<lambda>h p. True, 0)] (\<lambda>h p. True) = Some (Ok L) \<and> lg_ws_port L \<notin> set CHROMIUM_RESTRICTED_PORTS \<and>
     fst (hd (lg_http L)) = ''127.0.0.1''"
  using listeners_are_safe [OF demo_run_server] demo_run_server by auto

theorem port_wait_ends_witness: "\<exists>e. android_rounds [(\<lambda>h p. False, 100), (\<lambda>h p. False, 30000)] = Some (Err e)"
proof -
  obtain r where "android_rounds [(\<lambda>h p. False, 100), (\<lambda>h p. False, 30000)] = Some r"
    using port_wait_ends [of "[(\<lambda>h p. False, 100), (\<lambda>h p. False, 30000)]"] by auto
  then show ?thesis by (auto simp: bind_first_def P4A_BIND_TIMEOUT_def)
qed

end
