(* ===== verification/ProtocolTools.thy ===== *)
theory ProtocolTools
  imports WsHandshake Sessions PyValues
begin

text \<open>
  The two protocol tools: \<open>tools/mock_pty_ws_server.py\<close> (its handshake and the handling of a
  message and of a connection) and \<open>tools/protocol_check.py\<close> (its client: the HTTP answer, the frame
  reader and the gates).  Their frame writers are in \<open>WsFrame\<close>.  The shell behind the mock's
  terminal, the packets of the network and the key of a request are parameters.
\<close>

section \<open>The mock server\<close>

definition text_of :: "ustr \<Rightarrow> string" where "text_of t = map (\<lambda>x. char_of (unat x)) (utf8_encode t)"

text \<open>\<open>json.dumps\<close> of the tab state, for the one session the mock has.\<close>

definition sessions_frame :: "string \<Rightarrow> bytes" where
  "sessions_frame active =
     b (json_dumps (PDict [(''type'', PStr ''sessions''),
        (''sessions'', PList [PDict [(''id'', PStr active), (''busy'', PBool False)]]),
        (''active'', PStr active), (''max'', PInt 8)]))"

text \<open>The head of the request, read in pieces of 4096 bytes; \<open>None\<close> at the end of the stream.\<close>

function mock_head :: "sock \<Rightarrow> bytes \<Rightarrow> (bytes \<times> sock) option" where
  "mock_head s data =
     (if occurs (CRLF @ CRLF) data then Some (data, s)
      else case sock_recv 4096 s of (chunk, s') \<Rightarrow>
        if chunk = [] then None else mock_head s' (data @ chunk))"
  by pat_completeness auto
termination
proof (relation "measure (\<lambda>(s, data). length (sk_in s))", simp)
  fix s :: sock and chunk s'
  assume "(chunk, s') = sock_recv 4096 s" "chunk \<noteq> []"
  then show "((s', data @ chunk), s, data) \<in> measure (\<lambda>(s, data). length (sk_in s))" for data
    using tcp.recv_content [of s 4096] by (cases "sock_recv 4096 s") (auto simp: neq_Nil_conv)
qed

declare mock_head.simps [simp del]

text \<open>
  The token of the query, an empty one when there is none; a request line of one word is
  \<open>IndexError\<close>, an address that does not parse \<open>ValueError\<close>, text beyond ASCII \<open>TypeError\<close>.
\<close>

definition mock_token :: "(ustr \<Rightarrow> bool) \<Rightarrow> ustr \<Rightarrow> ustr \<Rightarrow> exn + bool" where
  "mock_token netloc_ok expected request_line =
     (case words_by py_space request_line of
        _ # path # _ \<Rightarrow>
          (case url_query netloc_ok path of
             None \<Rightarrow> Err (ValueError '''')
           | Some query \<Rightarrow>
               let supplied = (case query_values (u ''token'') query of [] \<Rightarrow> [] | t # _ \<Rightarrow> t)
               in if list_all (\<lambda>c. c < 128) supplied \<and> list_all (\<lambda>c. c < 128) expected
                  then Ok (supplied = expected) else Err TypeError)
      | _ \<Rightarrow> Err IndexError)"

definition ascii_lower :: "ustr \<Rightarrow> ustr" where
  "ascii_lower = map (\<lambda>c. if 65 \<le> c \<and> c \<le> 90 then c + 32 else c)"

text \<open>The last line that starts with the header's name; \<open>str.lower\<close> only matters on ASCII here.\<close>

definition mock_key :: "ustr list \<Rightarrow> ustr" where
  "mock_key lines =
     (case filter (\<lambda>l. prefix (u ''sec-websocket-key:'') (ascii_lower l)) lines of
        [] \<Rightarrow> []
      | ls \<Rightarrow> (case split_once [58] (last ls) of (_, Some v) \<Rightarrow> strip_by py_space v | (_, None) \<Rightarrow> []))"

definition head_text :: "string list \<Rightarrow> bytes" where
  "head_text ls = concat (map (\<lambda>l. b l @ CRLF) ls) @ CRLF"

datatype handshake = Dropped | Refused bytes | Upgraded bytes

definition mock_upgrade :: "(bytes \<Rightarrow> bytes) \<Rightarrow> ustr \<Rightarrow> bytes" where
  "mock_upgrade sha1 key =
     concat (map (\<lambda>l. b l @ CRLF) [''HTTP/1.1 101 Switching Protocols'', ''Upgrade: websocket'', ''Connection: Upgrade''])
     @ b ''Sec-WebSocket-Accept: '' @ utf8_encode (base64 (sha1 (utf8_encode (key @ GUID)))) @ CRLF @ CRLF"

definition mock_handshake :: "(bytes \<Rightarrow> bytes) \<Rightarrow> (ustr \<Rightarrow> bool) \<Rightarrow> ustr \<Rightarrow> sock \<Rightarrow> (exn + handshake) \<times> sock" where
  "mock_handshake sha1 netloc_ok expected s =
     (case mock_head s [] of
        None \<Rightarrow> (Ok Dropped, s)
      | Some (data, s') \<Rightarrow>
          let lines = split_sub [13, 10] (map unat data) in
          ((case mock_token netloc_ok expected (hd lines) of
              Err IndexError \<Rightarrow> Ok Dropped
            | Err e \<Rightarrow> Err e
            | Ok False \<Rightarrow> Ok (Refused (head_text [''HTTP/1.1 401 Unauthorized'', ''Connection: close'']))
            | Ok True \<Rightarrow>
                if mock_key lines = [] then Ok (Refused (head_text [''HTTP/1.1 400 Bad Request'', ''Connection: close'']))
                else Ok (Upgraded (mock_upgrade sha1 (mock_key lines)))), s'))"

section \<open>Messages to the mock\<close>

datatype mock_action = Frame byte bytes | PtyInput bytes | PtySize int int

definition raw_or :: "bytes \<Rightarrow> exn + mock_action list \<Rightarrow> mock_action list" where
  "raw_or payload r = (case r of Ok as \<Rightarrow> as | Err _ \<Rightarrow> [PtyInput payload])"

text \<open>\<open>struct.pack("HHHH", rows, cols, 0, 0)\<close> takes sizes from 0 to 65535.\<close>

definition mock_resize :: "pyval \<Rightarrow> exn + mock_action list" where
  "mock_resize msg =
     bind_r (bind_r (py_get ''rows'' (PInt 24) msg) py_int) (\<lambda>rows.
     bind_r (bind_r (py_get ''cols'' (PInt 80) msg) py_int) (\<lambda>cols.
       if rows \<in> {0..65535} \<and> cols \<in> {0..65535} then Ok [PtySize rows cols] else Err StructError))"

text \<open>
  What one data frame leads to: a message the mock understands, and raw input otherwise, which is
  also what becomes of a message that fails on the way.
\<close>

definition mock_action_of :: "pyval \<Rightarrow> exn + mock_action list" where
  "mock_action_of msg =
     bind_r (py_get ''action'' PNone msg) (\<lambda>action.
       if action = PStr ''resize'' then mock_resize msg
       else if action \<in> PStr ` {''session.new'', ''session.switch'', ''session.close'', ''session.list''}
         then Ok [Frame 1 (sessions_frame ''1'')]
       else if action = PStr ''pty.toggle'' then Ok [Frame 2 (CRLF @ b ''[mock: pty.toggle]'' @ CRLF)]
       else Err (ValueError ''''))"

definition mock_message :: "bytes \<Rightarrow> mock_action list" where
  "mock_message payload =
     raw_or payload
       (case utf8_strict payload of
          None \<Rightarrow> Err (ValueError '''')
        | Some t \<Rightarrow>
            let text = strip_by py_space t in
            if prefix [123] text \<and> suffix [125] text
            then bind_r (json_loads (text_of text)) mock_action_of
            else Err (ValueError ''''))"

text \<open>The frames of a connection, until it closes, fails or sends a close frame.\<close>

function mock_loop :: "sock \<Rightarrow> mock_action list" where
  "mock_loop s =
     (case mock_read_frame sock_recv s of
        Err e \<Rightarrow> []
      | Ok ((opcode, payload), s') \<Rightarrow>
          if opcode = 8 then []
          else if opcode = 9 then Frame 10 payload # mock_loop s'
          else if opcode \<in> {1, 2} then mock_message payload @ mock_loop s'
          else mock_loop s')"
  by pat_completeness auto
termination
  by (relation "measure (\<lambda>s. length (sk_in s))") (auto dest: tcp_mock_read_shrinks)

declare mock_loop.simps [simp del]

definition mock_replay :: "mock_action list" where
  "mock_replay = [Frame 2 RESET_TERMINAL_SCREEN, Frame 1 (sessions_frame ''1'')]"

text \<open>
  A connection (\<open>handle\<close>): the bytes of the HTTP answer, and what follows them on this thread.  A
  second thread (\<open>pump\<close>) adds a frame for every read of the shell's output, up to the empty one.
\<close>

definition mock_handle :: "(bytes \<Rightarrow> bytes) \<Rightarrow> (ustr \<Rightarrow> bool) \<Rightarrow> ustr \<Rightarrow> sock \<Rightarrow> bytes \<times> mock_action list" where
  "mock_handle sha1 netloc_ok expected s =
     (case mock_handshake sha1 netloc_ok expected s of
        (Ok (Upgraded head), s') \<Rightarrow> (head, mock_replay @ mock_loop s')
      | (Ok (Refused head), s') \<Rightarrow> (head, [])
      | (Ok Dropped, s') \<Rightarrow> ([], [])
      | (Err e, s') \<Rightarrow> ([], []))"

definition mock_pump :: "bytes list \<Rightarrow> mock_action list" where
  "mock_pump answers = map (Frame 2) (takeWhile (\<lambda>data. data \<noteq> []) answers)"

section \<open>The client of the check\<close>

definition request_bytes :: "string \<Rightarrow> string \<Rightarrow> nat \<Rightarrow> string \<Rightarrow> bytes" where
  "request_bytes token host port key =
     head_text [''GET /?token='' @ token @ '' HTTP/1.1'', ''Host: '' @ host @ '':'' @ nat_str port, ''Upgrade: websocket'',
       ''Connection: Upgrade'', ''Sec-WebSocket-Key: '' @ key, ''Sec-WebSocket-Version: 13'']"

text \<open>The packets that arrive, in order; the head ends with the packet that completes it.\<close>

fun check_head :: "bytes list \<Rightarrow> bytes \<Rightarrow> bytes \<times> bytes list" where
  "check_head [] head = (head, [])"
| "check_head (chunk # chunks) head =
     (if occurs (CRLF @ CRLF) head then (head, chunk # chunks)
      else if chunk = [] then (head, chunks)
      else check_head chunks (head @ chunk))"

definition status_of :: "bytes \<Rightarrow> exn + int" where
  "status_of header =
     (if prefix (b ''HTTP/1.1'') header
      then (case split_on 32 header of
              _ # w # _ \<Rightarrow> py_int (PStr (map (\<lambda>x. char_of (unat x)) w))
            | _ \<Rightarrow> Err IndexError)
      else Ok 0)"

text \<open>The status, the bytes after the head, and the packets still to be received.\<close>

definition ws_connect :: "bytes list \<Rightarrow> exn + int \<times> bytes \<times> bytes list" where
  "ws_connect chunks =
     (case check_head chunks [] of (head, rest) \<Rightarrow>
        (case split_once (CRLF @ CRLF) head of (header, pending) \<Rightarrow>
           bind_r (status_of header) (\<lambda>status.
             Ok (status, case pending of None \<Rightarrow> [] | Some p \<Rightarrow> p, rest))))"

text \<open>\<open>Reader._take\<close>: one whole frame off the buffer; the server's frames carry no mask.\<close>

definition frame_extent :: "bytes \<Rightarrow> (nat \<times> nat) option" where
  "frame_extent buf =
     (let len7 = unat (buf ! 1 AND 0x7F) in
      if len7 = 126 then (if length buf < 4 then None else Some (from_big (take 2 (drop 2 buf)), 4))
      else if len7 = 127 then (if length buf < 10 then None else Some (from_big (take 8 (drop 2 buf)), 10))
      else Some (len7, 2))"

definition take_frame :: "bytes \<Rightarrow> ((nat \<times> bytes) \<times> bytes) option" where
  "take_frame buf =
     (if length buf < 2 then None
      else case frame_extent buf of
        None \<Rightarrow> None
      | Some (len, off) \<Rightarrow>
          if length buf < off + len then None
          else Some ((unat (buf ! 0 AND 0x0F), take len (drop off buf)), drop (off + len) buf))"

lemma take_frame_shrinks: "take_frame buf = Some (f, r) \<Longrightarrow> length r < length buf"
  by (auto simp: take_frame_def frame_extent_def Let_def split: if_splits)

record reader =
  rd_buf :: bytes
  rd_binary :: bytes
  rd_texts :: "ustr list"

definition keep_frame :: "nat \<times> bytes \<Rightarrow> reader \<Rightarrow> reader" where
  "keep_frame f R =
     (if fst f = 2 then R\<lparr>rd_binary := rd_binary R @ snd f\<rparr>
      else if fst f = 1 then R\<lparr>rd_texts := rd_texts R @ [utf8_replace (snd f)]\<rparr>
      else R)"

function drain :: "reader \<Rightarrow> reader" where
  "drain R =
     (case take_frame (rd_buf R) of
        None \<Rightarrow> R
      | Some (f, rest) \<Rightarrow> drain (keep_frame f (R\<lparr>rd_buf := rest\<rparr>)))"
  by pat_completeness auto
termination
  by (relation "measure (\<lambda>R. length (rd_buf R))") (auto simp: keep_frame_def dest: take_frame_shrinks)

declare drain.simps [simp del]

text \<open>
  \<open>Reader.pump\<close>: what arrives until its deadline.  Frames are only looked for after a packet, so
  bytes that came with the HTTP head wait for the next one.
\<close>

fun pump :: "bytes list \<Rightarrow> reader \<Rightarrow> reader" where
  "pump [] R = R"
| "pump (chunk # chunks) R = pump chunks (if chunk = [] then R else drain (R\<lparr>rd_buf := rd_buf R @ chunk\<rparr>))"

section \<open>The gates of the check\<close>

text \<open>The first text that is the tab state; text in braces that is not JSON raises.\<close>

fun find_sessions :: "ustr list \<Rightarrow> exn + pyval option" where
  "find_sessions [] = Ok None"
| "find_sessions (t # ts) =
     (if prefix [123] (strip_by py_space t) then
        bind_r (json_loads (text_of t)) (\<lambda>v.
        bind_r (py_get ''type'' PNone v) (\<lambda>ty.
          if ty = PStr ''sessions'' then Ok (Some v) else find_sessions ts))
      else find_sessions ts)"

record observed =
  ob_bad :: "bytes list"
  ob_good :: "bytes list"
  ob_replay :: "bytes list"
  ob_resize :: "bytes list"
  ob_input :: "bytes list"
  ob_sigint :: "bytes list"
  ob_list :: "bytes list"

type_synonym checks = "(string \<times> bool) list"

definition saw :: "string \<Rightarrow> reader \<Rightarrow> bool" where "saw t R = occurs (b t) (rd_binary R)"

text \<open>
  The gates once the connection is up.  Before each input the recorded output is cleared, what came
  in the meantime is read with the answer.
\<close>

definition replay_checks :: "reader \<Rightarrow> exn + checks" where
  "replay_checks R =
     bind_r (find_sessions (rd_texts R)) (\<lambda>found.
       Ok ([(''replay1-reset-screen'', occurs RESET_TERMINAL_SCREEN (rd_binary R)),
            (''replay2-sessions-frame'', found \<noteq> None)]
           @ (case found of
                Some v \<Rightarrow> if truthy v then [(''replay3-sessions-shape'', {''sessions'', ''active'', ''max''} \<subseteq> fst ` set (dict_items v))] else []
              | None \<Rightarrow> [])))"

definition cleared :: "reader \<Rightarrow> reader" where "cleared R = R\<lparr>rd_binary := []\<rparr>"

definition live_checks :: "observed \<Rightarrow> reader \<Rightarrow> checks" where
  "live_checks O1 R =
     (let R1 = pump (ob_resize O1) (cleared R);
          R2 = pump (ob_input O1) (cleared R1);
          R3 = pump (ob_sigint O1) (cleared R2);
          R4 = pump (ob_list O1) R3
      in [(''resize1-stty-size'', saw ''11 47'' R1), (''input1-shell-executes'', saw ''ZMUX_42'' R2),
          (''sigint1-ctrl-c'', saw ''AFTER_INT'' R3), (''session1-list-reply'', length (rd_texts R4) > length (rd_texts R3))])"

definition check_exit :: "checks \<Rightarrow> int" where
  "check_exit cs = (if length (filter snd cs) = length cs then 0 else 1)"

definition protocol_check :: "observed \<Rightarrow> exn + checks \<times> int" where
  "protocol_check O1 =
     bind_r (ws_connect (ob_bad O1)) (\<lambda>(bad, _, _).
     let g1 = [(''auth1-bad-token-401'', bad = 0 \<or> bad = 401)] in
     bind_r (ws_connect (ob_good O1)) (\<lambda>(status, pending, rest).
     let g2 = g1 @ [(''auth2-good-token-101'', status = 101)] in
     if status \<noteq> 101 then Ok (g2, 1)
     else let R = pump (rest @ ob_replay O1) \<lparr>rd_buf = pending, rd_binary = [], rd_texts = []\<rparr> in
       bind_r (replay_checks R) (\<lambda>g3.
         let cs = g2 @ g3 @ live_checks O1 R in Ok (cs, check_exit cs))))"

end
