(* ===== verification/ToolProps.thy ===== *)
theory ToolProps
  imports ProtocolTools
begin

text \<open>
  Properties of the protocol tools: the check's reader gets back what the server's frames carry
  however the network cuts the stream, the mock grants the requests the server grants, and what the
  mock sends when a client connects passes the check's gates.
\<close>

section \<open>The reader of the check\<close>

lemma frame_extent_mono: "2 \<le> length buf \<Longrightarrow> frame_extent buf = Some e \<Longrightarrow> frame_extent (buf @ t) = Some e"
  by (auto simp: frame_extent_def Let_def nth_append split: if_splits)

lemma take_frame_mono: "take_frame buf = Some (f, r) \<Longrightarrow> take_frame (buf @ t) = Some (f, r @ t)"
proof -
  assume a: "take_frame buf = Some (f, r)"
  then have l: "2 \<le> length buf" by (auto simp: take_frame_def split: if_splits)
  obtain len off where e: "frame_extent buf = Some (len, off)" "off + len \<le> length buf"
    "f = (unat (buf ! 0 AND 0x0F), take len (drop off buf))" "r = drop (off + len) buf"
    using a l by (auto simp: take_frame_def split: option.splits if_splits)
  have "(buf @ t) ! 0 = buf ! 0" using l by (cases buf) simp_all
  with l e frame_extent_mono [OF l e(1), of t] show ?thesis by (simp add: take_frame_def)
qed

lemma take_frame_unmasked:
  assumes "frame_header e op 0 (length p) = Ok header" "op < 16"
  shows "take_frame (header @ p @ rest) = Some ((unat op, p), rest)"
proof -
  obtain b2 ext where h: "header = (0x80 OR op) # b2 # ext" "b2 AND 0x80 = 0"
    "\<And>rest. read_len flat_recv (unat (b2 AND 0x7F)) (ext @ rest) = Ok (length p, rest)"
    using assms(1) by (rule frame_header_read) auto
  have l: "length ext = (if unat (b2 AND 0x7F) = 126 then 2 else if unat (b2 AND 0x7F) = 127 then 8 else 0)"
    using h(3) [of "[]"] by (auto simp: read_len_def split: if_splits)
  have "drop (4 + length p) (x # y # ext @ p @ rest) = rest" if "length ext = 2" for x y
    using that by (simp add: numeral_eq_Suc)
  moreover have "drop (10 + length p) (x # y # ext @ p @ rest) = rest" if "length ext = 8" for x y
    using that by (simp add: numeral_eq_Suc)
  ultimately show ?thesis
    using h(3) [of "[]"] l opcode_read [OF assms(2)]
    by (auto simp: take_frame_def frame_extent_def h(1) Let_def read_len_def split: if_splits)
qed

lemma keep_frame_buf [simp]: "rd_buf (keep_frame f R) = rd_buf R"
  "keep_frame f (R\<lparr>rd_buf := x\<rparr>) = (keep_frame f R)\<lparr>rd_buf := x\<rparr>"
  by (simp_all add: keep_frame_def)

lemma drain_more:
  "drain ((drain R)\<lparr>rd_buf := rd_buf (drain R) @ t\<rparr>) = drain (R\<lparr>rd_buf := rd_buf R @ t\<rparr>)"
proof (induction R rule: drain.induct)
  case (1 R)
  show ?case
  proof (cases "take_frame (rd_buf R)")
    case None
    then show ?thesis by (simp add: drain.simps [of R])
  next
    case (Some fr)
    obtain f rest where fr: "fr = (f, rest)" by (cases fr)
    let ?R = "keep_frame f (R\<lparr>rd_buf := rest\<rparr>)"
    have d: "drain R = drain ?R" using Some fr by (simp add: drain.simps [of R])
    have "drain (R\<lparr>rd_buf := rd_buf R @ t\<rparr>) = drain (?R\<lparr>rd_buf := rd_buf ?R @ t\<rparr>)"
      using take_frame_mono [of "rd_buf R" f rest t] Some fr
      by (simp add: drain.simps [of "R\<lparr>rd_buf := rd_buf R @ t\<rparr>"])
    with "1.IH" [OF Some fr [symmetric]] d show ?thesis by simp
  qed
qed

text \<open>However the bytes are cut into packets, the reader ends up the same.\<close>

lemma pump_concat:
  "pump chunks R = (if concat chunks = [] then R else drain (R\<lparr>rd_buf := rd_buf R @ concat chunks\<rparr>))"
proof (induction chunks arbitrary: R)
  case Nil
  then show ?case by simp
next
  case (Cons chunk chunks)
  show ?case
  proof (cases "concat chunks = []")
    case True
    with Cons.IH show ?thesis by (simp del: concat_eq_Nil_conv)
  next
    case False
    with Cons.IH drain_more [of "R\<lparr>rd_buf := rd_buf R @ chunk\<rparr>" "concat chunks"] show ?thesis
      by (simp del: concat_eq_Nil_conv)
  qed
qed

lemma drain_frames:
  assumes "list_all2 (\<lambda>(op, p) frame. op < 16 \<and> mock_send_frame p op = Ok frame) fs frames"
  shows "drain (R\<lparr>rd_buf := concat frames @ rest\<rparr>)
    = drain ((fold (\<lambda>(op, p). keep_frame (unat op, p)) fs R)\<lparr>rd_buf := rest\<rparr>)"
  using assms
proof (induction fs frames arbitrary: R rule: list_all2_induct)
  case Nil
  then show ?case by simp
next
  case (Cons f fs frame frames)
  obtain op p where f: "f = (op, p)" by (cases f)
  with Cons(1) obtain header where h: "op < 16" "frame_header StructError op 0 (length p) = Ok header" "frame = header @ p"
    by (auto simp: mock_send_frame_def split: sum.splits)
  have "drain (R\<lparr>rd_buf := concat (frame # frames) @ rest\<rparr>) = drain ((keep_frame (unat op, p) R)\<lparr>rd_buf := concat frames @ rest\<rparr>)"
    using take_frame_unmasked [OF h(2,1), of "concat frames @ rest"] h(3)
    by (simp add: drain.simps [of "R\<lparr>rd_buf := _\<rparr>"])
  with Cons.IH f show ?case by simp
qed

lemma fold_keep:
  "fold (\<lambda>(op, p). keep_frame (unat op, p)) fs R
    = R\<lparr>rd_binary := rd_binary R @ concat (map snd (filter (\<lambda>(op, p). op = (2 :: byte)) fs)),
        rd_texts := rd_texts R @ map (\<lambda>(op, p). utf8_replace p) (filter (\<lambda>(op, p). op = 1) fs)\<rparr>"
proof (induction fs arbitrary: R)
  case (Cons f fs)
  have "unat op = 2 \<longleftrightarrow> op = 2" "unat op = 1 \<longleftrightarrow> op = 1" for op :: byte
    by (simp_all add: word_unat_eq_iff)
  with Cons show ?case by (cases f) (simp add: keep_frame_def)
qed simp

lemma checker_frames:
  assumes "list_all2 (\<lambda>(op, p) frame. op < 16 \<and> mock_send_frame p op = Ok frame) fs frames"
    and "pending @ concat chunks = concat frames" "concat chunks \<noteq> []"
  shows "pump chunks \<lparr>rd_buf = pending, rd_binary = [], rd_texts = []\<rparr> =
    \<lparr>rd_buf = [], rd_binary = concat (map snd (filter (\<lambda>(op, p). op = 2) fs)),
     rd_texts = map (\<lambda>(op, p). utf8_replace p) (filter (\<lambda>(op, p). op = 1) fs)\<rparr>"
proof -
  let ?R = "\<lparr>rd_buf = [], rd_binary = [], rd_texts = []\<rparr>"
  have "drain R = R" if "rd_buf R = []" for R
    using that by (simp add: drain.simps [of R] take_frame_def)
  then show ?thesis
    using drain_frames [OF assms(1), where R = ?R and rest = "[]"] assms(2,3) by (simp add: pump_concat fold_keep del: concat_eq_Nil_conv)
qed

text \<open>
  Whatever frames the server sends and however the network cuts the stream (part of it may come
  in the packet that ends the HTTP head), the check's reader has, after the last packet, exactly the
  payloads of the binary frames in order, the text of every text frame in order, and nothing left.
\<close>

theorem checker_reads_frames:
  assumes "list_all2 (\<lambda>(op, p) frame. op < 16 \<and> mock_send_frame p op = Ok frame) fs frames"
    and "pending @ concat chunks = concat frames" "concat chunks \<noteq> []"
  shows "pump chunks \<lparr>rd_buf = pending, rd_binary = [], rd_texts = []\<rparr> =
    \<lparr>rd_buf = [], rd_binary = concat (map snd (filter (\<lambda>(op, p). op = 2) fs)),
     rd_texts = map (\<lambda>(op, p). utf8_replace p) (filter (\<lambda>(op, p). op = 1) fs)\<rparr>"
  using checker_frames [OF assms] .

section \<open>The mock and the server\<close>

text \<open>
  The mock grants exactly the request lines the server grants, for every token that is not
  empty, whatever the line holds: percent escapes, several fields, text beyond ASCII.
\<close>

theorem mock_token_agrees:
  assumes "expected \<noteq> []"
  shows "mock_token netloc_ok expected line = Ok True \<longleftrightarrow> verify_token netloc_ok expected line"
  using assms by (auto simp: mock_token_def verify_token_def Let_def split: list.splits option.splits if_splits)

text \<open>No shell and no answer but the refusal for a request line without the token.\<close>

lemma mock_handle_grants:
  assumes "snd (mock_handle sha1 netloc_ok expected s) \<noteq> []"
  obtains data s' where "mock_head s [] = Some (data, s')"
    "mock_token netloc_ok expected (hd (split_sub [13, 10] (map unat data))) = Ok True"
  using assms
  by (auto simp: mock_handle_def mock_handshake_def Let_def split: option.splits prod.splits sum.splits exn.splits bool.splits if_splits)

text \<open>A gate that looks for text it typed is satisfied by the terminal's echo of it.\<close>

lemma echo_passes_sigint_gate:
  assumes "sublist (b ''echo AFTER_INT'') (rd_binary R)"
  shows "saw ''AFTER_INT'' R"
proof -
  have "b ''echo AFTER_INT'' = b ''echo '' @ b ''AFTER_INT''" by simp
  then have "sublist (b ''AFTER_INT'') (b ''echo AFTER_INT'')" by (metis sublist_appendI append_Nil2)
  then show ?thesis using assms unfolding saw_def occurs_iff_sublist by (rule sublist_order.order_trans)
qed

section \<open>What a client of the mock sees\<close>

lemma find_sub_append: "find_sub pat xs = Some i \<Longrightarrow> find_sub pat (xs @ ys) = Some i"
proof -
  assume a: "find_sub pat xs = Some i"
  then have l: "i + length pat \<le> length xs" and "i \<le> length xs" and p: "prefix pat (drop i xs)"
    and n: "\<forall>j<i. \<not> prefix pat (drop j xs)"
    using find_sub_Some_split [OF a] by (auto simp: find_sub_eq_Some_iff)
  have "\<not> prefix pat (drop j (xs @ ys))" if "j < i" for j
  proof
    assume "prefix pat (drop j (xs @ ys))"
    then have "prefix pat (drop j xs @ ys)" using that l by simp
    moreover have "length pat \<le> length (drop j xs)" using that l by simp
    ultimately have "prefix pat (drop j xs)" by (auto simp: prefix_append prefix_length_prefix)
    with n that show False by blast
  qed
  with l p show ?thesis by (auto simp: find_sub_eq_Some_iff prefix_append)
qed

text \<open>A line without a carriage return, and its end, do not hold the end of the head.\<close>

lemma head_end_skip:
  assumes "13 \<notin> set l" "rest = [] \<or> hd rest \<noteq> 13"
  shows "find_sub (CRLF @ CRLF) (l @ CRLF @ rest) = map_option ((+) (length l + 2)) (find_sub (CRLF @ CRLF) rest)"
  using assms
proof (induction l)
  case Nil
  then have "\<not> prefix (CRLF @ CRLF) (CRLF @ rest)" "\<not> prefix (CRLF @ CRLF) (10 # rest)"
    by (auto simp: prefix_def)
  then show ?case by (cases "find_sub (CRLF @ CRLF) rest") simp_all
next
  case (Cons x l)
  then have "\<not> prefix (CRLF @ CRLF) (x # l @ CRLF @ rest)" by (auto simp: prefix_def)
  with Cons show ?case by (cases "find_sub (CRLF @ CRLF) rest") simp_all
qed

lemma head_end_found: "13 \<notin> set l \<Longrightarrow> find_sub (CRLF @ CRLF) (l @ CRLF @ CRLF @ r) = Some (length l)"
proof (induction l)
  case (Cons x l)
  then have "\<not> prefix (CRLF @ CRLF) (x # l @ CRLF @ CRLF @ r)" by (auto simp: prefix_def)
  with Cons show ?case by simp
qed simp

lemma base64_char_plain: "43 \<le> base64_char n \<and> base64_char n < 123"
  by (auto simp: base64_char_def)

lemma base64_plain: "c \<in> set (base64 xs) \<Longrightarrow> 43 \<le> c \<and> c < 123"
  by (induction xs rule: base64.induct) (auto simp: Let_def base64_char_plain)

definition session_value :: pyval where
  "session_value = PDict [(''type'', PStr ''sessions''), (''sessions'', PList [PDict [(''id'', PStr ''1''), (''busy'', PBool False)]]),
     (''active'', PStr ''1''), (''max'', PInt 8)]"

lemma unat_of_char: "unat (of_char c :: byte) = of_char c"
proof -
  have "(of_char c :: byte) = of_nat (of_char c)" by (simp add: of_nat_of_char)
  moreover have "of_char c < (256 :: nat)" using of_char_lt [of c] by simp
  ultimately show ?thesis by (metis mod_less unat_byte_of_nat)
qed

lemma ascii_decoded:
  assumes "ascii_text s"
  shows "utf8_replace (b s) = u s" "text_of (u s) = s"
proof -
  have sc: "\<forall>c \<in> set (u s). scalar c"
    using assms by (auto simp: u_def ascii_text_def scalar_def)
  have b: "b s = utf8_encode (u s)" using b_ascii [OF assms] by (simp add: u_def)
  show "utf8_replace (b s) = u s" using utf8_replace_encode [of "u s"] sc b by simp
  show "text_of (u s) = s" by (simp add: text_of_def b [symmetric]) (simp add: b_def comp_def unat_of_char)
qed

lemma strip_keeps_first: "\<not> sp x \<Longrightarrow> prefix [x] (strip_by sp (x # xs))"
  by (cases "\<exists>y \<in> set xs. \<not> sp y") (auto simp: strip_by_def dropWhile_append)

lemma session_frame_read:
  "json_loads (text_of (utf8_replace (sessions_frame ''1''))) = Ok session_value"
  "prefix [123] (strip_by py_space (utf8_replace (sessions_frame ''1'')))"
proof -
  have plain: "json_plain session_value" by (simp add: session_value_def)
  have f: "sessions_frame ''1'' = b (json_dumps session_value)" by (simp add: sessions_frame_def session_value_def)
  have a: "ascii_text (json_dumps session_value)" unfolding json_dumps_def by (rule ascii_json_print) (simp_all add: plain)
  show "json_loads (text_of (utf8_replace (sessions_frame ''1''))) = Ok session_value"
    by (simp add: f ascii_decoded [OF a] plain)
  obtain t where "json_dumps session_value = CHR ''{'' # t" by (simp add: session_value_def json_dumps_def)
  then have "utf8_replace (sessions_frame ''1'') = 123 # u t" using f ascii_decoded(1) [OF a] by simp
  then show "prefix [123] (strip_by py_space (utf8_replace (sessions_frame ''1'')))"
    using strip_keeps_first [of py_space 123 "u t"] by (simp add: py_space_def)
qed

lemma check_head_reads:
  assumes "[] \<notin> set chunks" "occurs (CRLF @ CRLF) (head @ concat chunks)"
  shows "\<exists>h r. check_head chunks head = (h, r) \<and> h @ concat r = head @ concat chunks \<and> occurs (CRLF @ CRLF) h \<and> set r \<subseteq> set chunks"
  using assms
proof (induction chunks arbitrary: head)
  case Nil
  then show ?case by simp
next
  case (Cons chunk chunks)
  show ?case
  proof (cases "occurs (CRLF @ CRLF) head")
    case True
    then show ?thesis by simp
  next
    case False
    with Cons.IH [of "head @ chunk"] Cons.prems show ?thesis by fastforce
  qed
qed

text \<open>The mock's answer to an upgrade ends the head, and says 101.\<close>

lemma upgrade_shape:
  "\<exists>hdr. mock_upgrade sha1 key = hdr @ CRLF @ CRLF \<and> find_sub (CRLF @ CRLF) (mock_upgrade sha1 key) = Some (length hdr) \<and>
     status_of hdr = Ok 101"
proof -
  let ?acc = "base64 (sha1 (utf8_encode (key @ GUID)))"
  let ?l1 = "b ''HTTP/1.1 101 Switching Protocols''" and ?l2 = "b ''Upgrade: websocket''"
  let ?l3 = "b ''Connection: Upgrade''" and ?l4 = "b ''Sec-WebSocket-Accept: '' @ utf8_encode ?acc"
  let ?hdr = "?l1 @ CRLF @ ?l2 @ CRLF @ ?l3 @ CRLF @ ?l4"
  have enc: "utf8_encode t = map of_nat t" if "\<forall>c \<in> set t. c < 128" for t
    using that by (induction t) (auto simp: utf8_enc1_def scalar_def)
  have acc: "13 \<notin> set (utf8_encode ?acc)"
  proof
    assume "13 \<in> set (utf8_encode ?acc)"
    moreover have "utf8_encode ?acc = map of_nat ?acc"
      using base64_plain by (intro enc) fastforce
    ultimately obtain c where c: "c \<in> set ?acc" "(of_nat c :: byte) = 13" by auto
    then have "unat (of_nat c :: byte) = 13" by simp
    with base64_plain [OF c(1)] show False by simp
  qed
  have u: "mock_upgrade sha1 key = ?hdr @ CRLF @ CRLF" by (simp add: mock_upgrade_def)
  have f4: "find_sub (CRLF @ CRLF) (?l4 @ CRLF @ CRLF) = Some (length ?l4)"
    using head_end_found [of ?l4 "[]"] acc by simp
  have skip: "find_sub (CRLF @ CRLF) (l @ CRLF @ r) = Some (length l + 2 + n)"
    if "13 \<notin> set l" "r = [] \<or> hd r \<noteq> 13" "find_sub (CRLF @ CRLF) r = Some n" for l r :: bytes and n
    using head_end_skip [OF that(1,2)] that(3) by simp
  have f3: "find_sub (CRLF @ CRLF) (?l3 @ CRLF @ ?l4 @ CRLF @ CRLF) = Some (length ?l3 + 2 + length ?l4)"
    by (rule skip [OF _ _ f4]) simp_all
  have f2: "find_sub (CRLF @ CRLF) (?l2 @ CRLF @ ?l3 @ CRLF @ ?l4 @ CRLF @ CRLF) = Some (length ?l2 + 2 + (length ?l3 + 2 + length ?l4))"
    by (rule skip [OF _ _ f3]) simp_all
  have f1: "find_sub (CRLF @ CRLF) (?l1 @ CRLF @ ?l2 @ CRLF @ ?l3 @ CRLF @ ?l4 @ CRLF @ CRLF)
      = Some (length ?l1 + 2 + (length ?l2 + 2 + (length ?l3 + 2 + length ?l4)))"
    by (rule skip [OF _ _ f2]) simp_all
  have "mock_upgrade sha1 key = ?l1 @ CRLF @ ?l2 @ CRLF @ ?l3 @ CRLF @ ?l4 @ CRLF @ CRLF"
    by (simp only: u append_assoc)
  moreover have "length ?l1 + 2 + (length ?l2 + 2 + (length ?l3 + 2 + length ?l4)) = length ?hdr" by simp
  ultimately have fs: "find_sub (CRLF @ CRLF) (mock_upgrade sha1 key) = Some (length ?hdr)" using f1 by simp
  have "status_of ?hdr = Ok 101"
  proof -
    have sp: "\<exists>ws. split_on 32 (w @ 32 # ys) = w # ws \<and> ws = split_on 32 ys" if "32 \<notin> set w" for w ys :: bytes
      using that by (induction w) auto
    have "?hdr = b ''HTTP/1.1'' @ 32 # b ''101'' @ 32 # b ''Switching Protocols'' @ CRLF @ ?l2 @ CRLF @ ?l3 @ CRLF @ ?l4"
      by simp
    moreover have "py_int (PStr (map (\<lambda>x. char_of (unat x)) (b ''101''))) = Ok 101" by code_simp
    ultimately show ?thesis
      using sp [of "b ''HTTP/1.1''" "b ''101'' @ 32 # b ''Switching Protocols'' @ CRLF @ ?l2 @ CRLF @ ?l3 @ CRLF @ ?l4"]
        sp [of "b ''101''" "b ''Switching Protocols'' @ CRLF @ ?l2 @ CRLF @ ?l3 @ CRLF @ ?l4"]
      by (simp add: status_of_def del: split_on.simps b_Cons) (simp del: split_on.simps)
  qed
  with u fs show ?thesis by blast
qed

lemma connect_upgraded:
  assumes "[] \<notin> set good" "concat good = mock_upgrade sha1 key @ sent"
  shows "\<exists>pending rest. ws_connect good = Ok (101, pending, rest) \<and> pending @ concat rest = sent"
proof -
  obtain hdr where h: "mock_upgrade sha1 key = hdr @ CRLF @ CRLF" "status_of hdr = Ok 101"
    "find_sub (CRLF @ CRLF) (mock_upgrade sha1 key) = Some (length hdr)"
    using upgrade_shape by blast
  have f: "find_sub (CRLF @ CRLF) (concat good) = Some (length hdr)"
    using find_sub_append [OF h(3)] assms(2) by simp
  then have "occurs (CRLF @ CRLF) ([] @ concat good)" by (simp add: occurs_def)
  then obtain head rest where hr: "check_head good [] = (head, rest)" "head @ concat rest = concat good" "occurs (CRLF @ CRLF) head"
    using check_head_reads [OF assms(1), of "[]"] by auto
  then obtain i where i: "find_sub (CRLF @ CRLF) head = Some i" by (auto simp: occurs_def)
  then have "i = length hdr" using find_sub_append [OF i, of "concat rest"] hr(2) f by simp
  moreover have "take (length hdr) (concat good) = hdr" "drop (length hdr + 4) (concat good) = sent"
    using assms(2) h(1) by simp_all
  moreover have "length hdr + 4 \<le> length head" using find_sub_Some_split [OF i] calculation(1) by simp
  ultimately have "split_once (CRLF @ CRLF) head = (hdr, Some (drop (length hdr + 4) head))"
      "drop (length hdr + 4) head @ concat rest = sent"
    using i hr(2) [symmetric] by (simp_all add: split_once_def eval_nat_numeral)
  with hr(1) h(2) show ?thesis by (simp add: ws_connect_def)
qed


text \<open>
  The exit code of the check is 0 exactly when every gate it reports passed, and a check that
  ends normally reports the gate for a wrong token first, then the one for the right token; when that
  one fails nothing else is tried.
\<close>

theorem check_exit_code:
  assumes "protocol_check O1 = Ok (cs, code)"
  shows "(code = 0 \<longleftrightarrow> list_all snd cs) \<and> map fst (take 2 cs) = [''auth1-bad-token-401'', ''auth2-good-token-101''] \<and>
    (length cs = 2 \<longrightarrow> code = 1)"
proof -
  have exit: "check_exit xs = 0 \<longleftrightarrow> list_all snd xs" for xs
  proof -
    have "length (filter snd xs) = length xs \<longleftrightarrow> list_all snd xs"
      by (metis filter_True filter_id_conv length_filter_less less_irrefl list_all_iff)
    then show ?thesis by (simp add: check_exit_def)
  qed
  obtain bad x y status pending rest where c: "ws_connect (ob_bad O1) = Ok (bad, x, y)"
    "ws_connect (ob_good O1) = Ok (status, pending, rest)"
    using assms by (auto simp: protocol_check_def bind_r_Ok Let_def)
  show ?thesis
  proof (cases "status = 101")
    case False
    with assms c show ?thesis by (auto simp: protocol_check_def Let_def)
  next
    case True
    let ?R = "pump (rest @ ob_replay O1) \<lparr>rd_buf = pending, rd_binary = [], rd_texts = []\<rparr>"
    obtain g where g: "cs = (''auth1-bad-token-401'', bad = 0 \<or> bad = 401) # (''auth2-good-token-101'', True) # g @ live_checks O1 ?R"
      "code = check_exit cs"
      using assms c True by (auto simp: protocol_check_def Let_def bind_r_Ok)
    have "live_checks O1 ?R \<noteq> []" by (simp add: live_checks_def Let_def)
    with g exit [of cs] show ?thesis by simp
  qed
qed

section \<open>Concrete runs\<close>

theorem checker_reads_frames_witness:
  "pump [[1], [104, 129, 1], [105]] \<lparr>rd_buf = [130], rd_binary = [], rd_texts = []\<rparr>
    = \<lparr>rd_buf = [], rd_binary = [104], rd_texts = [[105]]\<rparr>"
proof -
  have f: "list_all2 (\<lambda>(op, p) frame. op < 16 \<and> mock_send_frame p op = Ok frame) [(2, [104]), (1, [105])] [[130, 1, 104], [129, 1, 105]]"
    by (simp add: mock_send_frame_def frame_header_def)
  have "utf8_replace [105] = [105]" by (simp add: utf8_replace_def utf8_step_def)
  then show ?thesis
    using checker_reads_frames [OF f, of "[130]" "[[1], [104, 129, 1], [105]]"] by simp
qed

theorem mock_token_agrees_witness: "mock_token (\<lambda>_. True) (u ''k'') (u ''GET /?token=k'') = Ok True"
  using mock_token_agrees [of "u ''k''"] token_granted by simp

definition demo_request :: sock where
  "demo_request = \<lparr>sk_in = b ''GET /?token=k'' @ CRLF @ b ''sec-websocket-key:a'' @ CRLF @ CRLF, sk_sched = []\<rparr>"

lemma demo_head: "mock_head demo_request [] = Some (sk_in demo_request, demo_request\<lparr>sk_in := []\<rparr>)"
proof -
  have "occurs (CRLF @ CRLF) (sk_in demo_request)"
    by (simp add: demo_request_def occurs_def)
  moreover have "sock_recv 4096 demo_request = (sk_in demo_request, demo_request\<lparr>sk_in := []\<rparr>)"
    by (simp add: sock_recv_def demo_request_def)
  moreover have "sk_in demo_request \<noteq> []" "\<not> occurs (CRLF @ CRLF) ([] :: bytes)"
    by (simp_all add: demo_request_def occurs_def)
  ultimately show ?thesis by (simp add: mock_head.simps [of demo_request "[]"] mock_head.simps [of _ "sk_in demo_request"])
qed

lemma demo_lines: "split_sub [13, 10] (map unat (sk_in demo_request)) = [u ''GET /?token=k'', u ''sec-websocket-key:a'', [], []]"
  by (simp add: demo_request_def split_sub.simps)

lemma demo_key: "mock_key [u ''GET /?token=k'', u ''sec-websocket-key:a'', [], []] = u ''a''"
  by (simp add: mock_key_def ascii_lower_def split_once_def strip_by_def py_space_def)

lemma demo_upgraded: "fst (mock_handshake (\<lambda>_. []) (\<lambda>_. True) (u ''k'') demo_request) = Ok (Upgraded (mock_upgrade (\<lambda>_. []) (u ''a'')))"
proof -
  have "mock_token (\<lambda>_. True) (u ''k'') (u ''GET /?token=k'') = Ok True"
    using token_granted by (auto simp: mock_token_def verify_token_def Let_def split: list.splits option.splits)
  then show ?thesis
    by (simp only: mock_handshake_def demo_head option.case prod.case demo_lines Let_def list.sel fst_conv sum.case demo_key)
      (simp add: demo_key)
qed


theorem check_exit_code_witness:
  "\<exists>cs. protocol_check \<lparr>ob_bad = [], ob_good = [], ob_replay = [], ob_resize = [], ob_input = [], ob_sigint = [], ob_list = []\<rparr>
      = Ok (cs, 1) \<and> \<not> list_all snd cs"
proof -
  have "protocol_check \<lparr>ob_bad = [], ob_good = [], ob_replay = [], ob_resize = [], ob_input = [], ob_sigint = [], ob_list = []\<rparr>
      = Ok ([(''auth1-bad-token-401'', True), (''auth2-good-token-101'', False)], 1)"
    by code_simp
  with check_exit_code [OF this] show ?thesis by auto
qed

end
