(* ===== verification/ProotBuild.thy ===== *)
theory ProotBuild
  imports LinuxInstall
begin

text \<open>
  The build script of the guest launcher, \<open>scripts/build_proot_android.py\<close>: finding the NDK,
  fetching the pinned sources, the tool invocations per ABI, the rewrite of talloc's recorded names
  and the check of every library before it is packaged.  The tools, the network and the gzip tar
  format are parameters of \<open>builder\<close>.  \<open>SystemExit\<close> and \<open>CalledProcessError\<close> leave the
  functions as errors with their text; no handler here would tell them from others.
\<close>

section \<open>The machine it runs on\<close>

text \<open>
  A tool gets its words, the directory it runs in and its environment, may change files, and ends
  with an exit code and its output; \<open>llvm-readelf\<close> only reads.
\<close>

type_synonym toolrun = "string list \<Rightarrow> path option \<Rightarrow> environ \<Rightarrow> (int \<times> string) io"

record builder =
  bd_env :: environ
  bd_home :: path
  bd_platform :: string
  bd_cpus :: "nat option"
  bd_temp :: path
  bd_depth :: nat
  bd_tool :: toolrun
  bd_readelf :: "path \<Rightarrow> path \<Rightarrow> fsys \<Rightarrow> exn + int \<times> string"
  bd_fetch :: "string \<Rightarrow> exn + response"
  bd_untar :: untar

definition SystemExit :: "string \<Rightarrow> exn" where "SystemExit m = RuntimeError m"

definition CalledProcessError :: "int \<Rightarrow> exn" where
  "CalledProcessError code = RuntimeError (''Command returned non-zero exit status '' @ int_str code)"

definition PROOT_COMMIT :: string where "PROOT_COMMIT = ''a89b3732ec6ae1db674510f0843b2f3db54d0a2f''"
definition TALLOC_TAG :: string where "TALLOC_TAG = ''2.4.2-1deepin1''"
definition MIN_API :: nat where "MIN_API = 26"

definition ABI_TRIPLES :: "string \<Rightarrow> string option" where
  "ABI_TRIPLES = [''armeabi-v7a'' \<mapsto> ''armv7a-linux-androideabi'', ''arm64-v8a'' \<mapsto> ''aarch64-linux-android'']"

definition LOADER32_ABI :: "string \<Rightarrow> string option option" where
  "LOADER32_ABI = [''arm64-v8a'' \<mapsto> Some ''armeabi-v7a'', ''armeabi-v7a'' \<mapsto> None]"

definition TALLOC_NEEDED :: bytes where "TALLOC_NEEDED = b ''libtalloc.so.2''"
definition TALLOC_NEEDED_REPLACEMENT :: bytes where "TALLOC_NEEDED_REPLACEMENT = b ''libtalloc.so'' @ [0, 0]"

definition ANDROID_SYSTEM_LIBS :: "string set" where
  "ANDROID_SYSTEM_LIBS = {''libc.so'', ''libm.so'', ''libdl.so'', ''liblog.so'', ''libpthread.so'', ''libstdc++.so''}"

text \<open>A dictionary access that may raise \<open>KeyError\<close>.\<close>

definition key_of :: "(string \<Rightarrow> 'a option) \<Rightarrow> string \<Rightarrow> 'a io" where
  "key_of D k = (case D k of None \<Rightarrow> raise KeyError | Some x \<Rightarrow> ret x)"

definition run_tool :: "builder \<Rightarrow> string list \<Rightarrow> path option \<Rightarrow> environ \<Rightarrow> string io" where
  "run_tool B cmd cwd env =
     bind_io (bd_tool B cmd cwd env) (\<lambda>(code, out). if code \<noteq> 0 then raise (CalledProcessError code) else ret out)"

definition run :: "builder \<Rightarrow> string list \<Rightarrow> path option \<Rightarrow> environ \<Rightarrow> unit io" where
  "run B cmd cwd env =
     seq_io (emit (''+ '' @ join_with '' '' cmd)) (bind_io (run_tool B cmd cwd env) (\<lambda>_. ret ()))"

section \<open>Trees of files\<close>

text \<open>\<open>shutil.rmtree\<close>: the first entry that cannot be removed ends it.\<close>

definition remove_entry :: "path \<Rightarrow> unit io" where
  "remove_entry p = bind_io (lift (\<lambda>F. lstat F p)) (\<lambda>n. if is_dirnode n then rmdir p else unlink p)"

definition rmtree :: "path \<Rightarrow> unit io" where
  "rmtree p =
     bind_io (lift (\<lambda>F. lstat F p)) (\<lambda>n.
       if is_dirnode n then bind_io (ask (descendants p)) (\<lambda>ps. seq_io (each_io remove_entry ps) (rmdir p))
       else raise (OSError ''Not a directory''))"

text \<open>
  \<open>shutil.copytree\<close>: the entries are listed before the new directory is made, links are followed,
  and errors are collected and raised at the end.  The depth is the recursion limit.
\<close>

fun copy_entries :: "('a \<Rightarrow> unit io) \<Rightarrow> 'a list \<Rightarrow> bool \<Rightarrow> bool io" where
  "copy_entries f [] failed = ret failed"
| "copy_entries f (x # xs) failed =
     bind_io (try_io (seq_io (f x) (ret failed)) (\<lambda>e. if is_oserror e then ret True else raise e)) (copy_entries f xs)"

fun copytree :: "nat \<Rightarrow> path \<Rightarrow> path \<Rightarrow> unit io" where
  "copytree 0 p q = raise (RuntimeError ''maximum recursion depth exceeded'')"
| "copytree (Suc n) p q =
     bind_io (iterdir p) (\<lambda>nms.
     seq_io (mkdir_fresh q)
    (bind_io (copy_entries (\<lambda>nm. bind_io (ask (\<lambda>F. is_dir F (child p nm))) (\<lambda>d.
         if d then copytree n (child p nm) (child q nm) else copy_file (child p nm) (child q nm))) nms False) (\<lambda>failed.
     bind_io (lift (\<lambda>F. stat F p)) (\<lambda>nd.
     seq_io (chmod q (mode_of nd))
       (if failed then raise (OSError ''copytree'') else ret ())))))"

text \<open>\<open>Path.glob\<close> with a pattern for the start or the end of a name; sorted.\<close>

definition glob_names :: "(string \<Rightarrow> bool) \<Rightarrow> path \<Rightarrow> fsys \<Rightarrow> string list" where
  "glob_names ok p F = (case fst (iterdir p F) of Err _ \<Rightarrow> [] | Ok nms \<Rightarrow> filter ok nms)"

definition so_names :: "path \<Rightarrow> fsys \<Rightarrow> string list" where
  "so_names = glob_names (\<lambda>nm. endswith nm ''.so'')"

section \<open>Sources and tools\<close>

definition fetch_to :: "builder \<Rightarrow> string \<Rightarrow> path \<Rightarrow> path io" where
  "fetch_to B url dest =
     seq_io (mkdir_parents (parent_path dest))
    (seq_io (emit (''[download] '' @ url))
    (bind_io (lift (\<lambda>F. bd_fetch B url)) (\<lambda>r.
     seq_io (write_content dest (Binary (concat (takeWhile (\<lambda>c. c \<noteq> []) (rp_chunks r)))))
       (case rp_end r of None \<Rightarrow> ret dest | Some e \<Rightarrow> raise e))))"

definition unpack :: "builder \<Rightarrow> path \<Rightarrow> path \<Rightarrow> path io" where
  "unpack B archive dest =
     seq_io (mkdir_parents dest)
    (bind_io (read_bytes archive) (\<lambda>bs.
     bind_io (lift (\<lambda>F. bd_untar B bs)) (\<lambda>ms.
     seq_io (extractall dest ms)
    (bind_io (iterdir dest) (\<lambda>nms.
       ask (\<lambda>F. case nms of [nm] \<Rightarrow> if is_dir F (child dest nm) then child dest nm else dest | _ \<Rightarrow> dest))))))"

definition has_llvm :: "fsys \<Rightarrow> path \<Rightarrow> bool" where
  "has_llvm F p = is_dir F (child (child p ''toolchains'') ''llvm'')"

definition ndk_bases :: "builder \<Rightarrow> path list" where
  "ndk_bases B = [child (child (child (bd_home B) ''.buildozer'') ''android'') ''platform'',
     child (child (bd_home B) ''Android'') ''Sdk'', child (child (bd_home B) ''Android'') ''sdk'']"

definition ndk_candidates :: "builder \<Rightarrow> fsys \<Rightarrow> path list" where
  "ndk_candidates B F =
     map to_path (filter (\<lambda>v. v \<noteq> '''') (map (\<lambda>k. env_get (bd_env B) k '''') [''ANDROID_NDK_HOME'', ''ANDROID_NDK_ROOT'', ''ANDROID_HOME'']))
     @ concat (map (\<lambda>base. map (child base) (rev (glob_names (\<lambda>nm. startswith nm ''android-ndk-'') base F))) (ndk_bases B))"

definition find_ndk :: "builder \<Rightarrow> string option \<Rightarrow> fsys \<Rightarrow> exn + path" where
  "find_ndk B explicit F =
     (case explicit of
        Some (c # s) \<Rightarrow> resolve_path F (to_path (c # s))
      | _ \<Rightarrow> (case find (has_llvm F) (ndk_candidates B F) of
            Some p \<Rightarrow> Ok p
          | None \<Rightarrow> Err (SystemExit ''NDK not found: pass --ndk or set ANDROID_NDK_HOME'')))"

definition toolchain :: "builder \<Rightarrow> path \<Rightarrow> fsys \<Rightarrow> exn + path" where
  "toolchain B ndk F =
     (case find (is_dir F) (map (\<lambda>tag. foldl child ndk [''toolchains'', ''llvm'', ''prebuilt'', tag, ''bin''])
          [bd_platform B @ ''-x86_64'', ''linux-x86_64'', ''darwin-x86_64'']) of
        Some p \<Rightarrow> Ok p
      | None \<Rightarrow> Err (SystemExit (''no llvm prebuilt toolchain under '' @ path_str ndk)))"

definition tool :: "path \<Rightarrow> string \<Rightarrow> string" where "tool tc nm = path_str (child tc nm)"

definition clang :: "path \<Rightarrow> string \<Rightarrow> string" where
  "clang tc triple = tool tc (triple @ nat_str MIN_API @ ''-clang'')"


section \<open>Building for one ABI\<close>

definition quoted :: "string \<Rightarrow> string" where "quoted s = CHR 0x22 # s @ [CHR 0x22]"

definition CROSS_ANSWERS :: string where
  "CROSS_ANSWERS = unlines
     ([''Checking uname sysname type: '' @ quoted ''Linux'', ''Checking uname machine type: '' @ quoted ''dontcare'',
       ''Checking uname release type: '' @ quoted ''dontcare'', ''Checking uname version type: '' @ quoted ''dontcare'']
      @ [''Checking simple C program: OK'', ''building library support: OK'', ''Checking for large file support: OK'',
       ''Checking for -D_FILE_OFFSET_BITS=64: OK'', ''Checking for WORDS_BIGENDIAN: OK'', ''Checking for C99 vsnprintf: OK'',
       ''Checking for HAVE_SECURE_MKSTEMP: OK'', ''rpath library support: OK'', ''-Wl,--version-script support: FAIL'',
       ''Checking correct behavior of strtoll: OK'', ''Checking correct behavior of strptime: OK'',
       ''Checking for HAVE_IFACE_GETIFADDRS: OK'', ''Checking for HAVE_IFACE_IFCONF: OK'', ''Checking for HAVE_IFACE_IFREQ: OK'',
       ''Checking getconf LFS_CFLAGS: OK'', ''Checking for large file support without additional flags: OK'',
       ''Checking for working strptime: OK'', ''Checking for HAVE_SHARED_MMAP: OK'', ''Checking for HAVE_MREMAP: OK'',
       ''Checking for HAVE_INCOHERENT_MMAP: OK'', ''Checking getconf large file support flags work: OK''])"

definition names :: "path \<Rightarrow> string list \<Rightarrow> path" where "names p ws = foldl child p ws"

text \<open>A fresh copy of the sources to build in; it lies inside them.\<close>

definition fresh_copy :: "builder \<Rightarrow> path \<Rightarrow> path \<Rightarrow> unit io" where
  "fresh_copy B src build =
     bind_io (ask (\<lambda>F. path_exists F build)) (\<lambda>ex.
     seq_io (if ex then rmtree build else ret ()) (copytree (bd_depth B) src build))"

definition build_talloc :: "builder \<Rightarrow> path \<Rightarrow> path \<Rightarrow> string \<Rightarrow> path \<Rightarrow> int \<Rightarrow> unit io" where
  "build_talloc B src tc abi sysroot jobs =
     bind_io (key_of ABI_TRIPLES abi) (\<lambda>triple.
     bind_io (ask (\<lambda>F. is_file F (names sysroot [''lib'', ''libtalloc.so'']))) (\<lambda>have.
       if have then emit (''[talloc/'' @ abi @ ''] already built, skipping'')
       else let build = child src (''build-talloc-'' @ abi);
                env = env_update (bd_env B) [(''CC'', clang tc triple), (''AR'', tool tc ''llvm-ar''),
                  (''RANLIB'', tool tc ''llvm-ranlib''), (''STRIP'', tool tc ''llvm-strip'')]
            in seq_io (fresh_copy B src build)
              (seq_io (write_text (child build ''cross-answers.txt'') CROSS_ANSWERS)
              (seq_io (run B [''./configure'', ''--prefix'', path_str sysroot, ''--disable-rpath'', ''--disable-python'',
                  ''--cross-compile'', ''--cross-answers=cross-answers.txt''] (Some build) env)
              (seq_io (run B [''make'', ''-j'', int_str jobs] (Some build) env)
                 (run B [''make'', ''install''] (Some build) env))))))"

definition drop_loader32 :: "string \<Rightarrow> string" where
  "drop_loader32 header =
     join_with LF1 (filter (\<lambda>l. \<not> contains l ''HAS_LOADER_32BIT'') (splitlines header)) @ LF1"

text \<open>The outputs: the launcher, then whichever place the loader was left in, and talloc; then stripped.\<close>

definition collect_outputs :: "builder \<Rightarrow> path \<Rightarrow> path \<Rightarrow> path \<Rightarrow> path \<Rightarrow> unit io" where
  "collect_outputs B tc build sysroot out =
     (let proot = names build [''src'', ''proot''];
          candidates = [names build [''src'', ''loader'', ''loader''], names build [''src'', ''loader-out'', ''loader'']]
      in bind_io (ask (\<lambda>F. is_file F proot)) (\<lambda>have.
           if \<not> have then raise (SystemExit (''build did not produce '' @ path_str proot))
           else seq_io (copy_file proot (child out ''libproot.so''))
             (bind_io (ask (\<lambda>F. find (is_file F) candidates)) (\<lambda>found. case found of
                None \<Rightarrow> raise (SystemExit (''build did not produce a loader ELF (looked in: ''
                    @ join_with '', '' (map path_str candidates) @ '')''))
              | Some loader \<Rightarrow>
                  seq_io (copy_file loader (child out ''libproot-loader.so''))
                    (seq_io (copy_file (names sysroot [''lib'', ''libtalloc.so'']) (child out ''libtalloc.so''))
                       (each_io (\<lambda>nm. run B [tool tc ''llvm-strip'', path_str (child out nm)] None (bd_env B))
                          [''libproot.so'', ''libproot-loader.so'', ''libtalloc.so'']))))))"

definition build_proot :: "builder \<Rightarrow> path \<Rightarrow> path \<Rightarrow> string \<Rightarrow> path \<Rightarrow> int \<Rightarrow> (path \<times> path \<times> path) io" where
  "build_proot B src tc abi sysroot jobs =
     bind_io (key_of ABI_TRIPLES abi) (\<lambda>triple.
     let build = child src (''build-proot-'' @ abi);
         arch_h = names build [''src'', ''arch.h''];
         tmp_bin = child build ''bin'';
         loader_dir = child build ''loader-out'';
         out = child build ''out'';
         env = env_update (bd_env B) [(''CC'', clang tc triple), (''LD'', clang tc triple),
           (''STRIP'', tool tc ''llvm-strip''), (''OBJCOPY'', tool tc ''llvm-objcopy''), (''OBJDUMP'', tool tc ''llvm-objdump''),
           (''CFLAGS'', ''-DARG_MAX=131072 -I'' @ path_str sysroot @ ''/include ''
              @ ''-Wno-error=implicit-function-declaration -Wno-error=int-conversion''),
           (''LDFLAGS'', ''-L'' @ path_str sysroot @ ''/lib''),
           (''PATH'', path_str tmp_bin @ '':'' @ env_get (bd_env B) ''PATH'' '''')]
     in seq_io (fresh_copy B src build)
       (bind_io (read_text arch_h) (\<lambda>header.
        seq_io (write_text arch_h (drop_loader32 header))
       (seq_io (mkdir_parents tmp_bin)
       (bind_io (ask (\<lambda>F. path_exists F (child tmp_bin ''readelf''))) (\<lambda>have.
        seq_io (if have then ret () else symlink_to (child tmp_bin ''readelf'') (tool tc ''llvm-readelf''))
       (seq_io (run B [''make'', ''-C'', ''src'', ''PROOT_UNBUNDLE_LOADER=loader-out'', ''-j'', int_str jobs] (Some build) env)
       (seq_io (mkdir_parents out)
       (seq_io (collect_outputs B tc build sysroot out)
          (ret (build, out, loader_dir)))))))))))"

text \<open>The load address of the 32-bit loader: the last word of the first line that defines it.\<close>

definition loader_address :: "string \<Rightarrow> string option" where
  "loader_address macros =
     map_option (\<lambda>l. last (str_split l)) (find (\<lambda>l. contains l ''LOADER_ADDRESS'') (splitlines macros))"

definition build_loader32 :: "builder \<Rightarrow> path \<Rightarrow> path \<Rightarrow> string \<Rightarrow> path \<Rightarrow> unit io" where
  "build_loader32 B proot_build tc abi out =
     bind_io (key_of LOADER32_ABI abi) (\<lambda>abi32. case abi32 of
       None \<Rightarrow> ret ()
     | Some a \<Rightarrow>
         bind_io (key_of ABI_TRIPLES a) (\<lambda>triple.
         let cc = clang tc triple; src = child proot_build ''src''; inc = ''-I'' @ path_str src;
             lib = path_str (child out ''libproot-loader32.so'');
             obj = path_str (child proot_build (''loader32-'' @ abi @ ''.o''));
             asm = path_str (child proot_build (''assembly32-'' @ abi @ ''.o''));
             go = (\<lambda>cmd. run B cmd None (bd_env B))
         in bind_io (run_tool B [cc, ''-dM'', ''-E'', ''-x'', ''c'', path_str (child src ''arch.h'')] None (bd_env B)) (\<lambda>macros.
            case loader_address macros of
              None \<Rightarrow> emit (''[loader32/'' @ abi @ ''] WARNING: no LOADER_ADDRESS, skipping'')
            | Some addr \<Rightarrow>
                seq_io (emit (''[loader32/'' @ abi @ ''] LOADER_ADDRESS='' @ addr))
               (seq_io (go [cc, ''-DLOADER_ADDRESS='' @ addr, inc, ''-Wall'', ''-Wextra'', ''-O2'', ''-fPIC'', ''-ffreestanding'',
                    ''-c'', path_str (names src [''loader'', ''loader.c'']), ''-o'', obj])
               (seq_io (go [cc, inc, ''-c'', path_str (names src [''loader'', ''assembly.S'']), ''-o'', asm])
               (seq_io (go [cc, ''-static'', ''-nostdlib'', ''-Wl,-N'', ''-Wl,-Ttext='' @ addr, ''-o'', lib, obj, asm])
                  (go [tool tc ''llvm-strip'', lib])))))))"

section \<open>The recorded names\<close>

text \<open>\<open>bytes.count\<close> and \<open>bytes.replace\<close>: occurrences from the left, without overlap.\<close>

function replace_bytes :: "'a list \<Rightarrow> 'a list \<Rightarrow> 'a list \<Rightarrow> 'a list" where
  "replace_bytes pat rep xs =
     (case xs of [] \<Rightarrow> []
      | y # ys \<Rightarrow> if pat \<noteq> [] \<and> prefix pat xs then rep @ replace_bytes pat rep (drop (length pat) xs)
                 else y # replace_bytes pat rep ys)"
  by pat_completeness auto
termination by (relation "measure (\<lambda>(pat, rep, xs). length xs)") auto

function count_bytes :: "'a list \<Rightarrow> 'a list \<Rightarrow> nat" where
  "count_bytes pat xs =
     (case xs of [] \<Rightarrow> 0
      | y # ys \<Rightarrow> if pat \<noteq> [] \<and> prefix pat xs then Suc (count_bytes pat (drop (length pat) xs))
                 else count_bytes pat ys)"
  by pat_completeness auto
termination by (relation "measure (\<lambda>(pat, xs). length xs)") auto

declare replace_bytes.simps [simp del] count_bytes.simps [simp del]

definition patched :: "bytes \<Rightarrow> bytes" where
  "patched data = replace_bytes TALLOC_NEEDED TALLOC_NEEDED_REPLACEMENT data"

definition patch_file :: "path \<Rightarrow> string \<Rightarrow> unit io" where
  "patch_file out nm =
     bind_io (ask (\<lambda>F. is_file F (child out nm))) (\<lambda>have.
       if \<not> have then ret ()
       else bind_io (read_bytes (child out nm)) (\<lambda>data.
         let count = count_bytes TALLOC_NEEDED data in
         if count = 0 then ret ()
         else if length (patched data) \<noteq> length data then
           raise (SystemExit (''[patch] '' @ nm @ '': FAILED '' @ EMDASH @ '' replacement changed the file size (''
             @ nat_str (length data) @ '' -> '' @ nat_str (length (patched data)) @ '' bytes). The talloc NEEDED ''
             @ ''rewrite must preserve byte length; refusing to ship a corrupted binary.''))
         else seq_io (write_content (child out nm) (content_of_bytes (patched data)))
           (emit (''[patch] '' @ nm @ '': rewrote '' @ nat_str count @ [CHR 0xC3, CHR 0x97, CHR 0x20, SQ]
              @ ''libtalloc.so.2'' @ [SQ] @ '' -> '' @ [SQ] @ ''libtalloc.so'' @ [SQ] @ '' (SONAME/DT_NEEDED)''))))"

definition patch_talloc_names :: "path \<Rightarrow> unit io" where
  "patch_talloc_names out = each_io (patch_file out) [''libproot.so'', ''libtalloc.so'']"

section \<open>What readelf says\<close>

text \<open>The group \<open>[^\]]+\<close> with the bracket that ends it.\<close>

definition bracket_group :: "string \<Rightarrow> (string \<times> string) option" where
  "bracket_group s =
     (let g = takeWhile (\<lambda>c. c \<noteq> CHR '']'') s; r = dropWhile (\<lambda>c. c \<noteq> CHR '']'') s
      in if g = [] \<or> r = [] then None else Some (g, tl r))"

definition NEEDED_OPEN :: string where "NEEDED_OPEN = ''Shared library: [''"

text \<open>\<open>_NEEDED_RE.search\<close>, with what follows the match, and \<open>findall\<close>.\<close>

fun needed_search :: "string \<Rightarrow> (string \<times> string) option" where
  "needed_search [] = None"
| "needed_search (c # cs) =
     (case if prefix NEEDED_OPEN (c # cs) then bracket_group (drop (length NEEDED_OPEN) (c # cs)) else None of
        Some m \<Rightarrow> Some m
      | None \<Rightarrow> needed_search cs)"

lemma bracket_group_shrinks: "bracket_group s = Some (g, r) \<Longrightarrow> length r < length s"
proof -
  assume a: "bracket_group s = Some (g, r)"
  let ?d = "dropWhile (\<lambda>c. c \<noteq> CHR '']'') s"
  from a have r: "r = tl ?d" and ne: "?d \<noteq> []" by (auto simp: bracket_group_def Let_def split: if_splits)
  have "length r < length ?d" using ne unfolding r by (cases ?d) simp_all
  then show ?thesis using length_dropWhile_le [of "\<lambda>c. c \<noteq> CHR '']''" s] by simp
qed

lemma needed_search_shrinks: "needed_search s = Some (g, r) \<Longrightarrow> length r < length s"
proof (induction s)
  case (Cons c cs)
  then show ?case
    using bracket_group_shrinks [of "drop (length NEEDED_OPEN) (c # cs)" g r]
    by (auto split: option.splits if_splits)
qed simp

function needed_findall :: "string \<Rightarrow> string list" where
  "needed_findall s = (case needed_search s of None \<Rightarrow> [] | Some (g, r) \<Rightarrow> g # needed_findall r)"
  by pat_completeness auto
termination by (relation "measure length") (auto dest: needed_search_shrinks)

declare needed_findall.simps [simp del]

text \<open>\<open>SONAME.*\[([^\]]+)\]\<close>: the last bracket on the line that closes.\<close>

fun last_bracket :: "string \<Rightarrow> string option" where
  "last_bracket [] = None"
| "last_bracket (c # cs) =
     (if c = CHR 0x0A then None
      else case last_bracket cs of
        Some g \<Rightarrow> Some g
      | None \<Rightarrow> if c = CHR ''['' then map_option fst (bracket_group cs) else None)"

fun soname_search :: "string \<Rightarrow> string option" where
  "soname_search [] = None"
| "soname_search (c # cs) =
     (case if prefix ''SONAME'' (c # cs) then last_bracket (drop 6 (c # cs)) else None of
        Some g \<Rightarrow> Some g
      | None \<Rightarrow> soname_search cs)"

section \<open>The check before packaging\<close>

text \<open>What one library lacks; a file \<open>readelf\<close> gives up on has no dynamic section.\<close>

definition lib_problems :: "string list \<Rightarrow> string \<Rightarrow> string \<Rightarrow> string list" where
  "lib_problems shipped nm listing =
     concat (map (\<lambda>l. case needed_search l of
          None \<Rightarrow> []
        | Some (needed, _) \<Rightarrow>
            if needed \<in> set shipped \<or> needed \<in> ANDROID_SYSTEM_LIBS then []
            else [nm @ '' needs '' @ needed @ '', but only ['' @ join_with '', '' (map py_repr shipped) @ ''] are packaged''])
        (splitlines listing))"

fun needed_problems :: "builder \<Rightarrow> path \<Rightarrow> path \<Rightarrow> string list \<Rightarrow> string list \<Rightarrow> fsys \<Rightarrow> exn + string list" where
  "needed_problems B tc out shipped [] F = Ok []"
| "needed_problems B tc out shipped (nm # nms) F =
     (case bd_readelf B tc (child out nm) F of
        Err e \<Rightarrow> Err e
      | Ok (code, listing) \<Rightarrow>
          (case needed_problems B tc out shipped nms F of
             Err e \<Rightarrow> Err e
           | Ok ps \<Rightarrow> Ok ((if code \<noteq> 0 then [] else lib_problems shipped nm listing) @ ps)))"

definition readelf_of :: "builder \<Rightarrow> path \<Rightarrow> path \<Rightarrow> string io" where
  "readelf_of B tc p =
     bind_io (lift (bd_readelf B tc p)) (\<lambda>(code, listing). if code \<noteq> 0 then raise (CalledProcessError code) else ret listing)"

definition repr_opt :: "string option \<Rightarrow> string" where
  "repr_opt x = (case x of None \<Rightarrow> ''None'' | Some s \<Rightarrow> py_repr s)"

definition did_not_apply :: "string \<Rightarrow> string option \<Rightarrow> exn" where
  "did_not_apply what found = SystemExit (''[verify] '' @ what @ '' is '' @ repr_opt found @ '', expected ''
     @ py_repr ''libtalloc.so'' @ '' '' @ EMDASH @ '' the rewrite did not apply'')"

definition verify_needed :: "builder \<Rightarrow> path \<Rightarrow> path \<Rightarrow> unit io" where
  "verify_needed B out tc =
     bind_io (ask (so_names out)) (\<lambda>shipped.
     bind_io (lift (needed_problems B tc out shipped shipped)) (\<lambda>problems.
     seq_io (if problems \<noteq> [] then raise (SystemExit (''Unresolvable DT_NEEDED in proot artifacts:'' @ LF1 @ ''  ''
                 @ join_with (LF1 @ ''  '') problems)) else ret ())
    (bind_io (ask (\<lambda>F. is_file F (child out ''libproot.so''))) (\<lambda>have_proot.
     seq_io (if \<not> have_proot then ret () else bind_io (readelf_of B tc (child out ''libproot.so'')) (\<lambda>listing.
               let entry = find (\<lambda>n. startswith n ''libtalloc'') (needed_findall listing)
               in if entry \<noteq> Some ''libtalloc.so'' then raise (did_not_apply ''libproot.so talloc binding'' entry) else ret ()))
    (bind_io (ask (\<lambda>F. is_file F (child out ''libtalloc.so''))) (\<lambda>have_talloc.
     seq_io (if \<not> have_talloc then ret () else bind_io (readelf_of B tc (child out ''libtalloc.so'')) (\<lambda>listing.
               let soname = soname_search listing
               in if soname \<noteq> Some ''libtalloc.so'' then raise (did_not_apply ''libtalloc.so SONAME'' soname) else ret ()))
       (emit (''[verify] all DT_NEEDED entries of ['' @ join_with '', '' (map py_repr shipped) @ ''] resolve; talloc binding is ''
          @ py_repr ''libtalloc.so''))))))))"

section \<open>The whole build\<close>

definition strip_comments :: "builder \<Rightarrow> path \<Rightarrow> path \<Rightarrow> unit io" where
  "strip_comments B tc out =
     bind_io (ask (so_names out)) (each_io (\<lambda>nm.
       run B [tool tc ''llvm-objcopy'', ''--remove-section'', ''.comment'', path_str (child out nm)] None (bd_env B)))"

definition package_abi :: "builder \<Rightarrow> path \<Rightarrow> path \<Rightarrow> path \<Rightarrow> unit io" where
  "package_abi B tc out target =
     seq_io (patch_talloc_names out)
    (seq_io (verify_needed B out tc)
    (bind_io (ask (\<lambda>F. path_exists F target)) (\<lambda>ex.
     seq_io (if ex then rmtree target else ret ())
       (copytree (bd_depth B) out target))))"

definition build_abi :: "builder \<Rightarrow> path \<Rightarrow> int \<Rightarrow> path \<Rightarrow> path \<Rightarrow> path \<Rightarrow> path \<Rightarrow> string \<Rightarrow> unit io" where
  "build_abi B tc jobs out_root work proot_src talloc_src abi =
     (let sysroot = child work (''sysroot-'' @ abi); target = child out_root abi
      in seq_io (emit (LF1 @ ''=== ['' @ abi @ ''] talloc ===''))
        (seq_io (build_talloc B talloc_src tc abi sysroot jobs)
        (seq_io (emit (''=== ['' @ abi @ ''] proot ===''))
        (bind_io (build_proot B proot_src tc abi sysroot jobs) (\<lambda>(build, out, _).
         seq_io (build_loader32 B build tc abi out)
        (seq_io (strip_comments B tc out)
        (seq_io (package_abi B tc out target)
        (seq_io (emit (''['' @ abi @ ''] -> '' @ path_str target @ '':''))
           (bind_io (iterdir target) (each_io (\<lambda>nm. emit (''    '' @ nm))))))))))))"

definition build_all :: "builder \<Rightarrow> path \<Rightarrow> int \<Rightarrow> path \<Rightarrow> path \<Rightarrow> string list \<Rightarrow> unit io" where
  "build_all B tc jobs out_root work abis =
     bind_io (bind_io (fetch_to B (''https://codeload.github.com/termux/proot/tar.gz/'' @ PROOT_COMMIT) (child work ''proot.tar.gz''))
        (\<lambda>archive. unpack B archive (child work ''proot-src''))) (\<lambda>proot_src.
     bind_io (bind_io (fetch_to B (''https://codeload.github.com/deepin-community/talloc/tar.gz/refs/tags/'' @ TALLOC_TAG)
          (child work ''talloc.tar.gz''))
        (\<lambda>archive. unpack B archive (child work ''talloc-src''))) (\<lambda>talloc_src.
     seq_io (each_io (build_abi B tc jobs out_root work proot_src talloc_src) abis)
       (emit (LF1 @ ''All builds complete.''))))"

record build_args =
  ba_ndk :: "string option"
  ba_out :: string
  ba_abis :: string
  ba_work :: "string option"
  ba_jobs :: int

definition given :: "string option \<Rightarrow> string option" where
  "given s = (case s of Some (c # cs) \<Rightarrow> Some (c # cs) | _ \<Rightarrow> None)"

definition build_main :: "builder \<Rightarrow> build_args \<Rightarrow> int io" where
  "build_main B A =
     bind_io (lift (find_ndk B (ba_ndk A))) (\<lambda>ndk.
     bind_io (lift (toolchain B ndk)) (\<lambda>tc.
     let abis = filter (\<lambda>a. a \<noteq> '''') (split_on (CHR '','') (ba_abis A));
         jobs = (if ba_jobs A \<noteq> 0 then ba_jobs A else case bd_cpus B of Some n \<Rightarrow> if n \<noteq> 0 then int n else 4 | None \<Rightarrow> 4);
         out_root = to_path (ba_out A)
     in seq_io (emit (''NDK: '' @ path_str ndk @ LF1 @ ''toolchain: '' @ path_str tc @ LF1
              @ ''ABIs: ['' @ join_with '', '' (map py_repr abis) @ '']'' @ LF1 @ ''out: '' @ path_str out_root))
       (bind_io (case given (ba_work A) of
                   Some w \<Rightarrow> ret (to_path w)
                 | None \<Rightarrow> seq_io (mkdir_fresh (bd_temp B)) (ret (bd_temp B))) (\<lambda>work.
        seq_io (mkdir_parents work)
          (finally_io
             (seq_io (build_all B tc jobs out_root work abis) (ret 0))
             (if given (ba_work A) = None then rmtree_ignore work else ret ()))))))"

end
