(* ===== verification/ProotProps.thy ===== *)
theory ProotProps
  imports ProotBuild Confine
begin

text \<open>
  What the build of the guest launcher guarantees about the libraries it packages: the rewrite of
  talloc's name keeps every byte but the two it clears and leaves no old name, and nothing is
  packaged whose recorded libraries would not be found on the device.
\<close>

section \<open>The rewrite\<close>

lemma no_border:
  assumes "suffix w TALLOC_NEEDED" "w \<noteq> []" "w \<noteq> TALLOC_NEEDED"
  shows "\<not> prefix w (TALLOC_NEEDED_REPLACEMENT @ r)"
proof -
  have "w \<in> set (suffixes TALLOC_NEEDED)" using assms(1) by simp
  moreover have "\<forall>w \<in> set (suffixes TALLOC_NEEDED). w = [] \<or> w = TALLOC_NEEDED \<or>
      \<not> prefix (take 2 w) (take 2 (TALLOC_NEEDED_REPLACEMENT @ r))"
    by (simp add: TALLOC_NEEDED_def TALLOC_NEEDED_REPLACEMENT_def)
  ultimately show ?thesis using assms(2,3)
    by (metis append_eq_conv_conj prefixE take_append take_is_prefix)
qed


lemma needle_facts [simp]: "TALLOC_NEEDED \<noteq> []" "length TALLOC_NEEDED_REPLACEMENT = length TALLOC_NEEDED"
  by (simp_all add: TALLOC_NEEDED_def TALLOC_NEEDED_REPLACEMENT_def)

lemma patched_simps:
  "patched [] = []"
  "prefix TALLOC_NEEDED (x # xs) \<Longrightarrow>
     patched (x # xs) = TALLOC_NEEDED_REPLACEMENT @ patched (drop (length TALLOC_NEEDED) (x # xs))"
  "\<not> prefix TALLOC_NEEDED (x # xs) \<Longrightarrow> patched (x # xs) = x # patched xs"
  by (simp_all add: patched_def replace_bytes.simps [of _ _ "[]"] replace_bytes.simps [of _ _ "x # xs"])

lemma patched_cases [case_names Nil match skip]:
  assumes "P []"
    and "\<And>r. P r \<Longrightarrow> P (TALLOC_NEEDED @ r)"
    and "\<And>x xs. \<not> prefix TALLOC_NEEDED (x # xs) \<Longrightarrow> P xs \<Longrightarrow> P (x # xs)"
  shows "P data"
proof (induction data rule: length_induct)
  case (1 data)
  show ?case
  proof (cases "prefix TALLOC_NEEDED data")
    case True
    then obtain r where r: "data = TALLOC_NEEDED @ r" by (auto simp: prefix_def)
    with 1 have "P r" by simp
    with assms(2) r show ?thesis by simp
  next
    case False
    with 1 assms(1,3) show ?thesis by (cases data) auto
  qed
qed

lemma patched_match: "patched (TALLOC_NEEDED @ r) = TALLOC_NEEDED_REPLACEMENT @ patched r"
proof -
  obtain y ys where "TALLOC_NEEDED @ r = y # ys" by (cases "TALLOC_NEEDED @ r") simp_all
  then show ?thesis using patched_simps(2) [of y ys] by (metis append_eq_conv_conj prefixI)
qed

lemma prefix_patched:
  "suffix w TALLOC_NEEDED \<Longrightarrow> w \<noteq> TALLOC_NEEDED \<Longrightarrow> prefix w (patched data) \<Longrightarrow> prefix w data"
proof (induction data arbitrary: w rule: patched_cases)
  case Nil
  then show ?case by (simp add: patched_simps)
next
  case (match r)
  then show ?case using no_border [of w "patched r"] by (cases "w = []") (auto simp: patched_match)
next
  case (skip x xs)
  show ?case
  proof (cases w)
    case (Cons y v)
    with skip.prems(1) have "suffix v TALLOC_NEEDED" "v \<noteq> TALLOC_NEEDED"
      by (auto simp: suffix_ConsD) (metis suffix_ConsD suffix_order.antisym not_Cons_self2 suffix_ConsI suffix_order.refl)
    with skip Cons show ?thesis by (simp add: patched_simps)
  qed simp
qed

lemma no_sublist_append:
  assumes "\<And>i. i < length xs \<Longrightarrow> \<not> prefix p (drop i (xs @ ys))" "\<not> sublist p ys"
  shows "\<not> sublist p (xs @ ys)"
  using assms
proof (induction xs)
  case (Cons x xs)
  from Cons.prems(1) [of 0] Cons.prems(1) [of "Suc _"] Cons.IH Cons.prems(2) show ?case
    by (fastforce simp: sublist_Cons_right)
qed simp

lemma patched_no_needle: "\<not> sublist TALLOC_NEEDED (patched data)"
proof (induction data rule: patched_cases)
  case Nil
  then show ?case by (simp add: patched_simps)
next
  case (match r)
  have "\<not> prefix TALLOC_NEEDED (drop i (TALLOC_NEEDED_REPLACEMENT @ patched r))"
    if "i < length TALLOC_NEEDED_REPLACEMENT" for i
  proof
    assume a: "prefix TALLOC_NEEDED (drop i (TALLOC_NEEDED_REPLACEMENT @ patched r))"
    have "i < 14" using that by (simp add: TALLOC_NEEDED_def)
    then have "i \<in> {0,1,2,3,4,5,6,7,8,9,10,11,12,13}" by (simp add: numeral_eq_Suc less_Suc_eq)
    with a show False
      by (auto simp: TALLOC_NEEDED_def TALLOC_NEEDED_REPLACEMENT_def)
  qed
  with match show ?case unfolding patched_match by (rule_tac no_sublist_append) simp_all
next
  case (skip x xs)
  obtain y w where n: "TALLOC_NEEDED = y # w" by (cases TALLOC_NEEDED) simp_all
  then have "suffix w TALLOC_NEEDED" "w \<noteq> TALLOC_NEEDED" unfolding n by (simp_all add: suffix_ConsI)
  with skip(1) prefix_patched [of w xs] have "\<not> prefix TALLOC_NEEDED (x # patched xs)" by (auto simp: n)
  with skip show ?case by (simp add: patched_simps sublist_Cons_right)
qed


lemma patched_unchanged: "\<not> sublist TALLOC_NEEDED data \<Longrightarrow> patched data = data"
proof (induction data rule: patched_cases)
  case (match r)
  then show ?case by (meson prefixI prefix_imp_sublist)
qed (auto simp: patched_simps sublist_Cons_right)

lemma patched_patched [simp]: "patched (patched data) = patched data"
  by (rule patched_unchanged [OF patched_no_needle])

lemma patched_zeroes: "list_all2 (\<lambda>new old. new = old \<or> new = 0) (patched data) data"
proof (induction data rule: patched_cases)
  case (match r)
  then show ?case unfolding patched_match
    by (rule list_all2_appendI [rotated]) (simp add: TALLOC_NEEDED_def TALLOC_NEEDED_REPLACEMENT_def)
qed (simp_all add: patched_simps)

lemma length_patched [simp]: "length (patched data) = length data"
  using patched_zeroes by (rule list_all2_lengthD)

text \<open>
  The rewrite of talloc's name never changes the size of a library, each byte of the result is
  the old one or the NUL that now ends the name, the old name is gone, and a file that did not hold
  it is left as it was.
\<close>

theorem talloc_rewrite_safe:
  "length (patched data) = length data \<and> list_all2 (\<lambda>new old. new = old \<or> new = 0) (patched data) data \<and>
   \<not> occurs TALLOC_NEEDED (patched data) \<and> (occurs TALLOC_NEEDED data \<or> patched data = data)"
  using patched_zeroes patched_no_needle patched_unchanged by (auto simp: occurs_iff_sublist)

section \<open>The files of the build\<close>

definition bytes_of :: "content \<Rightarrow> bytes" where
  "bytes_of c = (case c of Text s \<Rightarrow> b s | Binary bs \<Rightarrow> bs)"

lemma byte_of_char [simp]: "of_char (char_of (unat (x :: byte)) :: char) = x"
proof -
  have "unat x < 256" by (rule less_le_trans [OF unsigned_less]) simp
  then have "of_char (char_of (unat x) :: char) = unat x" by simp
  then show ?thesis by (metis of_nat_of_char of_nat_unat ucast_id)
qed

lemma bytes_of_content [simp]: "bytes_of (content_of_bytes bs) = bs"
  by (simp add: bytes_of_def content_of_bytes_def b_def comp_def)

definition patched_node :: "node \<Rightarrow> node" where
  "patched_node n = (case n of Reg c m \<Rightarrow> Reg (content_of_bytes (patched (bytes_of c))) m | _ \<Rightarrow> n)"

text \<open>Nothing but files changes, and those only by the rewrite.\<close>

definition rewritten :: "fsys \<Rightarrow> fsys \<Rightarrow> bool" where
  "rewritten F F' \<longleftrightarrow> (\<forall>l. node_at F' l \<in> {node_at F l, map_option patched_node (node_at F l)})"

lemma patched_node_twice [simp]: "patched_node (patched_node n) = patched_node n"
  by (cases n) (simp_all add: patched_node_def)

lemma is_reg_patched [simp]: "is_reg (patched_node n) = is_reg n"
  by (cases n) (simp_all add: patched_node_def)

lemma patched_node_other: "\<not> is_reg n \<Longrightarrow> patched_node n = n"
  by (cases n) (simp_all add: patched_node_def)

lemma rewritten_refl: "rewritten F F"
  by (simp add: rewritten_def)

lemma rewritten_cases:
  assumes "rewritten F F'"
  obtains "node_at F l = None" "node_at F' l = None"
  | n where "node_at F l = Some n" "node_at F' l = Some n"
  | n where "node_at F l = Some n" "node_at F' l = Some (patched_node n)"
  using assms [unfolded rewritten_def, THEN spec, of l] by (cases "node_at F l") auto

lemma rewritten_trans: "rewritten F G \<Longrightarrow> rewritten G H \<Longrightarrow> rewritten F H"
proof -
  assume g: "rewritten F G" "rewritten G H"
  have "node_at H l \<in> {node_at F l, map_option patched_node (node_at F l)}" for l
    by (cases rule: rewritten_cases [OF g(1), of l]; cases rule: rewritten_cases [OF g(2), of l]) auto
  then show ?thesis by (simp add: rewritten_def)
qed

lemma rewritten_grown:
  assumes "rewritten F F'"
  shows "grown F F'" and "grown F' F"
proof -
  have "if is_reg n then \<exists>n'. node_at F' l = Some n' \<and> is_reg n' else node_at F' l = Some n" if "node_at F l = Some n" for l n
    using that by (cases rule: rewritten_cases [OF assms, of l]) (auto simp: patched_node_other)
  then show "grown F F'" by (simp add: grown_def)
  have "if is_reg n then \<exists>n'. node_at F l = Some n' \<and> is_reg n' else node_at F l = Some n" if "node_at F' l = Some n" for l n
    using that by (cases rule: rewritten_cases [OF assms, of l]) (auto simp: patched_node_other)
  then show "grown F' F" by (simp add: grown_def)
qed

definition clean :: "fsys \<Rightarrow> path \<Rightarrow> bool" where
  "clean F p \<longleftrightarrow> (\<forall>l c m. lookup F True p = Ok (l, Reg c m) \<longrightarrow> \<not> occurs TALLOC_NEEDED (bytes_of c))"

lemma clean_rewritten: "rewritten F F' \<Longrightarrow> clean F p \<Longrightarrow> clean F' p"
proof (unfold clean_def, intro allI impI)
  fix l c m
  assume r: "rewritten F F'" and c: "\<forall>l c m. lookup F True p = Ok (l, Reg c m) \<longrightarrow> \<not> occurs TALLOC_NEEDED (bytes_of c)"
    and l: "lookup F' True p = Ok (l, Reg c m)"
  from lookup_grown [OF rewritten_grown(2) [OF r] l] obtain c0 m0 where l0: "lookup F True p = Ok (l, Reg c0 m0)"
    by (auto simp: is_reg_iff)
  with c have n: "\<not> occurs TALLOC_NEEDED (bytes_of c0)" by blast
  have "bytes_of c \<in> {bytes_of c0, patched (bytes_of c0)}"
    using lookup_node [OF l] lookup_node [OF l0] by (cases rule: rewritten_cases [OF r, of l]) (auto simp: patched_node_def)
  with n show "\<not> occurs TALLOC_NEEDED (bytes_of c)" using patched_no_needle by (auto simp: occurs_iff_sublist)
qed

lemma count_bytes_zero: "count_bytes TALLOC_NEEDED data = 0 \<Longrightarrow> \<not> sublist TALLOC_NEEDED data"
proof (induction data)
  case (Cons x xs)
  then show ?case by (simp add: count_bytes.simps [of _ "x # xs"] sublist_Cons_right split: if_splits)
qed simp

lemma patch_file_effect:
  assumes "patch_file out nm F = (r, F')"
  shows "rewritten F F' \<and> (r = Ok () \<longrightarrow> clean F' (child out nm)) \<and> (\<forall>e. r = Err e \<longrightarrow> is_oserror e)"
proof (cases "is_file F (child out nm)")
  case False
  with assms have "r = Ok ()" "F' = F" by (simp_all add: patch_file_def bind_io_def)
  moreover have "clean F (child out nm)" using False by (auto simp: clean_def is_file_def stat_def)
  ultimately show ?thesis by (simp add: rewritten_refl)
next
  case True
  let ?p = "child out nm"
  from True obtain l c m where l: "lookup F True ?p = Ok (l, Reg c m)"
    by (auto simp: is_file_def stat_def is_reg_iff split: sum.splits)
  then have n: "node_at F l = Some (Reg c m)" "locate F True ?p = Ok l" "l \<noteq> []"
    by (auto simp: lookup_def split: sum.splits option.splits)
  have read: "read_bytes ?p F = (Ok (bytes_of c), F)"
    using l by (simp add: read_bytes_def read_content_def bind_io_def bytes_of_def)
  show ?thesis
  proof (cases "count_bytes TALLOC_NEEDED (bytes_of c) = 0")
    case nil: True
    with assms True read have "r = Ok ()" "F' = F" by (simp_all add: patch_file_def bind_io_def)
    with count_bytes_zero [OF nil] l show ?thesis by (auto simp: rewritten_refl clean_def occurs_iff_sublist)
  next
    case False
    let ?G = "put_node F l (Reg (content_of_bytes (patched (bytes_of c))) m)"
    have w: "write_content ?p (content_of_bytes (patched (bytes_of c))) F
        = (if fs_denied F l then (Err PermissionError, F) else (Ok (), ?G))"
      using n by (simp add: write_content_def change_def)
    have g: "rewritten F ?G" using n by (auto simp: rewritten_def patched_node_def)
    show ?thesis
    proof (cases "fs_denied F l")
      case denied: True
      with assms True False read w show ?thesis
        by (auto simp: patch_file_def bind_io_def seq_io_def Let_def rewritten_refl)
    next
      case free: False
      with assms True False read w obtain f where F': "r = Ok ()" "F' = fs_log_update f ?G"
        by (auto simp: patch_file_def bind_io_def seq_io_def Let_def emit_def)
      have "locate ?G True ?p = Ok l"
        by (rule locate_grown [OF rewritten_grown(1) [OF g] n(2,1)])
      then have "lookup ?G True ?p = Ok (l, Reg (content_of_bytes (patched (bytes_of c))) m)"
        using n(3) by (simp add: lookup_def)
      then have "clean F' ?p" using patched_no_needle by (simp add: F'(2) clean_def occurs_iff_sublist)
      moreover have "rewritten F F'" using g by (simp add: F'(2) rewritten_def)
      ultimately show ?thesis by (simp add: F'(1))
    qed
  qed
qed


lemma patch_talloc_effect:
  assumes "patch_talloc_names out F = (r, F')"
  shows "rewritten F F' \<and> (r = Ok () \<longrightarrow> clean F' (child out ''libproot.so'') \<and> clean F' (child out ''libtalloc.so''))
    \<and> (\<forall>e. r = Err e \<longrightarrow> is_oserror e)"
proof -
  obtain r1 F1 where one: "patch_file out ''libproot.so'' F = (r1, F1)" by (cases "patch_file out ''libproot.so'' F")
  note e1 = patch_file_effect [OF one]
  show ?thesis
  proof (cases r1)
    case (Inl e)
    with assms one have "r = Err e" "F' = F1" by (auto simp: patch_talloc_names_def seq_io_def bind_io_def)
    with e1 Inl show ?thesis by simp
  next
    case (Inr x)
    obtain r2 F2 where two: "patch_file out ''libtalloc.so'' F1 = (r2, F2)" by (cases "patch_file out ''libtalloc.so'' F1")
    note e2 = patch_file_effect [OF two]
    from assms one two Inr have "r = r2" "F' = F2"
      by (auto simp: patch_talloc_names_def seq_io_def bind_io_def split: sum.splits)
    with e1 e2 Inr show ?thesis by (auto intro: rewritten_trans clean_rewritten)
  qed
qed

section \<open>What is packaged\<close>

text \<open>The library's recorded needs are met by what is shipped or by the system.\<close>

definition needs_met :: "string list \<Rightarrow> string \<Rightarrow> bool" where
  "needs_met shipped listing \<longleftrightarrow>
     (\<forall>l \<in> set (splitlines listing). \<forall>needed r. needed_search l = Some (needed, r) \<longrightarrow>
        needed \<in> set shipped \<union> ANDROID_SYSTEM_LIBS)"

lemma lib_problems_Nil: "lib_problems shipped nm listing = [] \<longleftrightarrow> needs_met shipped listing"
  by (auto simp: lib_problems_def needs_met_def split: option.splits if_splits)

lemma needed_problems_Nil:
  "needed_problems B tc out shipped nms F = Ok [] \<Longrightarrow> nm \<in> set nms \<Longrightarrow>
     \<exists>code listing. bd_readelf B tc (child out nm) F = Ok (code, listing) \<and> (code = 0 \<longrightarrow> needs_met shipped listing)"
proof (induction nms)
  case (Cons x nms)
  then show ?case by (auto simp: lib_problems_Nil split: sum.splits prod.splits if_splits)
qed simp

definition packaged_ok :: "builder \<Rightarrow> path \<Rightarrow> path \<Rightarrow> fsys \<Rightarrow> bool" where
  "packaged_ok B tc out F \<longleftrightarrow>
     (\<forall>nm \<in> set (so_names out F). \<exists>code listing. bd_readelf B tc (child out nm) F = Ok (code, listing) \<and>
        (code = 0 \<longrightarrow> needs_met (so_names out F) listing)) \<and>
     (is_file F (child out ''libproot.so'') \<longrightarrow> (\<exists>listing. bd_readelf B tc (child out ''libproot.so'') F = Ok (0, listing) \<and>
        find (\<lambda>n. startswith n ''libtalloc'') (needed_findall listing) = Some ''libtalloc.so'')) \<and>
     (is_file F (child out ''libtalloc.so'') \<longrightarrow> (\<exists>listing. bd_readelf B tc (child out ''libtalloc.so'') F = Ok (0, listing) \<and>
        soname_search listing = Some ''libtalloc.so''))"

lemma verified:
  assumes "verify_needed B out tc F = (Ok x, F')"
  shows "packaged_ok B tc out F \<and> (\<exists>f. F' = fs_log_update f F)"
proof -
  from assms have "needed_problems B tc out (so_names out F) (so_names out F) F = Ok []"
    by (auto simp: verify_needed_def bind_Ok seq_Ok lift_def split: if_splits)
  with needed_problems_Nil [OF this] assms show ?thesis
    by (auto simp: verify_needed_def packaged_ok_def bind_Ok seq_Ok lift_def readelf_of_def emit_def Let_def split: if_splits)
qed

section \<open>The copy\<close>

lemma mkdir_fresh_made:
  assumes "link_free F (p_names q)" "mkdir_fresh q F = (Ok x, G)"
  shows "adds F G \<and> touches (\<lambda>l. prefix l (p_names q)) F G"
proof -
  obtain r1 F1 where m: "os_mkdir q F = (r1, F1)" by fastforce
  have t1: "touches (\<lambda>l. prefix l (p_names q)) F F1"
    by (rule os_mkdir_touches [OF link_free_way [OF assms(1)] m]) simp
  show ?thesis
  proof (cases r1)
    case (Inr v)
    with assms(2) m t1 os_mkdir_adds [OF m] show ?thesis by (auto simp: mkdir_fresh_def try_io_def)
  next
    case (Inl e)
    with assms(2) m obtain F2 y where f: "mkdir_parents (parent_path q) F1 = (Ok y, F2)" "os_mkdir q F2 = (Ok x, G)"
      by (auto simp: mkdir_fresh_def try_io_def seq_Ok split: if_splits)
    have l1: "link_free F1 (p_names q)" by (rule link_free_touches [OF t1 assms(1)])
    have "prefix l (p_names q)" if "prefix l (p_names (parent_path q))" for l
      using that prefix_order.trans [OF _ prefixeq_butlast] by (auto simp: parent_path_def)
    then have t2: "touches (\<lambda>l. prefix l (p_names q)) F1 F2"
      by (intro mkdir_parents_touches [OF _ f(1)]) (use link_free_butlast [OF l1] in \<open>simp_all add: parent_path_def\<close>)
    have "touches (\<lambda>l. prefix l (p_names q)) F2 G"
      by (rule os_mkdir_touches [OF link_free_way [OF link_free_touches [OF t2 l1]] f(2)]) simp
    with t1 t2 os_mkdir_adds [OF m] mkdir_parents_adds [OF f(1)] os_mkdir_adds [OF f(2)] show ?thesis
      by (blast intro: adds_trans touches_trans)
  qed
qed

lemma copy_file_made:
  assumes "link_free F (p_names q)" "copy_file p q F = (Ok x, G)" "lookup F True p = Ok (l, Reg c m)"
  shows "grown F G \<and> touches (\<lambda>k. k = p_names q) F G \<and> node_at G (p_names q) = Some (Reg c m)"
proof -
  obtain y F1 where w: "write_content q c F = (Ok y, F1)" "chmod q m F1 = (Ok x, G)"
    using assms(2,3) by (auto simp: copy_file_def split: prod.splits sum.splits)
  from write_content_Ok [OF w(1)] obtain k m0 where k: "lookup F1 True q = Ok (k, Reg c m0)" "grown F F1" by blast
  note h = chmod_reg_Ok [OF w(2) k(1)]
  have t: "touches (\<lambda>k. k = p_names q) F G" by (rule copy_file_touches [OF assms(1,2)]) simp
  from h have "locate G True q = Ok k" by (auto simp: lookup_def split: sum.splits option.splits)
  then have "k = p_names q" by (rule locate_free [OF link_free_touches [OF t assms(1)]])
  with h k(2) t lookup_node show ?thesis by (blast intro: grown_trans)
qed

lemma copy_entries_failed: "copy_entries f xs True F = (Ok r, G) \<Longrightarrow> r"
proof (induction xs arbitrary: F)
  case (Cons x xs)
  then obtain H where "copy_entries f xs True H = (Ok r, G)"
    by (auto simp: bind_Ok try_io_Ok seq_Ok split: if_splits)
  with Cons.IH show ?case .
qed simp

lemma copy_entries_ok:
  "copy_entries f (x # xs) False F = (Ok False, G) \<Longrightarrow> \<exists>y H. f x F = (Ok y, H) \<and> copy_entries f xs False H = (Ok False, G)"
  using copy_entries_failed [of f xs _ False] by (fastforce simp: bind_Ok try_io_Ok seq_Ok split: if_splits)

text \<open>Copying plain files into a directory that held nothing.\<close>

definition copied :: "path \<Rightarrow> path \<Rightarrow> string list \<Rightarrow> fsys \<Rightarrow> fsys \<Rightarrow> bool" where
  "copied p q nms F G \<longleftrightarrow> (\<forall>nm \<in> set nms. \<forall>l n. lookup F True (child p nm) = Ok (l, n) \<longrightarrow> node_at G (p_names (child q nm)) = Some n)"


definition plain_files :: "path \<Rightarrow> string list \<Rightarrow> fsys \<Rightarrow> bool" where
  "plain_files p nms F \<longleftrightarrow> (\<forall>nm \<in> set nms. good_name nm \<and> nm \<noteq> ''..'' \<and> (\<exists>l c m. lookup F True (child p nm) = Ok (l, Reg c m)))"

abbreviation copy_entry :: "nat \<Rightarrow> path \<Rightarrow> path \<Rightarrow> string \<Rightarrow> unit io" where
  "copy_entry n p q \<equiv> \<lambda>nm. bind_io (ask (\<lambda>F. is_dir F (child p nm))) (\<lambda>d.
     if d then copytree n (child p nm) (child q nm) else copy_file (child p nm) (child q nm))"

lemma plain_files_kept:
  assumes "plain_files p nms F"
    and "\<And>nm k n. lookup F True (child p nm) = Ok (k, n) \<Longrightarrow> nm \<in> set nms \<Longrightarrow> lookup H True (child p nm) = Ok (k, n)"
  shows "plain_files p nms H"
  using assms unfolding plain_files_def by meson

lemma entries_copied:
  assumes "copy_entries (copy_entry n p q) nms False F = (Ok False, G)"
    and "plain_files p nms F"
    and "\<And>nm l n. nm \<in> set nms \<Longrightarrow> lookup F True (child p nm) = Ok (l, n) \<Longrightarrow> \<not> prefix (p_names q) l"
    and "\<And>nm. nm \<in> set nms \<Longrightarrow> link_free F (p_names q @ [nm])"
  shows "copied p q nms F G \<and> touches (\<lambda>l. l \<in> (\<lambda>nm. p_names q @ [nm]) ` set nms) F G"
  using assms
proof (induction nms arbitrary: F)
  case (Cons x xs)
  obtain y H where h: "copy_entry n p q x F = (Ok y, H)" "copy_entries (copy_entry n p q) xs False H = (Ok False, G)"
    using copy_entries_ok [OF Cons.prems(1)] by blast
  from Cons.prems(2) obtain l c m where x: "good_name x" "x \<noteq> ''..''" "lookup F True (child p x) = Ok (l, Reg c m)"
    by (auto simp: plain_files_def)
  then have "copy_file (child p x) (child q x) F = (Ok y, H)"
    using h(1) by (simp add: bind_io_def is_dir_def stat_def)
  from copy_file_made [OF _ this x(3)] Cons.prems(4) [of x] x(1)
  have one: "grown F H" "touches (\<lambda>k. k = p_names q @ [x]) F H" "node_at H (p_names q @ [x]) = Some (Reg c m)" by simp_all
  have keep: "lookup H True (child p nm) = Ok (k, n)" if "nm \<in> set (x # xs)" "lookup F True (child p nm) = Ok (k, n)" for nm k n
  proof -
    have "\<not> prefix (p_names q) k" using Cons.prems(3) that by blast
    then have "k \<noteq> p_names q @ [x]" by auto
    then show ?thesis using lookup_kept [OF one(1) that(2)] touches_node [OF one(2)] by blast
  qed
  have both: "\<exists>k n. lookup F True (child p nm) = Ok (k, n) \<and> lookup H True (child p nm) = Ok (k, n)" if "nm \<in> set (x # xs)" for nm
    using Cons.prems(2) keep that by (fastforce simp: plain_files_def)
  have pl: "plain_files p xs H"
  proof (rule plain_files_kept)
    show "plain_files p xs F" using Cons.prems(2) unfolding plain_files_def by (simp del: child_simple)
  qed (rule keep, simp_all del: child_simple)
  have ih: "copied p q xs H G \<and> touches (\<lambda>l. l \<in> (\<lambda>nm. p_names q @ [nm]) ` set xs) H G"
  proof (rule Cons.IH [OF h(2) pl])
    show "\<not> prefix (p_names q) k" if "nm \<in> set xs" "lookup H True (child p nm) = Ok (k, n)" for nm k n
      using both [of nm] Cons.prems(3) [of nm] that by auto
    show "link_free H (p_names q @ [nm])" if "nm \<in> set xs" for nm
      using link_free_touches [OF one(2)] Cons.prems(4) that by simp
  qed
  have t: "touches (\<lambda>l. l \<in> (\<lambda>nm. p_names q @ [nm]) ` set (x # xs)) F G"
    by (rule touches_trans [OF touches_mono [OF one(2)] touches_mono [OF conjunct2 [OF ih]]]) auto
  have "node_at G (p_names (child q nm)) = Some n" if nm: "nm \<in> set (x # xs)" "lookup F True (child p nm) = Ok (k, n)" for nm k n
  proof (cases "nm \<in> set xs")
    case True
    with ih keep [OF nm] show ?thesis by (auto simp: copied_def)
  next
    case False
    with nm x have "nm = x" "n = Reg c m" by auto
    moreover have "node_at G (p_names q @ [x]) = node_at H (p_names q @ [x])"
      by (rule touches_node [OF conjunct2 [OF ih]]) (use False \<open>nm = x\<close> in auto)
    ultimately show ?thesis using one(3) x(1) by simp
  qed
  with t show ?case by (auto simp: copied_def)
qed (simp add: copied_def)

lemma copytree_copies:
  assumes "copytree n p q F = (Ok x, G)" "fst (iterdir p F) = Ok nms" "plain_files p nms F"
    and "link_free F (p_names q)" "\<And>k. prefix (p_names q) k \<Longrightarrow> node_at F k = None"
  shows "copied p q nms F G"
proof -
  obtain j where n: "n = Suc j" using assms(1) by (cases n) simp_all
  have it: "iterdir p F = (Ok nms, F)"
    using assms(2) by (auto simp: iterdir_def split: sum.splits node.splits)
  with assms(1) n obtain F1 F2 v nd where s: "mkdir_fresh q F = (Ok v, F1)"
    "copy_entries (copy_entry j p q) nms False F1 = (Ok False, F2)"
    "chmod q (mode_of nd) F2 = (Ok (), G)"
    by (auto simp: bind_Ok seq_Ok lift_def split: if_splits)
  note made = mkdir_fresh_made [OF assms(4) s(1)]
  have keep: "lookup F1 True (child p nm) = Ok (k, nd)" if "lookup F True (child p nm) = Ok (k, nd)" for nm k nd
    using lookup_kept [OF adds_grown that] made lookup_node [OF that] by (auto simp: adds_def)
  have away: "\<not> prefix (p_names q) k" if "lookup F True (child p nm) = Ok (k, nd)" for nm k nd
    using assms(5) [of k] lookup_node [OF that] by auto
  have lf: "link_free F (p_names q @ [nm])" if "nm \<in> set nms" for nm
    by (rule link_free_snoc [OF assms(4)]) (use that assms(3,5) in \<open>auto simp: plain_files_def\<close>)
  have pl: "plain_files p nms F1" by (rule plain_files_kept [OF assms(3) keep])
  have "copied p q nms F1 F2 \<and> touches (\<lambda>l. l \<in> (\<lambda>nm. p_names q @ [nm]) ` set nms) F1 F2"
  proof (rule entries_copied [OF s(2) pl])
    show "\<not> prefix (p_names q) k" if nm: "nm \<in> set nms" "lookup F1 True (child p nm) = Ok (k, nd)" for nm k nd
    proof -
      obtain k' nd' where "lookup F True (child p nm) = Ok (k', nd')" using assms(3) nm(1) by (auto simp: plain_files_def)
      with keep [OF this] away [OF this] nm(2) show ?thesis by auto
    qed
    show "link_free F1 (p_names q @ [nm])" if "nm \<in> set nms" for nm
      using link_free_touches [OF conjunct2 [OF made] lf [OF that]] .
  qed
  then have c: "copied p q nms F1 F2" and t: "touches (\<lambda>l. l \<in> (\<lambda>nm. p_names q @ [nm]) ` set nms) F1 F2" by simp_all
  have "link_free F2 (p_names q)"
    using link_free_touches [OF t link_free_touches [OF conjunct2 [OF made] assms(4)]] .
  then have ch: "touches (\<lambda>l. l = p_names q) F2 G" by (rule chmod_touches [OF _ s(3)]) simp
  show ?thesis
    unfolding copied_def
  proof (intro ballI allI impI)
    fix nm k nd assume nm: "nm \<in> set nms" "lookup F True (child p nm) = Ok (k, nd)"
    with c keep have "node_at F2 (p_names (child q nm)) = Some nd" by (auto simp: copied_def)
    moreover have "p_names (child q nm) \<noteq> p_names q" using nm(1) assms(3) by (auto simp: plain_files_def)
    ultimately show "node_at G (p_names (child q nm)) = Some nd" using touches_node [OF ch] by simp
  qed
qed

section \<open>Composition\<close>

lemma rewritten_node: "rewritten F F1 \<Longrightarrow> node_at F1 l = None \<longleftrightarrow> node_at F l = None"
  by (cases rule: rewritten_cases [of F F1 l]) auto

lemma rewritten_link_free: "rewritten F F1 \<Longrightarrow> link_free F l \<Longrightarrow> link_free F1 l"
proof -
  assume r: "rewritten F F1" and l: "link_free F l"
  have "node_at F1 k \<noteq> Some (Lnk t)" if "node_at F k \<noteq> Some (Lnk t)" for k t
    using that by (cases rule: rewritten_cases [OF r, of k]) (auto simp: patched_node_def split: node.splits)
  with l show ?thesis by (auto simp: link_free_def)
qed

lemma set_children: "set (children F l) = {last k |k. k \<noteq> [] \<and> butlast k = l \<and> node_at F k \<noteq> None}"
proof -
  have "node_at F k \<noteq> None \<longleftrightarrow> k \<in> fst ` set (fs_table F)" if "k \<noteq> []" for k
    using that by (simp add: node_at_def map_of_eq_None_iff)
  then have "{last k |k. k \<noteq> [] \<and> butlast k = l \<and> node_at F k \<noteq> None}
      = {last k |k. k \<noteq> [] \<and> butlast k = l \<and> k \<in> fst ` set (fs_table F)}" by blast
  also have "\<dots> = set (children F l)" by (auto simp: children_def)
  finally show ?thesis by simp
qed

lemma rewritten_iterdir:
  assumes "rewritten F F1" "fst (iterdir p F) = Ok nms"
  shows "\<exists>nms1. fst (iterdir p F1) = Ok nms1 \<and> set nms1 = set nms"
proof -
  from assms(2) obtain l m where l: "lookup F True p = Ok (l, Dir m)" "nms = sort (children F l)"
    by (auto simp: iterdir_def split: sum.splits node.splits)
  from lookup_node [OF l(1)] have "node_at F1 l = node_at F l"
    by (cases rule: rewritten_cases [OF assms(1), of l]) (auto simp: patched_node_def)
  then have "lookup F1 True p = Ok (l, Dir m)"
    using lookup_kept [OF rewritten_grown(1) [OF assms(1)] l(1)] by simp
  moreover have "set (children F1 l) = set (children F l)"
    by (auto simp: set_children rewritten_node [OF assms(1)])
  ultimately show ?thesis by (simp add: iterdir_def l(2))
qed

lemma rewritten_plain:
  assumes "rewritten F F1" "plain_files p nms F"
  shows "plain_files p nms F1"
  unfolding plain_files_def
proof
  fix nm assume "nm \<in> set nms"
  with assms(2) obtain l c m where nm: "good_name nm" "nm \<noteq> ''..''" "lookup F True (child p nm) = Ok (l, Reg c m)"
    by (auto simp: plain_files_def)
  with lookup_grown [OF rewritten_grown(1) [OF assms(1)] nm(3)]
  show "good_name nm \<and> nm \<noteq> ''..'' \<and> (\<exists>l c m. lookup F1 True (child p nm) = Ok (l, Reg c m))"
    by (auto simp: is_reg_iff)
qed

lemma absent_path: "link_free F (p_names p) \<Longrightarrow> node_at F (p_names p) = None \<Longrightarrow> \<not> path_exists F p"
  using locate_free [of F p True] by (auto simp: path_exists_def stat_def lookup_def split: sum.splits option.splits)


section \<open>A concrete build\<close>

definition demo_libs :: fsys where
  "demo_libs = \<lparr>fs_table = [([''o''], Dir 493), ([''o'', ''libproot.so''], Reg (Text ''libtalloc.so.2'') 493),
     ([''o'', ''libtalloc.so''], Reg (Text ''.libtalloc.so.2'') 420)],
     fs_denied = \<lambda>_. False, fs_log = [], fs_serial = 0\<rparr>"

definition demo_builder :: builder where
  "demo_builder = \<lparr>bd_env = \<lambda>_. None, bd_home = to_path ''/h'', bd_platform = ''linux'', bd_cpus = None,
     bd_temp = to_path ''/t'', bd_depth = 3, bd_tool = \<lambda>_ _ _. ret (0, []),
     bd_readelf = \<lambda>tc p F. Ok (0, if path_name p = ''libproot.so'' then '' (NEEDED) Shared library: [libtalloc.so]''
                              else '' (SONAME) Library soname: [libtalloc.so]''),
     bd_fetch = \<lambda>_. Err (OSError []), bd_untar = \<lambda>_. Ok []\<rparr>"

lemma demo_packaged: "fst (package_abi demo_builder (to_path ''/n'') (to_path ''/o'') (to_path ''/r'') demo_libs) = Ok ()"
  by code_simp


end
