(* ===== verification/PtyProbe.thy ===== *)
theory PtyProbe
  imports Cli RealPty
begin

text \<open>
  The terminal probe of \<open>zmux/realpty.py\<close> (\<open>zmux-pty-probe\<close>): six checks that open a terminal and
  talk to a shell in it.  The terminal with its shell is a parameter \<open>tty\<close>: what it puts out
  within a time limit after what was written to it, and the status it is reaped with.
\<close>

section \<open>The terminal and its recorder\<close>

text \<open>\<open>get_winsize\<close>: what the kernel packs, unpacked.\<close>

definition get_winsize :: "exn + nat \<times> nat \<times> nat \<times> nat \<Rightarrow> exn + nat \<times> nat" where
  "get_winsize answer = (case answer of Err e \<Rightarrow> Err e | Ok (rows, cols, _, _) \<Rightarrow> Ok (rows, cols))"

text \<open>The environment of a child: \<open>TERM\<close> is set when it is not.\<close>

definition spawn_env :: "environ \<Rightarrow> environ option \<Rightarrow> environ" where
  "spawn_env os_environ given =
     (let env = (case given of None \<Rightarrow> os_environ | Some e \<Rightarrow> e)
      in if env ''TERM'' = None then env(''TERM'' \<mapsto> ''xterm-256color'') else env)"

record 't tty =
  ty_start :: "string list \<Rightarrow> nat \<Rightarrow> nat \<Rightarrow> exn + 't"
  ty_write :: "bytes \<Rightarrow> 't \<Rightarrow> 't"
  ty_resize :: "nat \<Rightarrow> nat \<Rightarrow> 't \<Rightarrow> 't"
  ty_output :: "nat \<Rightarrow> 't \<Rightarrow> bytes list \<times> 't"
  ty_status :: "'t \<Rightarrow> int option \<times> 't"
  ty_kill :: "'t \<Rightarrow> 't"

text \<open>\<open>_ProbePty\<close>: the terminal and the output recorded so far.\<close>

type_synonym 't probing = "'t \<times> bytes"

definition probe_send :: "'t tty \<Rightarrow> string \<Rightarrow> 't probing \<Rightarrow> 't probing" where
  "probe_send T s P = (ty_write T (b s) (fst P), snd P)"

text \<open>
  \<open>wait_for\<close> looks at what is recorded, then at what arrives until the deadline; everything that
  arrives is recorded.
\<close>

definition wait_for :: "'t tty \<Rightarrow> string \<Rightarrow> nat \<Rightarrow> 't probing \<Rightarrow> bool \<times> 't probing" where
  "wait_for T needle seconds P =
     (if occurs (b needle) (snd P) then (True, P)
      else case ty_output T seconds (fst P) of (chunks, t) \<Rightarrow>
        (let buf = snd P @ concat chunks in (occurs (b needle) buf, (t, buf))))"

definition wait_exit :: "'t tty \<Rightarrow> 't probing \<Rightarrow> int option \<times> 't probing" where
  "wait_exit T P = (case ty_status T (fst P) of (code, t) \<Rightarrow> (code, (t, snd P)))"

text \<open>\<open>repr\<close> of bytes.\<close>

definition bytes_repr :: "bytes \<Rightarrow> string" where
  "bytes_repr bs =
     (let q = (if 39 \<in> set bs \<and> 34 \<notin> set bs then CHR 0x22 else SQ);
          put = (\<lambda>x. let n = unat x; c = char_of n :: char in
            if c = q \<or> c = BS then [BS, c]
            else if n = 10 then [BS, CHR ''n''] else if n = 13 then [BS, CHR ''r''] else if n = 9 then [BS, CHR ''t'']
            else if n < 32 \<or> n \<ge> 127 then [BS, CHR ''x''] @ hex2 n else [c])
      in CHR ''b'' # q # concat (map put bs) @ [q])"

definition heard :: "'t probing \<Rightarrow> string" where "heard P = bytes_repr (take 200 (snd P))"

definition bool_str :: "bool \<Rightarrow> string" where "bool_str x = (if x then ''True'' else ''False'')"

definition code_repr :: "int option \<Rightarrow> string" where
  "code_repr c = (case c of None \<Rightarrow> ''None'' | Some n \<Rightarrow> int_str n)"

section \<open>The checks\<close>

text \<open>
  A check on a shell: starting it may raise; whatever the check finds, the shell is killed at the
  end.  The result has the terminal as it is left.
\<close>

definition with_shell :: "'t tty \<Rightarrow> ('t probing \<Rightarrow> probe \<times> 't probing) \<Rightarrow> probe \<times> 't option" where
  "with_shell T body =
     (case ty_start T [''/bin/sh''] 24 80 of
        Err e \<Rightarrow> (Crashed (exn_name e) (exn_text e), None)
      | Ok t \<Rightarrow> (case body (t, []) of (r, P) \<Rightarrow> (r, Some (ty_kill T (fst P)))))"

definition probe_openpty :: "exn + unit \<Rightarrow> bool \<Rightarrow> (nat \<times> nat \<Rightarrow> exn + nat \<times> nat \<times> nat \<times> nat) \<Rightarrow> probe" where
  "probe_openpty opened ioctl_ok answer =
     (case opened of
        Err e \<Rightarrow> Crashed (exn_name e) (exn_text e)
      | Ok _ \<Rightarrow>
          (case (case set_winsize ioctl_ok 17 53 of Err e \<Rightarrow> Err e | Ok ws \<Rightarrow> get_winsize (answer ws)) of
             Err e \<Rightarrow> if is_oserror e then Probed False (''openpty/TIOCSWINSZ failed: '' @ exn_text e)
                      else Crashed (exn_name e) (exn_text e)
           | Ok (rows, cols) \<Rightarrow>
               Probed ((rows, cols) = (17, 53)) (''openpty ok, winsize '' @ nat_str rows @ ''x'' @ nat_str cols @ '' round-trip'')))"

definition CR1 :: string where "CR1 = [CHR 0x0D]"

definition echo_check :: "'t tty \<Rightarrow> 't probing \<Rightarrow> probe \<times> 't probing" where
  "echo_check T P =
     (case wait_for T ''PTY-OK-42'' 8 (probe_send T (''echo PTY-OK-$((6*7))'' @ CR1) P) of (found, P1) \<Rightarrow>
        if \<not> found then (Probed False (''no reply; got: '' @ heard P1), P1)
        else case wait_exit T (probe_send T (''exit'' @ CR1) P1) of
          (None, (t, buf)) \<Rightarrow> (Probed False (''shell did not exit after '' @ [SQ] @ ''exit'' @ [SQ]), (ty_kill T t, buf))
        | (Some code, P2) \<Rightarrow> (Probed True (''shell answered, exit='' @ int_str code), P2))"

definition probe_echo :: "bool \<Rightarrow> 't tty \<Rightarrow> probe \<times> 't option" where
  "probe_echo has_fork T =
     (if \<not> has_fork then (Probed False ''os.fork unavailable in this runtime'', None) else with_shell T (echo_check T))"

definition isatty_check :: "'t tty \<Rightarrow> 't probing \<Rightarrow> probe \<times> 't probing" where
  "isatty_check T P =
     (case wait_for T ''TTY-YES'' 8 (probe_send T (''test -t 0 && echo TTY-YES'' @ CR1) P) of (tty_yes, P1) \<Rightarrow>
      case wait_for T ''/dev/pts/'' 8 (probe_send T (''tty'' @ CR1) P1) of (pty_path, P2) \<Rightarrow>
      let detail = (if tty_yes \<and> pty_path then ''isatty=true, controlling tty=/dev/pts/*''
            else ''isatty='' @ bool_str tty_yes @ '', ctl-tty='' @ bool_str pty_path @ ''; out: '' @ heard P2)
      in (Probed (tty_yes \<and> pty_path) detail, snd (wait_exit T (probe_send T (''exit'' @ CR1) P2))))"

definition resize_check :: "'t tty \<Rightarrow> 't probing \<Rightarrow> probe \<times> 't probing" where
  "resize_check T P =
     (case wait_for T ''11 47'' 8 (probe_send T (''stty size'' @ CR1) (ty_resize T 11 47 (fst P), snd P)) of (found, P1) \<Rightarrow>
        if found then (Probed True ''stty size == 11 47 after TIOCSWINSZ'', snd (wait_exit T (probe_send T (''exit'' @ CR1) P1)))
        else (Probed False ([SQ] @ ''stty size'' @ [SQ] @ '' mismatch; got: '' @ heard P1), P1))"

definition sigint_check :: "'t tty \<Rightarrow> 't probing \<Rightarrow> probe \<times> 't probing" where
  "sigint_check T P =
     (case wait_for T ''sleep 30'' 8 (probe_send T (''sleep 30'' @ CR1) P) of (started, P1) \<Rightarrow>
        if \<not> started then (Probed False ''foreground sleep did not start'', P1)
        else case wait_for T ''AFTER-INT'' 5 (probe_send T (''echo AFTER-INT'' @ CR1) (probe_send T [CHR 0x03] P1)) of (alive, P2) \<Rightarrow>
          if \<not> alive then (Probed False ''Ctrl+C did not kill foreground sleep'', (ty_kill T (fst P2), snd P2))
          else (Probed True ([BS] @ ''x03 killed foreground sleep; shell alive''), snd (wait_exit T (probe_send T (''exit'' @ CR1) P2))))"

definition exit_check :: "'t tty \<Rightarrow> 't probing \<Rightarrow> probe \<times> 't probing" where
  "exit_check T P =
     (case wait_exit T (probe_send T (''exit 42'' @ CR1) P) of (code, P1) \<Rightarrow>
        if code = Some 42 then (Probed True ''exit 42 -> waitpid status 42, reaped'', P1)
        else (Probed False (''expected exit 42, got '' @ code_repr code), P1))"

text \<open>The six in order; each shell is one of its own.\<close>

definition shell_probes :: "bool \<Rightarrow> 't tty \<Rightarrow> (probe \<times> 't option) list" where
  "shell_probes has_fork T =
     probe_echo has_fork T # map (with_shell T) [isatty_check T, resize_check T, sigint_check T, exit_check T]"

definition pty_probes :: "probe \<Rightarrow> bool \<Rightarrow> 't tty \<Rightarrow> probe list" where
  "pty_probes first has_fork T = first # map fst (shell_probes has_fork T)"

end
