(* ===== verification/PtyProbeProps.thy ===== *)
theory PtyProbeProps
  imports PtyProbe ShellProps
begin

text \<open>
  What \<open>zmux-pty-probe\<close> shows: the exit code stands for all six checks, and two of the checks are
  satisfied by the echo of what they type.
\<close>

section \<open>What the probe shows\<close>

lemma all_kept: "length (filter P xs) = length xs \<longleftrightarrow> list_all P xs"
  by (metis filter_True filter_id_conv length_filter_less less_irrefl list_all_iff)

lemma run_pty_probe_result:
  "distinct (map fst ps) \<Longrightarrow> fst ` set rs \<inter> fst ` set ps = {} \<Longrightarrow>
     \<exists>s'. run_pty_probe ps rs s = (Ok (rs @ map (\<lambda>(nm, p). (nm, probe_result p)) ps), s')"
proof (induction ps arbitrary: rs s)
  case (Cons np ps)
  obtain nm p where np: "np = (nm, p)" by (cases np)
  obtain ok detail where r: "probe_result p = (ok, detail)" by (cases "probe_result p")
  obtain s1 where pr: "print_a (''['' @ (if ok then ''PASS'' else ''FAIL'') @ ''] '' @ nm @ '': '' @ detail) s = (Ok (), s1)"
    by (simp add: print_a_def write_a_def)
  have d: "dict_put nm (ok, detail) rs = rs @ [(nm, ok, detail)]" using Cons.prems np by (intro dict_put_new) auto
  have "\<exists>s'. run_pty_probe ps (rs @ [(nm, ok, detail)]) s1
      = (Ok ((rs @ [(nm, ok, detail)]) @ map (\<lambda>(nm, p). (nm, probe_result p)) ps), s')"
    by (rule Cons.IH) (use Cons.prems np in auto)
  with pr show ?case by (simp add: np r d seq_a_def bind_a_def)
qed simp

text \<open>
  \<open>zmux-pty-probe\<close> always ends with an exit code, and it is 0 exactly when none of the six checks
  failed or crashed; the window size then made its round trip and the shell told to \<open>exit 42\<close> was
  reaped with that status.
\<close>

theorem probe_exit_code:
  assumes "ap_probes A = pty_probes (probe_openpty opened ioctl_ok answer) has_fork T"
  shows "\<exists>code. fst (cmd_pty_probe A s) = Ok code \<and> (code = 0 \<longleftrightarrow> list_all (\<lambda>p. fst (probe_result p)) (ap_probes A)) \<and>
    (code = 0 \<longrightarrow> get_winsize (answer (17, 53)) = Ok (17, 53) \<and>
       (\<exists>t. ty_start T [''/bin/sh''] 24 80 = Ok t \<and> fst (ty_status T (ty_write T (b (''exit 42'' @ CR1)) t)) = Some 42))"
proof -
  let ?ps = "zip PTY_PROBES (ap_probes A)"
  have len: "length (ap_probes A) = length PTY_PROBES"
    by (simp add: assms pty_probes_def shell_probes_def PTY_PROBES_def)
  then have fst: "map fst ?ps = PTY_PROBES" and snd: "map snd ?ps = ap_probes A" by simp_all
  then have "distinct (map fst ?ps)" by (simp add: PTY_PROBES_def)
  from run_pty_probe_result [OF this, of "[]" s]
  obtain s' where run: "run_pty_probe ?ps [] s = (Ok (map (\<lambda>(nm, p). (nm, probe_result p)) ?ps), s')" by auto
  let ?rs = "map (\<lambda>(nm, p). (nm, probe_result p)) ?ps"
  have "length (filter (\<lambda>(nm, ok, d). ok) ?rs) = length ?rs \<longleftrightarrow> list_all (\<lambda>(nm, ok, d). ok) ?rs"
    by (rule all_kept)
  also have "\<dots> \<longleftrightarrow> list_all (\<lambda>p. fst (probe_result p)) (map snd ?ps)"
    by (simp add: list.pred_map comp_def case_prod_beta)
  finally have all: "length (filter (\<lambda>(nm, ok, d). ok) ?rs) = length ?rs \<longleftrightarrow> list_all (\<lambda>p. fst (probe_result p)) (ap_probes A)"
    by (simp only: snd)
  have size: "set_winsize True 17 53 = Ok (17, 53)" "set_winsize False 17 53 = Err (OSError ''ioctl'')"
    by (simp_all add: set_winsize_def pack_H_def)
  have first: "get_winsize (answer (17, 53)) = Ok (17, 53)" if "fst (probe_result (probe_openpty opened ioctl_ok answer))"
    using that size by (cases ioctl_ok) (auto simp: probe_openpty_def probe_result_def split: sum.splits if_splits)
  have last: "\<exists>t. ty_start T [''/bin/sh''] 24 80 = Ok t \<and> fst (ty_status T (ty_write T (b (''exit 42'' @ CR1)) t)) = Some 42"
    if "fst (probe_result (fst (with_shell T (exit_check T))))"
    using that by (auto simp: with_shell_def exit_check_def wait_exit_def probe_send_def probe_result_def simp del: b_append split: sum.splits prod.splits if_splits)
  have "list_all (\<lambda>p. fst (probe_result p)) (ap_probes A) \<Longrightarrow> fst (probe_result (probe_openpty opened ioctl_ok answer)) \<and>
      fst (probe_result (fst (with_shell T (exit_check T))))"
    by (simp add: assms pty_probes_def shell_probes_def)
  with first last all run show ?thesis by (simp add: cmd_pty_probe_def bind_a_def)
qed


text \<open>A terminal that echoes what is typed, line by line, as the kernel does unless told not to.\<close>

definition echoes :: "'t tty \<Rightarrow> bool" where
  "echoes T \<longleftrightarrow> (\<forall>s seconds t. list_all (\<lambda>c. 32 \<le> (of_char c :: nat)) s \<longrightarrow>
     sublist (b s) (concat (fst (ty_output T seconds (ty_write T (b (s @ CR1)) t)))))"

lemma fst_True: "fst x \<Longrightarrow> \<exists>y. x = (True, y)"
  by (cases x) simp

lemma echo_found:
  assumes "echoes T" "list_all (\<lambda>c. 32 \<le> (of_char c :: nat)) (xs @ needle @ ys)"
  shows "fst (wait_for T needle seconds (probe_send T (xs @ needle @ ys @ CR1) P))"
proof -
  let ?heard = "concat (fst (ty_output T seconds (ty_write T (b ((xs @ needle @ ys) @ CR1)) (fst P))))"
  from assms have "sublist (b (xs @ needle @ ys)) ?heard" unfolding echoes_def by blast
  then obtain us vs where "?heard = us @ (b xs @ b needle @ b ys) @ vs" by (auto simp: sublist_def)
  then have "snd P @ ?heard = (snd P @ us @ b xs) @ b needle @ (b ys @ vs)" by simp
  then have "sublist (b needle) (snd P @ ?heard)" unfolding sublist_def by blast
  then show ?thesis
    by (cases "ty_output T seconds (ty_write T (b (xs @ needle @ ys @ CR1)) (fst P))")
      (simp add: wait_for_def probe_send_def occurs_iff_sublist Let_def del: b_append)
qed

text \<open>
  C37: The checks for Ctrl+C and for a terminal cannot see a broken shell: on any terminal that echoes
  its input the check for Ctrl+C passes, whatever the shell does with the signal or the command after
  it, and the first half of the check for a terminal holds, because the text they wait for is part
  of the line they type.
\<close>

theorem echo_satisfies_sigint_check:
  assumes "echoes T" "ty_start T [''/bin/sh''] 24 80 = Ok t"
  shows "(\<exists>detail. fst (with_shell T (sigint_check T)) = Probed True detail) \<and>
    fst (wait_for T ''TTY-YES'' 8 (probe_send T (''test -t 0 && echo TTY-YES'' @ CR1) P))"
proof (rule conjI)
  have a: "fst (wait_for T ''sleep 30'' 8 (probe_send T (''sleep 30'' @ CR1) Q))" for Q
    using echo_found [OF assms(1), of "[]" "''sleep 30''" "[]"] by simp
  have c: "fst (wait_for T ''AFTER-INT'' 5 (probe_send T (''echo AFTER-INT'' @ CR1) Q))" for Q
    using echo_found [OF assms(1), of "''echo ''" "''AFTER-INT''" "[]"] by simp
  show "\<exists>detail. fst (with_shell T (sigint_check T)) = Probed True detail"
  proof -
    obtain P1 where one: "wait_for T ''sleep 30'' 8 (probe_send T (''sleep 30'' @ CR1) (t, [])) = (True, P1)"
      using fst_True [OF a [of "(t, [])"]] by (elim exE)
    obtain P2 where two: "wait_for T ''AFTER-INT'' 5 (probe_send T (''echo AFTER-INT'' @ CR1) (probe_send T [CHR 0x03] P1)) = (True, P2)"
      using fst_True [OF c [of "probe_send T [CHR 0x03] P1"]] by (elim exE)
    show ?thesis unfolding with_shell_def sigint_check_def assms(2) sum.case one two prod.case by (simp split: prod.split)
  qed
  show "fst (wait_for T ''TTY-YES'' 8 (probe_send T (''test -t 0 && echo TTY-YES'' @ CR1) P))"
    using echo_found [OF assms(1), of "''test -t 0 && echo ''" "''TTY-YES''" "[]"] by simp
qed


section \<open>Concrete terminals\<close>

text \<open>One that only echoes, and one with a shell that answers what the checks ask for.\<close>

definition mute_tty :: "bytes tty" where
  "mute_tty = \<lparr>ty_start = \<lambda>_ _ _. Ok [], ty_write = \<lambda>bs t. t @ bs, ty_resize = \<lambda>_ _ t. t,
     ty_output = \<lambda>_ t. ([t], []), ty_status = \<lambda>t. (None, t), ty_kill = id\<rparr>"

lemma mute_echoes: "echoes mute_tty"
  unfolding echoes_def
proof (intro allI impI)
  fix s seconds and t :: bytes
  have "concat (fst (ty_output mute_tty seconds (ty_write mute_tty (b (s @ CR1)) t))) = t @ b s @ b CR1"
    by (simp add: mute_tty_def)
  then show "sublist (b s) (concat (fst (ty_output mute_tty seconds (ty_write mute_tty (b (s @ CR1)) t))))"
    unfolding sublist_def by blast
qed

theorem echo_satisfies_sigint_check_witness:
  "(\<exists>detail. fst (with_shell mute_tty (sigint_check mute_tty)) = Probed True detail) \<and>
   fst (wait_for mute_tty ''TTY-YES'' 8 (probe_send mute_tty (''test -t 0 && echo TTY-YES'' @ CR1) ([], [])))"
proof -
  have "ty_start mute_tty [''/bin/sh''] 24 80 = Ok []" by (simp add: mute_tty_def)
  from echo_satisfies_sigint_check [OF mute_echoes this] show ?thesis by blast
qed

text \<open>A shell that answers the checks, without an echo of its own.\<close>

definition reply_to :: "bytes \<Rightarrow> bytes" where
  "reply_to bs =
     (if bs = b (''echo PTY-OK-$((6*7))'' @ CR1) then b ''PTY-OK-42''
      else if bs = b (''tty'' @ CR1) then b ''/dev/pts/0''
      else if bs = b (''stty size'' @ CR1) then b ''11 47'' else bs)"

definition shell_tty :: "bytes tty" where
  "shell_tty = \<lparr>ty_start = \<lambda>_ _ _. Ok [], ty_write = \<lambda>bs t. bs, ty_resize = \<lambda>_ _ t. t,
     ty_output = \<lambda>_ t. ([reply_to t], t), ty_status = \<lambda>t. (Some (if t = b (''exit 42'' @ CR1) then 42 else 0), t), ty_kill = id\<rparr>"

definition probed_host :: app where
  "probed_host = demo_host\<lparr>ap_probes := pty_probes (probe_openpty (Ok ()) True (\<lambda>(r, c). Ok (r, c, 0, 0))) True shell_tty\<rparr>"

lemma shell_tty_passes: "list_all (\<lambda>p. fst (probe_result p)) (ap_probes probed_host)"
  by code_simp

theorem probe_exit_code_witness: "fst (cmd_pty_probe probed_host demo_sys) = Ok 0"
proof -
  have "ap_probes probed_host = pty_probes (probe_openpty (Ok ()) True (\<lambda>(r, c). Ok (r, c, 0, 0))) True shell_tty"
    by (simp add: probed_host_def)
  from probe_exit_code [OF this, of demo_sys] shell_tty_passes show ?thesis by auto
qed

end
