(* ===== verification/WsListen.thy ===== *)
theory WsListen
  imports WsServer
begin

text \<open>
  The life of the WebSocket server of \<open>zmux/ws_server.py\<close> around its clients: \<open>start\<close> with
  listeners already bound or one it binds itself, an accept loop per listener on a thread of its own,
  the client threads they start, and \<open>stop\<close> from another thread.  The threads interleave as steps;
  what \<open>accept\<close> and \<open>bind\<close> answer is open.
\<close>

section \<open>Starting\<close>

text \<open>Where an accept loop stands: before its test, in \<open>accept\<close>, with a connection, past the second test.\<close>

datatype phase = Testing | Accepting | Took nat | Passed nat | Ended

record hub =
  h_srv :: server
  h_socks :: "(nat \<times> nat) list"
  h_port :: nat
  h_phase :: "nat \<Rightarrow> phase"
  h_started :: "nat list"
  h_dropped :: "nat list"

definition init_hub :: "nat \<Rightarrow> hub" where
  "init_hub port = \<lparr>h_srv = init_server, h_socks = [], h_port = port, h_phase = \<lambda>_. Ended, h_started = [], h_dropped = []\<rparr>"

text \<open>A listener is its descriptor and the port it is bound to.\<close>

definition ws_start :: "(nat \<times> nat) option \<Rightarrow> (nat \<times> nat) list \<Rightarrow> hub \<Rightarrow> hub" where
  "ws_start listener listeners H =
     (let H1 = (case listener of
           Some l \<Rightarrow> H\<lparr>h_socks := [l], h_port := snd l\<rparr>
         | None \<Rightarrow> if listeners \<noteq> [] then H\<lparr>h_socks := listeners, h_port := snd (hd listeners)\<rparr> else H)
      in H1\<lparr>h_srv := h_srv H1\<lparr>w_running := True\<rparr>\<rparr>)"

text \<open>The server's thread: it binds a socket when it was given none, and starts the loops.\<close>

definition start_loops :: "hub \<Rightarrow> hub" where
  "start_loops H =
     H\<lparr>h_port := snd (hd (h_socks H)),
       h_phase := \<lambda>l. if l \<in> fst ` set (h_socks H) then Testing else h_phase H l\<rparr>"

definition ws_run_server :: "(nat \<Rightarrow> exn + nat \<times> nat) \<Rightarrow> hub \<Rightarrow> hub" where
  "ws_run_server bound H =
     (if h_socks H = [] then
        (case bound (h_port H) of
           Err e \<Rightarrow> H\<lparr>h_srv := h_srv H\<lparr>w_running := False\<rparr>\<rparr>
         | Ok l \<Rightarrow> start_loops (H\<lparr>h_socks := [l]\<rparr>))
      else start_loops H)"

text \<open>
  \<open>_set_send_timeout\<close>: the \<open>timeval\<close> for a limit in seconds and millionths, when the platform has
  the option and takes it; otherwise sends block.
\<close>

definition SEND_TIMEOUT_MICROS :: nat where "SEND_TIMEOUT_MICROS = 5000000"

definition send_timeout :: "bool \<Rightarrow> bool \<Rightarrow> (nat \<times> nat) option" where
  "send_timeout has_option accepted =
     (if has_option \<and> accepted then Some (SEND_TIMEOUT_MICROS div 1000000, SEND_TIMEOUT_MICROS mod 1000000) else None)"

section \<open>The threads\<close>

text \<open>One step of the accept loop of listener \<open>l\<close>; \<open>arrived\<close> is what \<open>accept\<close> returns, if it does.\<close>

definition loop_step :: "nat option \<Rightarrow> nat \<Rightarrow> hub \<Rightarrow> hub" where
  "loop_step arrived l H =
     (let running = w_running (h_srv H); goto = (\<lambda>p. H\<lparr>h_phase := (h_phase H)(l := p)\<rparr>)
      in case h_phase H l of
           Testing \<Rightarrow> goto (if running then Accepting else Ended)
         | Accepting \<Rightarrow> (case arrived of Some c \<Rightarrow> goto (Took c) | None \<Rightarrow> goto Ended)
         | Took c \<Rightarrow> if running then goto (Passed c) else (goto Ended)\<lparr>h_dropped := h_dropped H @ [c]\<rparr>
         | Passed c \<Rightarrow> (goto Testing)\<lparr>h_started := h_started H @ [c]\<rparr>
         | Ended \<Rightarrow> H)"

datatype event = Loop nat "nat option" | Stop | Registers nat | Leaves nat

inductive hub_step :: "event \<Rightarrow> hub \<Rightarrow> hub \<Rightarrow> bool" where
  loop: "h_phase H l \<noteq> Ended \<Longrightarrow> hub_step (Loop l arrived) H (loop_step arrived l H)"
| stop: "ws_stop (h_srv H) = Some srv \<Longrightarrow> hub_step Stop H (H\<lparr>h_srv := srv\<rparr>)"
| registers: "c \<in> set (h_started H) \<Longrightarrow> register_client c (h_srv H) = Some srv \<Longrightarrow> hub_step (Registers c) H (H\<lparr>h_srv := srv\<rparr>)"
| leaves: "c \<in> set (h_started H) \<Longrightarrow> unregister_client c (h_srv H) = Some srv \<Longrightarrow> hub_step (Leaves c) H (H\<lparr>h_srv := srv\<rparr>)"

inductive hub_run :: "event list \<Rightarrow> hub \<Rightarrow> hub \<Rightarrow> bool" where
  idle: "hub_run [] H H"
| more: "hub_step e H H1 \<Longrightarrow> hub_run es H1 H2 \<Longrightarrow> hub_run (e # es) H H2"

inductive_cases hub_step_E: "hub_step e H H1"
inductive_cases hub_run_E: "hub_run (e # es) H H2"

section \<open>Stopping\<close>

text \<open>How many steps a loop still makes once the server is not running.\<close>

definition steps_left :: "phase \<Rightarrow> nat" where
  "steps_left p = (case p of Testing \<Rightarrow> 1 | Accepting \<Rightarrow> 2 | Took _ \<Rightarrow> 1 | Passed _ \<Rightarrow> 2 | Ended \<Rightarrow> 0)"

definition is_passed :: "phase \<Rightarrow> bool" where "is_passed p = (case p of Passed _ \<Rightarrow> True | _ \<Rightarrow> False)"

definition is_loop :: "event \<Rightarrow> bool" where "is_loop e = (case e of Loop _ _ \<Rightarrow> True | _ \<Rightarrow> False)"

definition loops_left :: "hub \<Rightarrow> nat" where
  "loops_left H = (\<Sum>l \<in> fst ` set (h_socks H). steps_left (h_phase H l))"

definition passed :: "hub \<Rightarrow> nat" where
  "passed H = (\<Sum>l \<in> fst ` set (h_socks H). if is_passed (h_phase H l) then 1 else 0)"

text \<open>Loops run for bound listeners only.\<close>

definition loops_bound :: "hub \<Rightarrow> bool" where
  "loops_bound H \<longleftrightarrow> (\<forall>l. l \<notin> fst ` set (h_socks H) \<longrightarrow> h_phase H l = Ended)"


lemma sum_update:
  fixes f :: "phase \<Rightarrow> nat"
  assumes "finite S" "k \<in> S"
  shows "(\<Sum>l \<in> S. f ((ph(k := p)) l)) + f (ph k) = (\<Sum>l \<in> S. f (ph l)) + f p"
proof -
  have "(\<Sum>l \<in> S - {k}. f ((ph(k := p)) l)) = (\<Sum>l \<in> S - {k}. f (ph l))" by (rule sum.cong) auto
  then show ?thesis using assms by (simp add: sum.remove [of S k])
qed

lemma loop_step_phase:
  "\<exists>p. h_phase (loop_step arrived l H) = (h_phase H)(l := p) \<and> h_socks (loop_step arrived l H) = h_socks H \<and>
     h_srv (loop_step arrived l H) = h_srv H"
  by (rule exI [of _ "h_phase (loop_step arrived l H) l"], cases "h_phase H l")
    (auto simp: loop_step_def Let_def split: option.split)

text \<open>One step of a loop when the server is not running.\<close>

lemma stopped_loop_step:
  assumes "\<not> w_running (h_srv H)" "h_phase H l \<noteq> Ended" "loops_bound H"
  shows "loops_left (loop_step arrived l H) < loops_left H \<and>
    length (h_started (loop_step arrived l H)) + passed (loop_step arrived l H) \<le> length (h_started H) + passed H"
proof -
  let ?S = "fst ` set (h_socks H)"
  obtain p where p: "h_phase (loop_step arrived l H) = (h_phase H)(l := p)" "h_socks (loop_step arrived l H) = h_socks H"
    using loop_step_phase by blast
  have l: "finite ?S" "l \<in> ?S" using assms(2,3) by (auto simp: loops_bound_def)
  have pl: "h_phase (loop_step arrived l H) l = p" by (simp add: p)
  have a: "loops_left (loop_step arrived l H) + steps_left (h_phase H l) = loops_left H + steps_left p"
    using sum_update [OF l, of steps_left] by (simp add: loops_left_def p)
  have c: "passed (loop_step arrived l H) + (if is_passed (h_phase H l) then 1 else 0) = passed H + (if is_passed p then 1 else 0)"
    using sum_update [OF l, of "\<lambda>p. if is_passed p then 1 else 0"] by (simp add: passed_def p)
  from assms(1,2) pl a c show ?thesis
    by (cases "h_phase H l") (auto simp: loop_step_def Let_def steps_left_def is_passed_def split: option.splits)
qed

lemma client_step_running:
  "ws_stop s = Some s' \<Longrightarrow> \<not> w_running s'"
  "register_client c s = Some s' \<Longrightarrow> w_running s' = w_running s"
  "unregister_client c s = Some s' \<Longrightarrow> w_running s' = w_running s"
  by (auto simp: ws_stop_def register_client_def unregister_client_def acquire_def release_def bind_eq_Some_conv Let_def
      split: if_splits)

lemma hub_step_bound: "hub_step e H H1 \<Longrightarrow> loops_bound H \<Longrightarrow> loops_bound H1"
proof (induction rule: hub_step.induct)
  case (loop H l arrived)
  obtain p where "h_phase (loop_step arrived l H) = (h_phase H)(l := p)" "h_socks (loop_step arrived l H) = h_socks H"
    using loop_step_phase by blast
  with loop show ?case by (auto simp: loops_bound_def)
qed (simp_all add: loops_bound_def)

lemma stopped_step:
  "hub_step e H H1 \<Longrightarrow> \<not> w_running (h_srv H) \<Longrightarrow> loops_bound H \<Longrightarrow>
     \<not> w_running (h_srv H1) \<and> (if is_loop e then 1 else 0) + loops_left H1 \<le> loops_left H \<and>
     length (h_started H1) + passed H1 \<le> length (h_started H) + passed H"
proof (induction rule: hub_step.induct)
  case (loop H l arrived)
  then show ?case using stopped_loop_step [of H l arrived] loop_step_phase [of arrived l H] by (auto simp: is_loop_def)
qed (auto simp: is_loop_def loops_left_def passed_def client_step_running)


text \<open>A server with one listener, stopped while its loop waits in \<open>accept\<close>.\<close>

definition demo_hub :: hub where
  "demo_hub = loop_step None 3 (ws_run_server (\<lambda>_. Err (OSError [])) (ws_start (Some (3, 5001)) [] (init_hub 1)))"


end
