(* ===== verification/Startup.thy ===== *)
theory Startup
  imports Rest WsListen
begin

text \<open>
  Starting the program: what importing \<open>zmux/paths.py\<close> does (directories, wrappers, the import path),
  the hooks of \<open>zmux/crash.py\<close>, the sockets of \<open>zmux/server.py\<close>, and \<open>main.py\<close>, which runs the server
  until it returns or raises.
\<close>

section \<open>The private directories\<close>

definition runtime_dirs :: "path \<Rightarrow> path list" where
  "runtime_dirs app =
     [child app ''home'', child (child app ''home'') ''projects'', child app ''cache'', child app ''logs'', bin_dir app,
      child (child app ''cache'') ''downloads'', child app ''staging'', child app ''user_packages'', child app ''installed'']"

text \<open>Each is made and closed to others; a mode that cannot be set is left.\<close>

definition make_private :: "path \<Rightarrow> unit io" where
  "make_private d = seq_io (mkdir_parents d) (try_os (chmod d 448) ())"

definition make_runtime_dirs :: "path \<Rightarrow> unit io" where
  "make_runtime_dirs app = each_io make_private (runtime_dirs app)"

definition legacy_package_paths :: "path \<Rightarrow> (string \<times> path) list" where
  "legacy_package_paths app =
     [(''downloads'', child (child app ''cache'') ''downloads''), (''staging'', child app ''staging''),
      (''user_packages'', child app ''user_packages''), (''installed'', child app ''installed'')]"

text \<open>\<open>sys.path.insert(1, entry)\<close> unless it is there.\<close>

definition importable :: "string \<Rightarrow> string list \<Rightarrow> string list" where
  "importable entry sys_path = (if entry \<in> set sys_path then sys_path else take 1 sys_path @ [entry] @ drop 1 sys_path)"

record settings =
  st_app :: path
  st_env :: environ
  st_sys_path :: "string list"

text \<open>Importing \<open>zmux.paths\<close>; a file system error while the wrappers are written is not fatal.\<close>

definition import_paths :: "environ \<Rightarrow> path \<Rightarrow> string list \<Rightarrow> settings io" where
  "import_paths env package_root sys_path =
     bind_io (resolve_app_dir env package_root) (\<lambda>app.
     seq_io (make_runtime_dirs app)
    (bind_io (try_os (bind_io (ensure_cli_wrappers app package_root env) (\<lambda>(_, env'). ret env')) env) (\<lambda>env'.
       ret \<lparr>st_app = app, st_env = env', st_sys_path = importable (path_str (child app ''user_packages'')) sys_path\<rparr>)))"

definition ANDROID_PASSTHROUGH :: "string list" where
  "ANDROID_PASSTHROUGH = [''ANDROID_ART_ROOT'', ''ANDROID_DATA'', ''ANDROID_I18N_ROOT'', ''ANDROID_ROOT'',
     ''ANDROID_RUNTIME_ROOT'', ''ANDROID_TZDATA_ROOT'', ''ANDROID_STORAGE'', ''BOOTCLASSPATH'', ''DEX2OATBOOTCLASSPATH'',
     ''EXTERNAL_STORAGE'']"

definition describe_passthrough :: "environ \<Rightarrow> (string \<times> string option) list" where
  "describe_passthrough env = map (\<lambda>nm. (nm, env nm)) ANDROID_PASSTHROUGH"

section \<open>Sockets\<close>

text \<open>
  The calls that make a listener, in order; the first that fails raises, but sharing the port is
  best effort.
\<close>

datatype sockcall = Socket bool | V6Only | ReuseAddr | ReusePort | Bind string nat | Listen nat

definition listener_calls :: "bool \<Rightarrow> bool \<Rightarrow> nat \<Rightarrow> string \<Rightarrow> nat \<Rightarrow> bool \<Rightarrow> bool \<Rightarrow> sockcall list" where
  "listener_calls has_v6only has_reuseport somaxconn host port v6 reuse_port =
     [Socket v6] @ (if v6 \<and> has_v6only then [V6Only] else []) @ [ReuseAddr]
     @ (if reuse_port \<and> has_reuseport then [ReusePort] else []) @ [Bind host port, Listen (min somaxconn 128)]"

definition bind_listener :: "(sockcall \<Rightarrow> bool) \<Rightarrow> sockcall list \<Rightarrow> exn + unit" where
  "bind_listener ok calls = (if list_all (\<lambda>c. c = ReusePort \<or> ok c) calls then Ok () else Err (OSError ''bind''))"

section \<open>The process\<close>

record program =
  pg_fs :: fsys
  pg_bridge :: bridge
  pg_hooked :: bool
  pg_hub :: hub
  pg_open :: "listener list"
  pg_served :: "nat option"
  pg_callbacks :: bool

text \<open>The hooks are installed once; each writes a record named after what failed.\<close>

definition install_hooks :: "program \<Rightarrow> program" where
  "install_hooks P = (if pg_hooked P then P else P\<lparr>pg_hooked := True\<rparr>)"

definition thread_hook :: "path \<Rightarrow> string \<Rightarrow> string option \<Rightarrow> string \<Rightarrow> unit io" where
  "thread_hook log_dir stamp thread body =
     record_crash log_dir stamp (''thread:'' @ (case thread of None \<Rightarrow> ''unknown'' | Some nm \<Rightarrow> nm)) body"

definition unraisable_hook :: "path \<Rightarrow> string \<Rightarrow> string \<Rightarrow> string \<Rightarrow> unit io" where
  "unraisable_hook log_dir stamp where_text body = record_crash log_dir stamp (''unraisable:'' @ where_text) body"

text \<open>Descriptors for the listeners of the WebSocket server, in order.\<close>

definition numbered :: "listener list \<Rightarrow> (nat \<times> nat) list" where
  "numbered ls = zip [0..<length ls] (map snd ls)"

text \<open>
  \<open>run_server\<close>: the listeners, the port published to the page, the WebSocket server on the live
  listeners, the first session, and serving, which ends with \<open>ended\<close>; the HTTP listeners are closed
  whatever happens.  \<open>None\<close>: it waits for its port for ever.
\<close>

definition serve_on :: "listening \<Rightarrow> exn option \<Rightarrow> program \<Rightarrow> (exn + unit) \<times> program" where
  "serve_on L ended P =
     (let P1 = P\<lparr>pg_open := lg_http L @ lg_ws L, pg_served := Some (lg_ws_port L),
                 pg_hub := ws_run_server (\<lambda>_. Err (OSError [])) (ws_start None (numbered (lg_ws L)) (init_hub (lg_ws_port L))),
                 pg_callbacks := True\<rparr>
      in (case ended of None \<Rightarrow> Ok () | Some e \<Rightarrow> Err e, P1\<lparr>pg_open := filter (\<lambda>l. l \<notin> set (lg_http L)) (pg_open P1)\<rparr>))"

definition run_program :: "bool \<Rightarrow> (grants \<times> nat) list \<Rightarrow> grants \<Rightarrow> exn option \<Rightarrow> program \<Rightarrow> ((exn + unit) \<times> program) option" where
  "run_program android rounds ok ended P =
     (case run_server android rounds ok of
        None \<Rightarrow> None
      | Some (Err e) \<Rightarrow> Some (Err e, P)
      | Some (Ok L) \<Rightarrow> Some (serve_on L ended P))"

text \<open>\<open>main.py\<close>: an exception is written to the crash log and raised again.\<close>

definition main :: "environ \<Rightarrow> java \<Rightarrow> path \<Rightarrow> (exn \<Rightarrow> string) \<Rightarrow> (grants \<times> nat) list \<Rightarrow> grants \<Rightarrow> exn option \<Rightarrow> program
    \<Rightarrow> ((exn + unit) \<times> program) option" where
  "main env J source_dir traceback rounds ok ended P =
     (let P1 = install_hooks (P\<lparr>pg_bridge := snd (prime env J (pg_bridge P))\<rparr>)
      in case run_program (host_android env) rounds ok ended P1 of
           None \<Rightarrow> None
         | Some (Ok _, P2) \<Rightarrow> Some (Ok (), P2)
         | Some (Err e, P2) \<Rightarrow>
             Some (Err e, P2\<lparr>pg_fs := snd (write_crash_log (traceback e) (crash_candidates env source_dir) (pg_fs P2))\<rparr>))"

end
