(* ===== verification/StartupProps.thy ===== *)
theory StartupProps
  imports Startup RestProps
begin

text \<open>
  What starting the program guarantees: the runtime directories are the owner's alone, and once the
  program serves, the page's port is the one the WebSocket server listens on, on loopback only.
\<close>

section \<open>Private directories\<close>

text \<open>The root of the file system is the one directory whose mode is not modelled.\<close>

definition private_dir :: "fsys \<Rightarrow> path \<Rightarrow> bool" where
  "private_dir F d \<longleftrightarrow> (\<exists>l m. lookup F True d = Ok (l, Dir m) \<and> (l = [] \<or> m = 448))"

lemma private_adds: "adds F G \<Longrightarrow> private_dir F d \<Longrightarrow> private_dir G d"
proof -
  assume a: "adds F G" and "private_dir F d"
  then obtain l m where l: "lookup F True d = Ok (l, Dir m)" "l = [] \<or> m = 448" by (auto simp: private_dir_def)
  have "node_at G l = node_at F l" using a lookup_node [OF l(1)] by (auto simp: adds_def)
  from lookup_kept [OF adds_grown [OF a] l(1) this] l(2) show ?thesis by (auto simp: private_dir_def)
qed

lemma locate_chmod: "chmod p m F = (r, G) \<Longrightarrow> locate G follow d = locate F follow d"
  using walk_same_shape [OF chmod_same_shape, of p m F r G link_limit follow "[]" "p_names d"] by (simp add: locate_def)

lemma chmod_private:
  assumes "chmod p 448 F = (r, G)" "private_dir F d"
  shows "private_dir G d"
proof -
  from assms(2) obtain l m where l: "locate F True d = Ok l" "node_at F l = Some (Dir m)" "l = [] \<or> m = 448"
    by (auto simp: private_dir_def lookup_def split: sum.splits option.splits)
  then have "locate G True d = Ok l" by (simp add: locate_chmod [OF assms(1)])
  moreover have "l = [] \<or> node_at G l = Some (Dir 448)"
    using assms(1) l(2,3) by (auto simp: chmod_def change_def set_mode_def lookup_def split: sum.splits option.splits if_splits)
  ultimately show ?thesis by (auto simp: private_dir_def lookup_def)
qed

lemma chmod_makes_private:
  assumes "is_dir F d" "\<And>l. \<not> fs_denied F l"
  shows "\<exists>G. chmod d 448 F = (Ok (), G) \<and> private_dir G d \<and> fs_denied G = fs_denied F"
proof -
  from assms(1) obtain l m where l: "lookup F True d = Ok (l, Dir m)"
    by (auto simp: is_dir_def stat_def is_dirnode_iff split: sum.splits prod.splits)
  let ?G = "put_node F l (Dir 448)"
  have c: "chmod d 448 F = (Ok (), ?G)" using l assms(2) by (simp add: chmod_def change_def set_mode_def)
  have "locate ?G True d = Ok l"
    using l by (auto simp: locate_chmod [OF c] lookup_def split: sum.splits option.splits)
  then have "private_dir ?G d" by (cases "l = []") (auto simp: private_dir_def lookup_def)
  with c show ?thesis by simp
qed

lemma make_private_Ok:
  assumes "make_private d F = (Ok x, G)" "\<And>l. \<not> fs_denied F l"
  shows "private_dir G d \<and> (\<forall>l. \<not> fs_denied G l) \<and> (\<forall>e. private_dir F e \<longrightarrow> private_dir G e)"
proof -
  from assms(1) obtain y F1 where m: "mkdir_parents d F = (Ok y, F1)" "try_os (chmod d 448) () F1 = (Ok x, G)"
    by (auto simp: make_private_def seq_Ok)
  have a: "adds F F1" by (rule mkdir_parents_adds [OF m(1)])
  then have "\<not> fs_denied F1 l" for l using assms(2) by (simp add: adds_def)
  from chmod_makes_private [OF mkdir_parents_dir [OF m(1)] this] obtain H where
    h: "chmod d 448 F1 = (Ok (), H)" "private_dir H d" "fs_denied H = fs_denied F1" by blast
  with m(2) have "G = H" by (simp add: try_os_def try_io_def)
  with h a assms(2) private_adds [OF a] chmod_private [OF h(1)] show ?thesis by (auto simp: adds_def)
qed

text \<open>
  When the runtime directories are set up and the file system allows it, each of them (home,
  projects, cache, logs, commands and the package directories) exists with mode 0700, whatever modes
  they had and in whatever order they contain each other.
\<close>

theorem runtime_dirs_private:
  assumes "make_runtime_dirs app F = (Ok x, F')" "\<And>l. \<not> fs_denied F l"
  shows "list_all (private_dir F') (runtime_dirs app)"
proof -
  have "list_all (private_dir G) ds \<and> (\<forall>e. private_dir F e \<longrightarrow> private_dir G e)"
    if "each_io make_private ds F = (Ok x, G)" "\<And>l. \<not> fs_denied F l" for ds F G
    using that
  proof (induction ds arbitrary: F)
    case (Cons d ds)
    then obtain y F1 where s: "make_private d F = (Ok y, F1)" "each_io make_private ds F1 = (Ok x, G)"
      by (auto simp: seq_Ok)
    from make_private_Ok [OF s(1) Cons.prems(2)] Cons.IH [OF s(2)] show ?case by simp
  qed simp
  from this [of "runtime_dirs app" F F'] assms show ?thesis by (simp add: make_runtime_dirs_def)
qed

section \<open>The ports that are served\<close>

lemma served_hub:
  assumes "ls \<noteq> []"
  shows "h_port (ws_run_server bound (ws_start None (numbered ls) (init_hub p))) = snd (hd ls) \<and>
    w_running (h_srv (ws_run_server bound (ws_start None (numbered ls) (init_hub p)))) \<and>
    loops_bound (ws_run_server bound (ws_start None (numbered ls) (init_hub p))) \<and>
    map snd (h_socks (ws_run_server bound (ws_start None (numbered ls) (init_hub p)))) = map snd ls"
proof -
  have n: "numbered ls \<noteq> []" "snd (hd (numbered ls)) = snd (hd ls)" "map snd (numbered ls) = map snd ls"
    using assms by (cases ls; simp add: numbered_def upt_conv_Cons del: upt_Suc)+
  then show ?thesis
    by (simp add: ws_start_def ws_run_server_def start_loops_def Let_def init_hub_def loops_bound_def)
qed

text \<open>
  C26: Whatever the environment and the kernel answer, a program that has come to serve has its hooks
  installed, publishes to the page exactly the port its WebSocket server accepts on, listens on
  loopback addresses and on ports the WebView loads, and has closed its HTTP listeners when it ends,
  with an error, which it raises again, or without.
\<close>

theorem served_ports_safe:
  assumes "main env J source_dir traceback rounds ok ended P = Some (r, P')" "pg_served P = None" "pg_served P' = Some port"
  shows "\<exists>L. run_server (host_android env) rounds ok = Some (Ok L) \<and> port = lg_ws_port L \<and> pg_hooked P' \<and>
    h_port (pg_hub P') = port \<and> w_running (h_srv (pg_hub P')) \<and> map snd (h_socks (pg_hub P')) = map snd (lg_ws L) \<and>
    (\<forall>l \<in> set (lg_http L @ lg_ws L). fst l \<in> {''127.0.0.1'', ''localhost'', ''::1''} \<and> snd l \<notin> set CHROMIUM_RESTRICTED_PORTS) \<and>
    set (pg_open P') \<inter> set (lg_http L) = {} \<and>
    (case ended of None \<Rightarrow> r = Ok () | Some e \<Rightarrow> r = Err e)"
proof -
  let ?P1 = "install_hooks (P\<lparr>pg_bridge := snd (prime env J (pg_bridge P))\<rparr>)"
  have p1: "pg_hooked ?P1" "pg_served ?P1 = pg_served P" by (simp_all add: install_hooks_def)
  from assms(1) obtain r2 P2 where run: "run_program (host_android env) rounds ok ended ?P1 = Some (r2, P2)"
    by (auto simp: main_def Let_def split: option.splits)
  with assms(1) have s: "r = r2" "pg_served P' = pg_served P2" "pg_hooked P' = pg_hooked P2" "pg_hub P' = pg_hub P2" "pg_open P' = pg_open P2"
    by (auto simp: main_def Let_def split: sum.splits)
  from run s(2) assms(2,3) p1(2) obtain L where L: "run_server (host_android env) rounds ok = Some (Ok L)" "serve_on L ended ?P1 = (r2, P2)"
    by (auto simp: run_program_def split: option.splits sum.splits)
  obtain h http ws where safe: "hd (lg_ws L) = (''127.0.0.1'', ws)" "lg_ws_port L = ws"
    "http \<notin> set CHROMIUM_RESTRICTED_PORTS" "ws \<notin> set CHROMIUM_RESTRICTED_PORTS"
    "\<forall>l \<in> set (lg_http L @ lg_ws L). fst l \<in> {''127.0.0.1'', ''localhost'', ''::1''} \<and> snd l \<in> {http, ws}"
    using listeners_are_safe [OF L(1)] by blast
  have ne: "lg_ws L \<noteq> []" using L(1) by (auto simp: run_server_def split: option.splits sum.splits prod.splits)
  note hub = served_hub [OF ne, of "\<lambda>_. Err (OSError [])" "lg_ws_port L"]
  from L(2) have "pg_served P2 = Some (lg_ws_port L)" "pg_hooked P2 = pg_hooked ?P1" "set (pg_open P2) \<inter> set (lg_http L) = {}"
    "pg_hub P2 = ws_run_server (\<lambda>_. Err (OSError [])) (ws_start None (numbered (lg_ws L)) (init_hub (lg_ws_port L)))"
    "case ended of None \<Rightarrow> r2 = Ok () | Some e \<Rightarrow> r2 = Err e"
    by (auto simp: serve_on_def Let_def split: option.splits)
  with s hub safe L(1) p1(1) assms(3) show ?thesis by auto
qed

section \<open>Concrete runs\<close>

theorem runtime_dirs_private_witness:
  "\<exists>F'. make_runtime_dirs (Path ''/'' [''d'']) empty_fs = (Ok (), F') \<and> list_all (private_dir F') (runtime_dirs (Path ''/'' [''d'']))"
proof -
  have "fst (make_runtime_dirs (Path ''/'' [''d'']) empty_fs) = Ok ()" by code_simp
  then obtain F' where "make_runtime_dirs (Path ''/'' [''d'']) empty_fs = (Ok (), F')" by (metis prod.collapse)
  with runtime_dirs_private [OF this] show ?thesis by (simp add: empty_fs_def)
qed

definition demo_program :: program where
  "demo_program = \<lparr>pg_fs = empty_fs, pg_bridge = fresh_bridge,
     pg_hooked = False, pg_hub = init_hub 5001, pg_open = [], pg_served = None, pg_callbacks = False\<rparr>"

theorem served_ports_safe_witness:
  "\<exists>P'. main [''ANDROID_PRIVATE'' \<mapsto> ''/d''] \<lparr>ja_autoclass = None, ja_activity = True, ja_request = None\<rparr> (Path ''/'' [''a''])
      (\<lambda>e. ''Traceback'') [(\<lambda>h p. True, 0)] (\<lambda>h p. True) None demo_program = Some (Ok (), P') \<and>
     h_port (pg_hub P') = 8001 \<and> set (pg_open P') \<inter> {(''127.0.0.1'', 8000), (''::1'', 8000)} = {}"
proof -
  let ?env = "[''ANDROID_PRIVATE'' \<mapsto> ''/d'']" and ?J = "\<lparr>ja_autoclass = None, ja_activity = True, ja_request = None\<rparr>"
  have a: "host_android ?env" by (simp add: host_android_def)
  obtain P' where P': "main ?env ?J (Path ''/'' [''a'']) (\<lambda>e. ''Traceback'') [(\<lambda>h p. True, 0)] (\<lambda>h p. True) None demo_program
      = Some (Ok (), P')" "pg_served P' = Some 8001"
    using demo_run_server a by (auto simp: main_def run_program_def serve_on_def Let_def)
  have "pg_served demo_program = None" by (simp add: demo_program_def)
  from served_ports_safe [OF P'(1) this P'(2)] demo_run_server a P'(1) show ?thesis by auto
qed

end
