(* ===== verification/Spec2Isabelle.thy ===== *)
theory Spec2Isabelle
  imports PtySessionProps WsServer Streams RealPty Secrets LinuxProps ZpipTxn RestProps ToolProps ProotProps PtyProbeProps StartupProps
begin

text \<open>
  A verification library for the Python runtime of ZMUX, a terminal for Android.  The Python sources
  are \<open>app/src/main/python/\<close> (\<open>main.py\<close> and the package \<open>zmux\<close>), \<open>tools/\<close> and \<open>scripts/\<close>, all
  below \<open>experimental/zmux-kotlin/\<close>; file names in the texts of this library are relative to these.

  THE PROGRAM.  The Android host starts \<open>main.py\<close>.  It prepares the private directories, installs the
  crash hooks, binds the loopback listeners and runs two servers: a Flask application (the page, the
  REST endpoints) and a WebSocket server for the terminal view.  A WebSocket client proves that it
  holds the token of the page and then sends keystrokes and JSON control messages; the server passes
  them to the session manager, which owns up to \<open>MAX_SESSIONS\<close> terminal sessions and shows one of
  them.  A session edits lines, keeps a scrollback and either gives finished lines to the command
  interpreter on a worker thread or, once the Alpine guest is installed, passes all input to a shell
  on a real pseudo-terminal.  The interpreter runs built-in commands, Python source in process,
  pipelines of child processes, guest commands under \<open>proot\<close>, and the command-line entry with the
  package manager and the Linux environment.  What a session writes goes through its output filter to
  the manager, and from there to every registered client.

  THEORIES.  Shared models of the language and its library:
    \<open>Prelude\<close>, \<open>PyText\<close>: bytes, exceptions as values, \<open>str\<close> and \<open>bytes\<close> methods, UTF-8, numerals;
    \<open>Json\<close>, \<open>PyValues\<close>: \<open>json\<close>, run-time values and the errors of their accessors;
    \<open>Crypto\<close>, \<open>Sha512\<close>: SHA-256, HMAC, PBKDF2, hexadecimal text, SHA-512;
    \<open>PathLib\<close>, \<open>FileSys\<close>, \<open>Posix\<close>, \<open>Confine\<close>: pure paths, a file system with links, modes and
      refusals, \<open>os\<close> and \<open>shutil\<close> calls, and which locations a call can change;
    \<open>Shlex\<close>: the lexer behind \<open>shlex.split\<close> and behind pipelines, and \<open>shlex.join\<close>.
  The components, each with its state, its operations and its lemmas:
    \<open>WsFrame\<close>, \<open>WsHandshake\<close>, \<open>WsServer\<close>, \<open>WsListen\<close>: \<open>zmux/ws_server.py\<close>: frames, the opening
      handshake and the token, the client registry with its lock, broadcast and the client handler,
      starting, accepting and stopping; \<open>WsFrame\<close> also has the frame code of the two tools;
    \<open>PtyFilter\<close>, \<open>PtySession\<close>, \<open>PtySessionInv\<close>, \<open>PtySessionProps\<close>: \<open>zmux/pty_session.py\<close>: the private
      control sequence, all operations of a session, its reachable states, its functional behaviour;
    \<open>Sessions\<close>: \<open>zmux/sessions.py\<close>;  \<open>Streams\<close>: \<open>zmux/streams.py\<close>;
    \<open>RealPty\<close>, \<open>PtyProbe\<close>, \<open>PtyProbeProps\<close>: \<open>zmux/realpty.py\<close>: the child process on a terminal, and the
      terminal probe;
    \<open>Secrets\<close>: \<open>zmux/keystore.py\<close>, \<open>zmux/security.py\<close>;  \<open>ElfScan\<close>: \<open>zmux/elfscan.py\<close>;
    \<open>HostEnv\<close>: \<open>zmux/paths.py\<close>, \<open>zmux/env.py\<close>, \<open>zmux/command_registry.py\<close>;
    \<open>Runtime\<close>: \<open>zmux/runtime_info.py\<close>, \<open>javabridge.py\<close>, \<open>storage.py\<close>, \<open>crash.py\<close>, \<open>net.py\<close>, \<open>buildinfo.py\<close>;
    \<open>LinuxGuest\<close>, \<open>LinuxProot\<close>, \<open>LinuxInstall\<close>, \<open>LinuxGates\<close>, \<open>LinuxProps\<close>: \<open>zmux/linuxenv.py\<close>: the guest
      seen from the host, running it, installing it, probing it, and what all that promises;
    \<open>ZpipCore\<close>, \<open>ZpipInstall\<close>, \<open>ZpipFront\<close>, \<open>ZpipProps\<close>, \<open>ZpipTxn\<close>: \<open>zmux/zpip.py\<close>: names, database,
      download and checked extraction; the transaction and its inverse; the other commands; properties;
      the database under failing installs;
    \<open>Cli\<close>: \<open>zmux/cli.py\<close>;  \<open>ShellBuiltins\<close>, \<open>PyShell\<close>: \<open>zmux/python_shell.py\<close>;
    \<open>Actions\<close>, \<open>ShellProps\<close>: what actions keep and return, and the properties of the interpreter;
    \<open>Rest\<close>, \<open>RestProps\<close>: \<open>zmux/terminal.py\<close>, \<open>zmux/server.py\<close>;
    \<open>Startup\<close>, \<open>StartupProps\<close>: \<open>main.py\<close> and what importing \<open>zmux/paths.py\<close> does;
    \<open>ProtocolTools\<close>, \<open>ToolProps\<close>: \<open>tools/mock_pty_ws_server.py\<close>, \<open>tools/protocol_check.py\<close>;
    \<open>ProotBuild\<close>, \<open>ProotProps\<close>: \<open>scripts/build_proot_android.py\<close>.

  STATE AND INTERACTION.
    A terminal session is the record \<open>PtySession.session\<close>, one field per attribute of
      \<open>PTYTerminalSession\<close>; \<open>PtySessionInv.session_step\<close> is one atomic operation of any of its threads
      (input, worker, reader of the real terminal, resize, toggle, close) and \<open>reachable\<close> what a new
      session can become.
    The manager \<open>Sessions.mgr\<close> is written over \<open>term_ops\<close>, the operations it calls on a session, and
      its invariant over the locale \<open>terminal\<close>; the interpretation \<open>pty\<close> proves the laws of that locale
      for \<open>PtySession\<close> and its reachable states.
    The server \<open>WsServer.server\<close> holds the clients, the lock and what was sent to whom; \<open>WsServer.world\<close>
      joins it with a manager of sessions, and \<open>handle_client_message\<close> routes a frame to both.  \<open>clients_lock\<close>
      is not reentrant: an operation that would wait for itself has the value \<open>None\<close>, and
      \<open>handle_client_returns\<close> shows that this value never arises.
    Bytes come from a \<open>byte_source\<close> (locale in \<open>WsFrame\<close>): \<open>flat\<close> is a list of bytes, \<open>tcp\<close> a socket that
      cuts the stream anywhere; reading from the second refines reading from the first.
    The file system \<open>FileSys.fsys\<close> is passed through every operation that reads or writes files; an
      operation is an \<open>'a io\<close>, its error the exception Python would raise.
    The interpreter, the command line and the REST server act on \<open>PyShell.sys\<close>, an extension of
      \<open>Cli.console\<close>.  The locale \<open>action_relation\<close> (\<open>Actions\<close>) carries a relation between states through
      every action; \<open>ShellProps\<close> interprets it twice, \<open>sm\<close> for what a console command leaves alone and
      \<open>fr\<close> for what every line other than a \<open>cd\<close> leaves alone.  \<open>RestProps\<close> states what an executor of lines must keep
      as the locale \<open>line_executor\<close> and interprets it on the three modes of the interpreter (\<open>mixed\<close>,
      \<open>forced\<close>, \<open>command\<close>).
    \<open>WsListen.hub\<close> and \<open>RealPty.rpty\<close> are states of threads that interleave, with \<open>inductive\<close> steps.

  WHAT THE LEMMAS SHOW.
    Sessions: the manager is well formed after any operations, and the screen is, since its last
      reset, the end of the active session's output, except after closing the only tab; the
      scrollback is the end of all output; terminals are neither leaked nor mixed up; until the guest
      is installed the setup prompt admits only \<open>linux-setup\<close>; an
      edited line reaches its reader whole; the filter of the private control sequence gives the same
      result however the output is cut, and implements a one-pass matcher.
    Network: frames written are frames read, a client without the token gets no
      data and is not registered, a broadcast reaches every client that can be reached and drops the
      others, no operation deadlocks, stopping ends every accept loop in a bounded number of steps.
    Secrets: decryption undoes encryption, accepts only envelopes with the right tag, and a secret
      on disk stays the secret.
    Guest: only the pinned root file system is extracted, within its size limit and inside its
      target; links of the guest are followed inside the guest; the gates always report.
    Packages: a wheel is installed only with the recorded digest, its members stay inside the staging
      directory, an install that reports failure leaves the database as it was, uninstalling touches
      only files below the packages directory, the database is replaced atomically and reads back as written.
    Interpreter and REST server: no request without the token runs anything; the working directory
      only moves below the home directory; answers are coherent (status, exit code, streams) on every branch, errors
      included; the words of a guest command arrive as written; after any requests the session is at rest.
    Start, tools and build: the runtime directories are the owner's alone; the page names the port
      the WebSocket server listens on, on loopback; what the mock sends passes the check's gates; the
      libraries that are packaged find each other on the device; two checks of the terminal probe are
      satisfied by the echo of their own input.

  CONVENTIONS AND BOUNDS.  Text is a list of code points (\<open>ustr\<close>) where the source handles Unicode at
  the terminal, and otherwise a list of characters that stand for its UTF-8 bytes; case and digit tests
  on the latter are the ASCII ones, and the \<open>\\w\<close> of a regular expression is the ASCII class.  Python's
  integers are \<open>int\<close> or \<open>nat\<close>; bytes are 8-bit words and the hash functions use 32- and 64-bit words.
  \<open>os.environ\<close> is a field of the component that reads it, and the components do not share it.  A kernel
  path walk follows at most \<open>link_limit\<close> = 40 links, as Linux does, then fails with an \<open>OSError\<close>;
  \<open>guest_loop\<close> makes the sixteen rounds of its source.  The JSON parser takes \<open>2 * length s + 2\<close> units of
  fuel for a text \<open>s\<close>; a nested call takes one more unit and consumes a character, and the round trip
  lemmas show that printed text is read whole.  \<open>copytree\<close>, \<open>merge_tree\<close> and the install of
  dependencies take a depth, the recursion limit of Python: at 0 they raise \<open>RuntimeError\<close>, as the
  program does.  Every other loop is a total function with a proof of termination, the network's and
  the child's part of it being a finite list of what arrives.

  PARAMETERS.  What is not Python source of this repository is an argument: the answers of the
  network, of child processes and of \<open>fork\<close>, \<open>bind\<close> and \<open>accept\<close>; CPython when it compiles and runs
  the user's source; the Java bridge; the zip and compressed tar formats (their members are given); the
  package \<open>packaging\<close>; SHA-1 of the handshake; random bytes, identifiers and the clock; the compilers and
  \<open>llvm-readelf\<close> of the build script; the terminal and shell that the probe talks to.  Flask
  and waitress are reduced to the request they hand over and the reply they send.  Where a property
  relies on documented behaviour of a parameter, that is a hypothesis of it, and its witness supplies a
  concrete parameter.

  NOT MODELLED.  In \<open>zpip.py\<close> the progress bar (floating-point rates and widths) and the definitions that
  its last lines rebind to \<open>runtime_info\<close>, which never run.  In \<open>paths.py\<close> the texts of the example
  scripts.  A session's \<open>crash.record\<close> is an event of its log without the traceback, because a session has
  no file system in its model.  In \<open>ws_server.py\<close> and the mock the socket options, and in the mock its
  argument parsing and its accept loop.  \<open>SystemExit\<close> and
  \<open>CalledProcessError\<close> of the build script are the constructor \<open>RuntimeError\<close> with their text, and the
  sizes it prints are left out.  Locks other than \<open>clients_lock\<close> are atomic steps.  The Kotlin and Java
  application, its resources, the Gradle and CI files and the unit tests hold no Python of the runtime.
\<close>

end
